(* ===== verification/C_Prelude.thy ===== *)
theory C_Prelude
  imports Main "HOL-Library.Word"
begin

text \<open>
  What every component of the library shares: the faults a C execution can end in and the
  sequencing of fallible computations, machine integers with their little-endian byte layout,
  heap blocks with bounds and initialisation, and the C string routines the sources call.

  The layout is the one of the x86-64 System V ABI the program is built for: \<open>int\<close> and
  \<open>float\<close> have 4 bytes, \<open>size_t\<close> has 8, integers are stored least significant byte first.
\<close>

named_theorems c_simps \<open>equations that run a model on a concrete shape of input\<close>

section \<open>Faults and sequencing\<close>

text \<open>
  A computation of the model either returns a value or ends in a fault: an access the C
  standard leaves undefined, a signed overflow, or a call that never comes back
  (it blocks for ever or spins).
\<close>

datatype fault = Null_deref | Out_of_bounds | Uninit | Use_after_free | Int_overflow | No_return

type_synonym 'a c_result = "fault + 'a"

definition c_bind :: "'a c_result \<Rightarrow> ('a \<Rightarrow> 'b c_result) \<Rightarrow> 'b c_result" where
  "c_bind m f = (case m of Inl e \<Rightarrow> Inl e | Inr x \<Rightarrow> f x)"

lemma c_bind_Inr [simp]: "c_bind (Inr x) f = f x"
  by (simp add: c_bind_def)

lemma c_bind_Inl [simp]: "c_bind (Inl e) f = Inl e"
  by (simp add: c_bind_def)

lemma c_bind_eq_Inr_iff: "c_bind m f = Inr y \<longleftrightarrow> (\<exists>x. m = Inr x \<and> f x = Inr y)"
  by (cases m) auto

lemma c_bind_assoc: "c_bind (c_bind m f) g = c_bind m (\<lambda>x. c_bind (f x) g)"
  by (cases m) auto

lemma c_bind_cong [fundef_cong]:
  "m = m' \<Longrightarrow> (\<And>x. m' = Inr x \<Longrightarrow> f x = g x) \<Longrightarrow> c_bind m f = c_bind m' g"
  by (cases m') auto

lemma c_bind_split:
  "P (c_bind m f) \<longleftrightarrow> (\<forall>e. m = Inl e \<longrightarrow> P (Inl e)) \<and> (\<forall>x. m = Inr x \<longrightarrow> P (f x))"
  by (cases m) auto

section \<open>Machine integers\<close>

type_synonym byte = "8 word"
type_synonym c_int = "32 word"      \<comment> \<open>\<open>int\<close>; read with \<open>sint\<close>\<close>
type_synonym size_t = "64 word"
type_synonym f32 = "32 word"        \<comment> \<open>the bit pattern of a \<open>float\<close>\<close>
type_synonym in_port_t = "16 word"

text \<open>
  An \<open>int\<close> in a struct or in a message is a word of 32 bits. In a local variable it is the
  integer it stands for: a sum of two \<open>int\<close> values is undefined when it does not fit
  (\<open>int_add\<close>), a value of a wider or unsigned type is converted by wrapping (\<open>to_int\<close>), and
  an \<open>int\<close> used as a \<open>size_t\<close> is sign-extended (\<open>size_of_int\<close>).
\<close>

definition in_int :: "int \<Rightarrow> bool" where
  "in_int k \<longleftrightarrow> - (2 ^ 31) \<le> k \<and> k < 2 ^ 31"

definition to_int :: "int \<Rightarrow> int" where
  "to_int k = signed_take_bit 31 k"

definition int_add :: "int \<Rightarrow> int \<Rightarrow> int c_result" where
  "int_add a b = (if in_int (a + b) then Inr (a + b) else Inl Int_overflow)"

definition size_of_int :: "int \<Rightarrow> nat" where
  "size_of_int k = nat (k mod 2 ^ 64)"

lemma to_int_id: "in_int k \<Longrightarrow> to_int k = k"
  by (simp add: in_int_def to_int_def signed_take_bit_int_eq_self)

lemma in_int_to_int [simp]: "in_int (to_int k)"
  using signed_take_bit_int_greater_eq_minus_exp [of 31 k] signed_take_bit_int_less_exp [of 31 k]
  by (simp add: in_int_def to_int_def)

lemma in_int_sint [simp]: "in_int (sint (w :: c_int))"
  using sint_range_size [of w] by (simp add: in_int_def word_size)

lemma sint_word_of_int: "in_int k \<Longrightarrow> sint (word_of_int k :: c_int) = k"
  by (simp add: in_int_def signed_take_bit_int_eq_self sint_sbintrunc')

lemma sint_add: "in_int (sint a + sint b) \<Longrightarrow> sint (a + b :: c_int) = sint a + sint b"
  using sint_word_of_int [of "sint a + sint b"] by simp

lemma sint_of_nat: "in_int (int n) \<Longrightarrow> sint (word_of_nat n :: c_int) = int n"
  using sint_word_of_int [of "int n"] by simp

lemma in_int_nat: "n < 2 ^ 31 \<Longrightarrow> in_int (int n)"
  by (simp add: in_int_def)

lemma int_add_ok: "in_int (a + b) \<Longrightarrow> int_add a b = Inr (a + b)"
  by (simp add: int_add_def)

lemma size_of_int_nat [simp]: "n < 2 ^ 64 \<Longrightarrow> size_of_int (int n) = n"
  by (simp add: size_of_int_def)

lemma size_of_int_neg:
  assumes "in_int k" and "k < 0"
  shows "2 ^ 63 \<le> size_of_int k"
proof -
  have "k mod 2 ^ 64 = k + 2 ^ 64"
    using assms mod_pos_pos_trivial [of "k + 2 ^ 64" "2 ^ 64"] by (simp add: in_int_def)
  with assms have "int (2 ^ 63) \<le> int (size_of_int k)"
    by (simp add: in_int_def size_of_int_def)
  then show ?thesis by (simp only: of_nat_le_iff)
qed

lemma unat_of_nat64: "n < 2 ^ 64 \<Longrightarrow> unat (word_of_nat n :: size_t) = n"
  by (simp add: unat_of_nat take_bit_nat_eq_self)

lemma uint_of_nat64: "n < 2 ^ 64 \<Longrightarrow> uint (word_of_nat n :: size_t) = int n"
  using unat_of_nat64 [of n] by (simp flip: int_eq_iff add: uint_nat)

section \<open>Little-endian layout\<close>

fun le_nat :: "byte list \<Rightarrow> nat" where
  "le_nat [] = 0"
| "le_nat (b # bs) = unat b + 256 * le_nat bs"

fun nat_le :: "nat \<Rightarrow> nat \<Rightarrow> byte list" where
  "nat_le 0 k = []"
| "nat_le (Suc n) k = word_of_nat k # nat_le n (k div 256)"

lemma length_nat_le [simp]: "length (nat_le n k) = n"
  by (induction n k rule: nat_le.induct) auto

lemma le_nat_nat_le: "k < 256 ^ n \<Longrightarrow> le_nat (nat_le n k) = k"
proof (induction n k rule: nat_le.induct)
  case (1 k)
  then show ?case by simp
next
  case (2 n k)
  from 2(2) have "k div 256 < 256 ^ n" by (simp add: less_mult_imp_div_less mult.commute)
  with 2(1) show ?case by (simp add: unat_of_nat take_bit_eq_mod)
qed

definition enc32 :: "32 word \<Rightarrow> byte list" where
  "enc32 w = nat_le 4 (unat w)"

definition dec32 :: "byte list \<Rightarrow> 32 word" where
  "dec32 bs = word_of_nat (le_nat bs)"

definition enc64 :: "size_t \<Rightarrow> byte list" where
  "enc64 w = nat_le 8 (unat w)"

definition dec64 :: "byte list \<Rightarrow> size_t" where
  "dec64 bs = word_of_nat (le_nat bs)"

lemma length_enc32 [simp]: "length (enc32 w) = 4"
  by (simp add: enc32_def)

lemma length_enc64 [simp]: "length (enc64 w) = 8"
  by (simp add: enc64_def)

lemma dec32_enc32 [simp]: "dec32 (enc32 w) = w"
  using unsigned_less [of w, where ?'a = nat] by (simp add: dec32_def enc32_def le_nat_nat_le)

lemma dec64_enc64 [simp]: "dec64 (enc64 w) = w"
  using unsigned_less [of w, where ?'a = nat] by (simp add: dec64_def enc64_def le_nat_nat_le)


section \<open>Pointers and heap blocks\<close>

text \<open>
  A pointer variable is uninitialised, null, dangling (its block was freed) or it addresses the
  start of a block. A block is the list of its bytes, \<open>None\<close> where nothing was stored yet.
\<close>

type_synonym cell = "byte option"

datatype ptr = Uninit_ptr | Null_ptr | Freed | Block "cell list"

definition block_of :: "ptr \<Rightarrow> cell list c_result" where
  "block_of p = (case p of
     Uninit_ptr \<Rightarrow> Inl Uninit
   | Null_ptr \<Rightarrow> Inl Null_deref
   | Freed \<Rightarrow> Inl Use_after_free
   | Block cs \<Rightarrow> Inr cs)"

lemma block_of_simps [simp]:
  "block_of Uninit_ptr = Inl Uninit" "block_of Null_ptr = Inl Null_deref"
  "block_of Freed = Inl Use_after_free" "block_of (Block cs) = Inr cs"
  by (simp_all add: block_of_def)

text \<open>No object is larger than \<open>PTRDIFF_MAX\<close>; smaller requests are taken to succeed.\<close>

definition malloc :: "nat \<Rightarrow> ptr" where
  "malloc n = (if n < 2 ^ 63 then Block (replicate n None) else Null_ptr)"

text \<open>Reading and storing \<open>n\<close> bytes at an \<open>int\<close> offset of a block.\<close>

definition mem_read :: "ptr \<Rightarrow> int \<Rightarrow> nat \<Rightarrow> byte list c_result" where
  "mem_read p off n = c_bind (block_of p) (\<lambda>cs.
     if 0 \<le> off \<and> nat off + n \<le> length cs then
       (case those (take n (drop (nat off) cs)) of None \<Rightarrow> Inl Uninit | Some bs \<Rightarrow> Inr bs)
     else Inl Out_of_bounds)"

definition mem_write :: "ptr \<Rightarrow> int \<Rightarrow> byte list \<Rightarrow> ptr c_result" where
  "mem_write p off bs = c_bind (block_of p) (\<lambda>cs.
     if 0 \<le> off \<and> nat off + length bs \<le> length cs then
       Inr (Block (take (nat off) cs @ map Some bs @ drop (nat off + length bs) cs))
     else Inl Out_of_bounds)"

text \<open>A block all of whose bytes were stored.\<close>

definition full_block :: "byte list \<Rightarrow> ptr" where
  "full_block bs = Block (map Some bs)"

lemma those_map_Some [simp]: "those (map Some xs) = Some xs"
  by (induction xs) auto

lemma block_of_full [simp]: "block_of (full_block bs) = Inr (map Some bs)"
  by (simp add: full_block_def)

lemma full_block_not_Null [simp]: "full_block bs \<noteq> Null_ptr" "full_block bs \<noteq> Freed"
    "full_block bs \<noteq> Uninit_ptr"
  by (simp_all add: full_block_def)

lemma mem_read_full:
  "mem_read (full_block bs) off n =
     (if 0 \<le> off \<and> nat off + n \<le> length bs then Inr (take n (drop (nat off) bs))
      else Inl Out_of_bounds)"
  by (simp add: mem_read_def take_map drop_map)

text \<open>Reading the next field of a block whose bytes up to the offset are known.\<close>

lemma mem_read_at [c_simps]:
  "off = int (length pre) \<Longrightarrow> n = length xs \<Longrightarrow>
     mem_read (full_block (pre @ xs @ post)) off n = Inr xs"
  by (simp add: mem_read_full)

lemma mem_read_past:
  "length bs < nat off + n \<Longrightarrow> mem_read (full_block bs) off n = Inl Out_of_bounds"
  by (simp add: mem_read_full)

text \<open>Storing the next field into a block that is filled from the left.\<close>

definition filled :: "nat \<Rightarrow> byte list \<Rightarrow> ptr" where
  "filled n bs = Block (map Some bs @ replicate (n - length bs) None)"

lemma malloc_filled: "n < 2 ^ 63 \<Longrightarrow> malloc n = filled n []"
  by (simp add: malloc_def filled_def)

lemma filled_full [simp]: "filled (length bs) bs = full_block bs"
  by (simp add: filled_def full_block_def)

lemma filled_eq_full: "n = length bs \<Longrightarrow> filled n bs = full_block bs"
  by simp

lemma mem_write_filled [c_simps]:
  "off = int (length pre) \<Longrightarrow> length pre + length bs \<le> n \<Longrightarrow>
     mem_write (filled n pre) off bs = Inr (filled n (pre @ bs))"
  by (simp add: mem_write_def filled_def)

text \<open>\<open>free\<close> of a pointer: fine on null and on a block, undefined otherwise.\<close>

definition c_free :: "ptr \<Rightarrow> ptr c_result" where
  "c_free q = (case q of
     Uninit_ptr \<Rightarrow> Inl Uninit | Null_ptr \<Rightarrow> Inr Null_ptr
   | Freed \<Rightarrow> Inl Use_after_free | Block cs \<Rightarrow> Inr Freed)"

lemma c_free_simps [simp]: "c_free (full_block bs) = Inr Freed" "c_free Null_ptr = Inr Null_ptr"
  by (simp_all add: c_free_def full_block_def)

section \<open>C strings\<close>

text \<open>
  \<open>strlen\<close> and \<open>strncpy\<close> on the cells their argument points to. Both run out of the block
  when it has no terminator, and both read every cell up to it.
\<close>

fun strlen_cells :: "cell list \<Rightarrow> nat c_result" where
  "strlen_cells [] = Inl Out_of_bounds"
| "strlen_cells (None # cs) = Inl Uninit"
| "strlen_cells (Some b # cs) =
     (if b = 0 then Inr 0 else c_bind (strlen_cells cs) (\<lambda>n. Inr (Suc n)))"

definition strlen :: "ptr \<Rightarrow> nat c_result" where
  "strlen p = c_bind (block_of p) strlen_cells"

text \<open>The \<open>n\<close> bytes \<open>strncpy\<close> stores: the string, padded with zeros, or its first \<open>n\<close> bytes.\<close>

fun strncpy_cells :: "nat \<Rightarrow> cell list \<Rightarrow> byte list c_result" where
  "strncpy_cells 0 cs = Inr []"
| "strncpy_cells (Suc n) [] = Inl Out_of_bounds"
| "strncpy_cells (Suc n) (None # cs) = Inl Uninit"
| "strncpy_cells (Suc n) (Some b # cs) =
     (if b = 0 then Inr (replicate (Suc n) 0)
      else c_bind (strncpy_cells n cs) (\<lambda>r. Inr (b # r)))"

definition strncpy :: "ptr \<Rightarrow> ptr \<Rightarrow> nat \<Rightarrow> ptr c_result" where
  "strncpy dest src n =
     c_bind (block_of src) (\<lambda>cs. c_bind (strncpy_cells n cs) (\<lambda>bs. mem_write dest 0 bs))"

text \<open>The characters of a C string, without the terminator.\<close>

definition c_chars :: "ptr \<Rightarrow> byte list c_result" where
  "c_chars p = c_bind (strlen p) (\<lambda>n. mem_read p 0 n)"

text \<open>A block that holds exactly one C string and its terminator.\<close>

definition c_string :: "byte list \<Rightarrow> bool" where
  "c_string bs \<longleftrightarrow> bs \<noteq> [] \<and> last bs = 0 \<and> 0 \<notin> set (butlast bs)"

definition bytes_of :: "string \<Rightarrow> byte list" where
  "bytes_of s = map of_char s"

definition chars_of :: "byte list \<Rightarrow> string" where
  "chars_of bs = map (\<lambda>b. char_of (unat b)) bs"

lemma unat_of_char: "unat (of_char c :: byte) = of_char c"
proof -
  have "(of_char c :: byte) = word_of_nat (of_char c)"
    by (rule of_nat_of_char [symmetric])
  moreover have "unat (word_of_nat (of_char c) :: byte) = of_char c"
    by (simp add: unat_of_nat take_bit_eq_mod)
  ultimately show ?thesis by simp
qed

text \<open>The strings C can store: those without a NUL character.\<close>

definition c_text :: "string \<Rightarrow> bool" where
  "c_text s \<longleftrightarrow> CHR 0x00 \<notin> set s"

lemma zero_notin_bytes_of: "c_text s \<Longrightarrow> 0 \<notin> set (bytes_of s)"
proof
  assume "c_text s" and "0 \<in> set (bytes_of s)"
  then obtain c where "c \<in> set s" "of_char c = (0 :: byte)" by (auto simp: bytes_of_def)
  moreover from this(2) have "of_char c = (0 :: nat)"
    using unat_of_char [of c] by simp
  then have "char_of (of_char c :: nat) = char_of (0 :: nat)" by simp
  then have "c = char_of (0 :: nat)" by (simp only: char_of_char)
  then have "c = CHR 0x00" by (simp add: char_of_def)
  ultimately show False using \<open>c_text s\<close> by (simp add: c_text_def)
qed

lemma c_text_append [simp]: "c_text (xs @ ys) \<longleftrightarrow> c_text xs \<and> c_text ys"
  by (auto simp: c_text_def)

lemma c_text_take [simp]: "c_text s \<Longrightarrow> c_text (take n s)"
  by (auto simp: c_text_def dest: in_set_takeD)

lemma chars_of_bytes_of [simp]: "chars_of (bytes_of s) = s"
  by (simp add: chars_of_def bytes_of_def comp_def unat_of_char)

lemma c_string_decomp: "c_string bs \<Longrightarrow> \<exists>cs. bs = cs @ [0] \<and> 0 \<notin> set cs"
  unfolding c_string_def by (metis append_butlast_last_id)

lemma c_string_snoc [simp]: "c_string (cs @ [0]) \<longleftrightarrow> 0 \<notin> set cs"
  by (simp add: c_string_def)

lemma c_string_length: "c_string bs \<Longrightarrow> 0 < length bs"
  by (simp add: c_string_def)

lemma strlen_cells_terminated:
  "0 \<notin> set cs \<Longrightarrow> strlen_cells (map Some cs @ Some 0 # rest) = Inr (length cs)"
  by (induction cs) auto

lemma strncpy_cells_terminated:
  "0 \<notin> set cs \<Longrightarrow> length cs < n \<Longrightarrow>
     strncpy_cells n (map Some cs @ Some 0 # rest) = Inr (cs @ replicate (n - length cs) 0)"
proof (induction cs arbitrary: n)
  case Nil
  then show ?case by (cases n) auto
next
  case (Cons c cs)
  then show ?case by (cases n) auto
qed

lemma strlen_c_string: "c_string bs \<Longrightarrow> strlen (full_block bs) = Inr (length bs - 1)"
  using c_string_decomp [of bs] strlen_cells_terminated [of _ "[]"]
  by (fastforce simp: strlen_def)

lemma c_chars_c_string: "c_string bs \<Longrightarrow> c_chars (full_block bs) = Inr (butlast bs)"
  by (simp add: c_chars_def strlen_c_string mem_read_full butlast_conv_take)

lemma c_chars_copy: "c_text s \<Longrightarrow> c_chars (full_block (bytes_of s @ [0])) = Inr (bytes_of s)"
  using zero_notin_bytes_of [of s] c_chars_c_string [of "bytes_of s @ [0]"] by simp

lemma strncpy_block:
  assumes "c_string bs" and "length bs < 2 ^ 63"
  shows "strncpy (malloc (length bs)) (Block (map Some bs @ rest)) (length bs) =
    Inr (full_block bs)"
proof -
  from assms(1) obtain cs where cs: "bs = cs @ [0]" "0 \<notin> set cs"
    using c_string_decomp by blast
  have "strncpy_cells (length bs) (map Some bs @ rest) = Inr bs"
    using strncpy_cells_terminated [of cs "length bs" rest] cs by simp
  moreover have "mem_write (malloc (length bs)) 0 bs = Inr (full_block bs)"
    using assms(2) mem_write_filled [of 0 "[]" bs "length bs"] by (simp add: malloc_filled)
  ultimately show ?thesis by (simp add: strncpy_def)
qed

lemma strncpy_c_string:
  "c_string bs \<Longrightarrow> length bs < 2 ^ 63 \<Longrightarrow>
     strncpy (malloc (length bs)) (full_block bs) (length bs) = Inr (full_block bs)"
  using strncpy_block [of bs "[]"] by (simp add: full_block_def)

lemma strlen_cells_unterminated: "0 \<notin> set bs \<Longrightarrow> strlen_cells (map Some bs) = Inl Out_of_bounds"
  by (induction bs) auto

lemma strlen_unterminated: "0 \<notin> set bs \<Longrightarrow> strlen (full_block bs) = Inl Out_of_bounds"
  by (simp add: strlen_def strlen_cells_unterminated)

text \<open>\<open>sprintf\<close> of a text into a fresh buffer of \<open>n\<close> bytes, and \<open>strlen(p) + 1\<close> bytes of \<open>p\<close>.\<close>

definition sprintf :: "nat \<Rightarrow> string \<Rightarrow> ptr c_result" where
  "sprintf n s = mem_write (malloc n) 0 (bytes_of s @ [0])"

definition c_bytes :: "ptr \<Rightarrow> byte list c_result" where
  "c_bytes p = c_bind (strlen p) (\<lambda>n. mem_read p 0 (n + 1))"

lemma sprintf_fits:
  assumes "n = length s + 1" and "n < 2 ^ 63"
  shows "sprintf n s = Inr (full_block (bytes_of s @ [0]))"
  using assms mem_write_filled [of 0 "[]" "bytes_of s @ [0]" n]
  by (simp add: sprintf_def malloc_filled filled_eq_full bytes_of_def)

lemma sprintf_overflow: "n \<le> length s \<Longrightarrow> n < 2 ^ 63 \<Longrightarrow> sprintf n s = Inl Out_of_bounds"
  by (simp add: sprintf_def malloc_def mem_write_def bytes_of_def)

lemma c_bytes_copy: "c_text s \<Longrightarrow> c_bytes (full_block (bytes_of s @ [0])) = Inr (bytes_of s @ [0])"
  using zero_notin_bytes_of [of s] strlen_c_string [of "bytes_of s @ [0]"]
  by (simp add: c_bytes_def mem_read_full)

text \<open>A block that holds exactly the string \<open>s\<close>.\<close>

definition c_str :: "string \<Rightarrow> ptr" where
  "c_str s = full_block (bytes_of s @ [0])"

lemma length_bytes_of [simp]: "length (bytes_of s) = length s"
  by (simp add: bytes_of_def)

lemma bytes_of_append [simp]: "bytes_of (s @ t) = bytes_of s @ bytes_of t"
  by (simp add: bytes_of_def)

lemma c_chars_str [simp]: "c_text s \<Longrightarrow> c_chars (c_str s) = Inr (bytes_of s)"
  by (simp add: c_str_def c_chars_copy)

lemma c_bytes_str [simp]: "c_text s \<Longrightarrow> c_bytes (c_str s) = Inr (bytes_of s @ [0])"
  by (simp add: c_str_def c_bytes_copy)

lemma c_str_not_Null [simp]: "c_str s \<noteq> Null_ptr" "Null_ptr \<noteq> c_str s"
  by (simp_all add: c_str_def full_block_def)

lemma block_of_c_str [simp]: "block_of (c_str s) = Inr (map Some (bytes_of s @ [0]))"
  by (simp add: c_str_def)

text \<open>\<open>realloc\<close> keeps the front of the block.\<close>

definition realloc :: "ptr \<Rightarrow> nat \<Rightarrow> ptr c_result" where
  "realloc q n = (case q of
     Null_ptr \<Rightarrow> Inr (malloc n)
   | Block cs \<Rightarrow> Inr (Block (take n cs @ replicate (n - length cs) None))
   | Freed \<Rightarrow> Inl Use_after_free
   | Uninit_ptr \<Rightarrow> Inl Uninit)"

lemma realloc_filled:
  "n \<le> m \<Longrightarrow> length bs \<le> n \<Longrightarrow> realloc (filled n bs) m = Inr (filled m bs)"
  by (simp add: realloc_def filled_def flip: replicate_add)

text \<open>
  \<open>strcmp(p, t) == 0\<close> for a literal \<open>t\<close>: the cells are read up to the first difference or the
  end of both.
\<close>

fun strcmp_cells :: "cell list \<Rightarrow> byte list \<Rightarrow> bool c_result" where
  "strcmp_cells [] t = Inl Out_of_bounds"
| "strcmp_cells (None # cs) t = Inl Uninit"
| "strcmp_cells (Some b # cs) [] = Inr (b = 0)"
| "strcmp_cells (Some b # cs) (x # t) = (if b = x then strcmp_cells cs t else Inr False)"

definition strcmp_eq :: "ptr \<Rightarrow> string \<Rightarrow> bool c_result" where
  "strcmp_eq p t = c_bind (block_of p) (\<lambda>cs. strcmp_cells cs (bytes_of t))"

lemma strcmp_cells_text:
  "0 \<notin> set bs \<Longrightarrow> 0 \<notin> set t \<Longrightarrow> strcmp_cells (map Some bs @ Some 0 # rest) t = Inr (bs = t)"
proof (induction bs arbitrary: t)
  case Nil
  then show ?case by (cases t) auto
next
  case (Cons b bs)
  then show ?case by (cases t) auto
qed

lemma strcmp_cells_unterminated: "0 \<notin> set bs \<Longrightarrow> strcmp_cells (map Some bs) (bs @ t) = Inl Out_of_bounds"
  by (induction bs) auto

lemma of_char_byte_inject: "(of_char c :: byte) = of_char d \<longleftrightarrow> c = d"
proof
  assume "(of_char c :: byte) = of_char d"
  then have "char_of (unat (of_char c :: byte)) = (char_of (unat (of_char d :: byte)) :: char)" by simp
  then show "c = d" by (simp only: unat_of_char char_of_char)
qed simp

lemma bytes_of_inject [simp]: "bytes_of s = bytes_of t \<longleftrightarrow> s = t"
  using inj_map_eq_map [of "of_char :: char \<Rightarrow> byte" s t]
  by (simp add: bytes_of_def inj_def of_char_byte_inject)

lemma strcmp_eq_text:
  "c_text s \<Longrightarrow> c_text t \<Longrightarrow> strcmp_eq (Block (map Some (bytes_of s) @ Some 0 # rest)) t = Inr (s = t)"
  by (simp add: strcmp_eq_def strcmp_cells_text zero_notin_bytes_of)

lemma strcmp_eq_str: "c_text s \<Longrightarrow> c_text t \<Longrightarrow> strcmp_eq (c_str s) t = Inr (s = t)"
  using strcmp_eq_text [of s t "[]"] by (simp add: c_str_def full_block_def)

end
