(* ===== verification/Process.thy ===== *)
theory Process
  imports C_Prelude
begin

text \<open>
  The part of a process the code acts on through system calls: its file descriptors, its
  terminal and its message queue. What the other side of a descriptor does is not decided by
  the code, so it is data of the state: for each descriptor a list of what the coming
  \<open>read\<close> and \<open>write\<close> calls meet. Any list is allowed, so a fact about all states is a fact
  about every behaviour of the peer and of the kernel.
\<close>

type_synonym fd = int

text \<open>
  What a \<open>read\<close> can meet: bytes that arrived together, one failing call, the end of the
  stream (every later call returns 0) or a closed descriptor (every later call fails). After
  the last event the stream stays silent and \<open>read\<close> blocks.
\<close>

datatype rd_event = Rd_data "byte list" | Rd_fail | Rd_eof | Rd_bad

text \<open>
  What a \<open>write\<close> can meet: at most so many bytes accepted, one failing call, a closed
  descriptor. After the last event everything is accepted.
\<close>

datatype wr_event = Wr_take nat | Wr_fail | Wr_bad

record proc =
  rd :: "fd \<Rightarrow> rd_event list"
  wr :: "fd \<Rightarrow> wr_event list"
  sent :: "fd \<Rightarrow> byte list"               \<comment> \<open>everything written to a descriptor so far\<close>
  stdin :: string                          \<comment> \<open>what is still to be typed\<close>
  stdout :: string                         \<comment> \<open>what was printed so far\<close>
  stderr :: string                         \<comment> \<open>what was printed to the error stream\<close>
  files :: "string list"                   \<comment> \<open>the paths that exist in the file system\<close>
  opens :: "fd list"                       \<comment> \<open>what the coming \<open>open\<close> and \<open>accept\<close> calls return\<close>
  answers :: "int list"                    \<comment> \<open>what the other coming system calls return\<close>
  msqid :: int                             \<comment> \<open>the process's message queue, -1 before it is found\<close>
  mq_get :: "int list"                     \<comment> \<open>what the coming \<open>msgget\<close> calls return\<close>
  mq_full :: "bool list"                   \<comment> \<open>whether the coming \<open>msgsnd\<close> calls fail\<close>
  mq_sent :: "(c_int \<times> cell list) list"    \<comment> \<open>messages put into the queue: level and text\<close>

text \<open>A process that has just started: nothing typed, nothing written, no message queue yet.\<close>

definition fresh_proc :: "(fd \<Rightarrow> rd_event list) \<Rightarrow> proc" where
  "fresh_proc streams = \<lparr>rd = streams, wr = (\<lambda>_. []), sent = (\<lambda>_. []), stdin = [], stdout = [],
     stderr = [], files = [], opens = [], answers = [], msqid = -1, mq_get = [], mq_full = [], mq_sent = []\<rparr>"

lemma fresh_proc_simps [simp]:
  "rd (fresh_proc streams) = streams" "wr (fresh_proc streams) fd = []"
  "sent (fresh_proc streams) fd = []" "stdin (fresh_proc streams) = []"
  "stdout (fresh_proc streams) = []" "opens (fresh_proc streams) = []"
  "files (fresh_proc streams) = []" "answers (fresh_proc streams) = []" "msqid (fresh_proc streams) = -1"
  "mq_get (fresh_proc streams) = []" "mq_full (fresh_proc streams) = []"
  by (simp_all add: fresh_proc_def)

section \<open>The system calls\<close>

text \<open>
  \<open>read(fd, buf, n)\<close>: its result, the bytes stored, the events left; \<open>None\<close> when it blocks.
  A request beyond \<open>SSIZE_MAX\<close> fails before anything is transferred.
\<close>

fun sys_read :: "nat \<Rightarrow> rd_event list \<Rightarrow> (int \<times> byte list \<times> rd_event list) option" where
  "sys_read n es =
     (if 2 ^ 63 \<le> n then Some (-1, [], es)
      else case es of
        [] \<Rightarrow> None
      | Rd_data bs # es' \<Rightarrow>
          (if length bs \<le> n then Some (int (length bs), bs, es')
           else Some (int n, take n bs, Rd_data (drop n bs) # es'))
      | Rd_fail # es' \<Rightarrow> Some (-1, [], es')
      | Rd_eof # es' \<Rightarrow> Some (0, [], es)
      | Rd_bad # es' \<Rightarrow> Some (-1, [], es))"

text \<open>\<open>write(fd, src, n)\<close>: its result, the bytes accepted, the events left.\<close>

fun sys_write :: "byte list \<Rightarrow> wr_event list \<Rightarrow> int \<times> byte list \<times> wr_event list" where
  "sys_write src [] = (int (length src), src, [])"
| "sys_write src (Wr_take k # es) =
     (if k < length src then (int k, take k src, es) else (int (length src), src, es))"
| "sys_write src (Wr_fail # es) = (-1, [], es)"
| "sys_write src (Wr_bad # es) = (-1, [], Wr_bad # es)"

definition sys_close :: "fd \<Rightarrow> proc \<Rightarrow> int \<times> proc" where
  "sys_close fd p =
     (if rd p fd = [Rd_bad] then -1 else 0,
      p\<lparr>rd := (rd p)(fd := [Rd_bad]), wr := (wr p)(fd := [Wr_bad])\<rparr>)"

text \<open>\<open>getchar\<close>: \<open>None\<close> is \<open>EOF\<close>.\<close>

definition getchar :: "proc \<Rightarrow> char option \<times> proc" where
  "getchar p = (case stdin p of [] \<Rightarrow> (None, p) | c # cs \<Rightarrow> (Some c, p\<lparr>stdin := cs\<rparr>))"

definition eprint :: "string \<Rightarrow> proc \<Rightarrow> proc" where
  "eprint s p = p\<lparr>stderr := stderr p @ s\<rparr>"

text \<open>\<open>remove(path)\<close>, and the descriptor the next \<open>open\<close> gives, -1 when it fails.\<close>

definition remove_file :: "string \<Rightarrow> proc \<Rightarrow> proc" where
  "remove_file path p = p\<lparr>files := filter (\<lambda>f. f \<noteq> path) (files p)\<rparr>"

definition next_open :: "proc \<Rightarrow> fd \<times> proc" where
  "next_open p = (case opens p of [] \<Rightarrow> (-1, p) | f # fs \<Rightarrow> (f, p\<lparr>opens := fs\<rparr>))"

text \<open>The result of a system call that has no state of its own here; -1 when none is left.\<close>

definition next_answer :: "proc \<Rightarrow> int \<times> proc" where
  "next_answer p = (case answers p of [] \<Rightarrow> (-1, p) | a # as \<Rightarrow> (a, p\<lparr>answers := as\<rparr>))"

definition print :: "string \<Rightarrow> proc \<Rightarrow> proc" where
  "print s p = p\<lparr>stdout := stdout p @ s\<rparr>"

section \<open>The bytes a reader will see\<close>

text \<open>
  \<open>avail es\<close> are the bytes that arrive before anything else happens on the stream, and
  \<open>skip n es\<close> are the events that remain once \<open>n\<close> of them were consumed.
\<close>

fun avail :: "rd_event list \<Rightarrow> byte list" where
  "avail (Rd_data bs # es) = bs @ avail es"
| "avail es = []"

fun skip :: "nat \<Rightarrow> rd_event list \<Rightarrow> rd_event list" where
  "skip n (Rd_data bs # es) =
     (if n = 0 then Rd_data bs # es
      else if length bs \<le> n then skip (n - length bs) es
      else Rd_data (drop n bs) # es)"
| "skip n es = es"

lemma skip_0 [simp]: "skip 0 es = es"
  by (cases "(0::nat, es)" rule: skip.cases) auto

lemma avail_skip [simp]: "avail (skip n es) = drop n (avail es)"
  by (induction n es rule: skip.induct) auto

lemma skip_skip: "m + n \<le> length (avail es) \<Longrightarrow> skip n (skip m es) = skip (m + n) es"
proof (induction m es rule: skip.induct)
  case (1 m bs es)
  show ?case
  proof (cases "m = 0 \<or> length bs \<le> m")
    case True
    with 1 show ?thesis by (cases "m = 0"; cases "n = 0") auto
  next
    case False
    then show ?thesis by (auto simp: add.commute)
  qed
qed auto

definition rd_avail :: "proc \<Rightarrow> fd \<Rightarrow> byte list" where
  "rd_avail p fd = avail (rd p fd)"

definition consume :: "fd \<Rightarrow> nat \<Rightarrow> proc \<Rightarrow> proc" where
  "consume fd n p = p\<lparr>rd := (rd p)(fd := skip n (rd p fd))\<rparr>"

definition emit :: "fd \<Rightarrow> byte list \<Rightarrow> proc \<Rightarrow> proc" where
  "emit fd bs p = p\<lparr>sent := (sent p)(fd := sent p fd @ bs)\<rparr>"

lemma consume_0 [simp]: "consume fd 0 p = p"
  by (simp add: consume_def)

lemma rd_avail_consume [simp]:
  "rd_avail (consume fd n p) = (rd_avail p)(fd := drop n (rd_avail p fd))"
  by (simp add: rd_avail_def consume_def fun_eq_iff)

lemma rd_avail_emit [simp]: "rd_avail (emit fd bs p) = rd_avail p"
  by (simp add: rd_avail_def emit_def fun_eq_iff)

lemma sent_emit [simp]:
  "sent (emit fd bs p) = (sent p)(fd := sent p fd @ bs)"
  by (simp add: emit_def)

lemma sent_consume [simp]: "sent (consume fd n p) = sent p"
  by (simp add: consume_def)

lemma wr_consume [simp]: "wr (consume fd n p) = wr p"
  by (simp add: consume_def)

lemma wr_emit [simp]: "wr (emit fd bs p) = wr p"
  by (simp add: emit_def)

lemma sent_sys_close [simp]: "sent (snd (sys_close fd p)) = sent p"
  by (simp add: sys_close_def)

lemma answers_consume [simp]: "answers (consume fd n p) = answers p"
  by (simp add: consume_def)

lemma emit_emit: "emit fd ys (emit fd xs p) = emit fd (xs @ ys) p"
  by (simp add: emit_def)

lemma emit_Nil [simp]: "emit fd [] p = p"
  by (simp add: emit_def)

lemma consume_consume:
  "m + n \<le> length (rd_avail p fd) \<Longrightarrow> consume fd n (consume fd m p) = consume fd (m + n) p"
  by (simp add: consume_def skip_skip rd_avail_def)

lemma consume_emit: "consume fd n (emit fd' bs p) = emit fd' bs (consume fd n p)"
  by (simp add: consume_def emit_def)

end
