(* ===== verification/Decimal.thy ===== *)
theory Decimal
  imports C_Prelude
begin

text \<open>
  The decimal conversions of the C library the sources use: what \<open>printf("%i")\<close> prints and
  what \<open>atoi\<close> and \<open>scanf("%d")\<close> read.
\<close>

definition digit :: "nat \<Rightarrow> char" where
  "digit d = char_of (48 + d)"

fun dec_nat :: "nat \<Rightarrow> string" where
  "dec_nat n = (if n < 10 then [digit n] else dec_nat (n div 10) @ [digit (n mod 10)])"

declare dec_nat.simps [simp del]

definition dec_int :: "int \<Rightarrow> string" where
  "dec_int k = (if k < 0 then ''-'' @ dec_nat (nat (- k)) else dec_nat (nat k))"

definition char_code :: "char \<Rightarrow> nat" where
  "char_code c = of_char c"

definition is_digit :: "char \<Rightarrow> bool" where
  "is_digit c \<longleftrightarrow> 48 \<le> char_code c \<and> char_code c \<le> 57"

definition is_space :: "char \<Rightarrow> bool" where
  "is_space c \<longleftrightarrow> char_code c = 32 \<or> (9 \<le> char_code c \<and> char_code c \<le> 13)"

definition digit_val :: "char \<Rightarrow> int" where
  "digit_val c = int (char_code c) - 48"

fun digits_val :: "int \<Rightarrow> string \<Rightarrow> int" where
  "digits_val acc [] = acc"
| "digits_val acc (c # cs) = digits_val (10 * acc + digit_val c) cs"

text \<open>
  \<open>strtol\<close> in base 10: the value, saturated at the ends of \<open>long\<close>, and what follows the number;
  \<open>None\<close> when there is no digit.
\<close>

definition saturate :: "int \<Rightarrow> int" where
  "saturate k = max (- (2 ^ 63)) (min (2 ^ 63 - 1) k)"

definition unsigned_part :: "string \<Rightarrow> (int \<times> string) option" where
  "unsigned_part s =
     (let ds = takeWhile is_digit s in
      if ds = [] then None else Some (digits_val 0 ds, dropWhile is_digit s))"

definition strtol :: "string \<Rightarrow> (int \<times> string) option" where
  "strtol s = (case dropWhile is_space s of
     [] \<Rightarrow> None
   | c # cs \<Rightarrow>
       if c = CHR ''-'' then map_option (\<lambda>(v, r). (saturate (- v), r)) (unsigned_part cs)
       else if c = CHR ''+'' then map_option (\<lambda>(v, r). (saturate v, r)) (unsigned_part cs)
       else map_option (\<lambda>(v, r). (saturate v, r)) (unsigned_part (c # cs)))"

text \<open>\<open>atoi\<close> is \<open>(int) strtol\<close>, 0 without a number.\<close>

definition atoi :: "string \<Rightarrow> c_int" where
  "atoi s = (case strtol s of None \<Rightarrow> 0 | Some (v, r) \<Rightarrow> word_of_int v)"

section \<open>Reading back what was printed\<close>

lemma char_code_digit: "d < 10 \<Longrightarrow> char_code (digit d) = 48 + d"
  by (simp add: char_code_def digit_def)

lemma is_digit_digit [simp]: "d < 10 \<Longrightarrow> is_digit (digit d)"
  by (simp add: is_digit_def char_code_digit)

lemma digit_val_digit [simp]: "d < 10 \<Longrightarrow> digit_val (digit d) = int d"
  by (simp add: digit_val_def char_code_digit)

lemma dec_nat_small: "n < 10 \<Longrightarrow> dec_nat n = [digit n]"
  by (subst dec_nat.simps) simp

lemma dec_nat_step: "\<not> n < 10 \<Longrightarrow> dec_nat n = dec_nat (n div 10) @ [digit (n mod 10)]"
  by (subst dec_nat.simps) simp

lemma dec_nat_not_Nil [simp]: "dec_nat n \<noteq> []"
  by (subst dec_nat.simps) simp

lemma dec_nat_digits: "\<forall>c \<in> set (dec_nat n). is_digit c"
proof (induction n rule: dec_nat.induct)
  case (1 n)
  then show ?case by (cases "n < 10") (auto simp: dec_nat_small dec_nat_step)
qed

lemma c_text_dec_nat [simp]: "c_text (dec_nat n)"
  using dec_nat_digits [of n] by (auto simp: c_text_def is_digit_def char_code_def)

lemma c_text_dec_int [simp]: "c_text (dec_int k)"
proof -
  have "c_text ''-''" by (simp add: c_text_def)
  then show ?thesis by (simp only: dec_int_def c_text_append c_text_dec_nat split: if_split) simp
qed

lemma digits_val_append: "digits_val acc (xs @ ys) = digits_val (digits_val acc xs) ys"
  by (induction xs arbitrary: acc) auto

lemma digits_val_dec_nat: "digits_val 0 (dec_nat n) = int n"
proof (induction n rule: dec_nat.induct)
  case (1 n)
  show ?case
  proof (cases "n < 10")
    case True
    then show ?thesis by (simp add: dec_nat_small)
  next
    case False
    with 1 have "digits_val 0 (dec_nat n) = 10 * int (n div 10) + int (n mod 10)"
      by (simp add: dec_nat_step digits_val_append)
    then show ?thesis by presburger
  qed
qed

lemma unsigned_part_dec_nat:
  assumes "rest = [] \<or> \<not> is_digit (hd rest)"
  shows "unsigned_part (dec_nat n @ rest) = Some (int n, rest)"
proof -
  have "takeWhile is_digit (dec_nat n @ rest) = dec_nat n"
    and "dropWhile is_digit (dec_nat n @ rest) = rest"
    using dec_nat_digits assms
    by (cases rest; simp add: takeWhile_append2 dropWhile_append2)+
  then show ?thesis by (simp add: unsigned_part_def digits_val_dec_nat)
qed

lemma digit_not_space: "is_digit c \<Longrightarrow> \<not> is_space c"
  by (simp add: is_digit_def is_space_def)

lemma digit_not_sign: "is_digit c \<Longrightarrow> c \<noteq> CHR ''-'' \<and> c \<noteq> CHR ''+''"
  by (auto simp: is_digit_def char_code_def)

lemma saturate_id: "- (2 ^ 63) \<le> k \<Longrightarrow> k < 2 ^ 63 \<Longrightarrow> saturate k = k"
  by (simp add: saturate_def)

theorem strtol_dec_int:
  assumes "- (2 ^ 63) \<le> k" and "k < 2 ^ 63" and "rest = [] \<or> \<not> is_digit (hd rest)"
  shows "strtol (dec_int k @ rest) = Some (k, rest)"
proof (cases "k < 0")
  case True
  have "\<not> is_space (CHR ''-'')" by (simp add: is_space_def char_code_def)
  with True assms show ?thesis
    by (simp add: dec_int_def strtol_def unsigned_part_dec_nat saturate_id)
next
  case False
  obtain c cs where c: "dec_nat (nat k) = c # cs" by (cases "dec_nat (nat k)") auto
  then have dig: "is_digit c" using dec_nat_digits [of "nat k"] by simp
  have "strtol (dec_int k @ rest) = map_option (\<lambda>(v, r). (saturate v, r))
      (unsigned_part (dec_nat (nat k) @ rest))"
    using False c digit_not_space [OF dig] digit_not_sign [OF dig]
    by (simp add: dec_int_def strtol_def)
  with False assms show ?thesis by (simp add: unsigned_part_dec_nat saturate_id)
qed

lemma atoi_dec_int:
  "- (2 ^ 63) \<le> k \<Longrightarrow> k < 2 ^ 63 \<Longrightarrow> rest = [] \<or> \<not> is_digit (hd rest) \<Longrightarrow>
     atoi (dec_int k @ rest) = word_of_int k"
  by (simp add: atoi_def strtol_dec_int)

lemma length_dec_nat_step: "\<not> n < 10 \<Longrightarrow> length (dec_nat n) = Suc (length (dec_nat (n div 10)))"
  by (simp add: dec_nat_step)

lemma length_dec_nat_le: "0 < k \<Longrightarrow> length (dec_nat n) \<le> k \<longleftrightarrow> n < 10 ^ k"
proof (induction n arbitrary: k rule: dec_nat.induct)
  case (1 n)
  show ?case
  proof (cases "n < 10")
    case True
    then have "n < 10 ^ k" using "1.prems" self_le_power [of "10 :: nat" k] by linarith
    with True "1.prems" show ?thesis by (simp add: dec_nat_small)
  next
    case False
    obtain j where k: "k = Suc j" using "1.prems" by (cases k) auto
    show ?thesis
    proof (cases j)
      case 0
      with False k show ?thesis by (simp add: length_dec_nat_step)
    next
      case (Suc i)
      have "length (dec_nat (n div 10)) \<le> j \<longleftrightarrow> n div 10 < 10 ^ j"
        using "1.IH" [OF False, of j] Suc by simp
      also have "n div 10 < 10 ^ j \<longleftrightarrow> n < 10 ^ k"
        using div_less_iff_less_mult [of 10 n "10 ^ j"] k by (simp add: mult.commute)
      finally show ?thesis
        using length_dec_nat_step [OF False] by (simp only: k Suc_le_mono)
    qed
  qed
qed

text \<open>A digit string without superfluous zeros is the numeral of its value.\<close>

lemma digits_val_nonneg: "0 \<le> acc \<Longrightarrow> \<forall>c \<in> set ds. is_digit c \<Longrightarrow> acc \<le> digits_val acc ds"
proof (induction ds arbitrary: acc)
  case (Cons c cs)
  then have "0 \<le> digit_val c" by (simp add: digit_val_def is_digit_def)
  with Cons.prems(1) have "acc \<le> 10 * acc + digit_val c" by linarith
  also have "\<dots> \<le> digits_val (10 * acc + digit_val c) cs"
    using Cons.IH [of "10 * acc + digit_val c"] Cons.prems \<open>0 \<le> digit_val c\<close> by simp
  finally show ?case by simp
qed simp

lemma digit_of_val: "is_digit c \<Longrightarrow> digit (nat (digit_val c)) = c"
  by (simp add: digit_def digit_val_def is_digit_def char_code_def nat_diff_distrib)

lemma digit_val_bounds: "is_digit c \<Longrightarrow> 0 \<le> digit_val c \<and> digit_val c < 10"
  by (simp add: digit_val_def is_digit_def)

lemma char_code_zero: "char_code c = 48 \<Longrightarrow> c = CHR ''0''"
proof -
  assume "char_code c = 48"
  then have "char_of (of_char c :: nat) = char_of (48 :: nat)" by (simp add: char_code_def)
  then have "c = char_of (48 :: nat)" by (simp only: char_of_char)
  also have "\<dots> = CHR ''0''" by code_simp
  finally show "c = CHR ''0''" .
qed

lemma dec_nat_digits_val:
  assumes "ds \<noteq> []" and "\<forall>c \<in> set ds. is_digit c" and "length ds = 1 \<or> hd ds \<noteq> CHR ''0''"
  shows "dec_nat (nat (digits_val 0 ds)) = ds"
  using assms
proof (induction ds rule: rev_induct)
  case (snoc c cs)
  have c: "0 \<le> digit_val c" "digit_val c < 10" "digit (nat (digit_val c)) = c"
    using snoc.prems(2) digit_val_bounds digit_of_val by simp_all
  show ?case
  proof (cases "cs = []")
    case True
    with c show ?thesis by (simp add: dec_nat_small)
  next
    case False
    let ?v = "digits_val 0 cs"
    obtain d ds where cs: "cs = d # ds" using False by (cases cs) auto
    then have d: "is_digit d" "d \<noteq> CHR ''0''" using snoc.prems by auto
    then have "digit_val d \<noteq> 0" by (auto simp: digit_val_def dest: char_code_zero)
    then have "1 \<le> digit_val d" using digit_val_bounds [OF d(1)] by linarith
    then have v: "1 \<le> ?v"
      using digits_val_nonneg [of "digit_val d" ds] snoc.prems(2) cs by simp
    then have "dec_nat (nat ?v) = cs" using snoc False cs d by auto
    moreover obtain a where "?v = int a" using v by (metis nonneg_int_cases order_trans zero_le_one)
    moreover obtain b where "digit_val c = int b" using c(1) by (metis nonneg_int_cases)
    ultimately show ?thesis
      using c v by (simp add: digits_val_append dec_nat_step nat_add_distrib nat_mult_distrib)
  qed
qed simp

lemma hd_dec_nat: "0 < n \<Longrightarrow> hd (dec_nat n) \<noteq> CHR ''0''"
proof (induction n rule: dec_nat.induct)
  case (1 n)
  show ?case
  proof (cases "n < 10")
    case True
    have "char_code (CHR ''0'') = 48" by (simp add: char_code_def)
    with True 1 char_code_digit [of n] show ?thesis by (auto simp: dec_nat_small)
  next
    case False
    with 1 show ?thesis by (simp add: dec_nat_step)
  qed
qed

lemma dec_nat_inject: "dec_nat m = dec_nat n \<longleftrightarrow> m = n"
  by (metis digits_val_dec_nat of_nat_eq_iff)

text \<open>A character is settled by its code.\<close>

lemma char_code_inject: "char_code c = char_code d \<longleftrightarrow> c = d"
proof
  assume "char_code c = char_code d"
  then have "char_of (of_char c :: nat) = (char_of (of_char d :: nat) :: char)"
    by (simp add: char_code_def)
  then show "c = d" by (simp only: char_of_char)
qed simp

lemma char_code_eq: "char_code d = k \<Longrightarrow> char_code c = k \<longleftrightarrow> c = d"
  using char_code_inject [of c d] by auto

text \<open>Numerals evaluate.\<close>

lemma digit_chars:
  "digit 0 = CHR ''0''" "digit 1 = CHR ''1''" "digit 2 = CHR ''2''" "digit 3 = CHR ''3''"
  "digit 4 = CHR ''4''" "digit 5 = CHR ''5''" "digit 6 = CHR ''6''" "digit 7 = CHR ''7''"
  "digit 8 = CHR ''8''" "digit 9 = CHR ''9''"
  by code_simp+

lemmas dec_nat_eval = dec_nat.simps digit_chars digit_chars(2) [unfolded One_nat_def]

end
