(* ===== verification/Lib.thy ===== *)
theory Lib
  imports Process Decimal
begin

text \<open>
  \<^verbatim>\<open>common/lib.c\<close>: the exact-length read and write every message goes through, the
  \<open>select\<close> wrapper, the digit count and the integer prompt.
\<close>

section \<open>Exact-length reads\<close>

text \<open>
  The loop of \<open>ensureRead\<close>. Its counter is an \<open>int\<close>: counting past \<open>INT_MAX\<close> is an
  overflow. Nothing bounds the number of iterations, so the loop is partial: \<open>None\<close> when it
  blocks or spins.
\<close>

partial_function (option) ensureRead_loop ::
  "nat \<Rightarrow> nat \<Rightarrow> byte list \<Rightarrow> rd_event list \<Rightarrow> (int \<times> byte list \<times> rd_event list) c_result option" where
  "ensureRead_loop bytes readBytes dest es =
     (if readBytes < bytes then
        Option.bind (sys_read (bytes - readBytes) es) (\<lambda>(readResult, got, es').
          if readResult = -1 then Some (Inr (0, dest, es'))
          else if 2 ^ 31 \<le> readBytes + nat readResult then Some (Inl Int_overflow)
          else ensureRead_loop bytes (readBytes + nat readResult) (dest @ got) es')
      else Some (Inr (1, dest, es)))"

text \<open>\<open>ensureRead\<close>: its result and the bytes it stored from the start of the destination.\<close>

definition ensureRead :: "nat \<Rightarrow> fd \<Rightarrow> proc \<Rightarrow> (int \<times> byte list \<times> proc) c_result" where
  "ensureRead bytes fd p =
     (if bytes = 0 then Inr (1, [], p)
      else case ensureRead_loop bytes 0 [] (rd p fd) of
        None \<Rightarrow> Inl No_return
      | Some r \<Rightarrow> c_bind r (\<lambda>(ret, dest, es). Inr (ret, dest, p\<lparr>rd := (rd p)(fd := es)\<rparr>)))"

section \<open>Exact-length writes\<close>

text \<open>Every round uses up an event, or it is the last one.\<close>

lemma sys_write_progress:
  assumes "sys_write src es = (r, taken, es')" and "r \<noteq> -1"
  shows "r = int (length taken)" and "taken = take (length taken) src"
    and "length taken \<le> length src" and "length es' \<le> length es"
    and "length es' < length es \<or> length taken = length src"
  using assms by (cases "(src, es)" rule: sys_write.cases; auto split: if_splits)+

function ensureWrite_loop ::
  "byte list \<Rightarrow> nat \<Rightarrow> byte list \<Rightarrow> wr_event list \<Rightarrow> (int \<times> byte list \<times> wr_event list) c_result" where
  "ensureWrite_loop src writtenBytes acc es =
     (if writtenBytes < length src then
        (let (writeResult, taken, es') = sys_write (drop writtenBytes src) es in
         if writeResult = -1 then Inr (0, acc, es')
         else if 2 ^ 31 \<le> writtenBytes + nat writeResult then Inl Int_overflow
         else ensureWrite_loop src (writtenBytes + nat writeResult) (acc @ taken) es')
      else Inr (1, acc, es))"
  by pat_completeness auto

termination
proof (relation "measures [\<lambda>(src, w, acc, es). length es, \<lambda>(src, w, acc, es). length src - w]",
    goal_cases)
  case 1
  show ?case by simp
next
  case (2 src w acc es x r y taken es')
  then have "sys_write (drop w src) es = (r, taken, es')" by simp
  from sys_write_progress [OF this \<open>r \<noteq> -1\<close>] \<open>w < length src\<close> show ?case by auto
qed

declare ensureWrite_loop.simps [simp del]

definition ensureWrite :: "byte list \<Rightarrow> fd \<Rightarrow> proc \<Rightarrow> (int \<times> proc) c_result" where
  "ensureWrite src fd p =
     (if src = [] then Inr (1, p)
      else c_bind (ensureWrite_loop src 0 [] (wr p fd)) (\<lambda>(ret, acc, es).
        Inr (ret, (emit fd acc p)\<lparr>wr := (wr p)(fd := es)\<rparr>)))"


subsection \<open>What an exact read does on every stream\<close>

text \<open>The events that follow the bytes at hand.\<close>

fun after :: "rd_event list \<Rightarrow> rd_event list" where
  "after (Rd_data bs # es) = after es"
| "after es = es"

lemma after_no_data: "after es \<noteq> Rd_data bs # es'"
  by (induction es rule: after.induct) auto

lemma ensureRead_loop_enough:
  "readBytes \<le> bytes \<Longrightarrow> bytes < 2 ^ 31 \<Longrightarrow> bytes - readBytes \<le> length (avail es) \<Longrightarrow>
     ensureRead_loop bytes readBytes dest es =
       Some (Inr (1, dest @ take (bytes - readBytes) (avail es), skip (bytes - readBytes) es))"
proof (induction es arbitrary: readBytes dest rule: avail.induct)
  case (1 bs es)
  show ?case
  proof (cases "length bs \<le> bytes - readBytes")
    case True
    then show ?thesis
      using "1.prems" "1.IH" [of "readBytes + length bs" "dest @ bs"]
      by (subst ensureRead_loop.simps) auto
  next
    case False
    then have "nat (int bytes - int readBytes) = bytes - readBytes" by linarith
    with False show ?thesis
      using "1.prems"
      by (subst ensureRead_loop.simps) (auto simp: ensureRead_loop.simps [of bytes bytes])
  qed
qed (subst ensureRead_loop.simps; simp)+

lemma ensureRead_loop_failed:
  assumes "after es = Rd_fail # es' \<or> (after es = Rd_bad # es'' \<and> es' = Rd_bad # es'')"
  shows "readBytes \<le> bytes \<Longrightarrow> bytes < 2 ^ 31 \<Longrightarrow> length (avail es) < bytes - readBytes \<Longrightarrow>
     ensureRead_loop bytes readBytes dest es = Some (Inr (0, dest @ avail es, es'))"
  using assms
proof (induction es arbitrary: readBytes dest rule: avail.induct)
  case (1 bs es)
  then show ?case
    using "1.IH" [of "readBytes + length bs" "dest @ bs"]
    by (subst ensureRead_loop.simps) auto
qed (subst ensureRead_loop.simps; auto)+

text \<open>
  When the bytes stop short because the peer closed the stream, every further \<open>read\<close> returns
  0 and the loop spins; when the stream just stays silent, \<open>read\<close> blocks.
\<close>

lemma ensureRead_loop_spins:
  assumes "after es = [] \<or> (\<exists>es'. after es = Rd_eof # es')"
    and "length (avail es) < bytes - readBytes" and "bytes < 2 ^ 31"
  shows "ensureRead_loop bytes readBytes dest es = None"
proof (rule ccontr)
  assume "ensureRead_loop bytes readBytes dest es \<noteq> None"
  then obtain r where ret: "ensureRead_loop bytes readBytes dest es = Some r" by blast
  let ?short = "\<lambda>bytes readBytes es. (after es = [] \<or> (\<exists>es'. after es = Rd_eof # es')) \<and>
    length (avail es) < bytes - readBytes \<and> bytes < 2 ^ 31"
  have "\<not> ?short bytes readBytes es"
  proof (rule ensureRead_loop.raw_induct [where P = "\<lambda>bytes readBytes _ es _. \<not> ?short bytes readBytes es",
        OF _ ret])
    fix f bytes readBytes dest es r
    assume IH: "\<And>bytes readBytes dest es r. f bytes readBytes dest es = Some r \<Longrightarrow>
        \<not> ?short bytes readBytes es"
      and eq: "(if readBytes < bytes then
        Option.bind (sys_read (bytes - readBytes) es) (\<lambda>(readResult, got, es').
          if readResult = -1 then Some (Inr (0, dest, es'))
          else if 2 ^ 31 \<le> readBytes + nat readResult then Some (Inl Int_overflow)
          else f bytes (readBytes + nat readResult) (dest @ got) es')
        else Some (Inr (1, dest, es))) = Some r"
    show "\<not> ?short bytes readBytes es"
    proof
      assume short: "?short bytes readBytes es"
      then have "readBytes < bytes" by linarith
      from short eq this show False
        by (cases es rule: avail.cases)
          (auto split: if_splits dest!: IH)
    qed
  qed
  with assms show False by blast
qed

lemma ensureRead_exact:
  "n < 2 ^ 31 \<Longrightarrow> n \<le> length (rd_avail p fd) \<Longrightarrow>
     ensureRead n fd p = Inr (1, take n (rd_avail p fd), consume fd n p)"
  using ensureRead_loop_enough [of 0 n "rd p fd" "[]"]
  by (auto simp: ensureRead_def rd_avail_def consume_def)

text \<open>C31: What \<open>ensureRead\<close> does on every stream. It returns 1 exactly when the wanted bytes are at
  hand, however they were cut into pieces, and consumes those and no more. It returns 0 when a
  \<open>read\<close> fails first. When the stream ends or stays silent before, the call never comes back:
  at the end of the stream the loop spins on reads of 0 bytes.\<close>

theorem ensureRead_cases:
  assumes "n < 2 ^ 31"
  shows "ensureRead n fd p =
    (if n \<le> length (rd_avail p fd) then Inr (1, take n (rd_avail p fd), consume fd n p)
     else case after (rd p fd) of
       Rd_fail # es \<Rightarrow> Inr (0, rd_avail p fd, p\<lparr>rd := (rd p)(fd := es)\<rparr>)
     | Rd_bad # es \<Rightarrow> Inr (0, rd_avail p fd, p\<lparr>rd := (rd p)(fd := Rd_bad # es)\<rparr>)
     | _ \<Rightarrow> Inl No_return)"
proof (cases "n \<le> length (rd_avail p fd)")
  case True
  with assms show ?thesis by (simp add: ensureRead_exact)
next
  case False
  then have short: "length (avail (rd p fd)) < n - 0" by (simp add: rd_avail_def)
  show ?thesis
  proof (cases "after (rd p fd)" rule: avail.cases)
    case (1 bs es)
    with after_no_data show ?thesis by blast
  qed (use False short assms ensureRead_loop_failed [of "rd p fd" _ _ 0 n "[]"]
      ensureRead_loop_spins [of "rd p fd" n 0 "[]"] in
      \<open>auto simp: ensureRead_def rd_avail_def\<close>)
qed


subsection \<open>What an exact write does against every peer\<close>

text \<open>
  A descriptor is healthy when no coming \<open>write\<close> fails; it may still take a message in pieces.
  \<open>deliver\<close> is the state after a whole message went out.
\<close>

definition healthy :: "wr_event list \<Rightarrow> bool" where
  "healthy es \<longleftrightarrow> Wr_fail \<notin> set es \<and> Wr_bad \<notin> set es"

fun wr_rest :: "nat \<Rightarrow> wr_event list \<Rightarrow> wr_event list" where
  "wr_rest n (Wr_take k # es) =
     (if n = 0 then Wr_take k # es else if k < n then wr_rest (n - k) es else es)"
| "wr_rest n es = es"

definition deliver :: "fd \<Rightarrow> byte list \<Rightarrow> proc \<Rightarrow> proc" where
  "deliver fd bs p = (emit fd bs p)\<lparr>wr := (wr p)(fd := wr_rest (length bs) (wr p fd))\<rparr>"

lemma healthy_Nil [simp]: "healthy []"
  by (simp add: healthy_def)

lemma healthy_wr_rest: "healthy es \<Longrightarrow> healthy (wr_rest n es)"
  by (induction n es rule: wr_rest.induct) (auto simp: healthy_def)

lemma wr_rest_0 [simp]: "wr_rest 0 es = es"
  by (cases "(0::nat, es)" rule: wr_rest.cases) auto

lemma sent_deliver [simp]:
  "sent (deliver fd bs p) = (sent p)(fd := sent p fd @ bs)"
  by (simp add: deliver_def)

lemma rd_avail_deliver [simp]: "rd_avail (deliver fd bs p) = rd_avail p"
  by (simp add: deliver_def rd_avail_def emit_def fun_eq_iff)

lemma rd_deliver [simp]: "rd (deliver fd bs p) = rd p"
  by (simp add: deliver_def emit_def)

lemma answers_deliver [simp]: "answers (deliver fd bs p) = answers p"
  by (simp add: deliver_def emit_def)

lemma healthy_deliver [simp]:
  "healthy (wr p fd') \<Longrightarrow> healthy (wr (deliver fd bs p) fd')"
  by (cases "fd' = fd") (simp_all add: deliver_def healthy_wr_rest)

lemma deliver_Nil [simp]: "deliver fd [] p = p"
  by (simp add: deliver_def)

lemma ensureWrite_loop_healthy:
  "healthy es \<Longrightarrow> length src < 2 ^ 31 \<Longrightarrow> w \<le> length src \<Longrightarrow>
     ensureWrite_loop src w acc es = Inr (1, acc @ drop w src, wr_rest (length src - w) es)"
proof (induction src w acc es rule: ensureWrite_loop.induct)
  case (1 src w acc es)
  show ?case
  proof (cases "w < length src")
    case True
    then show ?thesis
    proof (cases es)
      case Nil
      have "nat (int (length src) - int w) = length src - w" using True by linarith
      with Nil True "1.prems" show ?thesis
        by (subst ensureWrite_loop.simps) (simp add: ensureWrite_loop.simps [of src "length src"])
    next
      case (Cons e es')
      then obtain k where e: "e = Wr_take k" and es': "healthy es'"
        using "1.prems"(1) by (cases e) (auto simp: healthy_def)
      show ?thesis
      proof (cases "k < length src - w")
        case short: True
        have step: "sys_write (drop w src) es = (int k, take k (drop w src), es')"
          using short e Cons by simp
        have "w + nat (int k) < 2 ^ 31" and "w + nat (int k) \<le> length src"
          using short "1.prems" by simp_all
        then have "ensureWrite_loop src (w + k) (acc @ take k (drop w src)) es' =
            Inr (1, (acc @ take k (drop w src)) @ drop (w + k) src,
              wr_rest (length src - (w + k)) es')"
          using "1.IH" [OF True step [symmetric] refl refl] es' "1.prems"(2) by simp
        moreover have "take k (drop w src) @ drop (w + k) src = drop w src"
          by (simp add: add.commute flip: drop_drop)
        ultimately show ?thesis
          using True short "1.prems" e Cons
          by (subst ensureWrite_loop.simps) (auto simp: diff_diff_add)
      next
        case False
        have "nat (int (length src) - int w) = length src - w" using True by linarith
        with False True "1.prems" e Cons show ?thesis
          by (subst ensureWrite_loop.simps) (simp add: ensureWrite_loop.simps [of src "length src"])
      qed
    qed
  next
    case False
    with "1.prems" show ?thesis by (subst ensureWrite_loop.simps) simp
  qed
qed

lemma ensureWrite_healthy:
  "healthy (wr p fd) \<Longrightarrow> length src < 2 ^ 31 \<Longrightarrow> ensureWrite src fd p = Inr (1, deliver fd src p)"
  by (simp add: ensureWrite_def ensureWrite_loop_healthy deliver_def)

text \<open>Against any peer, what went out is a prefix of the message, and 1 means all of it.\<close>

lemma ensureWrite_loop_prefix:
  "acc = take w src \<Longrightarrow> w \<le> length src \<Longrightarrow> length src < 2 ^ 31 \<Longrightarrow>
     \<exists>ret k es'. ensureWrite_loop src w acc es = Inr (ret, take k src, es') \<and> k \<le> length src \<and>
       (ret = 1 \<and> k = length src \<or> ret = 0 \<and> k < length src)"
proof (induction src w acc es rule: ensureWrite_loop.induct)
  case (1 src w acc es)
  show ?case
  proof (cases "w < length src")
    case True
    obtain r taken es' where step: "sys_write (drop w src) es = (r, taken, es')"
      by (cases "sys_write (drop w src) es") auto
    show ?thesis
    proof (cases "r = -1")
      case True
      with step "1.prems" \<open>w < length src\<close> show ?thesis
        by (subst ensureWrite_loop.simps) (auto intro!: exI [of _ w])
    next
      case False
      note prog = sys_write_progress [OF step False]
      then have taken: "taken = take (length taken) (drop w src)" by simp
      have "take w src @ taken = take (w + length taken) src"
        by (subst taken) (simp add: take_add)
      with 1(1) [OF True step [symmetric] refl refl False] prog True "1.prems" step
      show ?thesis
        by (subst ensureWrite_loop.simps) auto
    qed
  next
    case False
    with "1.prems" show ?thesis by (subst ensureWrite_loop.simps) auto
  qed
qed

text \<open>Against any peer \<open>ensureWrite\<close> returns, and what it sent is a prefix of the message: all of
  it when the result is 1, a proper part of it when the result is 0.\<close>

theorem ensureWrite_prefix:
  assumes "length src < 2 ^ 31"
  shows "\<exists>ret k es. ensureWrite src fd p =
      Inr (ret, (emit fd (take k src) p)\<lparr>wr := (wr p)(fd := es)\<rparr>) \<and>
      (ret = 1 \<and> k = length src \<or> ret = 0 \<and> k < length src)"
proof (cases "src = []")
  case True
  then show ?thesis by (auto simp: ensureWrite_def intro!: exI [of _ "wr p fd"])
next
  case False
  with ensureWrite_loop_prefix [of "[]" 0 src "wr p fd"] assms show ?thesis
    by (fastforce simp: ensureWrite_def)
qed


section \<open>The select wrapper\<close>

text \<open>
  What \<open>select_wrapper\<close> hands to \<open>select\<close>: the sets as lists of the descriptors that were
  added, \<open>None\<close> for a null pointer, and the timeout in seconds and microseconds, \<open>None\<close> to
  wait for ever. \<open>FD_SET\<close> is undefined outside \<open>0..FD_SETSIZE - 1\<close>.
\<close>

record select_call =
  sel_nfds :: int
  sel_read :: "fd list option"
  sel_write :: "fd list option"
  sel_err :: "fd list option"
  sel_timeout :: "(int \<times> int) option"

fun fd_set_all :: "fd list \<Rightarrow> fd list c_result" where
  "fd_set_all [] = Inr []"
| "fd_set_all (fd # fds) =
     (if 0 \<le> fd \<and> fd < 1024 then c_bind (fd_set_all fds) (\<lambda>s. Inr (fd # s)) else Inl Out_of_bounds)"

text \<open>One array argument: a null array is not read and gives a null set.\<close>

definition fd_array :: "fd list option \<Rightarrow> int \<Rightarrow> fd list option c_result" where
  "fd_array fds count = (case fds of
     None \<Rightarrow> Inr None
   | Some a \<Rightarrow>
       (if int (length a) < count then Inl Out_of_bounds
        else c_bind (fd_set_all (take (nat count) a)) (\<lambda>s. Inr (Some s))))"

definition select_wrapper ::
  "int \<Rightarrow> fd list option \<Rightarrow> int \<Rightarrow> fd list option \<Rightarrow> int \<Rightarrow> fd list option \<Rightarrow> int \<Rightarrow> int \<Rightarrow> int \<Rightarrow>
     (select_call \<Rightarrow> int) \<Rightarrow> int c_result" where
  "select_wrapper maxFD readFDs rCount writeFDs wCount errFDs eCount timeoutSec timeoutUSec select =
     c_bind (fd_array readFDs rCount) (\<lambda>readSet.
     c_bind (fd_array writeFDs wCount) (\<lambda>writeSet.
     c_bind (fd_array errFDs eCount) (\<lambda>errSet.
     let sec = (if timeoutSec < 0 then 0 else timeoutSec);
         usec = (if timeoutUSec < 0 then 0 else timeoutUSec)
     in Inr (select \<lparr>sel_nfds = maxFD, sel_read = readSet, sel_write = writeSet, sel_err = errSet,
          sel_timeout = (if timeoutSec < 0 \<and> timeoutUSec < 0 then None else Some (sec, usec))\<rparr>))))"

section \<open>Counting digits\<close>

text \<open>C division of signed integers truncates towards zero.\<close>

definition c_div :: "int \<Rightarrow> int \<Rightarrow> int" where
  "c_div a b = sgn a * sgn b * (\<bar>a\<bar> div \<bar>b\<bar>)"

lemma abs_c_div_10: "\<bar>c_div k 10\<bar> = \<bar>k\<bar> div 10"
  by (cases "k = 0") (auto simp: c_div_def abs_mult abs_sgn_eq)

function countDigits_loop :: "int \<Rightarrow> c_int \<Rightarrow> c_int" where
  "countDigits_loop number i =
     (if number \<noteq> 0 then countDigits_loop (c_div number 10) (i + 1) else i)"
  by pat_completeness auto
termination
  by (relation "measure (\<lambda>(number, i). nat \<bar>number\<bar>)") (auto simp: abs_c_div_10)

declare countDigits_loop.simps [simp del]

definition countDigits :: "c_int \<Rightarrow> c_int" where
  "countDigits number = countDigits_loop (sint number) (if sint number \<le> 0 then 1 else 0)"

lemma countDigits_loop_length:
  "countDigits_loop k i = i + word_of_nat (if k = 0 then 0 else length (dec_nat (nat \<bar>k\<bar>)))"
proof (induction k i rule: countDigits_loop.induct)
  case (1 k i)
  show ?case
  proof (cases "k = 0")
    case True
    then show ?thesis by (subst countDigits_loop.simps) simp
  next
    case False
    have half: "nat \<bar>c_div k 10\<bar> = nat \<bar>k\<bar> div 10" by (simp add: abs_c_div_10 nat_div_distrib)
    have zero: "c_div k 10 = 0 \<longleftrightarrow> nat \<bar>k\<bar> < 10"
      using abs_c_div_10 [of k] by linarith
    show ?thesis
    proof (cases "nat \<bar>k\<bar> < 10")
      case True
      with False zero show ?thesis
        by (subst countDigits_loop.simps) (simp add: countDigits_loop.simps [of 0] dec_nat_small)
    next
      case large: False
      with False zero 1 show ?thesis
        by (subst countDigits_loop.simps) (simp add: half length_dec_nat_step algebra_simps)
    qed
  qed
qed

lemma countDigits_length: "countDigits w = word_of_nat (length (dec_int (sint w)))"
  by (auto simp: countDigits_def countDigits_loop_length dec_int_def dec_nat_small)

lemma length_dec_int_le: "in_int k \<Longrightarrow> length (dec_int k) \<le> 11"
proof -
  assume "in_int k"
  then have "nat \<bar>k\<bar> < 10 ^ 10" by (auto simp: in_int_def nat_less_iff abs_if)
  then have "length (dec_nat (nat \<bar>k\<bar>)) \<le> 10" by (simp add: length_dec_nat_le)
  then show ?thesis by (auto simp: dec_int_def)
qed

lemma countDigits_of_int: "in_int k \<Longrightarrow> sint (countDigits (word_of_int k)) = int (length (dec_int k))"
  using length_dec_int_le [of k] by (simp add: countDigits_length sint_word_of_int sint_of_nat in_int_nat)

text \<open>\<open>countDigits\<close> gives, for every \<open>int\<close>, the number of characters \<open>printf("%i")\<close> prints, the
  sign of a negative one included.\<close>

theorem countDigits_printed: "countDigits w = word_of_nat (length (dec_int (sint w)))"
  by (rule countDigits_length)

section \<open>Reading an integer from the terminal\<close>

text \<open>\<open>while (getchar() != '\n');\<close> never ends when the input does: \<open>None\<close>.\<close>

fun flush_line :: "string \<Rightarrow> string option" where
  "flush_line [] = None"
| "flush_line (c # cs) = (if c = CHR 0x0A then Some cs else flush_line cs)"

lemma flush_line_shorter: "flush_line s = Some r \<Longrightarrow> length r < length s"
  by (induction s) (auto split: if_splits)

text \<open>
  \<open>scanf("%d")\<close>: white space is skipped, a sign is taken, then digits. Without a digit nothing
  is converted and the offending character stays in the input.
\<close>

definition scanf_d :: "string \<Rightarrow> c_int option \<times> string" where
  "scanf_d s =
     (let s' = dropWhile is_space s in
      case strtol s' of
        Some (v, r) \<Rightarrow> (Some (word_of_int v), r)
      | None \<Rightarrow> (None, if s' \<noteq> [] \<and> (hd s' = CHR ''-'' \<or> hd s' = CHR ''+'') then tl s' else s'))"

lemma length_unsigned_part: "unsigned_part s = Some (v, r) \<Longrightarrow> length r \<le> length s"
  by (auto simp: unsigned_part_def Let_def length_dropWhile_le split: if_splits)

lemma length_strtol: "strtol s = Some (v, r) \<Longrightarrow> length r \<le> length s"
  using length_dropWhile_le [of is_space s]
  by (auto simp: strtol_def split: list.splits if_splits dest!: length_unsigned_part)

lemma length_scanf_d: "scanf_d s = (conv, r) \<Longrightarrow> length r \<le> length s"
  using length_dropWhile_le [of is_space s] length_strtol [of "dropWhile is_space s"]
  by (fastforce simp: scanf_d_def Let_def split: option.splits if_splits)

function scanInt :: "string \<Rightarrow> proc \<Rightarrow> (c_int \<times> proc) c_result" where
  "scanInt msg p =
     (let p1 = print msg p in
      case scanf_d (stdin p) of (conv, rest) \<Rightarrow>
      (case conv of
         None \<Rightarrow> (case flush_line rest of
             None \<Rightarrow> Inl No_return
           | Some rest' \<Rightarrow> scanInt msg (print ''Invalid input.\<newline>'' (p1\<lparr>stdin := rest'\<rparr>)))
       | Some result \<Rightarrow> (case flush_line rest of
             None \<Rightarrow> Inl No_return
           | Some rest' \<Rightarrow> Inr (result, p1\<lparr>stdin := rest'\<rparr>))))"
  by pat_completeness auto
termination
proof (relation "measure (\<lambda>(msg, p). length (stdin p))", goal_cases)
  case 1
  show ?case by simp
next
  case (2 msg p p1 conv rest rest')
  then show ?case
    using length_scanf_d [of "stdin p" conv rest] flush_line_shorter [of rest rest']
    by (simp add: print_def)
qed

declare scanInt.simps [simp del]

text \<open>A line that holds a number is read at the first prompt.\<close>

lemma flush_line_at: "CHR 0x0A \<notin> set l \<Longrightarrow> flush_line (l @ CHR 0x0A # rest) = Some rest"
  by (induction l) auto

lemma dec_int_no_space: "\<exists>c cs. dec_int k = c # cs \<and> \<not> is_space c"
proof -
  obtain c cs where c: "dec_nat (nat \<bar>k\<bar>) = c # cs" by (cases "dec_nat (nat \<bar>k\<bar>)") auto
  then have "is_digit c" using dec_nat_digits [of "nat \<bar>k\<bar>"] by simp
  then have "\<not> is_space c" by (rule digit_not_space)
  moreover have "\<not> is_space (CHR ''-'')" by (simp add: is_space_def char_code_def)
  ultimately show ?thesis using c by (cases "k < 0") (auto simp: dec_int_def)
qed

lemma scanInt_line:
  assumes "in_int k" and "stdin p = dec_int k @ CHR 0x0A # rest"
  shows "scanInt msg p = Inr (word_of_int k, print msg (p\<lparr>stdin := rest\<rparr>))"
proof -
  obtain c cs where c: "dec_int k = c # cs" "\<not> is_space c" using dec_int_no_space by blast
  have "strtol (dec_int k @ CHR 0x0A # rest) = Some (k, CHR 0x0A # rest)"
    using assms by (intro strtol_dec_int) (auto simp: is_digit_def char_code_def in_int_def)
  then have "scanf_d (stdin p) = (Some (word_of_int k), CHR 0x0A # rest)"
    using c assms(2) by (simp add: scanf_d_def)
  then show ?thesis by (subst scanInt.simps) (simp add: print_def)
qed

text \<open>A line that holds a printed \<open>int\<close> is read at the first prompt, to the end of that line.\<close>

theorem scanInt_number:
  assumes "- (2 ^ 31) \<le> k" and "k < 2 ^ 31" and "stdin p = dec_int k @ CHR 0x0A # rest"
  shows "scanInt msg p = Inr (word_of_int k, print msg (p\<lparr>stdin := rest\<rparr>))"
  using assms by (intro scanInt_line) (simp_all add: in_int_def)

text \<open>Every answer uses up at least the end of a line, and nothing else changes but the output.\<close>

lemma scanInt_shorter: "scanInt msg p = Inr (v, p') \<Longrightarrow> length (stdin p') < length (stdin p)"
proof (induction msg p rule: scanInt.induct)
  case (1 msg p)
  obtain conv r where c: "scanf_d (stdin p) = (conv, r)" by (cases "scanf_d (stdin p)") auto
  obtain r' where r: "flush_line r = Some r'"
    using "1.prems" c by (subst (asm) scanInt.simps) (auto simp: Let_def split: option.splits)
  note short = length_scanf_d [OF c] flush_line_shorter [OF r]
  show ?case
  proof (cases conv)
    case None
    with "1.prems" c r have "scanInt msg (print ''Invalid input.\<newline>'' (print msg p\<lparr>stdin := r'\<rparr>)) = Inr (v, p')"
      by (subst (asm) scanInt.simps) (simp add: Let_def)
    from "1.IH" [OF refl c [symmetric] None r this] short show ?thesis by (simp add: print_def)
  next
    case (Some k)
    with "1.prems" c r short show ?thesis
      by (subst (asm) scanInt.simps) (auto simp: Let_def print_def)
  qed
qed

text \<open>Reading a number only moves forward in the input.\<close>

lemma set_dropWhile_subset: "set (dropWhile P s) \<subseteq> set s"
  by (auto dest: set_dropWhileD)

lemma set_unsigned_part: "unsigned_part s = Some (v, r) \<Longrightarrow> set r \<subseteq> set s"
  using set_dropWhile_subset [of is_digit s]
  by (simp add: unsigned_part_def Let_def split: if_splits)

lemma set_strtol:
  assumes "strtol s = Some (v, r)"
  shows "set r \<subseteq> set s"
proof (cases "dropWhile is_space s")
  case Nil
  with assms show ?thesis by (simp add: strtol_def)
next
  case (Cons c cs)
  with assms obtain w t where part: "unsigned_part t = Some (w, r)" and t: "t = cs \<or> t = c # cs"
    by (auto simp: strtol_def split: if_splits)
  from set_unsigned_part [OF part] t have "set r \<subseteq> set (c # cs)" by auto
  with set_dropWhile_subset [of is_space s] Cons show ?thesis by auto
qed

lemma set_scanf_d: "scanf_d s = (conv, r) \<Longrightarrow> set r \<subseteq> set s"
proof -
  assume eq: "scanf_d s = (conv, r)"
  let ?s = "dropWhile is_space s"
  have "set r \<subseteq> set ?s"
  proof (cases "strtol ?s")
    case None
    with eq have "r = ?s \<or> r = tl ?s" by (auto simp: scanf_d_def Let_def split: if_splits)
    then show ?thesis by (cases ?s) auto
  next
    case (Some vr)
    with eq set_strtol [of ?s] show ?thesis by (cases vr) (simp add: scanf_d_def)
  qed
  with set_dropWhile_subset [of is_space s] show ?thesis by blast
qed

lemma flush_line_None: "CHR 0x0A \<notin> set s \<Longrightarrow> flush_line s = None"
  by (induction s) auto

lemma scanInt_ends:
  assumes "CHR 0x0A \<notin> set (stdin p)"
  shows "scanInt msg p = Inl No_return"
proof -
  obtain conv r where conv: "scanf_d (stdin p) = (conv, r)" by (cases "scanf_d (stdin p)") auto
  with assms set_scanf_d [OF conv] have "flush_line r = None" by (blast intro: flush_line_None)
  with conv show ?thesis by (subst scanInt.simps) (simp add: Let_def split: option.splits)
qed

text \<open>When no further line ends in the input, the prompt never returns: the loops that empty the
  line do not look for the end of the file.\<close>

theorem scanInt_eof:
  assumes "CHR 0x0A \<notin> set (stdin p)"
  shows "scanInt msg p = Inl No_return"
  using assms by (rule scanInt_ends)

section \<open>Examples\<close>

lemma ensureRead_cases_witness:
  "ensureRead 3 0 (fresh_proc (\<lambda>_. [Rd_data [1, 2], Rd_data [3, 4]])) =
     Inr (1, [1, 2, 3], consume 0 3 (fresh_proc (\<lambda>_. [Rd_data [1, 2], Rd_data [3, 4]]))) \<and>
   ensureRead 3 0 (fresh_proc (\<lambda>_. [Rd_data [1, 2], Rd_eof])) = Inl No_return"
  using ensureRead_cases [of 3 0 "fresh_proc (\<lambda>_. [Rd_data [1, 2], Rd_data [3, 4]])"]
    ensureRead_cases [of 3 0 "fresh_proc (\<lambda>_. [Rd_data [1, 2], Rd_eof])"]
  by (simp add: rd_avail_def)

lemma ensureWrite_prefix_witness:
  "\<exists>ret p'. ensureWrite [1, 2, 3] 0 (fresh_proc (\<lambda>_. [])) = Inr (ret, p')"
  using ensureWrite_prefix [of "[1, 2, 3]" 0 "fresh_proc (\<lambda>_. [])"] by auto

lemma scanInt_number_witness:
  "scanInt ''n: '' ((fresh_proc (\<lambda>_. []))\<lparr>stdin := dec_int (-12) @ CHR 0x0A # ''y''\<rparr>) =
     Inr (word_of_int (-12), print ''n: '' ((fresh_proc (\<lambda>_. []))\<lparr>stdin := ''y''\<rparr>))"
  using scanInt_number [of "-12" "(fresh_proc (\<lambda>_. []))\<lparr>stdin := dec_int (-12) @ CHR 0x0A # ''y''\<rparr>" "''y''"]
  by simp

lemma scanInt_eof_witness:
  "scanInt ''n: '' ((fresh_proc (\<lambda>_. []))\<lparr>stdin := ''12''\<rparr>) = Inl No_return"
  by (rule scanInt_eof) simp

end
