(* ===== verification/Comm.thy ===== *)
theory Comm
  imports Lib
begin

text \<open>
  \<^verbatim>\<open>common/comm.h\<close>: the message codes, the framing of messages, and the contract of the
  communication interface. The header is implemented twice, over TCP sockets and over FIFOs;
  a build links one of them. The rest of the program is written against the interface, and so
  are its models: they take an implementation as a record of operations.
\<close>

section \<open>Message codes\<close>

definition MESSAGE_OK :: c_int where "MESSAGE_OK = 1"
definition MESSAGE_CLOSE :: c_int where "MESSAGE_CLOSE = 2"
definition CMD_GET_PRODUCTS :: c_int where "CMD_GET_PRODUCTS = 3"
definition CMD_PLACE_ORDER :: c_int where "CMD_PLACE_ORDER = 4"
definition MESSAGE_ERROR :: c_int where "MESSAGE_ERROR = - 1"
definition MESSAGE_UNSATISFIABLE_ORDER :: c_int where "MESSAGE_UNSATISFIABLE_ORDER = - 2"

lemmas message_codes = MESSAGE_OK_def MESSAGE_CLOSE_def CMD_GET_PRODUCTS_def CMD_PLACE_ORDER_def
  MESSAGE_ERROR_def MESSAGE_UNSATISFIABLE_ORDER_def

section \<open>Frames\<close>

text \<open>A message travels as its length, a \<open>size_t\<close>, and then its bytes.\<close>

definition frame :: "byte list \<Rightarrow> byte list" where
  "frame data = enc64 (word_of_nat (length data)) @ data"

definition deliver_frame :: "fd \<Rightarrow> byte list \<Rightarrow> proc \<Rightarrow> proc" where
  "deliver_frame fd data p = deliver fd data (deliver fd (enc64 (word_of_nat (length data))) p)"

definition message_ok :: "byte list \<Rightarrow> bool" where
  "message_ok data \<longleftrightarrow> 0 < length data \<and> length data < 2 ^ 31"

lemma length_frame [simp]: "length (frame data) = 8 + length data"
  by (simp add: frame_def)

lemma sent_deliver_frame [simp]:
  "sent (deliver_frame fd data p) = (sent p)(fd := sent p fd @ frame data)"
  by (simp add: deliver_frame_def frame_def)

lemma rd_avail_deliver_frame [simp]: "rd_avail (deliver_frame fd data p) = rd_avail p"
  by (simp add: deliver_frame_def fun_eq_iff)

lemma healthy_deliver_frame [simp]:
  "healthy (wr p fd') \<Longrightarrow> healthy (wr (deliver_frame fd data p) fd')"
  by (simp add: deliver_frame_def)

lemma rd_deliver_frame [simp]: "rd (deliver_frame fd data p) = rd p"
  by (simp add: deliver_frame_def)

text \<open>Two frames that start the same stream are the same frame.\<close>

lemma frame_inject:
  assumes "length xs < 2 ^ 64" and "length ys < 2 ^ 64" and "frame xs @ r = frame ys @ s"
  shows "xs = ys \<and> r = s"
proof -
  from assms(3) have "enc64 (word_of_nat (length xs)) = enc64 (word_of_nat (length ys))"
    and tails: "xs @ r = ys @ s"
    by (simp_all add: frame_def)
  then have "(word_of_nat (length xs) :: size_t) = word_of_nat (length ys)"
    by (metis dec64_enc64)
  then have "length xs = length ys"
    using assms(1,2) by (metis unat_of_nat64)
  with tails show ?thesis by simp
qed

section \<open>The interface\<close>

text \<open>
  \<open>conn_receive\<close> stores through its \<open>data\<close> and \<open>length\<close> arguments; the model takes the old
  value of the data pointer and returns both, \<open>None\<close> for a length that was not stored.
\<close>

record 'c comm =
  conn_send :: "'c \<Rightarrow> byte list \<Rightarrow> proc \<Rightarrow> (int \<times> proc) c_result"
  conn_receive :: "'c \<Rightarrow> ptr \<Rightarrow> proc \<Rightarrow> (int \<times> ptr \<times> nat option \<times> proc) c_result"
  conn_close :: "'c \<Rightarrow> proc \<Rightarrow> (int \<times> proc) c_result"

text \<open>\<open>*(int *) data\<close>.\<close>

definition load_int :: "ptr \<Rightarrow> c_int c_result" where
  "load_int q = c_bind (mem_read q 0 4) (\<lambda>bs. Inr (dec32 bs))"

lemma load_int_full [simp]: "load_int (full_block (enc32 w)) = Inr w"
  by (simp add: load_int_def mem_read_full)

text \<open>
  What the header promises of the two operations every handler uses, for the descriptors of a
  connection: a message is sent as one frame, and the next frame on the stream is received
  whole, however the transport cut it.
\<close>

locale channel =
  fixes ops :: "'c comm" and in_fd :: "'c \<Rightarrow> fd" and out_fd :: "'c \<Rightarrow> fd"
  assumes send_frame:
      "healthy (wr p (out_fd c)) \<Longrightarrow> message_ok data \<Longrightarrow>
         conn_send ops c data p = Inr (1, deliver_frame (out_fd c) data p)"
    and receive_frame:
      "rd_avail p (in_fd c) = frame data @ rest \<Longrightarrow> message_ok data \<Longrightarrow>
         conn_receive ops c q p =
           Inr (1, full_block data, Some (length data), consume (in_fd c) (8 + length data) p)"
begin

lemma send_appends:
  "healthy (wr p (out_fd c)) \<Longrightarrow> message_ok data \<Longrightarrow>
     \<exists>p'. conn_send ops c data p = Inr (1, p') \<and>
       sent p' (out_fd c) = sent p (out_fd c) @ frame data \<and> rd p' = rd p \<and>
       healthy (wr p' (out_fd c))"
  by (simp add: send_frame)

text \<open>Whatever one process sends over the channel, another one reads back.\<close>

lemma transfer:
  assumes "healthy (wr p (out_fd c))" and "message_ok data"
    and "sent p (out_fd c) = []" and "conn_send ops c data p = Inr (r, p')"
    and "rd_avail q (in_fd d) = sent p' (out_fd c) @ rest"
  shows "conn_receive ops d x q =
    Inr (1, full_block data, Some (length data), consume (in_fd d) (8 + length data) q)"
proof (rule receive_frame)
  have "sent p' (out_fd c) = frame data" using assms(1-4) by (auto simp: send_frame)
  with assms(5) show "rd_avail q (in_fd d) = frame data @ rest" by simp
qed (rule assms(2))

lemma message_code_ok [simp]: "message_ok (enc32 w)"
  by (simp add: message_ok_def)

lemma receive_code:
  assumes "rd_avail p (in_fd c) = frame (enc32 w) @ rest"
  shows "\<exists>q' n. conn_receive ops c q p = Inr (1, q', Some n, consume (in_fd c) 12 p) \<and>
    load_int q' = Inr w"
  using receive_frame [OF assms message_code_ok] by simp

end

text \<open>
  Closing a connection whose record is intact returns, leaves the other descriptors alone and
  sends at most a last message on its own.
\<close>

locale closable_channel = channel ops in_fd out_fd
  for ops :: "'c comm" and in_fd :: "'c \<Rightarrow> fd" and out_fd :: "'c \<Rightarrow> fd" +
  fixes closable :: "'c \<Rightarrow> bool" and farewell :: "byte list"
  assumes close_returns:
    "closable c \<Longrightarrow> healthy (wr p (out_fd c)) \<Longrightarrow>
       \<exists>r p'. conn_close ops c p = Inr (r, p') \<and>
         sent p' = (sent p)(out_fd c := sent p (out_fd c) @ farewell)"

section \<open>Both transports send and receive the same way\<close>

text \<open>
  The two implementations differ in where the descriptors are kept and in what they do with
  the buffer of a failed receive. What they share is written once, over the descriptor.
\<close>

definition send_on :: "fd \<Rightarrow> byte list \<Rightarrow> proc \<Rightarrow> (int \<times> proc) c_result" where
  "send_on fd data p =
     (if length data = 0 then Inr (1, p)
      else c_bind (ensureWrite (enc64 (word_of_nat (length data))) fd p) (\<lambda>(ok, p).
        if ok = 0 then Inr (0, p) else ensureWrite data fd p))"

text \<open>The block a receive leaves behind: the bytes that arrived, at the front of its buffer.\<close>

definition received :: "nat \<Rightarrow> byte list \<Rightarrow> ptr" where
  "received len got = (case malloc len of Block _ \<Rightarrow> filled len got | q \<Rightarrow> q)"

lemma send_on_frame:
  assumes "healthy (wr p fd)" and "message_ok data"
  shows "send_on fd data p = Inr (1, deliver_frame fd data p)"
  using assms ensureWrite_healthy [of p fd "enc64 (word_of_nat (length data))"]
    ensureWrite_healthy [of "deliver fd (enc64 (word_of_nat (length data))) p" fd data]
  by (simp add: send_on_def message_ok_def deliver_frame_def)

lemma received_all: "n < 2 ^ 63 \<Longrightarrow> n = length got \<Longrightarrow> received n got = full_block got"
  by (simp add: received_def malloc_def)

lemma ensureRead_frame_length:
  assumes "rd_avail p fd = frame data @ rest"
  shows "ensureRead 8 fd p = Inr (1, enc64 (word_of_nat (length data)), consume fd 8 p)"
  using assms ensureRead_exact [of 8 p fd] by (simp add: frame_def)

lemma ensureRead_frame_data:
  assumes "rd_avail p fd = frame data @ rest" and "length data < 2 ^ 31"
  shows "ensureRead (length data) fd (consume fd 8 p) =
    Inr (1, data, consume fd (8 + length data) p)"
  using assms ensureRead_exact [of "length data" "consume fd 8 p" fd]
  by (simp add: frame_def consume_consume)

end
