(* ===== verification/Codec.thy ===== *)
theory Codec
  imports Comm
begin

text \<open>
  The contract between a value and its wire format, and what it gives over a connection. Orders
  and products both keep it; the servers and the client rely on nothing else of the formats.
\<close>

text \<open>
  \<open>ok\<close> are the abstract values that can be sent, \<open>repr\<close> gives the structure in memory,
  \<open>enc\<close> the promised bytes; \<open>ser\<close> and \<open>unser\<close> are the routines of the program.
\<close>

locale wire_codec =
  fixes ok :: "'a \<Rightarrow> bool" and repr :: "'a \<Rightarrow> 'b" and enc :: "'a \<Rightarrow> byte list"
    and ser :: "'b \<Rightarrow> (nat \<times> ptr) c_result" and unser :: "ptr \<Rightarrow> 'b c_result"
  assumes ser_layout: "ok x \<Longrightarrow> ser (repr x) = Inr (length (enc x), full_block (enc x))"
    and unser_layout: "ok x \<Longrightarrow> unser (full_block (enc x @ rest)) = Inr (repr x)"
    and enc_message: "ok x \<Longrightarrow> message_ok (enc x)"
begin

lemma unser_enc: "ok x \<Longrightarrow> unser (full_block (enc x)) = Inr (repr x)"
  using unser_layout [of x "[]"] by simp

lemma roundtrip: "ok x \<Longrightarrow> c_bind (ser (repr x)) (\<lambda>(n, d). unser d) = Inr (repr x)"
  by (simp add: ser_layout unser_enc)

text \<open>No encoding is a proper prefix of another one: a parser knows where the value ends.\<close>

lemma prefix_free: "ok x \<Longrightarrow> ok y \<Longrightarrow> enc x @ r = enc y @ s \<Longrightarrow> repr x = repr y"
  using unser_layout [of x r] unser_layout [of y s] by simp

lemma ser_bytes:
  "ok x \<Longrightarrow> c_bind (ser (repr x)) (\<lambda>(n, d). mem_read d 0 n) = Inr (enc x)"
  by (simp add: ser_layout mem_read_full)

end

text \<open>A value that is sent over a channel arrives as it was.\<close>

locale object_channel =
  wire_codec ok repr enc ser unser + channel ops in_fd out_fd
  for ok :: "'a \<Rightarrow> bool" and repr :: "'a \<Rightarrow> 'b" and enc :: "'a \<Rightarrow> byte list"
    and ser :: "'b \<Rightarrow> (nat \<times> ptr) c_result" and unser :: "ptr \<Rightarrow> 'b c_result"
    and ops :: "'c comm" and in_fd :: "'c \<Rightarrow> fd" and out_fd :: "'c \<Rightarrow> fd"
begin

lemma ship_value:
  assumes "ok x" and "healthy (wr p (out_fd c))" and "sent p (out_fd c) = []"
    and "c_bind (ser (repr x)) (\<lambda>(n, d). c_bind (mem_read d 0 n) (\<lambda>bs. conn_send ops c bs p)) = Inr (r, p')"
    and "rd_avail q (in_fd d) = sent p' (out_fd c) @ rest"
  shows "\<exists>buf n q'. conn_receive ops d old q = Inr (1, buf, n, q') \<and> unser buf = Inr (repr x) \<and>
    rd_avail q' (in_fd d) = rest"
proof -
  have "conn_send ops c (enc x) p = Inr (r, p')"
    using assms(1,4) by (simp add: ser_layout mem_read_full)
  moreover from this have "sent p' (out_fd c) = frame (enc x)"
    using assms(1-3) by (auto simp: send_frame enc_message)
  ultimately show ?thesis
    using assms transfer [of p c "enc x" r p' q d rest old] by (simp add: enc_message unser_enc)
qed

end

end
