(* ===== verification/Product.thy ===== *)
theory Product
  imports Codec
begin

text \<open>
  \<^verbatim>\<open>common/product.c\<close>: the product record, its constructor and accessors, and its wire format.
\<close>

section \<open>The record and its operations\<close>

record product_t =
  pr_id :: c_int
  pr_name :: ptr
  pr_description :: ptr
  pr_price :: f32
  pr_stock :: c_int

definition productNew :: "c_int \<Rightarrow> ptr \<Rightarrow> ptr \<Rightarrow> f32 \<Rightarrow> c_int \<Rightarrow> product_t c_result" where
  "productNew ident name description price stock =
     c_bind (strlen name) (\<lambda>nlen.
     c_bind (strlen description) (\<lambda>dlen.
     let nameSize = nlen + 1; descrSize = dlen + 1 in
     c_bind (strncpy (malloc nameSize) name nameSize) (\<lambda>name'.
     c_bind (strncpy (malloc descrSize) description descrSize) (\<lambda>description'.
     Inr \<lparr>pr_id = ident, pr_name = name', pr_description = description',
          pr_price = price, pr_stock = stock\<rparr>))))"

text \<open>\<open>productFree\<close> releases both strings; the record is returned as it would be seen dangling.\<close>

definition productFree :: "product_t \<Rightarrow> product_t c_result" where
  "productFree p =
     c_bind (c_free (pr_description p)) (\<lambda>d.
     c_bind (c_free (pr_name p)) (\<lambda>n.
     Inr (p\<lparr>pr_description := d, pr_name := n\<rparr>)))"

definition productGetId :: "product_t \<Rightarrow> c_int" where
  "productGetId p = pr_id p"

definition productGetName :: "product_t \<Rightarrow> ptr" where
  "productGetName p = pr_name p"

definition productGetDescription :: "product_t \<Rightarrow> ptr" where
  "productGetDescription p = pr_description p"

definition productGetPrice :: "product_t \<Rightarrow> f32" where
  "productGetPrice p = pr_price p"

definition productGetStock :: "product_t \<Rightarrow> c_int" where
  "productGetStock p = pr_stock p"

definition productSetStock :: "product_t \<Rightarrow> c_int \<Rightarrow> int \<times> product_t" where
  "productSetStock p newStock =
     (if sint newStock < 0 then (0, p) else (1, p\<lparr>pr_stock := newStock\<rparr>))"

section \<open>The wire format\<close>

text \<open>
  Each \<open>memcpy\<close> of the source is one store or read at \<open>offset\<close>, and each
  \<open>offset += sizeof ...\<close> converts back to \<open>int\<close>; \<open>offset += nameLen\<close> adds two \<open>int\<close> values.
\<close>

definition productSerialize :: "product_t \<Rightarrow> (nat \<times> ptr) c_result" where
  "productSerialize p =
     (let offset = 0 in
     c_bind (strlen (pr_name p)) (\<lambda>nl. let nameLen = to_int (int (nl + 1)) in
     c_bind (strlen (pr_description p)) (\<lambda>dl. let descrLen = to_int (int (dl + 1)) in
     let totalLen = (4 + 4 + size_of_int nameLen + 4 + size_of_int descrLen + 4 + 4) mod 2 ^ 64;
         dest = malloc totalLen in
     c_bind (mem_write dest offset (enc32 (pr_id p))) (\<lambda>dest. let offset = to_int (offset + 4) in
     c_bind (mem_write dest offset (enc32 (word_of_int nameLen))) (\<lambda>dest.
     let offset = to_int (offset + 4) in
     c_bind (mem_read (pr_name p) 0 (size_of_int nameLen)) (\<lambda>name.
     c_bind (mem_write dest offset name) (\<lambda>dest.
     c_bind (int_add offset nameLen) (\<lambda>offset.
     c_bind (mem_write dest offset (enc32 (word_of_int descrLen))) (\<lambda>dest.
     let offset = to_int (offset + 4) in
     c_bind (mem_read (pr_description p) 0 (size_of_int descrLen)) (\<lambda>descr.
     c_bind (mem_write dest offset descr) (\<lambda>dest.
     c_bind (int_add offset descrLen) (\<lambda>offset.
     c_bind (mem_write dest offset (enc32 (pr_price p))) (\<lambda>dest. let offset = to_int (offset + 4) in
     c_bind (mem_write dest offset (enc32 (pr_stock p))) (\<lambda>dest.
     Inr (totalLen, dest)))))))))))))))"

text \<open>
  \<open>malloc(len)\<close> followed by \<open>memcpy\<close> of \<open>len\<close> bytes into it: a length that is negative as an
  \<open>int\<close> asks for more than any object can hold, so the copy writes through a null pointer.
\<close>

definition memdup :: "ptr \<Rightarrow> int \<Rightarrow> int \<Rightarrow> ptr c_result" where
  "memdup data offset len =
     (case malloc (size_of_int len) of
        Block _ \<Rightarrow> c_bind (mem_read data offset (size_of_int len)) (\<lambda>bs. Inr (full_block bs))
      | _ \<Rightarrow> Inl Null_deref)"

definition productUnserialize :: "ptr \<Rightarrow> product_t c_result" where
  "productUnserialize data =
     (let offset = 0 in
     c_bind (mem_read data offset 4) (\<lambda>ident. let offset = to_int (offset + 4) in
     c_bind (mem_read data offset 4) (\<lambda>nl. let nameLen = sint (dec32 nl); offset = to_int (offset + 4) in
     c_bind (memdup data offset nameLen) (\<lambda>name.
     c_bind (int_add offset nameLen) (\<lambda>offset.
     c_bind (mem_read data offset 4) (\<lambda>dl. let descrLen = sint (dec32 dl); offset = to_int (offset + 4) in
     c_bind (memdup data offset descrLen) (\<lambda>description.
     c_bind (int_add offset descrLen) (\<lambda>offset.
     c_bind (mem_read data offset 4) (\<lambda>price. let offset = to_int (offset + 4) in
     c_bind (mem_read data offset 4) (\<lambda>stock.
     Inr \<lparr>pr_id = dec32 ident, pr_name = name, pr_description = description,
          pr_price = dec32 price, pr_stock = dec32 stock\<rparr>))))))))))"

section \<open>Well-formed products\<close>

text \<open>
  The abstract product: its strings are byte lists with their terminator. Every product the
  program builds is the image of one.
\<close>

record product_spec =
  ps_id :: c_int
  ps_name :: "byte list"
  ps_description :: "byte list"
  ps_price :: f32
  ps_stock :: c_int

definition product_of :: "product_spec \<Rightarrow> product_t" where
  "product_of s = \<lparr>pr_id = ps_id s, pr_name = full_block (ps_name s),
     pr_description = full_block (ps_description s), pr_price = ps_price s, pr_stock = ps_stock s\<rparr>"

definition product_ok :: "product_spec \<Rightarrow> bool" where
  "product_ok s \<longleftrightarrow> c_string (ps_name s) \<and> c_string (ps_description s) \<and>
     length (ps_name s) + length (ps_description s) + 20 < 2 ^ 31"

text \<open>The layout the protocol promises for a product.\<close>

definition product_bytes :: "product_spec \<Rightarrow> byte list" where
  "product_bytes s =
     enc32 (ps_id s) @
     enc32 (word_of_nat (length (ps_name s))) @ ps_name s @
     enc32 (word_of_nat (length (ps_description s))) @ ps_description s @
     enc32 (ps_price s) @ enc32 (ps_stock s)"

lemma length_product_bytes:
  "length (product_bytes s) = 20 + length (ps_name s) + length (ps_description s)"
  by (simp add: product_bytes_def)


section \<open>Correctness of the wire format\<close>

lemmas run_int = Let_def in_int_def nat_add_distrib to_int_id int_add_ok
lemmas run_c = run_int mem_write_filled mem_read_full

lemma product_ok_bounds:
  assumes "product_ok s"
  shows "in_int (int (length (ps_name s)))" and "in_int (int (length (ps_description s)))"
    and "length (ps_name s) < 2 ^ 31" and "length (ps_description s) < 2 ^ 31"
    and "length (ps_name s) + length (ps_description s) + 20 < 2 ^ 31"
    and "0 < length (ps_name s)" and "0 < length (ps_description s)"
  using assms by (auto simp: product_ok_def in_int_def c_string_def)

text \<open>
  Serialising any well-formed product stores every byte of the promised layout, in order
  and inside the block, and reports the length of the block.
\<close>

lemma productSerialize_layout:
  assumes "product_ok s"
  shows "productSerialize (product_of s) =
    Inr (length (product_bytes s), full_block (product_bytes s))"
proof -
  note b = product_ok_bounds [OF assms]
  let ?n = "length (ps_name s)" and ?d = "length (ps_description s)"
  have strings: "strlen (full_block (ps_name s)) = Inr (?n - 1)"
      "strlen (full_block (ps_description s)) = Inr (?d - 1)"
    using assms by (simp_all add: product_ok_def strlen_c_string)
  have lens: "1 + int (?n - Suc 0) = int ?n" "1 + int (?d - Suc 0) = int ?d"
    using b by linarith+
  have block: "malloc (20 + (?n + ?d)) = filled (20 + (?n + ?d)) []"
    using b by (intro malloc_filled) simp
  show ?thesis
    unfolding productSerialize_def product_of_def
    using b by (simp add: strings lens block run_c product_bytes_def filled_eq_full)
qed

text \<open>
  Parsing those bytes, whatever follows them in the buffer, gives the product back.
\<close>

lemma productUnserialize_layout:
  assumes "product_ok s"
  shows "productUnserialize (full_block (product_bytes s @ rest)) = Inr (product_of s)"
proof -
  note b = product_ok_bounds [OF assms]
  let ?n = "length (ps_name s)" and ?d = "length (ps_description s)"
  have blocks: "malloc ?n = Block (replicate ?n None)" "malloc ?d = Block (replicate ?d None)"
    using b by (simp_all add: malloc_def)
  show ?thesis
    unfolding productUnserialize_def product_of_def memdup_def
    using b by (simp add: blocks run_c product_bytes_def sint_of_nat)
qed


text \<open>A buffer that is cut anywhere inside a product makes the parser read past its end:
  nothing checks the lengths of the message against the bytes that arrived.\<close>

theorem productUnserialize_truncated:
  assumes "product_ok s" and "k < length (product_bytes s)"
  shows "productUnserialize (full_block (take k (product_bytes s))) = Inl Out_of_bounds"
proof -
  note b = product_ok_bounds [OF assms(1)]
  let ?n = "length (ps_name s)" and ?d = "length (ps_description s)"
  have blocks: "malloc ?n = Block (replicate ?n None)" "malloc ?d = Block (replicate ?d None)"
    using b by (simp_all add: malloc_def)
  have len: "length (take k (product_bytes s)) = k" using assms(2) by simp
  have field: "mem_read (full_block (take k (product_bytes s))) (int a) n =
      (if a + n \<le> k then Inr (take n (drop a (product_bytes s))) else Inl Out_of_bounds)" for a n
    using assms(2) by (simp add: mem_read_full drop_take min_def)
  have f: "take 4 (product_bytes s) = enc32 (ps_id s)"
    "take 4 (drop 4 (product_bytes s)) = enc32 (word_of_nat ?n)"
    "take 4 (drop (8 + ?n) (product_bytes s)) = enc32 (word_of_nat ?d)"
    by (simp_all add: product_bytes_def)
  show ?thesis
    unfolding productUnserialize_def memdup_def
    using b assms(2) field [of 0 4] field [of 4 4] field [of 8 ?n] field [of "8 + ?n" 4]
      field [of "12 + ?n" ?d] field [of "12 + ?n + ?d" 4] field [of "16 + (?n + ?d)" 4]
    by (simp add: run_int blocks f sint_of_nat length_product_bytes)
qed

text \<open>A negative length field asks \<open>malloc\<close> for more than any object can hold; the copy
  that follows writes through the null pointer it returns.\<close>

theorem productUnserialize_negative_length:
  assumes "sint l < 0"
  shows "productUnserialize (full_block (enc32 i @ enc32 l @ rest)) = Inl Null_deref"
proof -
  have "malloc (size_of_int (sint l)) = Null_ptr"
    using size_of_int_neg [OF in_int_sint assms] by (simp add: malloc_def)
  then show ?thesis
    by (simp add: productUnserialize_def memdup_def mem_read_full Let_def to_int_id in_int_def)
qed

section \<open>The other operations\<close>

lemma productNew_of:
  assumes "product_ok s"
  shows "productNew (ps_id s) (full_block (ps_name s)) (full_block (ps_description s))
     (ps_price s) (ps_stock s) = Inr (product_of s)"
proof -
  note b = product_ok_bounds [OF assms]
  have c: "c_string (ps_name s)" "c_string (ps_description s)"
    using assms by (simp_all add: product_ok_def)
  then show ?thesis
    using strncpy_c_string [OF c(1)] strncpy_c_string [OF c(2)] b
    by (simp add: productNew_def product_of_def strlen_c_string Let_def)
qed

text \<open>\<open>productNew\<close> copies both strings with their terminators into blocks of exactly their
  size, stores the numbers, and keeps \<open>product_ok\<close>.\<close>

theorem productNew_copies:
  assumes "product_ok s"
  shows "productNew (ps_id s) (full_block (ps_name s)) (full_block (ps_description s))
     (ps_price s) (ps_stock s) = Inr (product_of s)"
  by (rule productNew_of [OF assms])


section \<open>The contract of the format\<close>

interpretation product_wire: wire_codec product_ok product_of product_bytes productSerialize productUnserialize
proof
  fix s :: product_spec
  assume "product_ok s"
  from product_ok_bounds [OF this] show "message_ok (product_bytes s)"
    by (simp add: message_ok_def length_product_bytes)
qed (simp_all add: productSerialize_layout productUnserialize_layout)

text \<open>C23: Serialising a well-formed product stores exactly the bytes of the promised layout and
  reports their number; parsing a buffer that starts with them, whatever follows, gives the
  product back.\<close>

theorem product_wire_format:
  assumes "product_ok s"
  shows "productSerialize (product_of s) =
      Inr (length (product_bytes s), full_block (product_bytes s)) \<and>
    productUnserialize (full_block (product_bytes s @ rest)) = Inr (product_of s)"
  using assms product_wire.ser_layout product_wire.unser_layout by blast

definition sample_product :: product_spec where
  "sample_product = \<lparr>ps_id = 7, ps_name = [82, 117, 109, 0], ps_description = [100, 0],
     ps_price = 0x41200000, ps_stock = 3\<rparr>"

lemma sample_product_ok: "product_ok sample_product"
  by (simp add: sample_product_def product_ok_def c_string_def)

lemma product_wire_format_witness:
  "productUnserialize (full_block (product_bytes sample_product @ [1, 2])) =
     Inr (product_of sample_product)"
  using product_wire_format [OF sample_product_ok] by blast

lemma productUnserialize_truncated_witness:
  "productUnserialize (full_block (take 10 (product_bytes sample_product))) = Inl Out_of_bounds"
  by (rule productUnserialize_truncated [OF sample_product_ok])
    (simp add: sample_product_def product_bytes_def)

lemma productUnserialize_negative_length_witness:
  "productUnserialize (full_block (enc32 1 @ enc32 (- 1) @ [0, 0])) = Inl Null_deref"
  by (rule productUnserialize_negative_length) simp

lemma productNew_copies_witness:
  "productNew 7 (full_block [82, 117, 109, 0]) (full_block [100, 0]) 0x41200000 3 =
     Inr (product_of sample_product)"
  using productNew_copies [OF sample_product_ok] by (simp add: sample_product_def)

end
