(* ===== verification/Order.thy ===== *)
theory Order
  imports Codec
begin

text \<open>
  \<^verbatim>\<open>common/order.c\<close>: an order is a delivery address and up to \<open>ORDER_MAX_SIZE\<close> entries, kept
  in an array of pointers. The entries are reached through the order only, so an
  \<open>OrderEntry\<close> handle is the index of its slot.
\<close>

section \<open>The structures\<close>

definition ORDER_MAX_SIZE :: nat where
  "ORDER_MAX_SIZE = 16"

record order_entry_t =
  oe_product_id :: c_int
  oe_quantity :: c_int
  oe_price :: f32

record order_t =
  or_address :: ptr
  or_numEntries :: c_int
  or_items :: "order_entry_t option list"

definition orderNew :: order_t where
  "orderNew = \<lparr>or_address = Null_ptr, or_numEntries = 0,
     or_items = replicate ORDER_MAX_SIZE None\<rparr>"

text \<open>\<open>order->items[i]->...\<close>: the slot must lie in the array and must hold an entry.\<close>

definition entry_at :: "order_t \<Rightarrow> int \<Rightarrow> order_entry_t c_result" where
  "entry_at ord i =
     (if 0 \<le> i \<and> i < int (length (or_items ord)) then
        (case or_items ord ! nat i of None \<Rightarrow> Inl Null_deref | Some e \<Rightarrow> Inr e)
      else Inl Out_of_bounds)"

definition set_item :: "order_t \<Rightarrow> int \<Rightarrow> order_entry_t \<Rightarrow> order_t c_result" where
  "set_item ord i e =
     (if 0 \<le> i \<and> i < int (length (or_items ord)) then
        Inr (ord\<lparr>or_items := (or_items ord)[nat i := Some e]\<rparr>)
      else Inl Out_of_bounds)"

section \<open>Accessors\<close>

definition orderGetNumEntries :: "order_t \<Rightarrow> int" where
  "orderGetNumEntries ord = sint (or_numEntries ord)"

text \<open>The handle of an entry: its slot, when the slot holds a non-null pointer.\<close>

definition orderGetEntryNum :: "order_t \<Rightarrow> int \<Rightarrow> int option c_result" where
  "orderGetEntryNum ord entryNum =
     (if entryNum < 0 \<or> entryNum \<ge> orderGetNumEntries ord then Inr None
      else if entryNum < int (length (or_items ord)) then
        Inr (map_option (\<lambda>_. entryNum) (or_items ord ! nat entryNum))
      else Inl Out_of_bounds)"

text \<open>Using a handle dereferences it.\<close>

definition deref_entry :: "order_t \<Rightarrow> int option \<Rightarrow> order_entry_t c_result" where
  "deref_entry ord e = (case e of None \<Rightarrow> Inl Null_deref | Some i \<Rightarrow> entry_at ord i)"

definition orderEntryGetId :: "order_t \<Rightarrow> int option \<Rightarrow> c_int c_result" where
  "orderEntryGetId ord e = c_bind (deref_entry ord e) (\<lambda>x. Inr (oe_product_id x))"

definition orderEntryGetQuantity :: "order_t \<Rightarrow> int option \<Rightarrow> c_int c_result" where
  "orderEntryGetQuantity ord e = c_bind (deref_entry ord e) (\<lambda>x. Inr (oe_quantity x))"

definition orderEntryGetPrice :: "order_t \<Rightarrow> int option \<Rightarrow> f32 c_result" where
  "orderEntryGetPrice ord e = c_bind (deref_entry ord e) (\<lambda>x. Inr (oe_price x))"

definition orderEntrySetQuantity :: "order_t \<Rightarrow> int option \<Rightarrow> c_int \<Rightarrow> order_t c_result" where
  "orderEntrySetQuantity ord e newQuantity =
     c_bind (deref_entry ord e) (\<lambda>x. set_item ord (the e) (x\<lparr>oe_quantity := newQuantity\<rparr>))"

definition orderGetAddress :: "order_t \<Rightarrow> ptr" where
  "orderGetAddress ord = or_address ord"

definition orderSetAddress :: "order_t \<Rightarrow> ptr \<Rightarrow> order_t c_result" where
  "orderSetAddress ord address =
     c_bind (if or_address ord \<noteq> Null_ptr then c_free (or_address ord) else Inr Null_ptr) (\<lambda>_.
     if address = Null_ptr then Inr (ord\<lparr>or_address := Null_ptr\<rparr>)
     else
       c_bind (strlen address) (\<lambda>l. let len = to_int (int (l + 1)) in
       c_bind (strncpy (malloc (size_of_int len)) address (size_of_int len)) (\<lambda>a.
       Inr (ord\<lparr>or_address := a\<rparr>))))"

text \<open>
  \<open>orderFree\<close> frees the entries it counts and then the order itself; the result is the order
  as a dangling pointer would still show it.
\<close>

function orderFree_loop :: "int \<Rightarrow> order_t \<Rightarrow> order_t c_result" where
  "orderFree_loop i ord =
     (if i < sint (or_numEntries ord) then
        (if i < 0 \<or> int (length (or_items ord)) \<le> i then Inl Out_of_bounds
         else orderFree_loop (i + 1) (ord\<lparr>or_items := (or_items ord)[nat i := None]\<rparr>))
      else Inr ord)"
  by pat_completeness auto
termination by (relation "measure (\<lambda>(i, ord). nat (sint (or_numEntries ord) - i))") auto

definition orderFree :: "order_t \<Rightarrow> order_t c_result" where
  "orderFree ord = orderFree_loop 0 ord"

section \<open>Adding to an order\<close>

text \<open>The search loop of \<open>orderAdd\<close>: the first entry with this product, or the entry count.\<close>

function orderAdd_find :: "order_t \<Rightarrow> c_int \<Rightarrow> int \<Rightarrow> int c_result" where
  "orderAdd_find ord product_id i =
     (if i < sint (or_numEntries ord) then
        c_bind (entry_at ord i) (\<lambda>e.
          if product_id = oe_product_id e then Inr i else orderAdd_find ord product_id (i + 1))
      else Inr i)"
  by pat_completeness auto
termination by (relation "measure (\<lambda>(ord, pid, i). nat (sint (or_numEntries ord) - i))") auto

definition orderAdd :: "order_t \<Rightarrow> c_int \<Rightarrow> c_int \<Rightarrow> f32 \<Rightarrow> (int \<times> order_t) c_result" where
  "orderAdd ord product_id quantity price =
     c_bind (orderAdd_find ord product_id 0) (\<lambda>i.
     if i < sint (or_numEntries ord) then
       c_bind (entry_at ord i) (\<lambda>e.
       c_bind (int_add (sint (oe_quantity e)) (sint quantity)) (\<lambda>q.
       c_bind (set_item ord i (e\<lparr>oe_quantity := word_of_int q\<rparr>)) (\<lambda>ord. Inr (0, ord))))
     else if i < int ORDER_MAX_SIZE then
       c_bind (int_add (sint (or_numEntries ord)) 1) (\<lambda>n.
       c_bind (set_item (ord\<lparr>or_numEntries := word_of_int n\<rparr>) i
         \<lparr>oe_product_id = product_id, oe_quantity = quantity, oe_price = price\<rparr>) (\<lambda>ord.
       Inr (0, ord)))
     else Inr (-1, ord))"

section \<open>The wire format\<close>

function orderSerialize_loop :: "order_t \<Rightarrow> int \<Rightarrow> int \<Rightarrow> ptr \<Rightarrow> ptr c_result" where
  "orderSerialize_loop ord i offset dest =
     (if i < sint (or_numEntries ord) then
        c_bind (entry_at ord i) (\<lambda>e.
        c_bind (mem_write dest offset (enc32 (oe_product_id e))) (\<lambda>dest.
        c_bind (mem_write dest (to_int (offset + 4)) (enc32 (oe_quantity e))) (\<lambda>dest.
        c_bind (mem_write dest (to_int (offset + 8)) (enc32 (oe_price e))) (\<lambda>dest.
        orderSerialize_loop ord (i + 1) (to_int (offset + 12)) dest))))
      else Inr dest)"
  by pat_completeness auto
termination by (relation "measure (\<lambda>(ord, i, offset, dest). nat (sint (or_numEntries ord) - i))") auto

text \<open>The address length is a \<open>size_t\<close>: 0 for a null address, the block of the string otherwise.\<close>

definition orderSerialize :: "order_t \<Rightarrow> (nat \<times> ptr) c_result" where
  "orderSerialize ord =
     c_bind (if or_address ord = Null_ptr then Inr 0
             else c_bind (strlen (or_address ord)) (\<lambda>l. Inr (l + 1))) (\<lambda>addressLen.
     let totalLen = (8 + addressLen + 4 + size_of_int (sint (or_numEntries ord)) * 12) mod 2 ^ 64;
         dest = malloc totalLen in
     c_bind (mem_write dest 0 (enc64 (word_of_nat addressLen))) (\<lambda>dest.
     c_bind (if 0 < addressLen then
               c_bind (mem_read (or_address ord) 0 addressLen) (\<lambda>a. mem_write dest 8 a)
             else Inr dest) (\<lambda>dest.
     let offset = to_int (8 + int addressLen) in
     c_bind (mem_write dest offset (enc32 (or_numEntries ord))) (\<lambda>dest.
     let offset = to_int (offset + 4) in
     c_bind (orderSerialize_loop ord 0 offset dest) (\<lambda>dest. Inr (totalLen, dest))))))"

function orderUnserialize_loop :: "ptr \<Rightarrow> int \<Rightarrow> int \<Rightarrow> order_t \<Rightarrow> order_t c_result" where
  "orderUnserialize_loop data i offset ord =
     (if i < sint (or_numEntries ord) then
        (if i < 0 \<or> int (length (or_items ord)) \<le> i then Inl Out_of_bounds
         else
           c_bind (mem_read data offset 4) (\<lambda>pid.
           c_bind (mem_read data (to_int (offset + 4)) 4) (\<lambda>q.
           c_bind (mem_read data (to_int (offset + 8)) 4) (\<lambda>pr.
           orderUnserialize_loop data (i + 1) (to_int (offset + 12))
             (ord\<lparr>or_items := (or_items ord)[nat i := Some \<lparr>oe_product_id = dec32 pid,
                oe_quantity = dec32 q, oe_price = dec32 pr\<rparr>]\<rparr>)))))
      else Inr ord)"
  by pat_completeness auto
termination
  by (relation "measure (\<lambda>(data, i, offset, ord). nat (sint (or_numEntries ord) - i))") auto

text \<open>The address: null for length 0, otherwise a copy of the string that starts at offset 8.\<close>

definition unserialize_address :: "ptr \<Rightarrow> nat \<Rightarrow> ptr c_result" where
  "unserialize_address data addressLen =
     (if 0 < addressLen then
        c_bind (block_of data) (\<lambda>cs. strncpy (malloc addressLen) (Block (drop 8 cs)) addressLen)
      else Inr Null_ptr)"

definition orderUnserialize :: "ptr \<Rightarrow> order_t c_result" where
  "orderUnserialize data =
     (let result = orderNew in
     c_bind (mem_read data 0 8) (\<lambda>al. let addressLen = unat (dec64 al) in
     c_bind (unserialize_address data addressLen) (\<lambda>address.
     let offset = to_int (8 + int addressLen) in
     c_bind (mem_read data offset 4) (\<lambda>ne.
     let offset = to_int (offset + 4) in
     orderUnserialize_loop data 0 offset
       (result\<lparr>or_address := address, or_numEntries := dec32 ne\<rparr>)))))"

declare orderFree_loop.simps [simp del] orderAdd_find.simps [simp del]
  orderSerialize_loop.simps [simp del] orderUnserialize_loop.simps [simp del]


section \<open>Abstract orders\<close>

text \<open>
  What an order means: a delivery address that may be missing, and a list of entries. The
  concrete order keeps the list in the first slots of its array.
\<close>

record order_spec =
  os_address :: "byte list option"
  os_entries :: "order_entry_t list"

definition address_ptr :: "byte list option \<Rightarrow> ptr" where
  "address_ptr a = (case a of None \<Rightarrow> Null_ptr | Some bs \<Rightarrow> full_block bs)"

definition order_of :: "order_spec \<Rightarrow> order_t" where
  "order_of s = \<lparr>or_address = address_ptr (os_address s),
     or_numEntries = word_of_nat (length (os_entries s)),
     or_items = map Some (os_entries s) @ replicate (ORDER_MAX_SIZE - length (os_entries s)) None\<rparr>"

definition address_ok :: "byte list option \<Rightarrow> bool" where
  "address_ok a \<longleftrightarrow> (case a of None \<Rightarrow> True | Some bs \<Rightarrow> c_string bs \<and> length bs < 2 ^ 30)"

definition order_ok :: "order_spec \<Rightarrow> bool" where
  "order_ok s \<longleftrightarrow> address_ok (os_address s) \<and> length (os_entries s) \<le> ORDER_MAX_SIZE"

definition entry_bytes :: "order_entry_t \<Rightarrow> byte list" where
  "entry_bytes e = enc32 (oe_product_id e) @ enc32 (oe_quantity e) @ enc32 (oe_price e)"

definition address_bytes :: "byte list option \<Rightarrow> byte list" where
  "address_bytes a = (case a of None \<Rightarrow> [] | Some bs \<Rightarrow> bs)"

definition order_bytes :: "order_spec \<Rightarrow> byte list" where
  "order_bytes s =
     enc64 (word_of_nat (length (address_bytes (os_address s)))) @ address_bytes (os_address s) @
     enc32 (word_of_nat (length (os_entries s))) @ concat (map entry_bytes (os_entries s))"

lemma length_entry_bytes [simp]: "length (entry_bytes e) = 12"
  by (simp add: entry_bytes_def)

lemma length_entries_bytes [simp]: "length (concat (map entry_bytes es)) = 12 * length es"
  by (induction es) auto

lemma length_order_bytes:
  "length (order_bytes s) = 12 + length (address_bytes (os_address s)) + 12 * length (os_entries s)"
  by (simp add: order_bytes_def)

lemma order_ok_bounds:
  assumes "order_ok s"
  shows "length (os_entries s) \<le> 16" and "length (address_bytes (os_address s)) < 2 ^ 30"
  using assms
  by (auto simp: order_ok_def address_ok_def address_bytes_def ORDER_MAX_SIZE_def split: option.splits)

lemma numEntries_order_of:
  "length (os_entries s) \<le> 16 \<Longrightarrow> sint (or_numEntries (order_of s)) = int (length (os_entries s))"
  by (simp add: order_of_def sint_of_nat in_int_def)

lemma items_length_order_of:
  "length (os_entries s) \<le> 16 \<Longrightarrow> length (or_items (order_of s)) = 16"
  by (simp add: order_of_def ORDER_MAX_SIZE_def)

lemma entry_at_order_of:
  assumes "length (os_entries s) \<le> 16" and "k < length (os_entries s)"
  shows "entry_at (order_of s) (int k) = Inr (os_entries s ! k)"
proof -
  have "or_items (order_of s) ! k = Some (os_entries s ! k)"
    using assms by (simp add: order_of_def nth_append)
  then show ?thesis using assms items_length_order_of [OF assms(1)] by (simp add: entry_at_def)
qed

lemma set_item_order_of:
  assumes "length (os_entries s) \<le> 16" and "k < length (os_entries s)"
  shows "set_item (order_of s) (int k) e = Inr (order_of (s\<lparr>os_entries := (os_entries s)[k := e]\<rparr>))"
proof -
  have "(or_items (order_of s))[k := Some e] =
      or_items (order_of (s\<lparr>os_entries := (os_entries s)[k := e]\<rparr>))"
    using assms by (simp add: order_of_def list_update_append map_update)
  then show ?thesis using assms items_length_order_of [OF assms(1)]
    by (simp add: set_item_def order_of_def)
qed

section \<open>Correctness of the wire format\<close>

lemma orderSerialize_loop_layout:
  assumes "length (os_entries s) \<le> 16" and "os_entries s = pre @ es"
    and "length done + 12 * length es \<le> n" and "n < 2 ^ 31"
  shows "orderSerialize_loop (order_of s) (int (length pre)) (int (length done)) (filled n done) =
    Inr (filled n (done @ concat (map entry_bytes es)))"
  using assms(2,3)
proof (induction es arbitrary: pre "done")
  case Nil
  with assms(1) show ?case
    by (subst orderSerialize_loop.simps) (simp add: numEntries_order_of)
next
  case (Cons e es)
  have entry: "entry_at (order_of s) (int (length pre)) = Inr e"
    using entry_at_order_of [OF assms(1), of "length pre"] Cons.prems(1) by simp
  have "orderSerialize_loop (order_of s) (int (length (pre @ [e]))) (int (length (done @ entry_bytes e)))
      (filled n (done @ entry_bytes e)) =
      Inr (filled n ((done @ entry_bytes e) @ concat (map entry_bytes es)))"
    using Cons.prems by (intro Cons.IH) auto
  then show ?case
    using entry Cons.prems assms(1,4)
    by (subst orderSerialize_loop.simps)
      (simp add: numEntries_order_of to_int_id in_int_def mem_write_filled entry_bytes_def algebra_simps)
qed

lemma orderSerialize_layout:
  assumes "order_ok s"
  shows "orderSerialize (order_of s) = Inr (length (order_bytes s), full_block (order_bytes s))"
proof -
  note b = order_ok_bounds [OF assms]
  let ?a = "address_bytes (os_address s)" and ?n = "length (order_bytes s)"
  let ?head = "enc64 (word_of_nat (length ?a)) @ ?a @ enc32 (word_of_nat (length (os_entries s)))"
  have loop: "orderSerialize_loop (order_of s) 0 (int (length ?head)) (filled ?n ?head) =
      Inr (filled ?n (?head @ concat (map entry_bytes (os_entries s))))"
    using orderSerialize_loop_layout [OF b(1), of "[]" "os_entries s" ?head ?n] b
    by (simp add: length_order_bytes)
  have total: "(8 + length ?a + 4 + size_of_int (sint (or_numEntries (order_of s))) * 12) mod 2 ^ 64 = ?n"
    using b by (simp add: numEntries_order_of length_order_bytes)
  have block: "malloc ?n = filled ?n []"
    using b by (intro malloc_filled) (simp add: length_order_bytes)
  have num: "or_numEntries (order_of s) = word_of_nat (length (os_entries s))"
    by (simp add: order_of_def)
  show ?thesis
  proof (cases "os_address s")
    case None
    then have "or_address (order_of s) = Null_ptr" "?a = []"
      by (simp_all add: order_of_def address_ptr_def address_bytes_def)
    with loop total block b show ?thesis
      unfolding orderSerialize_def
      by (simp add: Let_def to_int_id in_int_def mem_write_filled num order_bytes_def filled_eq_full)
  next
    case (Some bs)
    then have a: "or_address (order_of s) = full_block bs" "?a = bs"
      by (simp_all add: order_of_def address_ptr_def address_bytes_def)
    have c: "c_string bs" using assms Some by (simp add: order_ok_def address_ok_def)
    have "strlen (full_block bs) = Inr (length bs - 1)" "0 < length bs"
      using c c_string_length [OF c] by (simp_all only: strlen_c_string)
    with loop total block b a show ?thesis
      unfolding orderSerialize_def
      by (simp add: Let_def to_int_id in_int_def mem_write_filled mem_read_full num order_bytes_def
          filled_eq_full Suc_diff_le)
  qed
qed


text \<open>
  The parsing loop fills the array slot by slot. \<open>partial\<close> is the order while entries are
  still to come: it announces them all but holds only the first.
\<close>

definition partial :: "order_spec \<Rightarrow> order_entry_t list \<Rightarrow> order_t" where
  "partial s es = \<lparr>or_address = address_ptr (os_address s),
     or_numEntries = word_of_nat (length (os_entries s)),
     or_items = map Some es @ replicate (ORDER_MAX_SIZE - length es) None\<rparr>"

lemma partial_update:
  assumes "length pre < ORDER_MAX_SIZE"
  shows "(partial s pre)\<lparr>or_items := (or_items (partial s pre))[length pre := Some e]\<rparr> =
    partial s (pre @ [e])"
proof -
  obtain n where n: "ORDER_MAX_SIZE - length pre = Suc n"
    using assms by (metis Suc_diff_Suc)
  then have "ORDER_MAX_SIZE - Suc (length pre) = n" by linarith
  with n show ?thesis by (simp add: partial_def list_update_append)
qed

lemma numEntries_partial:
  "length (os_entries s) \<le> 16 \<Longrightarrow> sint (or_numEntries (partial s pre)) = int (length (os_entries s))"
  by (simp add: partial_def sint_of_nat in_int_def)

lemma orderUnserialize_loop_layout:
  assumes "length (os_entries s) \<le> 16" and "os_entries s = pre @ es"
    and "length done + 12 * length es + 12 < 2 ^ 31" and "offset = int (length done)"
  shows "orderUnserialize_loop (full_block (done @ concat (map entry_bytes es) @ rest))
      (int (length pre)) offset (partial s pre) = Inr (order_of s)"
  using assms(2-)
proof (induction es arbitrary: pre "done" offset)
  case Nil
  with assms(1) show ?case
    by (subst orderUnserialize_loop.simps)
      (simp add: partial_def order_of_def sint_of_nat in_int_def)
next
  case (Cons e es)
  have more: "int (length pre) < sint (or_numEntries (partial s pre))"
    using Cons.prems(1) numEntries_partial [OF assms(1), of pre] by simp
  have slot: "length pre < ORDER_MAX_SIZE" "length pre < 16" "length (or_items (partial s pre)) = 16"
    using Cons.prems(1) assms(1) by (simp_all add: partial_def ORDER_MAX_SIZE_def)
  have "orderUnserialize_loop (full_block ((done @ entry_bytes e) @ concat (map entry_bytes es) @ rest))
      (int (length (pre @ [e]))) (int (length (done @ entry_bytes e))) (partial s (pre @ [e])) =
      Inr (order_of s)"
    using Cons.prems by (intro Cons.IH) auto
  then show ?case
    using more slot Cons.prems
    by (subst orderUnserialize_loop.simps, cases e)
      (simp add: to_int_id in_int_def mem_read_full entry_bytes_def partial_update nat_add_distrib
        algebra_simps)
qed

lemma orderUnserialize_layout:
  assumes "order_ok s"
  shows "orderUnserialize (full_block (order_bytes s @ rest)) = Inr (order_of s)"
proof -
  note b = order_ok_bounds [OF assms]
  let ?a = "address_bytes (os_address s)"
  let ?head = "enc64 (word_of_nat (length ?a)) @ ?a @ enc32 (word_of_nat (length (os_entries s)))"
  have loop: "orderUnserialize_loop (full_block (order_bytes s @ rest)) 0 (12 + int (length ?a))
      (partial s []) = Inr (order_of s)"
    using orderUnserialize_loop_layout [OF b(1), of "[]" "os_entries s" ?head] b
    by (simp add: order_bytes_def)
  have start: "orderNew\<lparr>or_address := address_ptr (os_address s),
      or_numEntries := word_of_nat (length (os_entries s))\<rparr> = partial s []"
    by (simp add: orderNew_def partial_def)
  have addressLen: "unat (word_of_nat (length ?a) :: size_t) = length ?a"
      "uint (word_of_nat (length ?a) :: size_t) = int (length ?a)"
    using b by (simp_all add: unat_of_nat64 uint_of_nat64)
  have address: "unserialize_address (full_block (order_bytes s @ rest)) (length ?a) =
      Inr (address_ptr (os_address s))"
  proof (cases "os_address s")
    case None
    then show ?thesis by (simp add: unserialize_address_def address_bytes_def address_ptr_def)
  next
    case (Some bs)
    then have c: "c_string bs" using assms by (simp add: order_ok_def address_ok_def)
    obtain tail where tail: "drop 8 (map Some (order_bytes s @ rest)) = map Some bs @ tail"
      using Some by (simp add: order_bytes_def address_bytes_def)
    have "length bs < 2 ^ 63" using b(2) Some by (simp add: address_bytes_def)
    from strncpy_block [OF c this, of tail] tail c_string_length [OF c] Some show ?thesis
      by (simp add: unserialize_address_def address_bytes_def address_ptr_def)
  qed
  have fields: "mem_read (full_block (order_bytes s @ rest)) 0 8 = Inr (enc64 (word_of_nat (length ?a)))"
      "mem_read (full_block (order_bytes s @ rest)) (8 + int (length ?a)) 4 =
        Inr (enc32 (word_of_nat (length (os_entries s))))"
    by (simp_all add: mem_read_full order_bytes_def nat_add_distrib)
  show ?thesis
    unfolding orderUnserialize_def Let_def
    using b loop start address addressLen fields
    by (simp add: to_int_id in_int_def)
qed


text \<open>
  The entry count comes from the other side unchecked. When it announces more entries than
  the array has slots, the parser leaves the array or the buffer, whatever the bytes are.
\<close>

lemma orderUnserialize_loop_overrun:
  assumes "16 < sint (or_numEntries ord)" and "length (or_items ord) = 16" and "k \<le> 16"
    and "offset = int (12 + 12 * k)"
  shows "orderUnserialize_loop (full_block bs) (int k) offset ord = Inl Out_of_bounds"
  using assms
proof (induction "16 - k" arbitrary: k offset ord)
  case 0
  then show ?case by (subst orderUnserialize_loop.simps) simp
next
  case (Suc n)
  have "orderUnserialize_loop (full_block bs) (int (Suc k)) (int (12 + 12 * Suc k))
      (ord\<lparr>or_items := (or_items ord)[k := x]\<rparr>) = Inl Out_of_bounds" for x
    using Suc.hyps(2) Suc.prems by (intro Suc.hyps(1)) auto
  moreover have "k < 16" using Suc.hyps(2) by simp
  ultimately show ?case
    using Suc.prems
    by (subst orderUnserialize_loop.simps) (simp add: mem_read_full to_int_id in_int_def algebra_simps)
qed

text \<open>A serialised order that claims more entries than an order has slots makes the parser
  leave the array or the buffer, whatever the bytes after the count are.\<close>

theorem orderUnserialize_too_many_entries:
  assumes "16 < sint n"
  shows "orderUnserialize (full_block (enc64 0 @ enc32 n @ entries)) = Inl Out_of_bounds"
proof -
  let ?bs = "enc64 0 @ enc32 n @ entries"
  have "mem_read (full_block ?bs) 0 8 = Inr (enc64 0)" "mem_read (full_block ?bs) 8 4 = Inr (enc32 n)"
    by (simp_all add: mem_read_full)
  moreover have "orderUnserialize_loop (full_block ?bs) 0 12
      (orderNew\<lparr>or_address := Null_ptr, or_numEntries := n\<rparr>) = Inl Out_of_bounds"
    using orderUnserialize_loop_overrun
      [of "orderNew\<lparr>or_address := Null_ptr, or_numEntries := n\<rparr>" 0 12 ?bs] assms
    by (simp add: orderNew_def ORDER_MAX_SIZE_def)
  ultimately show ?thesis
    by (simp add: orderUnserialize_def unserialize_address_def to_int_id in_int_def)
qed

section \<open>Adding refines a list operation\<close>

text \<open>
  The abstract addition: the first entry with the product takes the quantity, and a product
  that is not there yet goes to the end. The price of an entry that exists is kept.
\<close>

fun add_entry :: "order_entry_t list \<Rightarrow> c_int \<Rightarrow> c_int \<Rightarrow> f32 \<Rightarrow> order_entry_t list c_result" where
  "add_entry [] pid q pr = Inr [\<lparr>oe_product_id = pid, oe_quantity = q, oe_price = pr\<rparr>]"
| "add_entry (e # es) pid q pr =
     (if oe_product_id e = pid then
        c_bind (int_add (sint (oe_quantity e)) (sint q)) (\<lambda>k.
          Inr (e\<lparr>oe_quantity := word_of_int k\<rparr> # es))
      else c_bind (add_entry es pid q pr) (\<lambda>es'. Inr (e # es')))"

definition product_ids :: "order_entry_t list \<Rightarrow> c_int list" where
  "product_ids es = map oe_product_id es"

definition order_add :: "order_spec \<Rightarrow> c_int \<Rightarrow> c_int \<Rightarrow> f32 \<Rightarrow> (int \<times> order_spec) c_result" where
  "order_add s pid q pr =
     (if pid \<notin> set (product_ids (os_entries s)) \<and> length (os_entries s) = ORDER_MAX_SIZE
      then Inr (-1, s)
      else c_bind (add_entry (os_entries s) pid q pr) (\<lambda>es. Inr (0, s\<lparr>os_entries := es\<rparr>)))"

definition first_slot :: "c_int \<Rightarrow> order_entry_t list \<Rightarrow> nat" where
  "first_slot pid es = length (takeWhile (\<lambda>e. oe_product_id e \<noteq> pid) es)"

lemma first_slot_le: "first_slot pid es \<le> length es"
  by (simp add: first_slot_def length_takeWhile_le)

lemma first_slot_less_iff: "first_slot pid es < length es \<longleftrightarrow> pid \<in> set (product_ids es)"
  by (induction es) (auto simp: first_slot_def product_ids_def)

lemma orderAdd_find_order_of:
  assumes "length (os_entries s) \<le> 16" and "k \<le> length (os_entries s)"
  shows "orderAdd_find (order_of s) pid (int k) =
    Inr (int (k + first_slot pid (drop k (os_entries s))))"
  using assms(2)
proof (induction "length (os_entries s) - k" arbitrary: k)
  case 0
  then have "k = length (os_entries s)" by simp
  then show ?case
    using assms(1) by (subst orderAdd_find.simps) (simp add: numEntries_order_of first_slot_def)
next
  case (Suc n)
  then have k: "k < length (os_entries s)" by simp
  then have d: "drop k (os_entries s) = os_entries s ! k # drop (Suc k) (os_entries s)"
    by (simp add: Cons_nth_drop_Suc)
  have "orderAdd_find (order_of s) pid (int (Suc k)) =
      Inr (int (Suc k + first_slot pid (drop (Suc k) (os_entries s))))"
    using Suc.hyps(2) k by (intro Suc.hyps(1)) auto
  then show ?case
    using k assms(1)
    by (subst orderAdd_find.simps)
      (auto simp: numEntries_order_of entry_at_order_of d first_slot_def algebra_simps)
qed

lemma add_entry_new: "pid \<notin> set (product_ids es) \<Longrightarrow>
    add_entry es pid q pr = Inr (es @ [\<lparr>oe_product_id = pid, oe_quantity = q, oe_price = pr\<rparr>])"
  by (induction es) (auto simp: product_ids_def)

lemma add_entry_old: "pid \<in> set (product_ids es) \<Longrightarrow>
    add_entry es pid q pr =
      c_bind (int_add (sint (oe_quantity (es ! first_slot pid es))) (sint q)) (\<lambda>k.
        Inr (es[first_slot pid es := (es ! first_slot pid es)\<lparr>oe_quantity := word_of_int k\<rparr>]))"
  by (induction es) (auto simp: product_ids_def first_slot_def c_bind_assoc)

lemma order_of_append:
  assumes "length (os_entries s) < 16"
  shows "set_item ((order_of s)\<lparr>or_numEntries := word_of_nat (length (os_entries s)) + 1\<rparr>)
      (int (length (os_entries s))) e = Inr (order_of (s\<lparr>os_entries := os_entries s @ [e]\<rparr>))"
proof -
  obtain n where n: "ORDER_MAX_SIZE - length (os_entries s) = Suc n"
    using assms by (metis ORDER_MAX_SIZE_def Suc_diff_Suc)
  then have "ORDER_MAX_SIZE - Suc (length (os_entries s)) = n" by linarith
  with n assms show ?thesis
    by (simp add: set_item_def order_of_def list_update_append ORDER_MAX_SIZE_def add.commute)
qed

lemma orderAdd_order_of:
  assumes "length (os_entries s) \<le> ORDER_MAX_SIZE"
  shows "orderAdd (order_of s) pid q pr =
    c_bind (order_add s pid q pr) (\<lambda>(ret, s'). Inr (ret, order_of s'))"
proof -
  have le: "length (os_entries s) \<le> 16" using assms by (simp add: ORDER_MAX_SIZE_def)
  let ?k = "first_slot pid (os_entries s)"
  have find: "orderAdd_find (order_of s) pid 0 = Inr (int ?k)"
    using orderAdd_find_order_of [OF le, of 0 pid] by simp
  show ?thesis
  proof (cases "pid \<in> set (product_ids (os_entries s))")
    case True
    then have k: "?k < length (os_entries s)" by (simp add: first_slot_less_iff)
    with True find le show ?thesis
      by (simp add: orderAdd_def numEntries_order_of entry_at_order_of set_item_order_of
          order_add_def add_entry_old c_bind_assoc)
  next
    case False
    then have k: "?k = length (os_entries s)"
      using first_slot_le [of pid "os_entries s"] by (simp flip: first_slot_less_iff)
    show ?thesis
    proof (cases "length (os_entries s) = 16")
      case True
      with False find k le show ?thesis
        by (simp add: orderAdd_def numEntries_order_of order_add_def ORDER_MAX_SIZE_def)
    next
      case room: False
      with le have lt: "length (os_entries s) < 16" by simp
      with order_of_append [OF lt] False find k room show ?thesis
        by (simp add: orderAdd_def numEntries_order_of order_add_def ORDER_MAX_SIZE_def
            add_entry_new int_add_ok in_int_def)
    qed
  qed
qed


section \<open>The invariant of an order and what adding means\<close>

text \<open>
  The well-formed orders the client builds: a representable address, at most
  \<open>ORDER_MAX_SIZE\<close> entries, one per product, every quantity positive.
\<close>

definition order_inv :: "order_spec \<Rightarrow> bool" where
  "order_inv s \<longleftrightarrow> order_ok s \<and> distinct (product_ids (os_entries s)) \<and>
     (\<forall>e \<in> set (os_entries s). 0 < sint (oe_quantity e))"

text \<open>The quantity an order asks of a product.\<close>

definition quantity_of :: "order_spec \<Rightarrow> c_int \<Rightarrow> int" where
  "quantity_of s pid =
     (\<Sum>e \<leftarrow> os_entries s. if oe_product_id e = pid then sint (oe_quantity e) else 0)"

lemma add_entry_ids: "add_entry es pid q pr = Inr es' \<Longrightarrow>
    product_ids es' = (if pid \<in> set (product_ids es) then product_ids es else product_ids es @ [pid])"
proof (induction es arbitrary: es')
  case Nil
  then show ?case by (auto simp: product_ids_def)
next
  case (Cons e es)
  show ?case
  proof (cases "oe_product_id e = pid")
    case True
    with Cons.prems show ?thesis by (auto simp: product_ids_def c_bind_eq_Inr_iff)
  next
    case False
    with Cons.prems obtain r where "add_entry es pid q pr = Inr r" "es' = e # r"
      by (auto simp: c_bind_eq_Inr_iff)
    with Cons.IH False show ?thesis by (auto simp: product_ids_def)
  qed
qed

lemma add_entry_positive:
  "add_entry es pid q pr = Inr es' \<Longrightarrow> 0 < sint q \<Longrightarrow> \<forall>e \<in> set es. 0 < sint (oe_quantity e) \<Longrightarrow>
     \<forall>e \<in> set es'. 0 < sint (oe_quantity e)"
proof (induction es arbitrary: es')
  case Nil
  then show ?case by auto
next
  case (Cons e es)
  then show ?case
    by (auto simp: c_bind_eq_Inr_iff int_add_def sint_add split: if_splits)
qed

lemma add_entry_quantity:
  "add_entry es pid q pr = Inr es' \<Longrightarrow>
     (\<Sum>e \<leftarrow> es'. if oe_product_id e = x then sint (oe_quantity e) else 0) =
     (\<Sum>e \<leftarrow> es. if oe_product_id e = x then sint (oe_quantity e) else 0) + (if x = pid then sint q else 0)"
proof (induction es arbitrary: es')
  case Nil
  then show ?case by auto
next
  case (Cons e es)
  then show ?case
    by (auto simp: c_bind_eq_Inr_iff int_add_def sint_add split: if_splits)
qed

lemma order_add_keeps_inv:
  assumes "order_inv s" and "0 < sint q" and "order_add s pid q pr = Inr (ret, s')"
  shows "order_inv s'"
proof (cases "ret = 0")
  case True
  then obtain es where add: "add_entry (os_entries s) pid q pr = Inr es"
    and s': "s' = s\<lparr>os_entries := es\<rparr>"
    and room: "pid \<in> set (product_ids (os_entries s)) \<or> length (os_entries s) \<noteq> ORDER_MAX_SIZE"
    using assms(3) by (auto simp: order_add_def c_bind_eq_Inr_iff split: if_splits)
  note ids = add_entry_ids [OF add]
  have "length es = (if pid \<in> set (product_ids (os_entries s)) then length (os_entries s)
      else Suc (length (os_entries s)))"
    using arg_cong [OF ids, of length] by (simp add: product_ids_def split: if_splits)
  with assms(1) room have "length es \<le> ORDER_MAX_SIZE"
    by (auto simp: order_inv_def order_ok_def)
  with assms(1,2) ids s' add_entry_positive [OF add assms(2)] show ?thesis
    by (auto simp: order_inv_def order_ok_def)
next
  case False
  with assms show ?thesis by (auto simp: order_add_def c_bind_eq_Inr_iff split: if_splits)
qed

lemma order_add_quantity:
  assumes "order_add s pid q pr = Inr (ret, s')"
  shows "ret = 0 \<Longrightarrow> quantity_of s' x = quantity_of s x + (if x = pid then sint q else 0)"
    and "ret \<noteq> 0 \<Longrightarrow> ret = -1 \<and> s' = s \<and> length (os_entries s) = ORDER_MAX_SIZE \<and>
           pid \<notin> set (product_ids (os_entries s))"
  using assms add_entry_quantity [of "os_entries s" pid q pr _ x]
  by (auto simp: order_add_def c_bind_eq_Inr_iff quantity_of_def split: if_splits)


section \<open>The contract of the format\<close>

interpretation order_wire: wire_codec order_ok order_of order_bytes orderSerialize orderUnserialize
proof
  fix s :: order_spec
  assume "order_ok s"
  from order_ok_bounds [OF this] show "message_ok (order_bytes s)"
    by (simp add: message_ok_def length_order_bytes)
qed (simp_all add: orderSerialize_layout orderUnserialize_layout)

section \<open>What holds of orders\<close>

text \<open>C22: Serialising a well-formed order stores exactly the bytes of the promised layout and
  reports their number; parsing a buffer that starts with them, whatever follows, gives the
  order back, its address included.\<close>

theorem order_wire_format:
  assumes "order_ok s"
  shows "orderSerialize (order_of s) = Inr (length (order_bytes s), full_block (order_bytes s)) \<and>
    orderUnserialize (full_block (order_bytes s @ rest)) = Inr (order_of s)"
  using assms order_wire.ser_layout order_wire.unser_layout by blast

text \<open>The loops and array accesses of \<open>orderAdd\<close> implement the list operation: the first entry of
  the product takes the quantity, a new product goes to the end, a seventeenth is refused with -1.\<close>

theorem orderAdd_refines:
  assumes "length (os_entries s) \<le> ORDER_MAX_SIZE"
  shows "orderAdd (order_of s) pid q pr =
    c_bind (order_add s pid q pr) (\<lambda>(ret, s'). Inr (ret, order_of s'))"
  using assms by (rule orderAdd_order_of)


definition sample_order :: order_spec where
  "sample_order = \<lparr>os_address = Some [76, 49, 0],
     os_entries = [\<lparr>oe_product_id = 7, oe_quantity = 2, oe_price = 0x41200000\<rparr>]\<rparr>"

lemma sample_order_ok: "order_ok sample_order"
  by (simp add: sample_order_def order_ok_def address_ok_def ORDER_MAX_SIZE_def c_string_def)

lemma order_wire_format_witness:
  "orderUnserialize (full_block (order_bytes sample_order @ [9])) = Inr (order_of sample_order)"
  using order_wire_format [OF sample_order_ok] by blast

lemma orderUnserialize_too_many_entries_witness:
  "orderUnserialize (full_block (enc64 0 @ enc32 17 @ [])) = Inl Out_of_bounds"
  by (rule orderUnserialize_too_many_entries) simp

lemma orderAdd_refines_witness:
  "orderAdd (order_of sample_order) 7 3 0 =
     Inr (0, order_of (sample_order\<lparr>os_entries :=
       [\<lparr>oe_product_id = 7, oe_quantity = 5, oe_price = 0x41200000\<rparr>]\<rparr>))"
  using orderAdd_refines [of sample_order 7 3 0]
  by (simp add: sample_order_def ORDER_MAX_SIZE_def order_add_def product_ids_def int_add_def in_int_def)


end
