(* ===== verification/Float32.thy ===== *)
theory Float32
  imports Decimal Complex_Main
begin

text \<open>
  The \<open>float\<close> arithmetic of the sources: IEEE 754 single precision with rounding to nearest, ties
  to even, as the program's platform computes \<open>float\<close> expressions, the conversions from \<open>int\<close> and
  from decimal text, and what \<open>printf("%.2f")\<close> prints. Every NaN is the same value.
\<close>

section \<open>Rounding\<close>

text \<open>The integer nearest to \<open>a / b\<close>, the even one of two.\<close>

definition rdiv :: "nat \<Rightarrow> nat \<Rightarrow> nat" where
  "rdiv a b =
     (let q = a div b; r = a mod b in if b < 2 * r \<or> 2 * r = b \<and> odd q then q + 1 else q)"

fun bit_len :: "nat \<Rightarrow> nat" where
  "bit_len n = (if n = 0 then 0 else Suc (bit_len (n div 2)))"

declare bit_len.simps [simp del]

text \<open>Whether \<open>2 ^ k \<le> a / b\<close>, and the rounded \<open>a / (b * 2 ^ q)\<close>, for exponents of either sign.\<close>

definition at_least_pow :: "int \<Rightarrow> nat \<Rightarrow> nat \<Rightarrow> bool" where
  "at_least_pow k a b = (if 0 \<le> k then b * 2 ^ nat k \<le> a else b \<le> a * 2 ^ nat (- k))"

definition scaled :: "nat \<Rightarrow> nat \<Rightarrow> int \<Rightarrow> nat" where
  "scaled a b q = (if 0 \<le> q then rdiv a (b * 2 ^ nat q) else rdiv (a * 2 ^ nat (- q)) b)"

text \<open>
  \<open>a / b\<close> to \<open>p\<close> bits, as a significand and an exponent that is at least \<open>emin\<close>; \<open>None\<close> when the
  exponent is beyond \<open>emax\<close>.
\<close>

definition round_exponent :: "nat \<Rightarrow> int \<Rightarrow> nat \<Rightarrow> nat \<Rightarrow> int" where
  "round_exponent p emin a b =
     (let q = max emin (int (bit_len a) - int (bit_len b) - int p) in
      if at_least_pow (q + int p) a b then q + 1 else q)"

definition round_to :: "nat \<Rightarrow> int \<Rightarrow> int \<Rightarrow> nat \<Rightarrow> nat \<Rightarrow> (nat \<times> int) option" where
  "round_to p emin emax a b =
     (let q = round_exponent p emin a b; m = scaled a b q;
          (m, q) = (if m = 2 ^ p then (2 ^ (p - 1), q + 1) else (m, q)) in
      if emax < q then None else Some (m, q))"

section \<open>Values and their bits\<close>

text \<open>The sign, significand and exponent of a finite value; the value is \<open>m * 2 ^ q\<close>.\<close>

datatype fval = Fin bool nat int | Inf bool | NaN

definition decode :: "f32 \<Rightarrow> fval" where
  "decode w =
     (let n = unat w; s = 2 ^ 31 \<le> n; ex = (n div 2 ^ 23) mod 256; fr = n mod 2 ^ 23 in
      if ex = 255 then (if fr = 0 then Inf s else NaN)
      else if ex = 0 then Fin s fr (- 149)
      else Fin s (fr + 2 ^ 23) (int ex - 150))"

definition sign_bits :: "bool \<Rightarrow> nat" where
  "sign_bits s = (if s then 2 ^ 31 else 0)"

definition encode :: "fval \<Rightarrow> f32" where
  "encode v = (case v of
     Inf s \<Rightarrow> word_of_nat (sign_bits s + 255 * 2 ^ 23)
   | NaN \<Rightarrow> word_of_nat (255 * 2 ^ 23 + 2 ^ 22)
   | Fin s m q \<Rightarrow>
       if m < 2 ^ 23 then word_of_nat (sign_bits s + m)
       else word_of_nat (sign_bits s + nat (q + 150) * 2 ^ 23 + (m - 2 ^ 23)))"

text \<open>The \<open>float\<close> nearest to \<open>\<plusminus> a / b\<close>.\<close>

definition round32 :: "bool \<Rightarrow> nat \<Rightarrow> nat \<Rightarrow> fval" where
  "round32 s a b =
     (case round_to 24 (- 149) 104 a b of Some (m, q) \<Rightarrow> Fin s m q | None \<Rightarrow> Inf s)"

section \<open>Arithmetic\<close>

definition num :: "nat \<Rightarrow> int \<Rightarrow> nat" where "num m q = m * 2 ^ nat q"
definition den :: "int \<Rightarrow> nat" where "den q = 2 ^ nat (- q)"

definition f_of_int :: "c_int \<Rightarrow> f32" where
  "f_of_int k = encode (round32 (sint k < 0) (nat \<bar>sint k\<bar>) 1)"

definition f_mul :: "f32 \<Rightarrow> f32 \<Rightarrow> f32" where
  "f_mul x y = encode (case (decode x, decode y) of
     (Fin s m q, Fin t n r) \<Rightarrow> round32 (s \<noteq> t) (num m q * num n r) (den q * den r)
   | (Fin s m q, Inf t) \<Rightarrow> if m = 0 then NaN else Inf (s \<noteq> t)
   | (Inf s, Fin t n r) \<Rightarrow> if n = 0 then NaN else Inf (s \<noteq> t)
   | (Inf s, Inf t) \<Rightarrow> Inf (s \<noteq> t)
   | _ \<Rightarrow> NaN)"

text \<open>Unlike signs subtract; an exact zero is positive unless both operands are negative.\<close>

definition add_signed :: "bool \<Rightarrow> nat \<Rightarrow> bool \<Rightarrow> nat \<Rightarrow> nat \<Rightarrow> fval" where
  "add_signed s a t b d =
     (if s = t then round32 s (a + b) d
      else if a = b then Fin False 0 (- 149)
      else if b < a then round32 s (a - b) d
      else round32 t (b - a) d)"

definition f_add :: "f32 \<Rightarrow> f32 \<Rightarrow> f32" where
  "f_add x y = encode (case (decode x, decode y) of
     (Fin s m q, Fin t n r) \<Rightarrow> add_signed s (num m q * den r) t (num n r * den q) (den q * den r)
   | (Fin s m q, Inf t) \<Rightarrow> Inf t
   | (Inf s, Fin t n r) \<Rightarrow> Inf s
   | (Inf s, Inf t) \<Rightarrow> if s = t then Inf s else NaN
   | _ \<Rightarrow> NaN)"

text \<open>\<open>(int) x\<close> is undefined when the integer part does not fit.\<close>

definition int_of_f :: "f32 \<Rightarrow> int c_result" where
  "int_of_f x = (case decode x of
     Fin s m q \<Rightarrow>
       (let k = int (num m q div den q); k = (if s then - k else k) in
        if in_int k then Inr k else Inl Int_overflow)
   | _ \<Rightarrow> Inl Int_overflow)"

section \<open>Text\<close>

text \<open>\<open>printf("%.2f")\<close>: the exact value, rounded to hundredths.\<close>

definition two_digits :: "nat \<Rightarrow> string" where
  "two_digits n = [digit (n div 10 mod 10), digit (n mod 10)]"

definition print_f2 :: "f32 \<Rightarrow> string" where
  "print_f2 x = (case decode x of
     Fin s m q \<Rightarrow>
       (let h = rdiv (num m q * 100) (den q) in
        (if s then ''-'' else '''') @ dec_nat (h div 100) @ ''.'' @ two_digits (h mod 100))
   | Inf s \<Rightarrow> (if s then ''-'' else '''') @ ''inf''
   | NaN \<Rightarrow> ''nan'')"

text \<open>
  \<open>(float) atof(s)\<close>: a sign, digits, and digits after a point; first the nearest \<open>double\<close>, then
  the nearest \<open>float\<close>. Exponents do not occur in what the program converts.
\<close>

definition atof_unsigned :: "bool \<Rightarrow> string \<Rightarrow> fval" where
  "atof_unsigned s cs =
     (let whole = takeWhile is_digit cs; rest = dropWhile is_digit cs;
          frac = (case rest of c # cs' \<Rightarrow> if c = CHR ''.'' then takeWhile is_digit cs' else [] | [] \<Rightarrow> []);
          a = nat (digits_val 0 (whole @ frac)) in
      case round_to 53 (- 1074) 971 a (10 ^ length frac) of
        None \<Rightarrow> Inf s
      | Some (m, q) \<Rightarrow> round32 s (num m q) (den q))"

definition f_atof :: "string \<Rightarrow> f32" where
  "f_atof s = encode (case dropWhile is_space s of
     [] \<Rightarrow> Fin False 0 (- 149)
   | c # cs \<Rightarrow> if c = CHR ''-'' then atof_unsigned True cs
              else if c = CHR ''+'' then atof_unsigned False cs
              else atof_unsigned False (c # cs))"

text \<open>The definitions evaluate on numerals.\<close>

lemma bit_len_0 [simp]: "bit_len 0 = 0"
  by (simp add: bit_len.simps)

lemma bit_len_Suc_0 [simp]: "bit_len (Suc 0) = 1"
  by (simp add: bit_len.simps [of "Suc 0"])

lemma bit_len_numeral [simp]: "bit_len (numeral n) = Suc (bit_len (numeral n div 2))"
  by (simp add: bit_len.simps [of "numeral n"])

lemmas float_eval = round32_def round_to_def round_exponent_def at_least_pow_def scaled_def rdiv_def
  decode_def encode_def sign_bits_def num_def den_def Let_def

lemma examples:
  "decode 0x41F40000 = Fin False 15990784 (-19)"
  "f_mul 0x41F40000 (f_of_int 3) = 0x42B70000"
  "f_add 0x41F40000 0x42B70000 = 0x42F40000"
  "int_of_f 0x42B70000 = Inr 91"
  by (simp_all add: f_mul_def f_of_int_def f_add_def add_signed_def int_of_f_def in_int_def float_eval)

section \<open>Small fractions are exact\<close>

text \<open>
  A value \<open>n / 2 ^ j\<close> with \<open>n\<close> below \<open>2 ^ 24\<close> is a \<open>float\<close>: rounding it, conversions, products and
  sums that stay in the range lose nothing.
\<close>

lemma bit_len_bounds: "0 < n \<Longrightarrow> 0 < bit_len n \<and> 2 ^ (bit_len n - 1) \<le> n \<and> n < 2 ^ bit_len n"
proof (induction n rule: bit_len.induct)
  case (1 n)
  show ?case
  proof (cases "n = 1")
    case True
    then show ?thesis by simp
  next
    case False
    with "1.prems" have half: "0 < n div 2" by linarith
    with "1" have IH: "0 < bit_len (n div 2)" "2 ^ (bit_len (n div 2) - 1) \<le> n div 2"
      "n div 2 < 2 ^ bit_len (n div 2)" by simp_all
    obtain j where j: "bit_len (n div 2) = Suc j" using IH(1) by (cases "bit_len (n div 2)") auto
    have "bit_len n = Suc (Suc j)" using "1.prems" j by (simp add: bit_len.simps [of n])
    moreover have "2 * 2 ^ j \<le> n" using IH(2) j by (simp add: less_eq_div_iff_mult_less_eq mult.commute)
    moreover have "n < 2 * (2 * 2 ^ j)" using IH(3) j by (simp add: div_less_iff_less_mult mult.commute)
    ultimately show ?thesis by simp
  qed
qed

lemma rdiv_exact: "0 < b \<Longrightarrow> rdiv (k * b) b = k"
  by (simp add: rdiv_def Let_def)

lemma bit_len_mult:
  assumes "0 < n" and "0 < b"
  obtains d where "bit_len (n * b) = bit_len b + d" and "n < 2 ^ Suc d" and "0 < d \<Longrightarrow> 2 ^ (d - 1) < n"
proof -
  let ?a = "bit_len (n * b)" and ?b = "bit_len b"
  have a: "0 < ?a" "2 ^ (?a - 1) \<le> n * b" "n * b < 2 ^ ?a" using bit_len_bounds [of "n * b"] assms by simp_all
  have b: "0 < ?b" "2 ^ (?b - 1) \<le> b" "b < 2 ^ ?b" using bit_len_bounds [of b] assms by simp_all
  have "b \<le> n * b" using assms(1) by simp
  with a(3) b(2) have "(2 :: nat) ^ (?b - 1) < 2 ^ ?a" by linarith
  then have "?b - 1 < ?a" by (rule power_less_imp_less_exp [rotated]) simp
  then obtain d where d: "?a = ?b + d" using b(1) by (metis Suc_diff_1 Suc_leI le_add_diff_inverse)
  have "n * 2 ^ (?b - 1) \<le> n * b" using b(2) by simp
  with a(3) have "n * 2 ^ (?b - 1) < 2 ^ (?b + d)" unfolding d by linarith
  also have "\<dots> = 2 ^ Suc d * 2 ^ (?b - 1)" using b(1) by (metis Suc_diff_1 add.commute add_Suc_right power_add power_commutes add_Suc)
  finally have n1: "n < 2 ^ Suc d" by simp
  have n2: "2 ^ (d - 1) < n" if "0 < d"
  proof -
    have "(2 :: nat) ^ (d - 1) * 2 ^ ?b = 2 ^ (?b + d - 1)"
      using that by (simp flip: power_add add: add.commute)
    also have "\<dots> \<le> n * b" using a(2) d by simp
    also have "\<dots> < n * 2 ^ ?b" using b(3) assms(1) by simp
    finally show ?thesis by simp
  qed
  from that [OF d n1 n2] show thesis .
qed

lemma bit_len_double: "0 < b \<Longrightarrow> bit_len (b * 2 ^ j) = bit_len b + j"
proof (induction j)
  case (Suc j)
  have "bit_len (b * 2 ^ Suc j) = Suc (bit_len (b * 2 ^ Suc j div 2))"
    using Suc.prems by (subst bit_len.simps) simp
  with Suc show ?case by (simp add: mult.left_commute)
qed simp

lemma at_least_pow_cancel:
  assumes "0 < b"
  shows "at_least_pow (int d - int j) (n * b) (b * 2 ^ j) \<longleftrightarrow> 2 ^ d \<le> n"
proof (cases "j \<le> d")
  case True
  then obtain i where i: "d = j + i" by (metis le_add_diff_inverse)
  have "b * 2 ^ j * 2 ^ i \<le> n * b \<longleftrightarrow> 2 ^ d \<le> n"
    using assms by (simp add: i power_add mult.assoc [symmetric] mult.commute [of n b])
  then show ?thesis by (simp add: at_least_pow_def i)
next
  case False
  then obtain i where i: "j = d + Suc i" by (metis add_Suc_right less_imp_Suc_add not_le)
  have "b * 2 ^ j \<le> n * b * 2 ^ Suc i \<longleftrightarrow> (b * 2 ^ Suc i) * 2 ^ d \<le> (b * 2 ^ Suc i) * n"
    by (simp add: i power_add ac_simps)
  also have "\<dots> \<longleftrightarrow> 2 ^ d \<le> n" using assms by (simp only: mult_le_cancel1) simp
  moreover have "nat (- (int d - int j)) = Suc i" "int d - int j < 0" using i by simp_all
  ultimately show ?thesis by (simp add: at_least_pow_def)
qed

lemma round_exponent_frac:
  assumes "0 < n" and "n < 2 ^ 24" and "0 < b" and "j \<le> 100"
  obtains k where "round_exponent 24 (- 149) (n * b) (b * 2 ^ j) = - int (k + j)" and "k \<le> 24"
    and "2 ^ 23 \<le> n * 2 ^ k" and "n * 2 ^ k < 2 ^ 24"
proof -
  obtain d where d: "bit_len (n * b) = bit_len b + d" "n < 2 ^ Suc d" "0 < d \<Longrightarrow> 2 ^ (d - 1) < n"
    using bit_len_mult [OF assms(1,3)] by blast
  have d24: "d \<le> 24"
  proof (rule ccontr)
    assume "\<not> d \<le> 24"
    then have "(2 :: nat) ^ 24 \<le> 2 ^ (d - 1)" by (intro power_increasing) auto
    with d(3) assms(2) \<open>\<not> d \<le> 24\<close> show False by auto
  qed
  then have q: "max (- 149) (int (bit_len (n * b)) - int (bit_len (b * 2 ^ j)) - int 24) = int d - int j - 24"
    using d(1) assms(3,4) by (simp add: bit_len_double)
  have e: "round_exponent 24 (- 149) (n * b) (b * 2 ^ j) =
      (if 2 ^ d \<le> n then int d - int j - 23 else int d - int j - 24)"
    unfolding round_exponent_def Let_def q using at_least_pow_cancel [OF assms(3), of d j n] by simp
  show thesis
  proof (cases "2 ^ d \<le> n")
    case True
    then have "(2 :: nat) ^ d < 2 ^ 24" using assms(2) by linarith
    then have "d < 24" by (rule power_less_imp_less_exp [rotated]) simp
    then have p: "(2 :: nat) ^ 23 = 2 ^ d * 2 ^ (23 - d)" "(2 :: nat) ^ 24 = 2 ^ Suc d * 2 ^ (23 - d)"
      by (simp_all only: power_add [symmetric]) simp_all
    have "2 ^ 23 \<le> n * 2 ^ (23 - d)" unfolding p using True by simp
    moreover have "n * 2 ^ (23 - d) < 2 ^ 24" unfolding p using d(2) by simp
    ultimately show thesis using that [of "23 - d"] e True \<open>d < 24\<close> by simp
  next
    case False
    then have "0 < d" using assms(1) by (cases d) auto
    then have p: "(2 :: nat) ^ 23 = 2 ^ (d - 1) * 2 ^ (24 - d)" "(2 :: nat) ^ 24 = 2 ^ d * 2 ^ (24 - d)"
      using d24 by (simp_all only: power_add [symmetric]) simp_all
    have "2 ^ 23 \<le> n * 2 ^ (24 - d)" unfolding p using d(3) [OF \<open>0 < d\<close>] by simp
    moreover have "n * 2 ^ (24 - d) < 2 ^ 24" unfolding p using False by simp
    ultimately show thesis using that [of "24 - d"] e False d24 by simp
  qed
qed

lemma scaled_frac:
  assumes "0 < b"
  shows "scaled (n * b) (b * 2 ^ j) (- int (k + j)) = n * 2 ^ k"
proof -
  have "rdiv (n * b * 2 ^ (k + j)) (b * 2 ^ j) = n * 2 ^ k"
    using assms rdiv_exact [of "b * 2 ^ j" "n * 2 ^ k"] by (simp add: power_add ac_simps)
  moreover have "rdiv (n * b) b = n" by (rule rdiv_exact [OF assms])
  ultimately show ?thesis by (cases "k + j = 0") (auto simp: scaled_def simp del: of_nat_add)
qed

lemma decode_zero: "decode 0 = Fin False 0 (- 149)"
  by (simp add: decode_def Let_def)

lemma decode_encode_normal:
  assumes "2 ^ 23 \<le> m" and "m < 2 ^ 24" and "- 149 \<le> q" and "q \<le> 104"
  shows "decode (encode (Fin False m q)) = Fin False m q"
proof -
  let ?e = "nat (q + 150)" and ?f = "m - 2 ^ 23"
  let ?v = "?e * 2 ^ 23 + ?f"
  have e: "0 < ?e" "?e < 255" using assms(3,4) by simp_all
  have f: "?f < 2 ^ 23" using assms(1,2) by simp
  have "?v < 2 ^ 31" using e f by simp
  then have w: "unat (word_of_nat ?v :: f32) = ?v"
    by (simp only: unat_of_nat) (simp add: take_bit_nat_eq_self)
  have "encode (Fin False m q) = word_of_nat ?v"
    using assms(1) by (simp add: encode_def sign_bits_def)
  with w have u: "unat (encode (Fin False m q)) = ?v" by (simp only:)
  have "?v div 2 ^ 23 = ?e" "?v mod 2 ^ 23 = ?f" using f by simp_all
  with u e \<open>?v < 2 ^ 31\<close> assms(1,3) show ?thesis by (simp add: decode_def Let_def)
qed

text \<open>\<open>frac j n x\<close>: the \<open>float\<close> \<open>x\<close> is exactly \<open>n / 2 ^ j\<close>.\<close>

definition frac :: "nat \<Rightarrow> nat \<Rightarrow> f32 \<Rightarrow> bool" where
  "frac j n x \<longleftrightarrow> (\<exists>k. decode x = Fin False (n * 2 ^ k) (- int (k + j)))"

lemma frac_0: "j \<le> 149 \<Longrightarrow> frac j 0 0"
  by (auto simp: frac_def decode_zero intro!: exI [of _ "149 - j"])

lemma frac_round32:
  assumes "n < 2 ^ 24" and "0 < b" and "j \<le> 100"
  shows "frac j n (encode (round32 False (n * b) (b * 2 ^ j)))"
proof (cases "n = 0")
  case True
  have "scaled 0 c q = 0" if "0 < c" for c q using that by (simp add: scaled_def rdiv_def)
  moreover have "round_exponent 24 (- 149) 0 (b * 2 ^ j) \<le> 104"
    by (simp add: round_exponent_def Let_def)
  ultimately have "encode (round32 False (n * b) (b * 2 ^ j)) = 0"
    using True assms(2) by (simp add: round32_def round_to_def Let_def encode_def sign_bits_def)
  with True assms(3) show ?thesis by (simp add: frac_0)
next
  case False
  then obtain k where k: "round_exponent 24 (- 149) (n * b) (b * 2 ^ j) = - int (k + j)" "k \<le> 24"
    "2 ^ 23 \<le> n * 2 ^ k" "n * 2 ^ k < 2 ^ 24"
    using round_exponent_frac [of n b j] assms by blast
  have "round32 False (n * b) (b * 2 ^ j) = Fin False (n * 2 ^ k) (- int (k + j))"
    unfolding round32_def round_to_def k(1) scaled_frac [OF assms(2)] Let_def
    using k(4) by simp
  moreover have "decode (encode (Fin False (n * 2 ^ k) (- int (k + j)))) =
      Fin False (n * 2 ^ k) (- int (k + j))"
    using k assms(3) by (intro decode_encode_normal) auto
  ultimately show ?thesis by (auto simp: frac_def)
qed

lemma frac_of_int: "0 \<le> sint k \<Longrightarrow> sint k < 2 ^ 24 \<Longrightarrow> frac 0 (nat (sint k)) (f_of_int k)"
  using frac_round32 [of "nat (sint k)" 1 0] by (simp add: f_of_int_def nat_less_iff)

lemma num_neg [simp]: "num m (- int k) = m"
  by (simp add: num_def)

lemma den_neg [simp]: "den (- int k) = 2 ^ k"
  by (simp add: den_def)

lemma frac_mul:
  assumes "frac j n x" and "frac i m y" and "n * m < 2 ^ 24" and "j + i \<le> 100"
  shows "frac (j + i) (n * m) (f_mul x y)"
proof -
  obtain k l where k: "decode x = Fin False (n * 2 ^ k) (- int (k + j))"
    and l: "decode y = Fin False (m * 2 ^ l) (- int (l + i))"
    using assms(1,2) by (auto simp: frac_def)
  have "f_mul x y = encode (round32 False (n * 2 ^ k * (m * 2 ^ l)) (2 ^ (k + j) * 2 ^ (l + i)))"
    by (simp only: f_mul_def k l num_neg den_neg prod.case fval.case) simp
  also have "n * 2 ^ k * (m * 2 ^ l) = n * m * 2 ^ (k + l)" by (simp add: power_add)
  also have "(2 :: nat) ^ (k + j) * 2 ^ (l + i) = 2 ^ (k + l) * 2 ^ (j + i)" by (simp add: power_add)
  finally show ?thesis using frac_round32 [OF assms(3) _ assms(4), of "2 ^ (k + l)"] by simp
qed

lemma frac_add:
  assumes "frac j n x" and "frac j m y" and "n + m < 2 ^ 24" and "j \<le> 100"
  shows "frac j (n + m) (f_add x y)"
proof -
  obtain k l where k: "decode x = Fin False (n * 2 ^ k) (- int (k + j))"
    and l: "decode y = Fin False (m * 2 ^ l) (- int (l + j))"
    using assms(1,2) by (auto simp: frac_def)
  have "f_add x y = encode (round32 False (n * 2 ^ k * 2 ^ (l + j) + m * 2 ^ l * 2 ^ (k + j))
      (2 ^ (k + j) * 2 ^ (l + j)))"
    by (simp only: f_add_def k l num_neg den_neg prod.case fval.case add_signed_def) simp
  also have "n * 2 ^ k * 2 ^ (l + j) + m * 2 ^ l * 2 ^ (k + j) = (n + m) * 2 ^ (k + l + j)"
    by (simp add: power_add algebra_simps)
  also have "(2 :: nat) ^ (k + j) * 2 ^ (l + j) = 2 ^ (k + l + j) * 2 ^ j" by (simp add: power_add)
  finally show ?thesis using frac_round32 [OF assms(3) _ assms(4), of "2 ^ (k + l + j)"] by simp
qed

text \<open>Halves and quarters print exactly, and their integer part is the one of the text.\<close>

lemma print_f2_frac:
  assumes "frac j n x" and "j \<le> 2"
  shows "print_f2 x = dec_nat (n div 2 ^ j) @ ''.'' @ two_digits (n * 100 div 2 ^ j mod 100)"
proof -
  obtain k where k: "decode x = Fin False (n * 2 ^ k) (- int (k + j))"
    using assms(1) by (auto simp: frac_def)
  have "2 ^ j dvd (2 :: nat) ^ 2" using assms(2) by (rule le_imp_power_dvd)
  also have "(2 :: nat) ^ 2 dvd 100" by simp
  finally have "2 ^ j dvd (100 :: nat)" .
  then obtain c where c: "(100 :: nat) = 2 ^ j * c" by (elim dvdE)
  have "rdiv (n * 2 ^ k * 100) (2 ^ (k + j)) = n * c"
    using rdiv_exact [of "2 ^ (k + j)" "n * c"] by (simp add: c power_add ac_simps)
  moreover have h: "n * 100 div 2 ^ j = n * c" by (simp add: c mult.left_commute)
  moreover have "n * c div 100 = n div 2 ^ j"
  proof -
    have "0 < c" using c by (cases c) auto
    have "n * c div 100 = (n * c) div (2 ^ j * c)" using c by simp
    also have "\<dots> = n div 2 ^ j" using \<open>0 < c\<close> by simp
    finally show ?thesis .
  qed
  ultimately show ?thesis by (simp add: print_f2_def k Let_def del: of_nat_add)
qed

lemma int_of_f_frac:
  assumes "frac j n x" and "n div 2 ^ j < 2 ^ 31"
  shows "int_of_f x = Inr (int (n div 2 ^ j))"
proof -
  obtain k where k: "decode x = Fin False (n * 2 ^ k) (- int (k + j))"
    using assms(1) by (auto simp: frac_def)
  have "n * 2 ^ k div 2 ^ (k + j) = n div 2 ^ j" by (simp add: power_add)
  with assms(2) show ?thesis by (simp add: int_of_f_def k Let_def in_int_def del: of_nat_add)
qed

end
