(* ===== verification/Printing.thy ===== *)
theory Printing
  imports Product Order Float32
begin

text \<open>
  The parts of \<^verbatim>\<open>common/product.c\<close> and \<^verbatim>\<open>common/order.c\<close> that need \<open>float\<close> values: printing a
  product, the total of an order, and printing an order.
\<close>

section \<open>Products\<close>

definition productPrint :: "product_t \<Rightarrow> proc \<Rightarrow> proc c_result" where
  "productPrint pr p =
     c_bind (c_chars (productGetName pr)) (\<lambda>name.
     c_bind (c_chars (productGetDescription pr)) (\<lambda>description.
     Inr (print (''*'' @ chars_of name @ '' (#'' @ dec_int (sint (productGetId pr)) @ '')*\<newline>'' @
       chars_of description @ ''\<newline>Price: $'' @ print_f2 (productGetPrice pr) @
       ''\<newline>Stock: '' @ dec_int (sint (productGetStock pr)) @ ''\<newline>'') p)))"

section \<open>The total of an order\<close>

text \<open>\<open>price * quantity\<close> converts the quantity; each step rounds to a \<open>float\<close>.\<close>

function orderGetTotal_loop :: "order_t \<Rightarrow> int \<Rightarrow> f32 \<Rightarrow> f32 c_result" where
  "orderGetTotal_loop ord i result =
     (if i < sint (or_numEntries ord) then
        c_bind (entry_at ord i) (\<lambda>e.
        orderGetTotal_loop ord (i + 1) (f_add result (f_mul (oe_price e) (f_of_int (oe_quantity e)))))
      else Inr result)"
  by pat_completeness auto
termination by (relation "measure (\<lambda>(ord, i, result). nat (sint (or_numEntries ord) - i))") auto

declare orderGetTotal_loop.simps [simp del]

definition orderGetTotal :: "order_t \<Rightarrow> f32 c_result" where
  "orderGetTotal ord = orderGetTotal_loop ord 0 0"

section \<open>Printing an order\<close>

definition rule_line :: string where
  "rule_line = replicate 53 (CHR ''-'') @ ''\<newline>''"

definition entry_line :: "int \<Rightarrow> int \<Rightarrow> order_entry_t \<Rightarrow> string" where
  "entry_line i n e =
     dec_int i @ '' of '' @ dec_int n @ ''\<newline>'' @ [CHR 0x09] @ ''Product #'' @ dec_int (sint (oe_product_id e)) @
     '', unit price $'' @ print_f2 (oe_price e) @ '', quantity '' @ dec_int (sint (oe_quantity e)) @ ''\<newline>''"

function orderPrint_loop :: "order_t \<Rightarrow> int \<Rightarrow> proc \<Rightarrow> proc c_result" where
  "orderPrint_loop ord i p =
     (if i < sint (or_numEntries ord) then
        c_bind (entry_at ord i) (\<lambda>e.
        orderPrint_loop ord (i + 1) (print (entry_line (i + 1) (sint (or_numEntries ord)) e) p))
      else Inr p)"
  by pat_completeness auto
termination by (relation "measure (\<lambda>(ord, i, p). nat (sint (or_numEntries ord) - i))") auto

declare orderPrint_loop.simps [simp del]

definition orderPrint :: "order_t \<Rightarrow> proc \<Rightarrow> proc c_result" where
  "orderPrint ord p =
     (let p = print rule_line p in
      c_bind (if or_numEntries ord = 0 then
                Inr (print ''Empty order (we require more booze!)\<newline>'' p)
              else
                c_bind (orderPrint_loop ord 0 p) (\<lambda>p.
                c_bind (orderGetTotal ord) (\<lambda>total.
                Inr (print (''GRAND TOTAL: $'' @ print_f2 total @ ''\<newline>'') p)))) (\<lambda>p.
      Inr (print rule_line p)))"

section \<open>What is printed\<close>

lemma print_print [simp]: "print t (print s p) = print (s @ t) p"
  by (simp add: print_def)

lemma print_Nil [simp]: "print [] p = p"
  by (simp add: print_def)

lemma print_frame [simp]:
  "rd (print s p) = rd p" "wr (print s p) = wr p" "sent (print s p) = sent p" "stdin (print s p) = stdin p"
  "files (print s p) = files p" "opens (print s p) = opens p" "answers (print s p) = answers p"
  "stdout (print s p) = stdout p @ s"
  by (simp_all add: print_def)

lemma rd_avail_print [simp]: "rd_avail (print s p) = rd_avail p"
  by (simp add: rd_avail_def fun_eq_iff)

definition total_of :: "order_entry_t list \<Rightarrow> f32" where
  "total_of es = foldl (\<lambda>r e. f_add r (f_mul (oe_price e) (f_of_int (oe_quantity e)))) 0 es"

definition entry_lines :: "order_entry_t list \<Rightarrow> string" where
  "entry_lines es = concat (map (\<lambda>(i, e). entry_line (int i) (int (length es)) e) (zip [1..<Suc (length es)] es))"

lemma orderGetTotal_loop_entries:
  assumes "length (os_entries s) \<le> 16" and "os_entries s = pre @ es"
  shows "orderGetTotal_loop (order_of s) (int (length pre)) r =
    Inr (foldl (\<lambda>r e. f_add r (f_mul (oe_price e) (f_of_int (oe_quantity e)))) r es)"
  using assms(2)
proof (induction es arbitrary: pre r)
  case Nil
  with assms(1) show ?case by (subst orderGetTotal_loop.simps) (simp add: numEntries_order_of)
next
  case (Cons e es)
  have "entry_at (order_of s) (int (length pre)) = Inr e"
    using entry_at_order_of [OF assms(1), of "length pre"] Cons.prems by simp
  with Cons.IH [of "pre @ [e]"] Cons.prems assms(1) show ?case
    by (subst orderGetTotal_loop.simps) (simp add: numEntries_order_of add.commute)
qed

lemma orderGetTotal_entries:
  "length (os_entries s) \<le> 16 \<Longrightarrow> orderGetTotal (order_of s) = Inr (total_of (os_entries s))"
  using orderGetTotal_loop_entries [of s "[]" "os_entries s" 0] by (simp add: orderGetTotal_def total_of_def)

lemma orderPrint_loop_entries:
  assumes "length (os_entries s) \<le> 16" and "os_entries s = pre @ es"
  shows "orderPrint_loop (order_of s) (int (length pre)) p =
    Inr (print (concat (map (\<lambda>(i, e). entry_line (int i) (int (length (os_entries s))) e)
      (zip [Suc (length pre)..<Suc (length (os_entries s))] es))) p)"
  using assms(2)
proof (induction es arbitrary: pre p)
  case Nil
  with assms(1) show ?case by (subst orderPrint_loop.simps) (simp add: numEntries_order_of)
next
  case (Cons e es)
  have "entry_at (order_of s) (int (length pre)) = Inr e"
    using entry_at_order_of [OF assms(1), of "length pre"] Cons.prems by simp
  moreover have "[Suc (length pre)..<Suc (length (os_entries s))] =
      Suc (length pre) # [Suc (Suc (length pre))..<Suc (length (os_entries s))]"
    using Cons.prems by (intro upt_conv_Cons) simp
  ultimately show ?case using Cons.IH [of "pre @ [e]"] Cons.prems assms(1)
    by (subst orderPrint_loop.simps) (simp add: numEntries_order_of add.commute)
qed

lemma numEntries_zero: "length (os_entries s) \<le> 16 \<Longrightarrow> or_numEntries (order_of s) = 0 \<longleftrightarrow> os_entries s = []"
  using numEntries_order_of [of s] by (auto simp: order_of_def)

text \<open>The whole text of an order.\<close>

definition order_text :: "order_spec \<Rightarrow> string" where
  "order_text s = rule_line @
     (if os_entries s = [] then ''Empty order (we require more booze!)\<newline>''
      else entry_lines (os_entries s) @ ''GRAND TOTAL: $'' @ print_f2 (total_of (os_entries s)) @ ''\<newline>'') @
     rule_line"

lemma orderPrint_order:
  "length (os_entries s) \<le> 16 \<Longrightarrow> orderPrint (order_of s) p = Inr (print (order_text s) p)"
  using orderPrint_loop_entries [of s "[]" "os_entries s"]
  by (simp add: orderPrint_def Let_def numEntries_zero orderGetTotal_entries order_text_def entry_lines_def
      del: upt_Suc)

lemma productPrint_product:
  assumes "c_text name" and "c_text descr"
    and "ps_name s = bytes_of name @ [0]" and "ps_description s = bytes_of descr @ [0]"
  shows "productPrint (product_of s) p = Inr (print (''*'' @ name @ '' (#'' @ dec_int (sint (ps_id s)) @ '')*\<newline>'' @
    descr @ ''\<newline>Price: $'' @ print_f2 (ps_price s) @
    ''\<newline>Stock: '' @ dec_int (sint (ps_stock s)) @ ''\<newline>'') p)"
  using assms by (simp add: productPrint_def productGetName_def productGetDescription_def productGetId_def
      productGetPrice_def productGetStock_def product_of_def c_chars_copy)

section \<open>Exact totals\<close>

lemma foldl_total_exact:
  assumes "\<forall>e \<in> set es. frac j (c e) (oe_price e) \<and> 0 \<le> sint (oe_quantity e) \<and> sint (oe_quantity e) < 2 ^ 24"
    and "n + (\<Sum>e \<leftarrow> es. c e * nat (sint (oe_quantity e))) < 2 ^ 24" and "frac j n r" and "j \<le> 100"
  shows "frac j (n + (\<Sum>e \<leftarrow> es. c e * nat (sint (oe_quantity e))))
    (foldl (\<lambda>r e. f_add r (f_mul (oe_price e) (f_of_int (oe_quantity e)))) r es)"
  using assms(1-3)
proof (induction es arbitrary: n r)
  case (Cons e es)
  let ?q = "nat (sint (oe_quantity e))"
  have "frac (j + 0) (c e * ?q) (f_mul (oe_price e) (f_of_int (oe_quantity e)))"
    using Cons.prems assms(4) by (intro frac_mul frac_of_int) auto
  then have "frac j (n + c e * ?q) (f_add r (f_mul (oe_price e) (f_of_int (oe_quantity e))))"
    using Cons.prems assms(4) by (intro frac_add) auto
  from Cons.IH [OF _ _ this] Cons.prems show ?case by (simp add: add.assoc)
qed simp

text \<open>C39: The total of an order is exact when its prices are multiples of some \<open>1 / 2 ^ j\<close> and the sum
  stays below \<open>2 ^ 24\<close> of those units: no product and no sum of the loop rounds. The printed total of
  prices in whole, half or quarter units then is the exact amount.\<close>

theorem orderGetTotal_exact:
  assumes "order_ok s" and "j \<le> 100"
    and "\<forall>e \<in> set (os_entries s). frac j (c e) (oe_price e) \<and>
      0 \<le> sint (oe_quantity e) \<and> sint (oe_quantity e) < 2 ^ 24"
    and "n = (\<Sum>e \<leftarrow> os_entries s. c e * nat (sint (oe_quantity e)))" and "n < 2 ^ 24"
  shows "\<exists>t. orderGetTotal (order_of s) = Inr t \<and> frac j n t \<and>
    (j \<le> 2 \<longrightarrow> print_f2 t = dec_nat (n div 2 ^ j) @ ''.'' @ two_digits (n * 100 div 2 ^ j mod 100))"
proof -
  have "frac j n (total_of (os_entries s))"
    using foldl_total_exact [OF assms(3), of 0 0] assms(2,4,5) frac_0 [of j]
    by (simp add: total_of_def)
  with orderGetTotal_entries [OF order_ok_bounds(1) [OF assms(1)]] print_f2_frac [of j n]
  show ?thesis by blast
qed

text \<open>\<open>orderPrint\<close> prints one numbered entry per line pair, in order, and the total, between two
  rules; an empty order prints the notice instead. It changes nothing but the output.\<close>

theorem orderPrint_prints:
  assumes "order_ok s"
  shows "orderPrint (order_of s) p = Inr (print (order_text s) p)"
  using orderPrint_order order_ok_bounds(1) [OF assms] by blast

definition vodka_order :: order_spec where
  "vodka_order = \<lparr>os_address = None, os_entries =
     [\<lparr>oe_product_id = 1, oe_quantity = 3, oe_price = 0x41F40000\<rparr>,
      \<lparr>oe_product_id = 4, oe_quantity = 2, oe_price = 0x41C80000\<rparr>]\<rparr>"

lemma vodka_order_ok: "order_ok vodka_order"
  by (simp add: vodka_order_def order_ok_def address_ok_def ORDER_MAX_SIZE_def)

lemma price_halves: "frac 1 61 0x41F40000" "frac 1 50 0x41C80000"
proof -
  have "61 * 2 ^ 18 = (15990784 :: nat)" "50 * 2 ^ 18 = (13107200 :: nat)" by simp_all
  then show "frac 1 61 0x41F40000" "frac 1 50 0x41C80000"
    by (auto simp: frac_def decode_def Let_def intro!: exI [of _ "18 :: nat"])
qed

lemma orderGetTotal_exact_witness:
  "\<exists>t. orderGetTotal (order_of vodka_order) = Inr t \<and> print_f2 t = ''141.50''"
proof -
  let ?c = "\<lambda>e :: order_entry_t. if oe_product_id e = 1 then 61 else (50 :: nat)"
  have t: "two_digits 50 = ''50''" by (simp add: two_digits_def digit_chars)
  have "\<exists>t. orderGetTotal (order_of vodka_order) = Inr t \<and> frac 1 283 t \<and>
    (1 \<le> (2 :: nat) \<longrightarrow> print_f2 t = dec_nat (283 div 2 ^ 1) @ ''.'' @ two_digits (283 * 100 div 2 ^ 1 mod 100))"
    by (rule orderGetTotal_exact [OF vodka_order_ok, where c = ?c])
      (use price_halves in \<open>simp_all add: vodka_order_def\<close>)
  moreover have "dec_nat 141 = ''141''" by (simp add: dec_nat_eval)
  ultimately show ?thesis using t by auto
qed

lemma orderPrint_prints_witness:
  "orderPrint (order_of vodka_order) (fresh_proc (\<lambda>_. [])) =
     Inr (print (order_text vodka_order) (fresh_proc (\<lambda>_. [])))"
  by (rule orderPrint_prints [OF vodka_order_ok])

end
