(* ===== verification/Regex.thy ===== *)
theory Regex
  imports Decimal
begin

text \<open>
  The part of \<open>regcomp\<close> and \<open>regexec\<close> the sources use: extended regular expressions that are
  anchored at both ends, made of characters, escapes, bracket expressions, groups, alternatives,
  \<open>?\<close>, \<open>*\<close> and \<open>{m,n}\<close>. \<open>regcomp\<close> compiles the pattern text, \<open>rx_match\<close> runs it, and \<open>lang\<close> is
  the set of strings it stands for.
\<close>

section \<open>Expressions and their languages\<close>

text \<open>A bracket expression: whether it is negated, and its ranges of character codes.\<close>

datatype rx = Zero | One | Cls bool "(nat \<times> nat) list" | Seq rx rx | Alt rx rx | Star rx

definition in_class :: "bool \<Rightarrow> (nat \<times> nat) list \<Rightarrow> char \<Rightarrow> bool" where
  "in_class neg rs c \<longleftrightarrow> list_ex (\<lambda>(a, b). a \<le> char_code c \<and> char_code c \<le> b) rs \<noteq> neg"

inductive_set star :: "string set \<Rightarrow> string set" for A where
  star_Nil [intro]: "[] \<in> star A"
| star_append [intro]: "xs \<in> A \<Longrightarrow> ys \<in> star A \<Longrightarrow> xs @ ys \<in> star A"

primrec lang :: "rx \<Rightarrow> string set" where
  "lang Zero = {}"
| "lang One = {[]}"
| "lang (Cls neg rs) = {[c] | c. in_class neg rs c}"
| "lang (Seq r s) = {xs @ ys | xs ys. xs \<in> lang r \<and> ys \<in> lang s}"
| "lang (Alt r s) = lang r \<union> lang s"
| "lang (Star r) = star (lang r)"

section \<open>Matching\<close>

primrec nullable :: "rx \<Rightarrow> bool" where
  "nullable Zero = False"
| "nullable One = True"
| "nullable (Cls neg rs) = False"
| "nullable (Seq r s) = (nullable r \<and> nullable s)"
| "nullable (Alt r s) = (nullable r \<or> nullable s)"
| "nullable (Star r) = True"

primrec deriv :: "char \<Rightarrow> rx \<Rightarrow> rx" where
  "deriv c Zero = Zero"
| "deriv c One = Zero"
| "deriv c (Cls neg rs) = (if in_class neg rs c then One else Zero)"
| "deriv c (Seq r s) =
     (if nullable r then Alt (Seq (deriv c r) s) (deriv c s) else Seq (deriv c r) s)"
| "deriv c (Alt r s) = Alt (deriv c r) (deriv c s)"
| "deriv c (Star r) = Seq (deriv c r) (Star r)"

fun rx_match :: "rx \<Rightarrow> string \<Rightarrow> bool" where
  "rx_match r [] = nullable r"
| "rx_match r (c # cs) = rx_match (deriv c r) cs"

lemma nullable_lang: "nullable r \<longleftrightarrow> [] \<in> lang r"
  by (induction r) auto

lemma star_Cons: "c # cs \<in> star A \<longleftrightarrow> (\<exists>xs ys. cs = xs @ ys \<and> c # xs \<in> A \<and> ys \<in> star A)"
proof
  assume "c # cs \<in> star A"
  then show "\<exists>xs ys. cs = xs @ ys \<and> c # xs \<in> A \<and> ys \<in> star A"
  proof (induction "c # cs" rule: star.induct)
    case (star_append xs ys)
    then show ?case by (cases xs) auto
  qed
next
  assume "\<exists>xs ys. cs = xs @ ys \<and> c # xs \<in> A \<and> ys \<in> star A"
  then obtain xs ys where "cs = xs @ ys" "c # xs \<in> A" "ys \<in> star A" by blast
  then show "c # cs \<in> star A" using star.star_append [of "c # xs" A ys] by simp
qed

lemma lang_deriv: "cs \<in> lang (deriv c r) \<longleftrightarrow> c # cs \<in> lang r"
proof (induction r arbitrary: cs)
  case (Seq r s)
  then show ?case by (auto simp: nullable_lang Cons_eq_append_conv)
qed (auto simp: star_Cons)

lemma rx_match_lang: "rx_match r s \<longleftrightarrow> s \<in> lang r"
  by (induction s arbitrary: r) (simp_all add: nullable_lang lang_deriv)

section \<open>Compiling a pattern\<close>

text \<open>\<open>r{m,n}\<close>.\<close>

definition rep :: "rx \<Rightarrow> nat \<Rightarrow> nat \<Rightarrow> rx" where
  "rep r m n = foldr Seq (replicate m r) (foldr Seq (replicate (n - m) (Alt One r)) One)"

text \<open>
  A group that is open: the alternatives before the current one, the current one up to its last
  piece, and that piece, which a postfix operator may still change.
\<close>

type_synonym group = "rx \<times> rx \<times> rx option"

definition branch :: "group \<Rightarrow> rx" where
  "branch g = (case g of (alts, sq, None) \<Rightarrow> sq | (alts, sq, Some r) \<Rightarrow> (if sq = One then r else Seq sq r))"

definition alternatives :: "group \<Rightarrow> rx" where
  "alternatives g = (if fst g = Zero then branch g else Alt (fst g) (branch g))"

definition piece :: "rx \<Rightarrow> group \<Rightarrow> group" where
  "piece r g = (fst g, branch g, Some r)"

text \<open>What the scanner is in the middle of.\<close>

datatype mode = Plain | Escaped | Bracket string | Braces string

fun ranges :: "string \<Rightarrow> (nat \<times> nat) list" where
  "ranges (a # m # b # cs) =
     (if m = CHR ''-'' then (char_code a, char_code b) # ranges cs
      else (char_code a, char_code a) # ranges (m # b # cs))"
| "ranges (a # cs) = (char_code a, char_code a) # ranges cs"
| "ranges [] = []"

definition bracket :: "string \<Rightarrow> rx" where
  "bracket s = (case s of
     c # cs \<Rightarrow> if c = CHR ''^'' then Cls True (ranges cs) else Cls False (ranges s)
   | [] \<Rightarrow> Zero)"

definition braces :: "string \<Rightarrow> rx \<Rightarrow> rx option" where
  "braces s r = (case unsigned_part s of
     Some (m, c # s') \<Rightarrow> (if c = CHR '','' then
         (case unsigned_part s' of Some (n, []) \<Rightarrow> Some (rep r (nat m) (nat n)) | _ \<Rightarrow> None) else None)
   | _ \<Rightarrow> None)"

definition char_rx :: "char \<Rightarrow> rx" where
  "char_rx c = Cls False [(char_code c, char_code c)]"

text \<open>The scanner, over the stack of open groups; a pattern it does not know is refused.\<close>

fun scan :: "mode \<Rightarrow> group list \<Rightarrow> string \<Rightarrow> rx option" where
  "scan Plain [g] [] = Some (alternatives g)"
| "scan Escaped (g # gs) (c # cs) = scan Plain (piece (char_rx c) g # gs) cs"
| "scan (Bracket s) (g # gs) (c # cs) =
     (if c = CHR '']'' then scan Plain (piece (bracket (rev s)) g # gs) cs
      else scan (Bracket (c # s)) (g # gs) cs)"
| "scan (Braces s) ((alts, sq, Some r) # gs) (c # cs) =
     (if c = CHR ''}'' then
        (case braces (rev s) r of
           Some r' \<Rightarrow> scan Plain ((alts, sq, Some r') # gs) cs | None \<Rightarrow> None)
      else scan (Braces (c # s)) ((alts, sq, Some r) # gs) cs)"
| "scan Plain (g # gs) (c # cs) =
     (if c = CHR 0x5C then scan Escaped (g # gs) cs
      else if c = CHR ''['' then scan (Bracket []) (g # gs) cs
      else if c = CHR ''('' then scan Plain ((Zero, One, None) # g # gs) cs
      else if c = CHR ''|'' then scan Plain ((alternatives g, One, None) # gs) cs
      else if c = CHR '')'' then
        (case gs of [] \<Rightarrow> None | g' # gs' \<Rightarrow> scan Plain (piece (alternatives g) g' # gs') cs)
      else if c = CHR ''{'' then scan (Braces []) (g # gs) cs
      else if c \<in> {CHR ''?'', CHR ''*''} then
        (case g of (alts, sq, Some r) \<Rightarrow>
            scan Plain ((alts, sq, Some (if c = CHR ''?'' then Alt One r else Star r)) # gs) cs
         | _ \<Rightarrow> None)
      else if c \<in> {CHR ''.'', CHR ''+'', CHR ''^'', CHR ''$''} then None
      else scan Plain (piece (char_rx c) g # gs) cs)"
| "scan _ _ _ = None"

definition regcomp :: "string \<Rightarrow> rx option" where
  "regcomp pat =
     (if pat \<noteq> [] \<and> hd pat = CHR ''^'' \<and> last pat = CHR ''$''
      then scan Plain [(Zero, One, None)] (butlast (tl pat)) else None)"

text \<open>\<open>regexec\<close> on a pattern that compiles: 0 for a match, \<open>REG_NOMATCH\<close> otherwise.\<close>

definition regexec :: "string \<Rightarrow> string \<Rightarrow> int" where
  "regexec pat s = (case regcomp pat of Some r \<Rightarrow> if rx_match r s then 0 else 1 | None \<Rightarrow> 1)"

lemma regexec_lang: "regcomp pat = Some r \<Longrightarrow> regexec pat s = 0 \<longleftrightarrow> s \<in> lang r"
  by (simp add: regexec_def rx_match_lang)

section \<open>Languages of the operators\<close>

lemma lang_foldr_Seq:
  "s \<in> lang (foldr Seq rs t) \<longleftrightarrow>
     (\<exists>ws u. list_all2 (\<lambda>w r. w \<in> lang r) ws rs \<and> u \<in> lang t \<and> s = concat ws @ u)"
proof (induction rs arbitrary: s)
  case (Cons r rs)
  show ?case
  proof
    assume "s \<in> lang (foldr Seq (r # rs) t)"
    then obtain x y where "s = x @ y" "x \<in> lang r" "y \<in> lang (foldr Seq rs t)" by auto
    moreover from this(3) obtain ws u where "list_all2 (\<lambda>w r. w \<in> lang r) ws rs" "u \<in> lang t"
      "y = concat ws @ u" using Cons.IH by blast
    ultimately show "\<exists>ws u. list_all2 (\<lambda>w r. w \<in> lang r) ws (r # rs) \<and> u \<in> lang t \<and> s = concat ws @ u"
      by (intro exI [of _ "x # ws"] exI [of _ u]) simp
  next
    assume "\<exists>ws u. list_all2 (\<lambda>w r. w \<in> lang r) ws (r # rs) \<and> u \<in> lang t \<and> s = concat ws @ u"
    then obtain w ws u where "w \<in> lang r" "list_all2 (\<lambda>w r. w \<in> lang r) ws rs" "u \<in> lang t"
      "s = w @ concat ws @ u" by (auto simp: list_all2_Cons2)
    with Cons.IH show "s \<in> lang (foldr Seq (r # rs) t)" by auto
  qed
qed simp

lemma list_all2_replicate2:
  "list_all2 P ws (replicate n r) \<longleftrightarrow> length ws = n \<and> (\<forall>w \<in> set ws. P w r)"
  by (auto simp: list_all2_conv_all_nth set_conv_nth)

lemma lang_options:
  "s \<in> lang (foldr Seq (replicate k (Alt One r)) One) \<longleftrightarrow>
     (\<exists>ws. length ws \<le> k \<and> (\<forall>w \<in> set ws. w \<in> lang r) \<and> s = concat ws)"
proof
  assume "s \<in> lang (foldr Seq (replicate k (Alt One r)) One)"
  then obtain ws where ws: "length ws = k" "\<forall>w \<in> set ws. w \<in> lang (Alt One r)" "s = concat ws"
    unfolding lang_foldr_Seq list_all2_replicate2 by auto
  have "concat ws = concat (filter (\<lambda>w. w \<noteq> []) ws)" by (induction ws) auto
  moreover have "length (filter (\<lambda>w. w \<noteq> []) ws) \<le> k" using ws(1) by (metis length_filter_le)
  ultimately show "\<exists>ws. length ws \<le> k \<and> (\<forall>w \<in> set ws. w \<in> lang r) \<and> s = concat ws"
    using ws(2,3) by (intro exI [of _ "filter (\<lambda>w. w \<noteq> []) ws"]) auto
next
  assume "\<exists>ws. length ws \<le> k \<and> (\<forall>w \<in> set ws. w \<in> lang r) \<and> s = concat ws"
  then obtain ws where ws: "length ws \<le> k" "\<forall>w \<in> set ws. w \<in> lang r" "s = concat ws" by blast
  let ?ws = "ws @ replicate (k - length ws) []"
  have "length ?ws = k \<and> (\<forall>w \<in> set ?ws. w \<in> lang (Alt One r)) \<and> s = concat ?ws"
    using ws by auto
  then show "s \<in> lang (foldr Seq (replicate k (Alt One r)) One)"
    unfolding lang_foldr_Seq list_all2_replicate2 by (intro exI [of _ ?ws]) auto
qed

lemma lang_rep:
  assumes "m \<le> n"
  shows "s \<in> lang (rep r m n) \<longleftrightarrow>
    (\<exists>ws. m \<le> length ws \<and> length ws \<le> n \<and> (\<forall>w \<in> set ws. w \<in> lang r) \<and> s = concat ws)"
proof
  assume "s \<in> lang (rep r m n)"
  then obtain ws u where "length ws = m" "\<forall>w \<in> set ws. w \<in> lang r" "s = concat ws @ u"
    and "u \<in> lang (foldr Seq (replicate (n - m) (Alt One r)) One)"
    by (auto simp only: rep_def lang_foldr_Seq [of _ _ "foldr Seq _ One"] list_all2_replicate2)
  moreover from this(4) obtain vs where "length vs \<le> n - m" "\<forall>w \<in> set vs. w \<in> lang r" "u = concat vs"
    by (auto simp only: lang_options)
  ultimately show "\<exists>ws. m \<le> length ws \<and> length ws \<le> n \<and> (\<forall>w \<in> set ws. w \<in> lang r) \<and> s = concat ws"
    using assms by (intro exI [of _ "ws @ vs"]) auto
next
  assume "\<exists>ws. m \<le> length ws \<and> length ws \<le> n \<and> (\<forall>w \<in> set ws. w \<in> lang r) \<and> s = concat ws"
  then obtain ws where ws: "m \<le> length ws" "length ws \<le> n" "\<forall>w \<in> set ws. w \<in> lang r" "s = concat ws"
    by blast
  have "concat (drop m ws) \<in> lang (foldr Seq (replicate (n - m) (Alt One r)) One)"
    unfolding lang_options using ws by (intro exI [of _ "drop m ws"]) (auto dest: in_set_dropD)
  moreover have "s = concat (take m ws) @ concat (drop m ws)"
    using ws(4) by (metis append_take_drop_id concat_append)
  moreover have "list_all2 (\<lambda>w r. w \<in> lang r) (take m ws) (replicate m r)"
    using ws(1,3) by (auto simp: list_all2_replicate2 dest: in_set_takeD)
  ultimately show "s \<in> lang (rep r m n)"
    unfolding rep_def lang_foldr_Seq [of _ _ "foldr Seq _ One"] by blast
qed

lemma lang_star_Cls:
  "s \<in> lang (Star (Cls neg rs)) \<longleftrightarrow> list_all (in_class neg rs) s"
proof
  assume "s \<in> lang (Star (Cls neg rs))"
  then have "s \<in> star {[c] | c. in_class neg rs c}" by simp
  then show "list_all (in_class neg rs) s" by induction auto
next
  assume "list_all (in_class neg rs) s"
  then have "s \<in> star {[c] | c. in_class neg rs c}"
  proof (induction s)
    case (Cons c s)
    then show ?case using star_append [of "[c]" "{[c] | c. in_class neg rs c}" s] by simp
  qed auto
  then show "s \<in> lang (Star (Cls neg rs))" by simp
qed

lemma lang_char_rx [simp]: "lang (char_rx c) = {[c]}"
proof -
  have "in_class False [(char_code c, char_code c)] d \<longleftrightarrow> d = c" for d
    by (auto simp: in_class_def char_code_def dest: antisym)
  then show ?thesis by (auto simp: char_rx_def)
qed

end
