(* ===== verification/ConfigFile.thy ===== *)
theory ConfigFile
  imports Regex
begin

text \<open>
  \<^verbatim>\<open>common/config.c\<close>, the lines of the configuration file: reading a line into a growing buffer,
  trimming it, telling section tags from parameters and taking a parameter apart.
\<close>

section \<open>Reading lines\<close>

text \<open>
  A stream is what is left of the file and whether its end was seen. \<open>readLine\<close> stores the
  result of \<open>getc\<close> in a \<open>char\<close>, so a character with code 255 counts as the end of the file.
\<close>

type_synonym conf_file = "string \<times> bool"

definition feof :: "conf_file \<Rightarrow> bool" where
  "feof fp = snd fp"

definition BLOCK :: nat where
  "BLOCK = 32"

definition ends_line :: "char \<Rightarrow> bool" where
  "ends_line c \<longleftrightarrow> c = CHR 0x0A \<or> c = CHR 0xFF"

definition resize :: "ptr \<Rightarrow> nat \<Rightarrow> ptr c_result" where
  "resize str newSize = realloc str newSize"

definition blank :: "char \<Rightarrow> bool" where
  "blank c \<longleftrightarrow> c = CHR '' '' \<or> c = CHR 0x09"

definition leadingTrim :: "ptr \<Rightarrow> ptr c_result" where
  "leadingTrim str =
     c_bind (strlen str) (\<lambda>i.
     c_bind (mem_read str 0 i) (\<lambda>cs.
     let j = length (takeWhile blank (chars_of cs)) in
     c_bind (mem_read str (int j) (i - j + 1)) (\<lambda>result. Inr (full_block result))))"

text \<open>One round of the loop: the character goes to index \<open>i\<close>, a terminator at the end of the line.\<close>

definition store_char :: "ptr \<Rightarrow> int \<Rightarrow> byte \<Rightarrow> (ptr \<times> int) c_result" where
  "store_char str i b =
     c_bind (if i mod int BLOCK = 0 then resize str (nat (int BLOCK + i)) else Inr str) (\<lambda>str.
     c_bind (mem_write str i [b]) (\<lambda>str.
     c_bind (int_add i 1) (\<lambda>i. Inr (str, i))))"

fun readLine_loop :: "string \<Rightarrow> ptr \<Rightarrow> int \<Rightarrow> (ptr \<times> conf_file) c_result" where
  "readLine_loop [] str i = c_bind (store_char str i 0) (\<lambda>(str, i). Inr (str, ([], True)))"
| "readLine_loop (c # cs) str i =
     (let flag = ends_line c in
      c_bind (store_char str i (if flag then 0 else of_char c)) (\<lambda>(str, i).
      if flag then Inr (str, (cs, False)) else readLine_loop cs str i))"

definition readLine :: "conf_file \<Rightarrow> (ptr \<times> conf_file) c_result" where
  "readLine fp =
     c_bind (readLine_loop (fst fp) Null_ptr 0) (\<lambda>(str, fp).
     c_bind (leadingTrim str) (\<lambda>str. Inr (str, fp)))"

section \<open>What a line is\<close>

definition isParamExpr :: string where
  "isParamExpr = ''^[a-zA-Z][a-zA-Z0-9 ]*=[^\<newline>'' @ CHR 0x09 # ''=]*$''"

definition isSectionTagExpr :: string where
  "isSectionTagExpr = ''^'' @ CHR 0x5C # ''[[a-zA-Z][a-zA-Z0-9]*'' @ CHR 0x5C # '']$''"

definition isParam :: "ptr \<Rightarrow> bool c_result" where
  "isParam line = c_bind (c_chars line) (\<lambda>cs. Inr (regexec isParamExpr (chars_of cs) = 0))"

definition isSectionTag :: "ptr \<Rightarrow> bool c_result" where
  "isSectionTag line = c_bind (c_chars line) (\<lambda>cs. Inr (regexec isSectionTagExpr (chars_of cs) = 0))"

text \<open>The index of the first \<open>=\<close>, from \<open>i\<close> on; there is no other end to the search.\<close>

fun find_equals :: "cell list \<Rightarrow> nat \<Rightarrow> nat c_result" where
  "find_equals [] i = Inl Out_of_bounds"
| "find_equals (None # cs) i = Inl Uninit"
| "find_equals (Some b # cs) i = (if b = of_char CHR ''='' then Inr i else find_equals cs (i + 1))"

text \<open>The value is a pointer into the line.\<close>

definition getValue :: "ptr \<Rightarrow> ptr c_result" where
  "getValue line =
     c_bind (block_of line) (\<lambda>cs. c_bind (find_equals cs 0) (\<lambda>i. Inr (Block (drop (i + 1) cs))))"

text \<open>
  The key is copied into a block of \<open>i\<close> bytes, without a terminator. What a reader of the
  string finds after the block depends on the allocator: \<open>beyond i\<close> are those cells. In standard
  C there are none it may read.
\<close>

definition getParam :: "(nat \<Rightarrow> cell list) \<Rightarrow> ptr \<Rightarrow> ptr c_result" where
  "getParam beyond line =
     c_bind (block_of line) (\<lambda>cs.
     c_bind (find_equals cs 0) (\<lambda>i.
     c_bind (mem_read line 0 i) (\<lambda>key. Inr (Block (map Some key @ beyond i)))))"

section \<open>What reading a line gives\<close>

definition until_nul :: "string \<Rightarrow> string" where
  "until_nul s = takeWhile (\<lambda>c. c \<noteq> CHR 0x00) s"

definition trim_left :: "string \<Rightarrow> string" where
  "trim_left s = dropWhile blank s"

definition first_line :: "string \<Rightarrow> string" where
  "first_line s = takeWhile (\<lambda>c. \<not> ends_line c) s"

definition after_line :: "string \<Rightarrow> conf_file" where
  "after_line s = (case dropWhile (\<lambda>c. \<not> ends_line c) s of [] \<Rightarrow> ([], True) | c # cs \<Rightarrow> (cs, False))"

text \<open>The buffer after \<open>i\<close> characters, of the size the code gives it.\<close>

definition line_buffer :: "byte list \<Rightarrow> ptr" where
  "line_buffer bs =
     (if bs = [] then Null_ptr else filled (32 * ((length bs + 31) div 32)) bs)"

lemma round_up_32: "(n + 31) div 32 = (if n mod 32 = 0 then n div 32 else n div 32 + 1)" for n :: nat
proof (cases "n mod 32 = 0")
  case True
  then have "n = 32 * (n div 32)" by (metis mult_div_mod_eq add_0_right)
  with True show ?thesis by (auto intro!: div_nat_eqI)
next
  case False
  then have "32 * (n div 32) + 1 \<le> n" "n < 32 * (n div 32) + 32"
    using mult_div_mod_eq [of 32 n] mod_less_divisor [of 32 n] by linarith+
  with False show ?thesis by (auto intro!: div_nat_eqI)
qed

lemma store_char_buffer:
  assumes "length bs < 2 ^ 31 - 32"
  shows "store_char (line_buffer bs) (int (length bs)) b =
    Inr (line_buffer (bs @ [b]), int (length bs) + 1)"
proof -
  let ?n = "length bs"
  have split: "?n = 32 * (?n div 32) + ?n mod 32" by simp
  then have whole: "?n mod 32 = 0 \<Longrightarrow> 32 * (?n div 32) = ?n" by linarith
  have "(32 + ?n) div 32 = ?n div 32 + 1" by simp
  then have new: "32 * ((length (bs @ [b]) + 31) div 32) =
      (if ?n mod 32 = 0 then 32 + ?n else 32 * ((?n + 31) div 32))"
    using whole by (simp add: round_up_32)
  have "?n < 32 * (?n div 32) + 32" using split mod_less_divisor [of 32 ?n] by linarith
  then have old: "?n mod 32 \<noteq> 0 \<Longrightarrow> ?n + 1 \<le> 32 * ((?n + 31) div 32)"
    by (simp add: round_up_32)
  have full: "?n mod 32 = 0 \<Longrightarrow> 32 * ((?n + 31) div 32) = ?n"
    using whole by (simp add: round_up_32)
  have "int ?n mod int BLOCK = int (?n mod 32)" by (simp only: of_nat_mod BLOCK_def)
  then have modiff: "int ?n mod int BLOCK = 0 \<longleftrightarrow> ?n mod 32 = 0" by (simp only: of_nat_eq_0_iff)
  have buf: "c_bind (if int ?n mod int BLOCK = 0 then resize (line_buffer bs) (nat (int BLOCK + int ?n))
        else Inr (line_buffer bs)) (\<lambda>str. mem_write str (int ?n) [b]) = Inr (line_buffer (bs @ [b]))"
  proof (cases "?n mod 32 = 0")
    case True
    then have mod: "int ?n mod int BLOCK = 0" using modiff by simp
    have "resize (line_buffer bs) (nat (int BLOCK + int ?n)) = Inr (filled (32 + ?n) bs)"
      using True full realloc_filled [of ?n "32 + ?n" bs]
      by (auto simp: resize_def line_buffer_def BLOCK_def nat_add_distrib realloc_def malloc_filled)
    with mod new True mem_write_filled [of "int ?n" bs "[b]" "32 + ?n"] show ?thesis
      by (simp add: line_buffer_def)
  next
    case False
    then have mod: "int ?n mod int BLOCK \<noteq> 0" using modiff by simp
    from False have "bs \<noteq> []" by auto
    with mod new old False mem_write_filled [of "int ?n" bs "[b]" "32 * ((?n + 31) div 32)"]
    show ?thesis by (simp add: line_buffer_def)
  qed
  have "int_add (int ?n) 1 = Inr (int ?n + 1)" using assms by (simp add: int_add_ok in_int_def)
  with arg_cong [OF buf, of "\<lambda>m. c_bind m (\<lambda>str. c_bind (int_add (int ?n) 1) (\<lambda>i. Inr (str, i)))"]
  show ?thesis by (simp add: store_char_def c_bind_assoc)
qed

lemma readLine_loop_reads:
  "length bs + length s < 2 ^ 31 - 32 \<Longrightarrow>
     readLine_loop s (line_buffer bs) (int (length bs)) =
       Inr (line_buffer (bs @ bytes_of (first_line s) @ [0]), after_line s)"
proof (induction s arbitrary: bs)
  case Nil
  then show ?case by (simp add: store_char_buffer first_line_def after_line_def bytes_of_def)
next
  case (Cons c s)
  show ?case
  proof (cases "ends_line c")
    case True
    with Cons.prems show ?thesis
      by (simp add: store_char_buffer first_line_def after_line_def bytes_of_def)
  next
    case False
    have "readLine_loop s (line_buffer (bs @ [of_char c])) (int (length (bs @ [of_char c]))) =
        Inr (line_buffer ((bs @ [of_char c]) @ bytes_of (first_line s) @ [0]), after_line s)"
      using Cons.prems by (intro Cons.IH) simp
    with False Cons.prems show ?thesis
      by (simp add: store_char_buffer first_line_def after_line_def bytes_of_def add.commute)
  qed
qed

lemma c_text_until_nul [simp]: "c_text (until_nul s)"
  by (auto simp: c_text_def until_nul_def dest: set_takeWhileD)

lemma c_text_trim_left [simp]: "c_text s \<Longrightarrow> c_text (trim_left s)"
  by (auto simp: c_text_def trim_left_def dest: set_dropWhileD)

lemma until_nul_split: "\<exists>rest. s @ [CHR 0x00] = until_nul s @ CHR 0x00 # rest"
proof (cases "CHR 0x00 \<in> set s")
  case True
  then obtain xs ys where "s = xs @ CHR 0x00 # ys" "CHR 0x00 \<notin> set xs" by (meson split_list_first)
  moreover from this(2) have "takeWhile (\<lambda>c. c \<noteq> CHR 0x00) (xs @ CHR 0x00 # ys) = xs"
    by (induction xs) auto
  ultimately show ?thesis by (simp add: until_nul_def)
next
  case False
  then have "until_nul s = s" by (auto simp: until_nul_def takeWhile_eq_all_conv)
  then show ?thesis by simp
qed

lemma leadingTrim_text:
  assumes "c_text s"
  shows "leadingTrim (Block (map Some (bytes_of s) @ Some 0 # rest)) = Inr (c_str (trim_left s))"
proof -
  let ?q = "Block (map Some (bytes_of s) @ Some 0 # rest)" and ?j = "length (takeWhile blank s)"
  have len: "strlen ?q = Inr (length s)"
    using strlen_cells_terminated [OF zero_notin_bytes_of [OF assms], of rest] by (simp add: strlen_def)
  have j: "?j \<le> length s" by (rule length_takeWhile_le)
  have "mem_read ?q 0 (length s) = Inr (bytes_of s)"
    by (simp add: mem_read_def)
  moreover have "drop ?j (bytes_of s) = bytes_of (drop ?j s)" by (simp add: bytes_of_def drop_map)
  then have "mem_read ?q (int ?j) (length s - ?j + 1) = Inr (bytes_of (drop ?j s) @ [0])"
    using j those_map_Some [of "bytes_of (drop ?j s) @ [0]"] by (simp add: mem_read_def drop_map)
  moreover have "drop ?j s = trim_left s" by (simp add: trim_left_def dropWhile_eq_drop)
  ultimately show ?thesis using len by (simp add: leadingTrim_def c_str_def)
qed

lemma readLine_reads:
  assumes "length s < 2 ^ 31 - 32"
  shows "readLine (s, e) = Inr (c_str (trim_left (until_nul (first_line s))), after_line s)"
proof -
  obtain rest where "first_line s @ [CHR 0x00] = until_nul (first_line s) @ CHR 0x00 # rest"
    using until_nul_split by blast
  from arg_cong [OF this, of bytes_of]
  have bytes: "bytes_of (first_line s) @ [0] = bytes_of (until_nul (first_line s)) @ 0 # bytes_of rest"
    by (simp add: bytes_of_def)
  have "readLine_loop s Null_ptr 0 = Inr (line_buffer (bytes_of (first_line s) @ [0]), after_line s)"
    using readLine_loop_reads [of "[]" s] assms by (simp add: line_buffer_def)
  moreover obtain cells where "line_buffer (bytes_of (first_line s) @ [0]) =
      Block (map Some (bytes_of (until_nul (first_line s))) @ Some 0 # cells)"
    unfolding bytes by (simp add: line_buffer_def filled_def)
  ultimately show ?thesis by (simp add: readLine_def leadingTrim_text)
qed

section \<open>What the classification accepts\<close>

definition letter :: "char \<Rightarrow> bool" where
  "letter c \<longleftrightarrow> in_class False [(97, 122), (65, 90)] c"

definition alnum :: "char \<Rightarrow> bool" where
  "alnum c \<longleftrightarrow> in_class False [(97, 122), (65, 90), (48, 57)] c"

definition tag_text :: "string \<Rightarrow> bool" where
  "tag_text s \<longleftrightarrow>
     (\<exists>c cs. s = CHR ''['' # c # cs @ [CHR '']''] \<and> letter c \<and> list_all alnum cs)"

definition key_text :: "string \<Rightarrow> bool" where
  "key_text k \<longleftrightarrow> (\<exists>c cs. k = c # cs \<and> letter c \<and> list_all (\<lambda>d. alnum d \<or> d = CHR '' '') cs)"

definition value_text :: "string \<Rightarrow> bool" where
  "value_text v \<longleftrightarrow> list_all (\<lambda>c. c \<notin> {CHR 0x0A, CHR 0x09, CHR ''=''}) v"

definition param_text :: "string \<Rightarrow> bool" where
  "param_text s \<longleftrightarrow> (\<exists>k v. s = k @ CHR ''='' # v \<and> key_text k \<and> value_text v)"

lemma regcomp_tag: "regcomp isSectionTagExpr = Some
    (Seq (Seq (Seq (char_rx CHR ''['') (Cls False [(97, 122), (65, 90)]))
       (Star (Cls False [(97, 122), (65, 90), (48, 57)]))) (char_rx CHR '']''))"
  by code_simp

lemma regcomp_param: "regcomp isParamExpr = Some
    (Seq (Seq (Seq (Cls False [(97, 122), (65, 90)])
       (Star (Cls False [(97, 122), (65, 90), (48, 57), (32, 32)]))) (char_rx CHR ''=''))
       (Star (Cls True [(10, 10), (9, 9), (61, 61)])))"
  by code_simp

lemma lang_Cls_Cons: "lang (Cls n rs) = {[c] | c. in_class n rs c}"
  by simp

lemma lang_four: "s \<in> lang (Seq (Seq (Seq a b) c) d) \<longleftrightarrow>
    (\<exists>w x y z. s = w @ x @ y @ z \<and> w \<in> lang a \<and> x \<in> lang b \<and> y \<in> lang c \<and> z \<in> lang d)"
proof
  assume "s \<in> lang (Seq (Seq (Seq a b) c) d)"
  then show "\<exists>w x y z. s = w @ x @ y @ z \<and> w \<in> lang a \<and> x \<in> lang b \<and> y \<in> lang c \<and> z \<in> lang d"
    by fastforce
next
  assume "\<exists>w x y z. s = w @ x @ y @ z \<and> w \<in> lang a \<and> x \<in> lang b \<and> y \<in> lang c \<and> z \<in> lang d"
  then obtain w x y z where "s = ((w @ x) @ y) @ z" "w \<in> lang a" "x \<in> lang b" "y \<in> lang c" "z \<in> lang d"
    by auto
  then show "s \<in> lang (Seq (Seq (Seq a b) c) d)" unfolding lang.simps(4) by blast
qed

text \<open>Both patterns are two characters or classes around a star, in different orders.\<close>

lemma lang_tag: "s \<in> lang (Seq (Seq (Seq (char_rx a) (Cls n rs)) r) (char_rx b)) \<longleftrightarrow>
    (\<exists>c cs. s = a # c # cs @ [b] \<and> in_class n rs c \<and> cs \<in> lang r)"
  unfolding lang_four by auto (metis append_Cons append_Nil)

lemma lang_param: "s \<in> lang (Seq (Seq (Seq (Cls n rs) r) (char_rx a)) t) \<longleftrightarrow>
    (\<exists>c cs v. s = (c # cs) @ a # v \<and> in_class n rs c \<and> cs \<in> lang r \<and> v \<in> lang t)"
proof
  assume "s \<in> lang (Seq (Seq (Seq (Cls n rs) r) (char_rx a)) t)"
  then show "\<exists>c cs v. s = (c # cs) @ a # v \<and> in_class n rs c \<and> cs \<in> lang r \<and> v \<in> lang t"
    unfolding lang_four by fastforce
next
  assume "\<exists>c cs v. s = (c # cs) @ a # v \<and> in_class n rs c \<and> cs \<in> lang r \<and> v \<in> lang t"
  then obtain c cs v where "s = [c] @ cs @ [a] @ v" "in_class n rs c" "cs \<in> lang r" "v \<in> lang t"
    by auto
  then show "s \<in> lang (Seq (Seq (Seq (Cls n rs) r) (char_rx a)) t)"
    unfolding lang_four lang_char_rx lang_Cls_Cons by blast
qed

lemma regexec_tag: "regexec isSectionTagExpr s = 0 \<longleftrightarrow> tag_text s"
proof -
  have "x \<in> lang (Star (Cls False [(97, 122), (65, 90), (48, 57)])) \<longleftrightarrow> list_all alnum x" for x
    unfolding lang_star_Cls by (simp add: alnum_def list_all_iff)
  then show ?thesis
    unfolding regexec_lang [OF regcomp_tag] lang_tag tag_text_def letter_def by simp
qed

lemma regexec_param: "regexec isParamExpr s = 0 \<longleftrightarrow> param_text s"
proof -
  have codes: "char_code c = 32 \<longleftrightarrow> c = CHR '' ''" "char_code c = 10 \<longleftrightarrow> c = CHR 0x0A"
    "char_code c = 9 \<longleftrightarrow> c = CHR 0x09" "char_code c = 61 \<longleftrightarrow> c = CHR ''=''" for c
    by (rule char_code_eq, code_simp)+
  have "in_class False [(97, 122), (65, 90), (48, 57), (32, 32)] d \<longleftrightarrow> alnum d \<or> d = CHR '' ''" for d
    unfolding codes(1) [symmetric] by (simp add: alnum_def in_class_def) arith
  then have star: "x \<in> lang (Star (Cls False [(97, 122), (65, 90), (48, 57), (32, 32)])) \<longleftrightarrow>
      list_all (\<lambda>d. alnum d \<or> d = CHR '' '') x" for x
    unfolding lang_star_Cls by (auto simp: list_all_iff)
  have "in_class True [(10, 10), (9, 9), (61, 61)] d \<longleftrightarrow> d \<notin> {CHR 0x0A, CHR 0x09, CHR ''=''}" for d
    unfolding insert_iff empty_iff codes(2-4) [symmetric] by (simp add: in_class_def) arith
  then have val: "x \<in> lang (Star (Cls True [(10, 10), (9, 9), (61, 61)])) \<longleftrightarrow> value_text x" for x
    unfolding lang_star_Cls value_text_def by (auto simp: list_all_iff)
  show ?thesis
    unfolding regexec_lang [OF regcomp_param] lang_param star val param_text_def key_text_def letter_def
    by blast
qed

section \<open>Lines in memory\<close>

lemma isParam_str: "c_text s \<Longrightarrow> isParam (c_str s) = Inr (param_text s)"
  by (simp add: isParam_def regexec_param)

lemma isSectionTag_str: "c_text s \<Longrightarrow> isSectionTag (c_str s) = Inr (tag_text s)"
  by (simp add: isSectionTag_def regexec_tag)

text \<open>A parameter line has one \<open>=\<close>; its key is what is before it.\<close>

definition key_of :: "string \<Rightarrow> string" where
  "key_of s = takeWhile (\<lambda>c. c \<noteq> CHR ''='') s"

definition value_of :: "string \<Rightarrow> string" where
  "value_of s = tl (dropWhile (\<lambda>c. c \<noteq> CHR ''='') s)"

lemma key_value_append:
  assumes "CHR ''='' \<notin> set k"
  shows "key_of (k @ CHR ''='' # v) = k" "value_of (k @ CHR ''='' # v) = v"
  using assms by (induction k) (auto simp: key_of_def value_of_def)

lemma key_no_equals: "key_text k \<Longrightarrow> CHR ''='' \<notin> set k"
proof -
  have "\<not> letter CHR ''=''" "\<not> alnum CHR ''=''" by code_simp+
  then show "key_text k \<Longrightarrow> CHR ''='' \<notin> set k" by (auto simp: key_text_def list_all_iff)
qed

lemma param_text_split: "param_text s \<Longrightarrow> s = key_of s @ CHR ''='' # value_of s \<and> CHR ''='' \<notin> set (key_of s)"
  unfolding param_text_def using key_no_equals key_value_append by metis

lemma find_equals_at:
  "CHR ''='' \<notin> set k \<Longrightarrow>
     find_equals (map Some (bytes_of (k @ CHR ''='' # v) @ [0])) i = Inr (i + length k)"
proof (induction k arbitrary: i)
  case (Cons c k)
  then show ?case using of_char_byte_inject [of c "CHR ''=''"] by (auto simp: bytes_of_def)
qed (simp add: bytes_of_def)

lemma getValue_at: "CHR ''='' \<notin> set k \<Longrightarrow> getValue (c_str (k @ CHR ''='' # v)) = Inr (c_str v)"
  using find_equals_at [of k v 0] by (simp add: getValue_def) (simp add: c_str_def full_block_def bytes_of_def)

lemma getParam_at: "CHR ''='' \<notin> set k \<Longrightarrow>
    getParam beyond (c_str (k @ CHR ''='' # v)) = Inr (Block (map Some (bytes_of k) @ beyond (length k)))"
  using find_equals_at [of k v 0] by (simp add: getParam_def) (simp add: c_str_def mem_read_full)

lemma getValue_param: "param_text s \<Longrightarrow> getValue (c_str s) = Inr (c_str (value_of s))"
  using param_text_split [of s] getValue_at [of "key_of s" "value_of s"] by simp

lemma getParam_param:
  "param_text s \<Longrightarrow> getParam beyond (c_str s) =
     Inr (Block (map Some (bytes_of (key_of s)) @ beyond (length (key_of s))))"
  using param_text_split [of s] getParam_at [of "key_of s" beyond "value_of s"] by simp

lemma not_in_tl: "x \<notin> set xs \<Longrightarrow> x \<notin> set (tl xs)"
  by (cases xs) auto

lemma c_text_key_value: "c_text s \<Longrightarrow> c_text (key_of s)" "c_text s \<Longrightarrow> c_text (value_of s)"
proof -
  show "c_text s \<Longrightarrow> c_text (key_of s)" by (auto simp: c_text_def key_of_def dest: set_takeWhileD)
  assume "c_text s"
  then have "CHR 0x00 \<notin> set (dropWhile (\<lambda>c. c \<noteq> CHR ''='') s)"
    by (auto simp: c_text_def dest: set_dropWhileD)
  then have "CHR 0x00 \<notin> set (tl (dropWhile (\<lambda>c. c \<noteq> CHR ''='') s))" by (rule not_in_tl)
  then show "c_text (value_of s)" by (simp only: c_text_def value_of_def not_False_eq_True)
qed

lemma leadingTrim_str: "c_text s \<Longrightarrow> leadingTrim (c_str s) = Inr (c_str (trim_left s))"
  using leadingTrim_text [of s "[]"] by (simp add: c_str_def full_block_def)

lemma length_after_line: "length (fst (after_line s)) < length s \<or> s = [] \<and> snd (after_line s)"
proof (cases "dropWhile (\<lambda>c. \<not> ends_line c) s")
  case Nil
  then show ?thesis by (cases s) (auto simp: after_line_def)
next
  case (Cons c cs)
  then have "Suc (length cs) \<le> length s" using length_dropWhile_le [of "\<lambda>c. \<not> ends_line c" s] by simp
  with Cons show ?thesis by (simp add: after_line_def)
qed

end
