(* ===== verification/Config.thy ===== *)
theory Config
  imports ConfigFile
begin

text \<open>
  \<^verbatim>\<open>common/config.c\<close>, the automaton that parses the configuration file: its states, arcs and
  actions as the code builds them, and what the parser computes.
\<close>

section \<open>The structures\<close>

text \<open>A state is referred to by its index; an arc of an array that was never stored is \<open>None\<close>.\<close>

record config_t =
  cf_server :: ptr
  cf_listeningPort :: ptr
  cf_database :: ptr
  cf_logging :: ptr

datatype action_fn = Q0 | Q1 | Q2 | Q3 | Q4 | Q5

record arc_t =
  arc_tag :: string
  arc_next :: nat

record state_t =
  st_name :: string
  st_arcs :: "arc_t option list"
  st_arcsQuantity :: nat
  st_action :: action_fn

record parser_t =
  pa_actualState :: nat
  pa_states :: "state_t list"
  pa_statesQuantity :: nat

definition createState :: "string \<Rightarrow> action_fn \<Rightarrow> state_t" where
  "createState name action =
     \<lparr>st_name = name, st_arcs = [], st_arcsQuantity = 0, st_action = action\<rparr>"

definition createArc :: "string \<Rightarrow> nat \<Rightarrow> arc_t" where
  "createArc tag next = \<lparr>arc_tag = tag, arc_next = next\<rparr>"

text \<open>The loop stops at index \<open>quantity\<close>, not after \<open>quantity\<close> arcs.\<close>

fun addArcs_loop :: "nat \<Rightarrow> nat \<Rightarrow> arc_t list \<Rightarrow> arc_t option list \<Rightarrow> arc_t option list c_result" where
  "addArcs_loop i quantity [] arcs = (if i < quantity then Inl Uninit else Inr arcs)"
| "addArcs_loop i quantity (a # ap) arcs =
     (if i < quantity then
        (if i < length arcs then addArcs_loop (i + 1) quantity ap (arcs[i := Some a])
         else Inl Out_of_bounds)
      else Inr arcs)"

definition addArcs :: "state_t \<Rightarrow> nat \<Rightarrow> arc_t list \<Rightarrow> (int \<times> state_t) c_result" where
  "addArcs state quantity ap =
     (let i = st_arcsQuantity state;
          aux = take (i + quantity) (st_arcs state @ replicate quantity None) in
      c_bind (addArcs_loop i quantity ap aux) (\<lambda>arcs.
      Inr (0, state\<lparr>st_arcs := arcs, st_arcsQuantity := i + quantity\<rparr>)))"

definition createAutomaton :: "parser_t c_result" where
  "createAutomaton =
     (let addresses = createArc ''[addresses]'' 1;
          server = createArc ''server'' 2;
          listeningPort = createArc ''listening port'' 3;
          database = createArc ''database'' 4;
          logging = createArc ''logging'' 5;
          backToQ0 = createArc ''end'' 0;
          lambdaToQ1 = createArc '''' 1 in
      c_bind (addArcs (createState ''q0'' Q0) 1 [addresses]) (\<lambda>(_, q0).
      c_bind (addArcs (createState ''q1'' Q1) 5 [server, listeningPort, database, logging, backToQ0]) (\<lambda>(_, q1).
      c_bind (addArcs (createState ''q2'' Q2) 1 [lambdaToQ1]) (\<lambda>(_, q2).
      c_bind (addArcs (createState ''q3'' Q3) 1 [lambdaToQ1]) (\<lambda>(_, q3).
      c_bind (addArcs (createState ''q4'' Q4) 1 [lambdaToQ1]) (\<lambda>(_, q4).
      c_bind (addArcs (createState ''q5'' Q5) 1 [lambdaToQ1]) (\<lambda>(_, q5).
      Inr \<lparr>pa_actualState = 0, pa_states = [q0, q1, q2, q3, q4, q5], pa_statesQuantity = 6\<rparr>)))))))"

section \<open>Moving through the automaton\<close>

definition state_at :: "parser_t \<Rightarrow> nat \<Rightarrow> state_t c_result" where
  "state_at parser n =
     (if n < length (pa_states parser) then Inr (pa_states parser ! n) else Inl Out_of_bounds)"

definition current :: "parser_t \<Rightarrow> state_t c_result" where
  "current parser = state_at parser (pa_actualState parser)"

definition arc_at :: "state_t \<Rightarrow> nat \<Rightarrow> arc_t c_result" where
  "arc_at st i =
     (if i < length (st_arcs st) then
        (case st_arcs st ! i of None \<Rightarrow> Inl Uninit | Some a \<Rightarrow> Inr a)
      else Inl Out_of_bounds)"

text \<open>
  The search goes over as many arcs as the automaton has states, whatever the number of arcs
  of the current state: \<open>k\<close> rounds are left, \<open>i\<close> is the next arc.
\<close>

fun moveTo_loop :: "parser_t \<Rightarrow> string \<Rightarrow> nat \<Rightarrow> nat \<Rightarrow> (int \<times> parser_t) c_result" where
  "moveTo_loop parser name 0 i = Inr (-1, parser)"
| "moveTo_loop parser name (Suc k) i =
     c_bind (current parser) (\<lambda>st.
     c_bind (arc_at st i) (\<lambda>a.
     c_bind (state_at parser (arc_next a)) (\<lambda>aux.
     if name = st_name aux then Inr (0, parser\<lparr>pa_actualState := arc_next a\<rparr>)
     else moveTo_loop parser name k (i + 1))))"

definition moveTo :: "parser_t \<Rightarrow> string \<Rightarrow> (int \<times> parser_t) c_result" where
  "moveTo parser name = moveTo_loop parser name (pa_statesQuantity parser) 0"

text \<open>The first arc of a state whose tag is the string at \<open>text\<close>.\<close>

fun find_arc :: "state_t \<Rightarrow> ptr \<Rightarrow> nat \<Rightarrow> nat \<Rightarrow> arc_t option c_result" where
  "find_arc st text 0 i = Inr None"
| "find_arc st text (Suc k) i =
     c_bind (arc_at st i) (\<lambda>a.
     c_bind (strcmp_eq text (arc_tag a)) (\<lambda>equal.
     if equal then Inr (Some a) else find_arc st text k (i + 1)))"

section \<open>The actions\<close>

text \<open>
  Every action ends by returning or by calling the action of the state the parser is in then;
  the call is in tail position.
\<close>

datatype outcome = Returns int config_t | Calls conf_file ptr parser_t config_t

definition q0Action :: "conf_file \<Rightarrow> ptr \<Rightarrow> parser_t \<Rightarrow> config_t \<Rightarrow> outcome c_result" where
  "q0Action fp line parser config =
     (if feof fp then Inr (Returns 0 config)
      else
        c_bind (readLine fp) (\<lambda>(line, fp).
        c_bind (isSectionTag line) (\<lambda>tag.
        if tag then
          c_bind (current parser) (\<lambda>st.
          c_bind (find_arc st line (st_arcsQuantity st) 0) (\<lambda>found.
          case found of
            None \<Rightarrow> Inr (Returns (-1) config)
          | Some a \<Rightarrow>
              c_bind (state_at parser (arc_next a)) (\<lambda>next.
              c_bind (moveTo parser (st_name next)) (\<lambda>(_, parser).
              Inr (Calls fp Null_ptr parser config)))))
        else
          c_bind (strcmp_eq line '''') (\<lambda>empty.
          if empty then Inr (Calls fp Null_ptr parser config)
          else Inr (Returns (-1) config)))))"

definition q1Action ::
  "(nat \<Rightarrow> cell list) \<Rightarrow> conf_file \<Rightarrow> ptr \<Rightarrow> parser_t \<Rightarrow> config_t \<Rightarrow> outcome c_result" where
  "q1Action beyond fp line parser config =
     (if feof fp then Inr (Returns (-1) config)
      else
        c_bind (readLine fp) (\<lambda>(line, fp).
        c_bind (strcmp_eq line ''end'') (\<lambda>is_end.
        if is_end then
          c_bind (moveTo parser ''q0'') (\<lambda>(_, parser). Inr (Calls fp Null_ptr parser config))
        else
          c_bind (isParam line) (\<lambda>is_param.
          if is_param then
            c_bind (getParam beyond line) (\<lambda>param.
            c_bind (current parser) (\<lambda>st.
            c_bind (find_arc st param (st_arcsQuantity st) 0) (\<lambda>found.
            case found of
              Some a \<Rightarrow>
                c_bind (getValue line) (\<lambda>value.
                c_bind (state_at parser (arc_next a)) (\<lambda>next.
                c_bind (moveTo parser (st_name next)) (\<lambda>(_, parser).
                c_bind (c_free param) (\<lambda>_. Inr (Calls fp value parser config)))))
            | None \<Rightarrow> c_bind (c_free param) (\<lambda>_. Inr (Calls fp Null_ptr parser config)))))
          else
            c_bind (strcmp_eq line '''') (\<lambda>empty.
            if empty then Inr (Calls fp Null_ptr parser config)
            else Inr (Returns (-1) config))))))"

definition q2Action :: "conf_file \<Rightarrow> ptr \<Rightarrow> parser_t \<Rightarrow> config_t \<Rightarrow> outcome c_result" where
  "q2Action fp line parser config =
     c_bind (leadingTrim line) (\<lambda>line. let config = config\<lparr>cf_server := line\<rparr> in
     c_bind (moveTo parser ''q1'') (\<lambda>(_, parser). Inr (Calls fp Null_ptr parser config)))"

definition q3Action :: "conf_file \<Rightarrow> ptr \<Rightarrow> parser_t \<Rightarrow> config_t \<Rightarrow> outcome c_result" where
  "q3Action fp line parser config =
     c_bind (leadingTrim line) (\<lambda>line. let config = config\<lparr>cf_listeningPort := line\<rparr> in
     c_bind (moveTo parser ''q1'') (\<lambda>(_, parser). Inr (Calls fp Null_ptr parser config)))"

definition q4Action :: "conf_file \<Rightarrow> ptr \<Rightarrow> parser_t \<Rightarrow> config_t \<Rightarrow> outcome c_result" where
  "q4Action fp line parser config =
     c_bind (leadingTrim line) (\<lambda>line. let config = config\<lparr>cf_database := line\<rparr> in
     c_bind (moveTo parser ''q1'') (\<lambda>(_, parser). Inr (Calls fp Null_ptr parser config)))"

definition q5Action :: "conf_file \<Rightarrow> ptr \<Rightarrow> parser_t \<Rightarrow> config_t \<Rightarrow> outcome c_result" where
  "q5Action fp line parser config =
     c_bind (leadingTrim line) (\<lambda>line. let config = config\<lparr>cf_logging := line\<rparr> in
     c_bind (moveTo parser ''q1'') (\<lambda>(_, parser). Inr (Calls fp Null_ptr parser config)))"

definition call_action ::
  "(nat \<Rightarrow> cell list) \<Rightarrow> action_fn \<Rightarrow> conf_file \<Rightarrow> ptr \<Rightarrow> parser_t \<Rightarrow> config_t \<Rightarrow> outcome c_result" where
  "call_action beyond f fp line parser config = (case f of
     Q0 \<Rightarrow> q0Action fp line parser config
   | Q1 \<Rightarrow> q1Action beyond fp line parser config
   | Q2 \<Rightarrow> q2Action fp line parser config
   | Q3 \<Rightarrow> q3Action fp line parser config
   | Q4 \<Rightarrow> q4Action fp line parser config
   | Q5 \<Rightarrow> q5Action fp line parser config)"

section \<open>Every chain of calls ends\<close>

text \<open>
  An action that reads moves on in the file or sees its end; an action that does not read hands
  on no line, and cannot run twice without one. This holds of any automaton.
\<close>

definition to_read :: "conf_file \<Rightarrow> nat" where
  "to_read fp = 2 * length (fst fp) + (if snd fp then 0 else 1)"

lemma readLine_loop_file: "readLine_loop s str i = Inr (q, fp) \<Longrightarrow> fp = after_line s"
proof (induction s arbitrary: str i)
  case Nil
  then show ?case by (auto simp: after_line_def c_bind_eq_Inr_iff)
next
  case (Cons c s)
  then show ?case by (auto simp: after_line_def c_bind_eq_Inr_iff split: if_splits)
qed

lemma readLine_progress:
  assumes "readLine fp = Inr (line, fp')" and "\<not> feof fp"
  shows "to_read fp' < to_read fp"
proof -
  from assms(1) have "fp' = after_line (fst fp)"
    by (auto simp: readLine_def c_bind_eq_Inr_iff dest: readLine_loop_file)
  with length_after_line [of "fst fp"] assms(2) show ?thesis
    by (auto simp: to_read_def feof_def after_line_def)
qed

lemma leadingTrim_not_Null: "leadingTrim line = Inr q \<Longrightarrow> line \<noteq> Null_ptr"
  by (auto simp: leadingTrim_def strlen_def)

lemma call_action_progress:
  assumes "call_action beyond f fp line parser config = Inr (Calls fp' line' parser' config')"
  shows "to_read fp' < to_read fp \<or> fp' = fp \<and> line \<noteq> Null_ptr \<and> line' = Null_ptr"
proof (cases f)
  case Q0
  with assms show ?thesis
    by (auto simp: call_action_def q0Action_def c_bind_eq_Inr_iff readLine_progress
        split: if_splits option.splits)
next
  case Q1
  with assms show ?thesis
    by (auto simp: call_action_def q1Action_def c_bind_eq_Inr_iff readLine_progress
        split: if_splits option.splits)
qed (use assms in \<open>auto simp: call_action_def q2Action_def q3Action_def q4Action_def q5Action_def
    c_bind_eq_Inr_iff dest: leadingTrim_not_Null\<close>)

function run_parser ::
  "(nat \<Rightarrow> cell list) \<Rightarrow> conf_file \<Rightarrow> ptr \<Rightarrow> parser_t \<Rightarrow> config_t \<Rightarrow> (int \<times> config_t) c_result" where
  "run_parser beyond fp line parser config =
     c_bind (current parser) (\<lambda>st.
     c_bind (call_action beyond (st_action st) fp line parser config) (\<lambda>out.
     case out of
       Returns r config \<Rightarrow> Inr (r, config)
     | Calls fp line parser config \<Rightarrow> run_parser beyond fp line parser config))"
  by pat_completeness auto
termination
proof (relation "measures [\<lambda>(b, fp, l, p, c). to_read fp, \<lambda>(b, fp, l, p, c). if l = Null_ptr then 0 else 1]",
    goal_cases)
  case 1
  show ?case by simp
next
  case (2 beyond fp line parser config st out fp' line' parser' config')
  then show ?case using call_action_progress [of beyond "st_action st" fp line parser config] by fastforce
qed

declare run_parser.simps [simp del]

section \<open>Setup\<close>

definition no_config :: config_t where
  "no_config = \<lparr>cf_server = Uninit_ptr, cf_listeningPort = Uninit_ptr, cf_database = Uninit_ptr,
     cf_logging = Uninit_ptr\<rparr>"

definition parse :: "(nat \<Rightarrow> cell list) \<Rightarrow> string \<Rightarrow> config_t \<Rightarrow> (int \<times> config_t) c_result" where
  "parse beyond content config =
     c_bind createAutomaton (\<lambda>parser. run_parser beyond (content, False) Null_ptr parser config)"

text \<open>\<open>setup\<close> with the content of the file, \<open>None\<close> when it cannot be opened.\<close>

definition setup_config :: "(nat \<Rightarrow> cell list) \<Rightarrow> string option \<Rightarrow> config_t option c_result" where
  "setup_config beyond configFile = (case configFile of
     None \<Rightarrow> Inr None
   | Some content \<Rightarrow>
       c_bind (parse beyond content no_config) (\<lambda>(flag, config).
       Inr (if flag \<noteq> 0 then None else Some config)))"

definition deref_config :: "config_t option \<Rightarrow> config_t c_result" where
  "deref_config c = (case c of None \<Rightarrow> Inl Null_deref | Some x \<Rightarrow> Inr x)"

definition getServerAddress :: "config_t option \<Rightarrow> ptr c_result" where
  "getServerAddress config = c_bind (deref_config config) (\<lambda>c. Inr (cf_server c))"

definition getListeningPort :: "config_t option \<Rightarrow> ptr c_result" where
  "getListeningPort config = c_bind (deref_config config) (\<lambda>c. Inr (cf_listeningPort c))"

definition getDatabaseAddress :: "config_t option \<Rightarrow> ptr c_result" where
  "getDatabaseAddress config = c_bind (deref_config config) (\<lambda>c. Inr (cf_database c))"

definition getLoggingAddress :: "config_t option \<Rightarrow> ptr c_result" where
  "getLoggingAddress config = c_bind (deref_config config) (\<lambda>c. Inr (cf_logging c))"

section \<open>The automaton the code builds\<close>

definition arc :: "string \<Rightarrow> nat \<Rightarrow> arc_t option" where
  "arc tag next = Some \<lparr>arc_tag = tag, arc_next = next\<rparr>"

definition automaton :: "nat \<Rightarrow> parser_t" where
  "automaton k = \<lparr>pa_actualState = k, pa_states =
     [\<lparr>st_name = ''q0'', st_arcs = [arc ''[addresses]'' 1], st_arcsQuantity = 1, st_action = Q0\<rparr>,
      \<lparr>st_name = ''q1'', st_arcs = [arc ''server'' 2, arc ''listening port'' 3, arc ''database'' 4,
         arc ''logging'' 5, arc ''end'' 0], st_arcsQuantity = 5, st_action = Q1\<rparr>,
      \<lparr>st_name = ''q2'', st_arcs = [arc '''' 1], st_arcsQuantity = 1, st_action = Q2\<rparr>,
      \<lparr>st_name = ''q3'', st_arcs = [arc '''' 1], st_arcsQuantity = 1, st_action = Q3\<rparr>,
      \<lparr>st_name = ''q4'', st_arcs = [arc '''' 1], st_arcsQuantity = 1, st_action = Q4\<rparr>,
      \<lparr>st_name = ''q5'', st_arcs = [arc '''' 1], st_arcsQuantity = 1, st_action = Q5\<rparr>],
     pa_statesQuantity = 6\<rparr>"

lemma createAutomaton_automaton: "createAutomaton = Inr (automaton 0)"
  by (simp add: createAutomaton_def automaton_def addArcs_def createState_def createArc_def arc_def
      Let_def numeral_eq_Suc)

definition state_of :: "nat \<Rightarrow> state_t" where
  "state_of k = pa_states (automaton 0) ! k"

lemma current_automaton: "k < 6 \<Longrightarrow> current (automaton k) = Inr (state_of k)"
  by (simp add: current_def state_at_def automaton_def state_of_def)

lemma state_at_automaton: "j < 6 \<Longrightarrow> state_at (automaton k) j = Inr (state_of j)"
  by (simp add: state_at_def automaton_def state_of_def)

lemma state_of_simps:
  "st_action (state_of 0) = Q0" "st_action (state_of 1) = Q1" "st_action (state_of 2) = Q2"
  "st_action (state_of 3) = Q3" "st_action (state_of 4) = Q4" "st_action (state_of 5) = Q5"
  "st_name (state_of 0) = ''q0''" "st_name (state_of 1) = ''q1''" "st_name (state_of 2) = ''q2''"
  "st_name (state_of 3) = ''q3''" "st_name (state_of 4) = ''q4''" "st_name (state_of 5) = ''q5''"
  "st_arcsQuantity (state_of 0) = 1" "st_arcsQuantity (state_of 1) = 5"
  by (simp_all add: state_of_def automaton_def)

text \<open>No move ever looks at an arc that is not there: the name it searches is always found.\<close>

lemma moves:
  "moveTo (automaton 0) ''q1'' = Inr (0, automaton 1)"
  "moveTo (automaton 1) ''q0'' = Inr (0, automaton 0)"
  "moveTo (automaton 1) ''q2'' = Inr (0, automaton 2)"
  "moveTo (automaton 1) ''q3'' = Inr (0, automaton 3)"
  "moveTo (automaton 1) ''q4'' = Inr (0, automaton 4)"
  "moveTo (automaton 1) ''q5'' = Inr (0, automaton 5)"
  "moveTo (automaton 2) ''q1'' = Inr (0, automaton 1)"
  "moveTo (automaton 3) ''q1'' = Inr (0, automaton 1)"
  "moveTo (automaton 4) ''q1'' = Inr (0, automaton 1)"
  "moveTo (automaton 5) ''q1'' = Inr (0, automaton 1)"
  by (simp_all add: moveTo_def automaton_def current_def state_at_def arc_at_def arc_def numeral_eq_Suc)

section \<open>What the parser computes\<close>

text \<open>
  The abstract parser: the lines of the file, trimmed, outside or inside the section. An unknown
  section or a line that is neither a parameter nor empty stops it with -1, as does the end of
  the file inside the section. A parameter whose key is \<open>end\<close> ends the section like a line \<open>end\<close>:
  the keys are compared with the tags of all arcs.
\<close>

definition is_param_line :: "string \<Rightarrow> bool" where
  "is_param_line l \<longleftrightarrow> regexec isParamExpr l = 0"

definition set_key :: "string \<Rightarrow> string \<Rightarrow> config_t \<Rightarrow> config_t" where
  "set_key k v cfg =
     (if k = ''server'' then cfg\<lparr>cf_server := c_str v\<rparr>
      else if k = ''listening port'' then cfg\<lparr>cf_listeningPort := c_str v\<rparr>
      else if k = ''database'' then cfg\<lparr>cf_database := c_str v\<rparr>
      else if k = ''logging'' then cfg\<lparr>cf_logging := c_str v\<rparr>
      else cfg)"

fun spec_lines :: "bool \<Rightarrow> string list \<Rightarrow> config_t \<Rightarrow> int \<times> config_t" where
  "spec_lines inside [] cfg = (if inside then -1 else 0, cfg)"
| "spec_lines False (l # ls) cfg =
     (if l = ''[addresses]'' then spec_lines True ls cfg
      else if l = '''' then spec_lines False ls cfg
      else (-1, cfg))"
| "spec_lines True (l # ls) cfg =
     (if l = ''end'' \<or> is_param_line l \<and> key_of l = ''end'' then spec_lines False ls cfg
      else if is_param_line l then spec_lines True ls (set_key (key_of l) (trim_left (value_of l)) cfg)
      else if l = '''' then spec_lines True ls cfg
      else (-1, cfg))"

definition line_text :: "string \<Rightarrow> string" where
  "line_text s = trim_left (until_nul (first_line s))"

function file_lines :: "conf_file \<Rightarrow> string list" where
  "file_lines (s, e) = (if e then [] else line_text s # file_lines (after_line s))"
  by pat_completeness auto
termination
proof (relation "measure to_read", goal_cases)
  case (2 s e)
  then show ?case using length_after_line [of s] by (auto simp: to_read_def after_line_def)
qed simp

declare file_lines.simps [simp del]

text \<open>The allocator is kind when a zero byte follows every block the parser asks for.\<close>

definition zero_beyond :: "(nat \<Rightarrow> cell list) \<Rightarrow> bool" where
  "zero_beyond beyond \<longleftrightarrow> (\<forall>n. \<exists>r. beyond n = Some 0 # r)"

lemma c_text_line [simp]: "c_text (line_text s)"
  by (simp add: line_text_def)

lemma literal_texts [simp]:
  "c_text ''[addresses]''" "c_text ''server''" "c_text ''listening port''" "c_text ''database''"
  "c_text ''logging''" "c_text ''end''" "c_text ''''"
  by (simp_all add: c_text_def)

lemma find_arc_0:
  assumes "c_text s"
  shows "find_arc (state_of 0) (c_str s) 1 0 =
    Inr (if s = ''[addresses]'' then arc ''[addresses]'' 1 else None)"
  using assms by (simp add: state_of_def automaton_def arc_at_def arc_def strcmp_eq_str)

lemma tags:
  "tag_text ''[addresses]''" "\<not> tag_text ''''" "is_param_line ''end'' = False" "is_param_line '''' = False"
  unfolding regexec_tag [symmetric] by code_simp+

lemma readLine_line: "length s < 2 ^ 31 - 32 \<Longrightarrow> readLine (s, e) = Inr (c_str (line_text s), after_line s)"
  by (simp add: readLine_reads line_text_def)

lemma q0_step:
  assumes "length s < 2 ^ 31 - 32"
  shows "q0Action (s, False) line (automaton 0) cfg =
    (if line_text s = ''[addresses]'' then Inr (Calls (after_line s) Null_ptr (automaton 1) cfg)
     else if line_text s = '''' then Inr (Calls (after_line s) Null_ptr (automaton 0) cfg)
     else Inr (Returns (-1) cfg))"
  using readLine_line [OF assms, of False] tags
  by (auto simp: q0Action_def feof_def isSectionTag_str current_automaton find_arc_0 state_of_simps
      state_at_automaton arc_def moves strcmp_eq_str simp del: One_nat_def)

lemma strcmp_key:
  assumes "zero_beyond beyond" and "c_text k" and "c_text t"
  shows "strcmp_eq (Block (map Some (bytes_of k) @ beyond n)) t = Inr (k = t)"
proof -
  obtain r where "beyond n = Some 0 # r" using assms(1) by (auto simp: zero_beyond_def)
  with strcmp_eq_text [OF assms(2,3), of r] show ?thesis by simp
qed

definition arc_of_key :: "string \<Rightarrow> arc_t option" where
  "arc_of_key k =
     (if k = ''server'' then arc ''server'' 2
      else if k = ''listening port'' then arc ''listening port'' 3
      else if k = ''database'' then arc ''database'' 4
      else if k = ''logging'' then arc ''logging'' 5
      else if k = ''end'' then arc ''end'' 0
      else None)"

lemma find_arc_1:
  assumes "zero_beyond beyond" and "c_text k"
  shows "find_arc (state_of 1) (Block (map Some (bytes_of k) @ beyond n)) 5 0 = Inr (arc_of_key k)"
  using strcmp_key [OF assms]
  by (simp add: state_of_def automaton_def arc_at_def arc_def arc_of_key_def numeral_eq_Suc)

lemma c_free_Block [simp]: "c_free (Block cs) = Inr Freed"
  by (simp add: c_free_def)

lemma q1_param:
  assumes "length s < 2 ^ 31 - 32" and "zero_beyond beyond"
    and "line_text s \<noteq> ''end''" and "is_param_line (line_text s)"
  shows "q1Action beyond (s, False) line (automaton 1) cfg =
    (let v = c_str (value_of (line_text s)); k = key_of (line_text s) in
     if k = ''server'' then Inr (Calls (after_line s) v (automaton 2) cfg)
     else if k = ''listening port'' then Inr (Calls (after_line s) v (automaton 3) cfg)
     else if k = ''database'' then Inr (Calls (after_line s) v (automaton 4) cfg)
     else if k = ''logging'' then Inr (Calls (after_line s) v (automaton 5) cfg)
     else if k = ''end'' then Inr (Calls (after_line s) v (automaton 0) cfg)
     else Inr (Calls (after_line s) Null_ptr (automaton 1) cfg))"
proof -
  have p: "param_text (line_text s)" using assms(4) by (simp add: is_param_line_def regexec_param)
  note simps = readLine_line [OF assms(1), of False] strcmp_eq_str isParam_str getParam_param [OF p]
    getValue_param [OF p] current_automaton state_of_simps state_at_automaton moves
    find_arc_1 [OF assms(2) c_text_key_value(1)]
  show ?thesis
    using assms(3) p
    by (simp add: q1Action_def feof_def simps arc_of_key_def arc_def Let_def del: One_nat_def)
qed

lemma q1_other:
  assumes "length s < 2 ^ 31 - 32" and "line_text s = ''end'' \<or> \<not> is_param_line (line_text s)"
  shows "q1Action beyond (s, False) line (automaton 1) cfg =
    (if line_text s = ''end'' then Inr (Calls (after_line s) Null_ptr (automaton 0) cfg)
     else if line_text s = '''' then Inr (Calls (after_line s) Null_ptr (automaton 1) cfg)
     else Inr (Returns (-1) cfg))"
  using assms(2) readLine_line [OF assms(1), of False]
  by (auto simp: q1Action_def feof_def strcmp_eq_str isParam_str moves is_param_line_def regexec_param
      simp del: One_nat_def)

lemma run_in_state:
  "k < 6 \<Longrightarrow> run_parser beyond fp line (automaton k) cfg =
     c_bind (call_action beyond (st_action (state_of k)) fp line (automaton k) cfg) (\<lambda>out.
     case out of
       Returns r config \<Rightarrow> Inr (r, config)
     | Calls fp line parser config \<Rightarrow> run_parser beyond fp line parser config)"
  by (subst run_parser.simps) (simp add: current_automaton)

lemma run_store:
  assumes "c_text v"
  shows "run_parser beyond fp (c_str v) (automaton 2) cfg =
      run_parser beyond fp Null_ptr (automaton 1) (set_key ''server'' (trim_left v) cfg)"
    "run_parser beyond fp (c_str v) (automaton 3) cfg =
      run_parser beyond fp Null_ptr (automaton 1) (set_key ''listening port'' (trim_left v) cfg)"
    "run_parser beyond fp (c_str v) (automaton 4) cfg =
      run_parser beyond fp Null_ptr (automaton 1) (set_key ''database'' (trim_left v) cfg)"
    "run_parser beyond fp (c_str v) (automaton 5) cfg =
      run_parser beyond fp Null_ptr (automaton 1) (set_key ''logging'' (trim_left v) cfg)"
  using assms
  by (simp_all add: run_in_state state_of_simps call_action_def q2Action_def q3Action_def q4Action_def
      q5Action_def leadingTrim_str moves set_key_def Let_def del: One_nat_def)

lemma length_fst_after_line: "length (fst (after_line s)) \<le> length s"
  using length_after_line [of s] by auto (simp add: after_line_def)

lemma run_parser_spec:
  assumes "zero_beyond beyond" and "length (fst fp) < 2 ^ 31 - 32"
  shows "run_parser beyond fp line (automaton (if inside then 1 else 0)) cfg =
    Inr (spec_lines inside (file_lines fp) cfg)"
  using assms(2)
proof (induction fp arbitrary: line inside cfg rule: file_lines.induct)
  case (1 s e)
  show ?case
  proof (cases e)
    case True
    then show ?thesis
      by (auto simp: file_lines.simps run_in_state state_of_simps call_action_def q0Action_def
          q1Action_def feof_def simp del: One_nat_def)
  next
    case False
    have len: "length s < 2 ^ 31 - 32" using "1.prems" by simp
    have IH: "run_parser beyond (after_line s) l (automaton (if i then 1 else 0)) c =
        Inr (spec_lines i (file_lines (after_line s)) c)" for l i c
      using False len length_fst_after_line [of s] by (intro "1.IH") auto
    note IH0 = IH [of _ False, simplified] and IH1 = IH [of _ True, simplified]
    have lines: "file_lines (s, False) = line_text s # file_lines (after_line s)"
      by (simp add: file_lines.simps)
    show ?thesis
    proof (cases inside)
      case False
      with q0_step [OF len, of line cfg] \<open>\<not> e\<close> IH0 IH1 show ?thesis
        by (simp add: lines run_in_state [of 0 beyond "(s, False)"] state_of_simps call_action_def)
    next
      case True
      show ?thesis
      proof (cases "line_text s \<noteq> ''end'' \<and> is_param_line (line_text s)")
        case param: True
        with q1_param [OF len assms(1), of line cfg] True \<open>\<not> e\<close> IH0 IH1
          run_store [OF c_text_key_value(2) [OF c_text_line [of s]]]
        show ?thesis
          by (simp add: lines run_in_state [of 1 beyond "(s, False)", simplified] state_of_simps [simplified]
              call_action_def Let_def) (simp add: set_key_def)
      next
        case other: False
        with q1_other [OF len, of beyond line cfg] True \<open>\<not> e\<close> IH0 IH1 tags(3,4)
        show ?thesis
          by (auto simp: lines run_in_state [of 1 beyond "(s, False)", simplified] state_of_simps [simplified] call_action_def)
      qed
    qed
  qed
qed

section \<open>What holds of the configuration\<close>

text \<open>C8: For every file, the readers, the automaton and its actions compute what the abstract line
  parser computes, as long as the allocator puts a zero byte after the key it is asked for: no
  access ever leaves a buffer or an array, and the configuration and the result are those of
  \<open>spec_lines\<close> on the trimmed lines of the file.\<close>

theorem parse_implements_spec:
  assumes "zero_beyond beyond" and "length content < 2 ^ 31 - 32"
  shows "parse beyond content config = Inr (spec_lines False (file_lines (content, False)) config)"
  using run_parser_spec [OF assms(1), of "(content, False)" Null_ptr False config] assms(2)
  by (simp add: parse_def createAutomaton_automaton)

text \<open>The two configuration files the repository ships.\<close>

definition conf_text :: "string \<Rightarrow> string \<Rightarrow> string" where
  "conf_text server port = ''[addresses]'' @ CHR 0x0A # CHR 0x09 # ''server='' @ server @
     CHR 0x0A # CHR 0x09 # ''listening port='' @ port @ CHR 0x0A # ''end''"

definition sockets_conf :: string where
  "sockets_conf = conf_text ''127.0.0.1:8000'' ''8000''"

definition fifos_conf :: string where
  "fifos_conf = conf_text ''/tmp/mainServerFIFO'' ''/tmp/mainServerFIFO''"

definition kind_allocator :: "nat \<Rightarrow> cell list" where
  "kind_allocator n = [Some 0]"

lemma kind_allocator_zero: "zero_beyond kind_allocator"
  by (simp add: zero_beyond_def kind_allocator_def)

lemma sockets_conf_lines: "spec_lines False (file_lines (sockets_conf, False)) no_config =
    (0, no_config\<lparr>cf_server := c_str ''127.0.0.1:8000'', cf_listeningPort := c_str ''8000''\<rparr>)"
  by code_simp

lemma parse_implements_spec_witness:
  "parse kind_allocator sockets_conf no_config =
     Inr (0, no_config\<lparr>cf_server := c_str ''127.0.0.1:8000'', cf_listeningPort := c_str ''8000''\<rparr>)"
proof -
  have "length sockets_conf < 100" by code_simp
  then show ?thesis
    using parse_implements_spec [OF kind_allocator_zero, of sockets_conf no_config] sockets_conf_lines
    by simp
qed

text \<open>When nothing may be read after the key, the parser leaves the block of the key at the
  first parameter that has a known name: \<open>getParam\<close> does not store a terminator, and the
  comparison with the tag runs past the copy.\<close>

theorem known_key_overruns:
  assumes "length s < 2 ^ 31 - 32" and "is_param_line (line_text s)"
    and "key_of (line_text s) \<in> {''server'', ''listening port'', ''database'', ''logging'', ''end''}"
  shows "run_parser (\<lambda>_. []) (s, False) line (automaton 1) config = Inl Out_of_bounds"
proof -
  let ?k = "key_of (line_text s)"
  have p: "param_text (line_text s)" using assms(2) by (simp add: is_param_line_def regexec_param)
  have "find_arc (state_of 1) (Block (map Some (bytes_of ?k))) (Suc (Suc (Suc (Suc (Suc 0))))) 0 =
      Inl Out_of_bounds"
    using assms(3)
    by (auto simp: state_of_def automaton_def arc_at_def arc_def strcmp_eq_def bytes_of_def)
  moreover have "5 = Suc (Suc (Suc (Suc (Suc 0))))" by simp
  ultimately have "find_arc (state_of 1) (Block (map Some (bytes_of ?k))) 5 0 = Inl Out_of_bounds"
    by (simp only:)
  moreover have "line_text s \<noteq> ''end''" using assms(2) tags(3) by auto
  ultimately have "q1Action (\<lambda>_. []) (s, False) line (automaton 1) config = Inl Out_of_bounds"
    using p readLine_line [OF assms(1), of False]
    by (simp add: q1Action_def feof_def strcmp_eq_str isParam_str getParam_param [OF p]
        current_automaton state_of_simps del: One_nat_def)
  then show ?thesis by (simp add: run_in_state state_of_simps call_action_def del: One_nat_def)
qed

lemma known_key_overruns_witness:
  "run_parser (\<lambda>_. []) (''server=x'', False) Null_ptr (automaton 1) no_config = Inl Out_of_bounds"
proof (rule known_key_overruns)
  show "is_param_line (line_text ''server=x'')" by code_simp
  show "key_of (line_text ''server=x'') \<in> {''server'', ''listening port'', ''database'', ''logging'', ''end''}"
    by code_simp
qed simp

text \<open>An empty configuration file is accepted, and none of the four addresses of the
  configuration it gives was ever stored.\<close>

theorem empty_file_accepted:
  assumes "zero_beyond beyond"
  shows "setup_config beyond (Some '''') = Inr (Some no_config) \<and>
    getServerAddress (Some no_config) = Inr Uninit_ptr \<and>
    getListeningPort (Some no_config) = Inr Uninit_ptr"
proof -
  have "spec_lines False (file_lines ('''', False)) no_config = (0, no_config)" by code_simp
  moreover have "parse beyond '''' no_config = Inr (spec_lines False (file_lines ('''', False)) no_config)"
    using run_parser_spec [OF assms, of "('''', False)" Null_ptr False no_config]
    by (simp add: parse_def createAutomaton_automaton)
  ultimately show ?thesis
    by (simp add: setup_config_def getServerAddress_def getListeningPort_def deref_config_def no_config_def)
qed

lemma empty_file_accepted_witness: "setup_config kind_allocator (Some '''') = Inr (Some no_config)"
  using empty_file_accepted [OF kind_allocator_zero] by blast

end
