(* ===== verification/Client.thy ===== *)
theory Client
  imports Printing Config
begin

text \<open>
  \<^verbatim>\<open>client/client.c\<close> and \<^verbatim>\<open>client/dummyClient.c\<close>: the interactive client, from its menu to the
  messages it sends, and the client that only connects.

  \<open>ops\<close> is the linked communication interface. The array of products is the list of what was stored in
  it, under its capacity in bytes; the products themselves are separate blocks.
\<close>

section \<open>The products on offer\<close>

definition productAt :: "product_t list \<Rightarrow> int \<Rightarrow> product_t c_result" where
  "productAt products i =
     (if 0 \<le> i \<and> nat i < length products then Inr (products ! nat i) else Inl Out_of_bounds)"

text \<open>\<open>k\<close> rounds are left, \<open>i\<close> is the next product.\<close>

fun printProducts_loop :: "nat \<Rightarrow> int \<Rightarrow> product_t list \<Rightarrow> proc \<Rightarrow> proc c_result" where
  "printProducts_loop 0 i products p = Inr p"
| "printProducts_loop (Suc k) i products p =
     c_bind (productAt products i) (\<lambda>product.
     c_bind (productPrint product (print (dec_int (i + 1) @ '' - '') p)) (\<lambda>p.
     printProducts_loop k (i + 1) products p))"

definition printProducts :: "product_t list \<Rightarrow> int \<Rightarrow> proc \<Rightarrow> proc c_result" where
  "printProducts products numProducts p = printProducts_loop (nat numProducts) 0 products p"

text \<open>
  \<open>serializedLen\<close> is not set when the first block is requested: \<open>junk i\<close> is what it holds in round
  \<open>i\<close>. A pointer has 8 bytes; \<open>capacity\<close> is what the allocator really gave for the array.
\<close>

fun requestProducts_loop ::
  "'c comm \<Rightarrow> 'c \<Rightarrow> nat \<Rightarrow> (nat \<Rightarrow> nat) \<Rightarrow> nat \<Rightarrow> product_t list \<Rightarrow> proc \<Rightarrow> (product_t list \<times> proc) c_result" where
  "requestProducts_loop ops conn capacity junk 0 products p = Inr (products, p)"
| "requestProducts_loop ops conn capacity junk (Suc k) products p =
     c_bind (conn_receive ops conn (malloc (junk (length products))) p) (\<lambda>(_, serialized, _, p).
     c_bind (productUnserialize serialized) (\<lambda>product.
     if capacity < 8 * (length products + 1) then Inl Out_of_bounds
     else
       c_bind (c_free serialized) (\<lambda>_.
       requestProducts_loop ops conn capacity junk k (products @ [product]) p)))"

text \<open>\<open>room n\<close> is how many bytes \<open>malloc(n)\<close> gives. The number of products is -1 before.\<close>

definition requestProducts ::
  "'c comm \<Rightarrow> 'c \<Rightarrow> (nat \<Rightarrow> nat) \<Rightarrow> (nat \<Rightarrow> nat) \<Rightarrow> proc \<Rightarrow> (int \<times> product_t list \<times> int \<times> proc) c_result" where
  "requestProducts ops conn room junk p =
     c_bind (conn_send ops conn (enc32 CMD_GET_PRODUCTS) p) (\<lambda>(_, p).
     c_bind (conn_receive ops conn Uninit_ptr p) (\<lambda>(_, serverResponse, _, p).
     c_bind (load_int serverResponse) (\<lambda>responseCode.
     if responseCode = MESSAGE_ERROR then Inr (-1, [], -1, p)
     else
       let numProducts = sint responseCode in
       c_bind (requestProducts_loop ops conn (room (size_of_int numProducts)) junk (nat numProducts) [] p)
         (\<lambda>(products, p). Inr (1, products, numProducts, p)))))"

section \<open>Adding to the order\<close>

definition how_many :: string where
  "how_many = ''How many of this product would you like? Enter 0 to cancel\<newline>''"

lemma productPrint_stdin: "productPrint product p = Inr p' \<Longrightarrow> stdin p' = stdin p"
  by (auto simp: productPrint_def c_bind_eq_Inr_iff)

function addToOrder_loop ::
  "int \<Rightarrow> int \<Rightarrow> product_t list \<Rightarrow> order_t \<Rightarrow> proc \<Rightarrow> (product_t list \<times> order_t \<times> proc) c_result" where
  "addToOrder_loop availStock index products ord p =
     c_bind (productAt products index) (\<lambda>product.
     c_bind (productPrint product p) (\<lambda>p1.
     c_bind (scanInt how_many p1) (\<lambda>(num, p2).
     if sint num < 0 \<or> availStock < sint num then
       addToOrder_loop availStock index products ord (print ''Please enter a valid amount.\<newline>'' p2)
     else if num \<noteq> 0 then
       c_bind (orderAdd ord (productGetId product) num (productGetPrice product)) (\<lambda>(r, ord).
       if r = -1 then
         Inr (products, ord,
           print ''Sorry, you can only have up to 16 different products in your order.\<newline>Try making a separate order for more products!\<newline>'' p2)
       else
         let product = snd (productSetStock product (word_of_int (availStock - sint num))) in
         c_bind (c_chars (productGetName product)) (\<lambda>name.
         Inr (products[nat index := product], ord,
           print (''Added '' @ dec_int (sint num) @ '' '' @ chars_of name @ '' to your order, '' @
             print_f2 (productGetPrice product) @ '' each.\<newline>'') p2)))
     else Inr (products, ord, p2))))"
  by pat_completeness auto
termination
  by (relation "measure (\<lambda>(availStock, index, products, ord, p). length (stdin p))")
    (auto dest!: scanInt_shorter simp: productPrint_stdin)

declare addToOrder_loop.simps [simp del]

definition addToOrder :: "int \<Rightarrow> product_t list \<Rightarrow> order_t \<Rightarrow> proc \<Rightarrow> (product_t list \<times> order_t \<times> proc) c_result" where
  "addToOrder index products ord p =
     c_bind (productAt products index) (\<lambda>product.
     addToOrder_loop (sint (productGetStock product)) index products ord p)"

section \<open>The delivery address\<close>

text \<open>\<open>isalnum\<close> of a character, in the C locale.\<close>

definition isalnum :: "char \<Rightarrow> bool" where
  "isalnum c \<longleftrightarrow> is_digit c \<or> 65 \<le> char_code c \<and> char_code c \<le> 90 \<or> 97 \<le> char_code c \<and> char_code c \<le> 122"

text \<open>
  The loop that fills \<open>address\<close>, an array of 1024 characters, from the input: the array, its index, the
  last character (\<open>None\<close> for \<open>EOF\<close>) and the rest of the input.
\<close>

fun address_loop :: "cell list \<Rightarrow> nat \<Rightarrow> char option \<Rightarrow> string \<Rightarrow> cell list \<times> nat \<times> char option \<times> string" where
  "address_loop address i c [] =
     (if i < 1023 then (address, i, None, []) else (address, i, c, []))"
| "address_loop address i c (x # xs) =
     (if i < 1023 then
        (if x = CHR 0x0A then (address, i, Some x, xs)
         else if \<not> isalnum x \<and> x \<noteq> CHR '' '' then (address, i, Some x, xs)
         else address_loop (address[i := Some (of_char x)]) (i + 1) (Some x) xs)
      else (address, i, c, x # xs))"

lemma address_loop_shorter: "length (snd (snd (snd (address_loop a i c s)))) \<le> length s"
  by (induction a i c s rule: address_loop.induct) auto

function enter_address :: "cell list \<Rightarrow> proc \<Rightarrow> (cell list \<times> nat \<times> proc) c_result" where
  "enter_address address p =
     (let p = print ''Please enter your delivery address (alphanumeric characters only): '' p;
          (address, i, c, rest) = address_loop address 0 None (stdin p) in
      if c = Some (CHR 0x0A) then Inr (address, i, p\<lparr>stdin := rest\<rparr>)
      else (case flush_line rest of
          None \<Rightarrow> Inl No_return
        | Some rest \<Rightarrow> enter_address address (p\<lparr>stdin := rest\<rparr>)))"
  by pat_completeness auto
termination
proof (relation "measure (\<lambda>(address, p). length (stdin p))", goal_cases)
  case (2 address p p1 x a y i z c rest rest')
  then have "address_loop address 0 None (stdin p) = (a, i, c, rest)" by (metis print_frame(4))
  with address_loop_shorter [of address 0 None "stdin p"] flush_line_shorter [OF 2(7)] show ?case by simp
qed simp

declare enter_address.simps [simp del]

section \<open>Submitting the order\<close>

definition submitOrder :: "'c comm \<Rightarrow> 'c \<Rightarrow> order_t \<Rightarrow> proc \<Rightarrow> (int \<times> order_t \<times> proc) c_result" where
  "submitOrder ops conn ord p =
     c_bind (enter_address (replicate 1024 None) p) (\<lambda>(address, i, p).
     let address = address[i := Some 0] in
     c_bind (orderSetAddress ord (Block address)) (\<lambda>ord.
     c_bind (conn_send ops conn (enc32 CMD_PLACE_ORDER) p) (\<lambda>(ok, p).
     if ok = 0 then Inr (-1, ord, p)
     else
       c_bind (orderSerialize ord) (\<lambda>(buffSize, buff).
       c_bind (mem_read buff 0 buffSize) (\<lambda>bs.
       c_bind (conn_send ops conn bs p) (\<lambda>(ok, p).
       if ok = 0 then Inr (-1, ord, p)
       else
         c_bind (c_free buff) (\<lambda>buff.
         c_bind (conn_receive ops conn buff p) (\<lambda>(ok, buff, _, p).
         if ok = 0 then Inr (-1, ord, p)
         else
           c_bind (load_int buff) (\<lambda>responseCode.
           c_bind (c_free buff) (\<lambda>buff.
           if responseCode = MESSAGE_ERROR then Inr (-1, ord, p)
           else if responseCode = MESSAGE_UNSATISFIABLE_ORDER then
             c_bind (conn_receive ops conn buff p) (\<lambda>(ok, buff, _, p).
             if ok = 0 then Inr (-1, ord, p)
             else
               c_bind (orderFree ord) (\<lambda>_.
               c_bind (orderUnserialize buff) (\<lambda>ord. Inr (0, ord, p))))
           else Inr (1, ord, p)))))))))))"

section \<open>Leaving\<close>

definition disconnect :: "'c comm \<Rightarrow> 'c \<Rightarrow> proc \<Rightarrow> proc c_result" where
  "disconnect ops conn p =
     c_bind (conn_send ops conn (enc32 MESSAGE_CLOSE) p) (\<lambda>(_, p).
     c_bind (conn_close ops conn p) (\<lambda>(_, p). Inr p))"

text \<open>The signal handler: whether it ended the process.\<close>

definition SIGINT :: int where "SIGINT = 2"

definition shutDown :: "'c comm \<Rightarrow> 'c \<Rightarrow> int \<Rightarrow> proc \<Rightarrow> (bool \<times> proc) c_result" where
  "shutDown ops conn signo p =
     (if signo \<noteq> SIGINT then Inr (False, p)
      else
        c_bind (disconnect ops conn (print ''Received SIGINT, shutting down.\<newline>'' p)) (\<lambda>p. Inr (True, p)))"

section \<open>The menu\<close>

definition menu_text :: string where
  "menu_text = ''What would you like to do?\<newline>1 - View available products\<newline>2 - Add a product\<newline>3 - View your order\<newline>4 - Submit your order\<newline>0 - Quit\<newline>''"

definition which_product :: string where
  "which_product = ''Which product number would you like to add to your order?\<newline>Enter 0 to cancel\<newline>''"

function choose_product :: "int \<Rightarrow> proc \<Rightarrow> (int \<times> proc) c_result" where
  "choose_product numProducts p =
     c_bind (scanInt which_product p) (\<lambda>(option, p').
     if sint option < 0 \<or> numProducts < sint option then
       choose_product numProducts (print ''Invalid product number\<newline>'' p')
     else Inr (sint option, p'))"
  by pat_completeness auto
termination
  by (relation "measure (\<lambda>(numProducts, p). length (stdin p))") (auto dest!: scanInt_shorter)

declare choose_product.simps [simp del]

text \<open>Case 4 of the menu: whether the client is done.\<close>

definition client_submit :: "'c comm \<Rightarrow> 'c \<Rightarrow> order_t \<Rightarrow> proc \<Rightarrow> (bool \<times> order_t \<times> proc) c_result" where
  "client_submit ops conn ord p =
     (if orderGetNumEntries ord = 0 then
        Inr (False, ord, print ''Your order is empty, please add items to your order.\<newline>'' p)
      else
        c_bind (submitOrder ops conn ord p) (\<lambda>(r, ord, p).
        if r = -1 then Inr (True, ord, print ''Error processing order, aborting.\<newline>'' p)
        else if r = 0 then
          c_bind (orderPrint ord (print ''Sorry, stock changed while you were browsing and your order can't be fulfilled.\<newline>This is the biggest order we can complete:\<newline>'' p))
            (\<lambda>p. Inr (False, ord, p))
        else Inr (True, ord, print ''Order placed. Thank you for your order!\<newline>'' p)))"

text \<open>One round of the main loop: whether it was the last one.\<close>

definition client_round ::
  "'c comm \<Rightarrow> 'c \<Rightarrow> int \<Rightarrow> product_t list \<Rightarrow> order_t \<Rightarrow> proc \<Rightarrow> (bool \<times> product_t list \<times> order_t \<times> proc) c_result" where
  "client_round ops conn numProducts products ord p =
     c_bind (scanInt menu_text p) (\<lambda>(option, p).
     if option = 1 then
       c_bind (printProducts products numProducts (print ''These are the available products:\<newline>'' p)) (\<lambda>p.
       Inr (False, products, ord, p))
     else if option = 2 then
       c_bind (choose_product numProducts p) (\<lambda>(option, p).
       if option \<noteq> 0 then
         c_bind (addToOrder (option - 1) products ord p) (\<lambda>(products, ord, p). Inr (False, products, ord, p))
       else Inr (False, products, ord, p))
     else if option = 3 then c_bind (orderPrint ord p) (\<lambda>p. Inr (False, products, ord, p))
     else if option = 4 then
       c_bind (client_submit ops conn ord p) (\<lambda>(done, ord, p). Inr (done, products, ord, p))
     else if option = 0 then Inr (True, products, ord, p)
     else Inr (False, products, ord, print ''Invalid option selected.\<newline>'' p))"

partial_function (option) client_loop ::
  "'c comm \<Rightarrow> 'c \<Rightarrow> int \<Rightarrow> product_t list \<Rightarrow> order_t \<Rightarrow> proc \<Rightarrow> (order_t \<times> proc) c_result option" where
  "client_loop ops conn numProducts products ord p =
     (case client_round ops conn numProducts products ord p of
        Inl e \<Rightarrow> Some (Inl e)
      | Inr (done, products, ord, p) \<Rightarrow>
          if done then Some (Inr (ord, p)) else client_loop ops conn numProducts products ord p)"

text \<open>
  The session after the connection was opened: the state of the order when the menu was left.
\<close>

definition client_session ::
  "'c comm \<Rightarrow> 'c \<Rightarrow> (nat \<Rightarrow> nat) \<Rightarrow> (nat \<Rightarrow> nat) \<Rightarrow> proc \<Rightarrow> proc c_result" where
  "client_session ops conn room junk p =
     (let ord = orderNew in
      c_bind (requestProducts ops conn room junk p) (\<lambda>(r, products, numProducts, p).
      c_bind (if r = -1 then Inr (ord, print ''Error fetching products. Aborting.\<newline>'' p)
              else (case client_loop ops conn numProducts products ord p of
                  None \<Rightarrow> Inl No_return
                | Some r \<Rightarrow> r)) (\<lambda>(ord, p).
      c_bind (disconnect ops conn (print ''Disconnecting...'' p)) (\<lambda>p.
      c_bind (orderFree ord) (\<lambda>_.
      Inr (print ''disconnected.\<newline>See you next time!\<newline>'' p))))))"

text \<open>\<open>connect\<close> is \<open>conn_open\<close> of the linked interface.\<close>

definition client_main ::
  "'c comm \<Rightarrow> (string \<Rightarrow> proc \<Rightarrow> ('c option \<times> proc) c_result) \<Rightarrow> (nat \<Rightarrow> nat) \<Rightarrow> (nat \<Rightarrow> nat) \<Rightarrow>
     (nat \<Rightarrow> cell list) \<Rightarrow> string option \<Rightarrow> proc \<Rightarrow> (int \<times> proc) c_result" where
  "client_main ops connect room junk beyond configFile p =
     c_bind (setup_config beyond configFile) (\<lambda>config.
     c_bind (getServerAddress config) (\<lambda>address.
     c_bind (c_chars address) (\<lambda>address.
     c_bind (connect (chars_of address) (print (''Connecting to server via '' @ chars_of address @ ''...'') p))
       (\<lambda>(conn, p).
     case conn of
       None \<Rightarrow> Inr (-1, print ''couldn't connect. Aborting.\<newline>'' p)
     | Some conn \<Rightarrow>
         c_bind (client_session ops conn room junk
           (print ''connected.\<newline>Welcome to IAC (Inter-Alcohol Communication)!\<newline>'' p)) (\<lambda>p. Inr (0, p))))))"

section \<open>The dummy client\<close>

text \<open>
  The seconds it sleeps: the quotient of a random number below \<open>2 ^ 31\<close> and \<open>2 ^ 31\<close> is an exact \<open>double\<close>,
  and so are its tenfold and the sum with 1; the conversion to \<open>int\<close> truncates.
\<close>

definition wait_seconds :: "nat \<Rightarrow> nat" where
  "wait_seconds random = (random * (10 - 1 + 1) + 1 * 2 ^ 31) div 2 ^ 31"

text \<open>\<open>random\<close> is what \<open>rand\<close> returns; the result is the exit status and how long it slept.\<close>

definition dummy_main ::
  "'c comm \<Rightarrow> (string \<Rightarrow> proc \<Rightarrow> ('c option \<times> proc) c_result) \<Rightarrow> (nat \<Rightarrow> cell list) \<Rightarrow> string option \<Rightarrow>
     int \<Rightarrow> nat \<Rightarrow> proc \<Rightarrow> (int \<times> nat \<times> proc) c_result" where
  "dummy_main ops connect beyond configFile pid random p =
     c_bind (setup_config beyond configFile) (\<lambda>config.
     c_bind (getServerAddress config) (\<lambda>addr.
     let p = print (''Dummy client #'' @ dec_int pid @ '' connecting...'') p in
     c_bind (c_chars addr) (\<lambda>addr.
     c_bind (connect (chars_of addr) p) (\<lambda>(c, p).
     case c of
       None \<Rightarrow> Inr (-1, 0, print (''dummy client #'' @ dec_int pid @ '' couldn't connect. Aborting.\<newline>'') p)
     | Some c \<Rightarrow>
         let waitSec = wait_seconds random;
             p = print (''connected.\<newline>Dummy client #'' @ dec_int pid @ '' sleeping for '' @ dec_int (int waitSec) @
               '' sec...Dummy client #'' @ dec_int pid @ '' woke up, disconnecting...'') p in
         c_bind (conn_send ops c (enc32 MESSAGE_CLOSE) p) (\<lambda>(_, p).
         c_bind (conn_close ops c p) (\<lambda>(_, p).
         Inr (0, waitSec, print (''done. Bye bye from dummy client #'' @ dec_int pid @ ''\<newline>'') p)))))))"

end
