(* ===== verification/Shopping.thy ===== *)
theory Shopping
  imports Client
begin

text \<open>
  What the menu does with any input: the products on offer and the order always fit together, and
  nothing but the terminal changes.
\<close>

section \<open>Typing\<close>

text \<open>Only input was used up and text printed.\<close>

definition typing :: "proc \<Rightarrow> proc \<Rightarrow> bool" where
  "typing p p' \<longleftrightarrow> (\<exists>rest out. p' = p\<lparr>stdin := rest, stdout := out\<rparr>)"

lemma typing_refl [simp]: "typing p p"
  unfolding typing_def by (intro exI [of _ "stdin p"] exI [of _ "stdout p"]) simp

lemma typing_print [simp]: "typing p (print s p)"
  unfolding typing_def by (intro exI [of _ "stdin p"] exI [of _ "stdout p @ s"]) (simp add: print_def)

lemma typing_stdin [simp]: "typing p (p\<lparr>stdin := rest\<rparr>)"
  unfolding typing_def by (intro exI [of _ rest] exI [of _ "stdout p"]) simp

lemma typing_trans: "typing p q \<Longrightarrow> typing q r \<Longrightarrow> typing p r"
  unfolding typing_def
proof (elim exE)
  fix a b c d
  assume "q = p\<lparr>stdin := a, stdout := b\<rparr>" "r = q\<lparr>stdin := c, stdout := d\<rparr>"
  then have "r = p\<lparr>stdin := c, stdout := d\<rparr>" by simp
  then show "\<exists>rest out. r = p\<lparr>stdin := rest, stdout := out\<rparr>" by blast
qed

lemma typing_print_after: "typing p q \<Longrightarrow> typing p (print s q)"
  using typing_trans typing_print by blast

lemma typing_frame:
  "typing p q \<Longrightarrow> rd q = rd p" "typing p q \<Longrightarrow> wr q = wr p" "typing p q \<Longrightarrow> sent q = sent p"
  "typing p q \<Longrightarrow> answers q = answers p"
  by (auto simp: typing_def)

text \<open>A computation that only talks to the terminal: it returns, or waits for input for ever.\<close>

definition talks :: "proc \<Rightarrow> ('a \<times> proc) c_result \<Rightarrow> ('a \<Rightarrow> bool) \<Rightarrow> bool" where
  "talks p r Q \<longleftrightarrow> r = Inl No_return \<or> (\<exists>x p'. r = Inr (x, p') \<and> Q x \<and> typing p p')"

lemma talks_Inr: "Q x \<Longrightarrow> typing p p' \<Longrightarrow> talks p (Inr (x, p')) Q"
  by (simp add: talks_def)

lemma talks_weaken: "talks p r Q \<Longrightarrow> (\<And>x. Q x \<Longrightarrow> R x) \<Longrightarrow> talks p r R"
  by (auto simp: talks_def)

lemma talks_from: "talks q r Q \<Longrightarrow> typing p q \<Longrightarrow> talks p r Q"
  by (auto simp: talks_def intro: typing_trans)

lemma talks_bind:
  assumes "talks p r Q" and "\<And>x q. Q x \<Longrightarrow> typing p q \<Longrightarrow> talks q (f (x, q)) R"
  shows "talks p (c_bind r f) R"
  using assms by (fastforce simp: talks_def intro: typing_trans)

lemma scanInt_talks: "talks p (scanInt msg p) (\<lambda>_. True)"
proof (induction msg p rule: scanInt.induct)
  case (1 msg p)
  obtain conv r where c: "scanf_d (stdin p) = (conv, r)" by (cases "scanf_d (stdin p)") auto
  show ?case
  proof (cases "flush_line r")
    case None
    with c show ?thesis by (subst scanInt.simps) (simp add: Let_def talks_def split: option.split)
  next
    case r: (Some r')
    let ?p = "print msg p\<lparr>stdin := r'\<rparr>"
    have t: "typing p ?p" by (rule typing_trans [OF typing_print typing_stdin])
    show ?thesis
    proof (cases conv)
      case None
      from "1.IH" [OF refl c [symmetric] None r] have "talks p (scanInt msg (print ''Invalid input.\<newline>'' ?p)) (\<lambda>_. True)"
        by (rule talks_from) (rule typing_print_after [OF t])
      with None c r show ?thesis by (subst scanInt.simps) (simp add: Let_def)
    next
      case (Some v)
      with c r t show ?thesis by (subst scanInt.simps) (auto simp: Let_def intro: talks_Inr)
    qed
  qed
qed

section \<open>The products the client shows\<close>

definition product_text :: "product_spec \<Rightarrow> string" where
  "product_text s = ''*'' @ chars_of (butlast (ps_name s)) @ '' (#'' @ dec_int (sint (ps_id s)) @ '')*\<newline>'' @
     chars_of (butlast (ps_description s)) @ ''\<newline>Price: $'' @ print_f2 (ps_price s) @
     ''\<newline>Stock: '' @ dec_int (sint (ps_stock s)) @ ''\<newline>''"

lemma product_accessors [simp]:
  "productGetId (product_of s) = ps_id s" "productGetName (product_of s) = full_block (ps_name s)"
  "productGetDescription (product_of s) = full_block (ps_description s)"
  "productGetPrice (product_of s) = ps_price s" "productGetStock (product_of s) = ps_stock s"
  by (simp_all add: productGetId_def productGetName_def productGetDescription_def productGetPrice_def
      productGetStock_def product_of_def)

lemma productPrint_ok: "product_ok s \<Longrightarrow> productPrint (product_of s) p = Inr (print (product_text s) p)"
  by (simp add: productPrint_def product_ok_def c_chars_c_string product_text_def)

lemma productAt_map:
  "i < length ps \<Longrightarrow> productAt (map product_of ps) (int i) = Inr (product_of (ps ! i))"
  by (simp add: productAt_def)

text \<open>The number and the text of each product from the \<open>i\<close>-th on.\<close>

fun products_text :: "int \<Rightarrow> product_spec list \<Rightarrow> string" where
  "products_text i [] = []"
| "products_text i (s # ps) = dec_int i @ '' - '' @ product_text s @ products_text (i + 1) ps"

lemma printProducts_loop_text:
  "\<forall>s \<in> set ps. product_ok s \<Longrightarrow>
     printProducts_loop (length ps) (int (length pre)) (map product_of (pre @ ps)) p =
       Inr (print (products_text (int (length pre) + 1) ps) p)"
proof (induction ps arbitrary: pre p)
  case (Cons s ps)
  have at: "productAt (map product_of (pre @ s # ps)) (int (length pre)) = Inr (product_of s)"
    by (subst productAt_map) simp_all
  have ps: "\<forall>s \<in> set ps. product_ok s" using Cons.prems by simp
  show ?case
    using Cons.IH [OF ps, of "pre @ [s]" "print (dec_int (int (length pre) + 1) @ '' - '' @ product_text s) p"] at Cons.prems
    by (simp add: productPrint_ok add.commute [of 1])
qed (simp add: print_def)

lemma printProducts_text:
  "\<forall>s \<in> set ps. product_ok s \<Longrightarrow>
     printProducts (map product_of ps) (int (length ps)) p = Inr (print (products_text 1 ps) p)"
  using printProducts_loop_text [of ps "[]"] by (simp add: printProducts_def)

section \<open>The order against the products on offer\<close>

text \<open>
  \<open>ps\<close> are the products as they were received. An order takes what it asks for from the stock the client
  shows, and from nothing else.
\<close>

definition remaining :: "order_spec \<Rightarrow> product_spec \<Rightarrow> product_spec" where
  "remaining s q = q\<lparr>ps_stock := word_of_int (sint (ps_stock q) - quantity_of s (ps_id q))\<rparr>"

definition offer :: "product_spec list \<Rightarrow> order_spec \<Rightarrow> product_spec list" where
  "offer ps s = map (remaining s) ps"

definition offered :: "product_spec list \<Rightarrow> bool" where
  "offered ps \<longleftrightarrow> distinct (map ps_id ps) \<and> (\<forall>q \<in> set ps. product_ok q) \<and> length ps < 2 ^ 31"

definition shop_inv :: "product_spec list \<Rightarrow> order_spec \<Rightarrow> bool" where
  "shop_inv ps s \<longleftrightarrow> order_inv s \<and>
     (\<forall>q \<in> set ps. quantity_of s (ps_id q) \<le> max 0 (sint (ps_stock q))) \<and>
     (\<forall>e \<in> set (os_entries s). \<exists>q \<in> set ps. ps_id q = oe_product_id e \<and> ps_price q = oe_price e)"

definition empty_order :: order_spec where
  "empty_order = \<lparr>os_address = None, os_entries = []\<rparr>"

lemma orderNew_empty: "orderNew = order_of empty_order"
  by (simp add: orderNew_def order_of_def empty_order_def address_ptr_def)

lemma shop_inv_empty: "shop_inv ps empty_order"
  by (simp add: shop_inv_def order_inv_def order_ok_def address_ok_def empty_order_def quantity_of_def product_ids_def)

lemma remaining_simps [simp]:
  "ps_id (remaining s q) = ps_id q" "ps_price (remaining s q) = ps_price q" "ps_name (remaining s q) = ps_name q"
  "product_ok (remaining s q) = product_ok q" "length (offer ps s) = length ps"
  by (simp_all add: remaining_def product_ok_def offer_def)

lemma offer_nth: "i < length ps \<Longrightarrow> offer ps s ! i = remaining s (ps ! i)"
  by (simp add: offer_def)

lemma offer_empty: "offer ps empty_order = ps"
  by (simp add: offer_def remaining_def empty_order_def quantity_of_def map_idI)

lemma quantity_nonneg: "order_inv s \<Longrightarrow> 0 \<le> quantity_of s i"
  unfolding quantity_of_def order_inv_def by (intro sum_list_nonneg) auto

lemma remaining_stock:
  assumes "shop_inv ps s" and "q \<in> set ps"
  shows "sint (ps_stock (remaining s q)) = sint (ps_stock q) - quantity_of s (ps_id q)"
proof -
  have "in_int (sint (ps_stock q))" by simp
  moreover have "0 \<le> quantity_of s (ps_id q)" "quantity_of s (ps_id q) \<le> max 0 (sint (ps_stock q))"
    using assms quantity_nonneg by (auto simp: shop_inv_def)
  ultimately have "in_int (sint (ps_stock q) - quantity_of s (ps_id q))" by (auto simp: in_int_def)
  from sint_word_of_int [OF this] show ?thesis by (simp add: remaining_def)
qed

lemma entry_quantity:
  "distinct (product_ids es) \<Longrightarrow> e \<in> set es \<Longrightarrow>
     (\<Sum>x \<leftarrow> es. if oe_product_id x = oe_product_id e then sint (oe_quantity x) else 0) = sint (oe_quantity e)"
proof (induction es)
  case (Cons x es)
  have "(\<Sum>x \<leftarrow> es. if oe_product_id x = i then sint (oe_quantity x) else 0) = 0" if "i \<notin> set (product_ids es)" for i
    using that by (induction es) (auto simp: product_ids_def)
  with Cons show ?case by (auto simp: product_ids_def)
qed simp

lemma add_entry_succeeds:
  "\<forall>e \<in> set es. oe_product_id e = pid \<longrightarrow> in_int (sint (oe_quantity e) + sint q) \<Longrightarrow>
     \<exists>es'. add_entry es pid q pr = Inr es' \<and>
       (\<forall>e \<in> set es'. (\<exists>x \<in> set es. oe_product_id x = oe_product_id e \<and> oe_price x = oe_price e) \<or>
         oe_product_id e = pid \<and> oe_price e = pr)"
proof (induction es)
  case (Cons e es)
  show ?case
  proof (cases "oe_product_id e = pid")
    case True
    with Cons.prems show ?thesis by (auto simp: int_add_ok)
  next
    case False
    with Cons show ?thesis by fastforce
  qed
qed simp

text \<open>A quantity that is still on offer can be added, unless the order is full.\<close>

lemma order_add_offered:
  assumes "shop_inv ps s" and "q \<in> set ps" and "0 < k" and "k \<le> sint (ps_stock (remaining s q))"
    and "distinct (map ps_id ps)"
  shows "\<exists>r s'. order_add s (ps_id q) (word_of_int k) (ps_price q) = Inr (r, s') \<and> shop_inv ps s' \<and>
    os_address s' = os_address s \<and>
    (r = -1 \<and> s' = s \<and> length (os_entries s) = 16 \<or>
     r = 0 \<and> (\<forall>x. quantity_of s' x = quantity_of s x + (if x = ps_id q then k else 0)))"
proof -
  have inv: "order_inv s" using assms(1) by (simp add: shop_inv_def)
  have range: "in_int (sint (ps_stock q))" by simp
  have sum: "quantity_of s (ps_id q) + k \<le> sint (ps_stock q)"
    using assms(4) remaining_stock [OF assms(1,2)] by simp
  with range quantity_nonneg [OF inv, of "ps_id q"] assms(3)
  have k: "in_int k" "sint (word_of_int k :: c_int) = k" "in_int (quantity_of s (ps_id q) + k)"
    by (auto simp: in_int_def sint_word_of_int)
  have "distinct (product_ids (os_entries s))" using inv by (simp add: order_inv_def)
  from entry_quantity [OF this] k
  have fits: "\<forall>e \<in> set (os_entries s). oe_product_id e = ps_id q \<longrightarrow> in_int (sint (oe_quantity e) + sint (word_of_int k :: c_int))"
    by (metis quantity_of_def)
  obtain es where es: "add_entry (os_entries s) (ps_id q) (word_of_int k) (ps_price q) = Inr es"
    and new: "\<forall>e \<in> set es. (\<exists>x \<in> set (os_entries s). oe_product_id x = oe_product_id e \<and> oe_price x = oe_price e) \<or>
         oe_product_id e = ps_id q \<and> oe_price e = ps_price q"
    using add_entry_succeeds [OF fits] by blast
  show ?thesis
  proof (cases "ps_id q \<notin> set (product_ids (os_entries s)) \<and> length (os_entries s) = ORDER_MAX_SIZE")
    case True
    with assms(1) show ?thesis by (simp add: order_add_def ORDER_MAX_SIZE_def)
  next
    case False
    let ?s = "s\<lparr>os_entries := es\<rparr>"
    have add: "order_add s (ps_id q) (word_of_int k) (ps_price q) = Inr (0, ?s)"
      using False es by (auto simp: order_add_def)
    have "order_inv ?s" using order_add_keeps_inv [OF inv _ add] k assms(3) by simp
    moreover have quantity: "quantity_of ?s x = quantity_of s x + (if x = ps_id q then k else 0)" for x
      using order_add_quantity(1) [OF add, of x] k by simp
    moreover have "quantity_of ?s (ps_id x) \<le> max 0 (sint (ps_stock x))" if "x \<in> set ps" for x
    proof (cases "x = q")
      case True
      then show ?thesis using sum by (simp add: quantity)
    next
      case False
      then have "ps_id x \<noteq> ps_id q" using assms(2,5) that by (auto simp: distinct_map inj_on_def)
      with assms(1) that show ?thesis by (auto simp: quantity shop_inv_def)
    qed
    moreover have "\<exists>x \<in> set ps. ps_id x = oe_product_id e \<and> ps_price x = oe_price e" if "e \<in> set es" for e
      using new that assms(1,2) by (fastforce simp: shop_inv_def)
    ultimately show ?thesis using add by (auto simp: shop_inv_def)
  qed
qed

section \<open>Adding a product\<close>

text \<open>What the loop does with an answer that is in range.\<close>

definition taken :: "product_spec list \<Rightarrow> nat \<Rightarrow> int \<Rightarrow> order_spec \<Rightarrow> order_spec" where
  "taken ps i k s =
     (if k = 0 then s
      else case order_add s (ps_id (ps ! i)) (word_of_int k) (ps_price (ps ! i)) of Inl _ \<Rightarrow> s | Inr (r, s') \<Rightarrow> s')"

lemma offer_update:
  assumes "i < length ps" and "distinct (map ps_id ps)" and "shop_inv ps s"
    and "\<forall>x. quantity_of s' x = quantity_of s x + (if x = ps_id (ps ! i) then k else 0)"
  shows "(offer ps s)[i := (remaining s (ps ! i))\<lparr>ps_stock := word_of_int (sint (ps_stock (remaining s (ps ! i))) - k)\<rparr>] =
    offer ps s'"
proof (rule nth_equalityI)
  fix j
  assume "j < length ((offer ps s)[i := (remaining s (ps ! i))\<lparr>ps_stock := word_of_int (sint (ps_stock (remaining s (ps ! i))) - k)\<rparr>])"
  then have j: "j < length ps" by simp
  show "(offer ps s)[i := (remaining s (ps ! i))\<lparr>ps_stock := word_of_int (sint (ps_stock (remaining s (ps ! i))) - k)\<rparr>] ! j =
      offer ps s' ! j"
  proof (cases "j = i")
    case True
    with assms(1,4) show ?thesis
      by (simp add: offer_nth remaining_stock [OF assms(3)]) (simp add: remaining_def algebra_simps)
  next
    case False
    then have "ps_id (ps ! j) \<noteq> ps_id (ps ! i)" using assms(1,2) j by (simp add: distinct_conv_nth)
    with False j assms(4) show ?thesis by (simp add: offer_nth remaining_def)
  qed
qed simp

lemma product_of_stock: "(product_of q)\<lparr>pr_stock := n\<rparr> = product_of (q\<lparr>ps_stock := n\<rparr>)"
  by (simp add: product_of_def)

lemma addToOrder_run:
  assumes "offered ps" and "i < length ps"
    and "scanInt how_many (print (product_text (remaining s (ps ! i))) p) = Inr (n, p2)"
    and "0 \<le> sint n" and "sint n \<le> stock" and "in_int stock"
  shows "addToOrder_loop stock (int i) (map product_of (offer ps s)) (order_of s) p =
    (if n = 0 then Inr (map product_of (offer ps s), order_of s, p2)
     else c_bind (orderAdd (order_of s) (ps_id (ps ! i)) n (ps_price (ps ! i))) (\<lambda>(r, ord).
       if r = -1 then
         Inr (map product_of (offer ps s), ord,
           print ''Sorry, you can only have up to 16 different products in your order.\<newline>Try making a separate order for more products!\<newline>'' p2)
       else
         Inr ((map product_of (offer ps s))[i := product_of ((remaining s (ps ! i))\<lparr>ps_stock := word_of_int (stock - sint n)\<rparr>)], ord,
           print (''Added '' @ dec_int (sint n) @ '' '' @ chars_of (butlast (ps_name (ps ! i))) @ '' to your order, '' @
             print_f2 (ps_price (ps ! i)) @ '' each.\<newline>'') p2)))"
proof -
  let ?q = "ps ! i"
  have q: "product_ok (remaining s ?q)" using assms(1,2) by (simp add: offered_def)
  have at: "productAt (map product_of (offer ps s)) (int i) = Inr (product_of (remaining s ?q))"
    using assms(2) by (simp add: productAt_map offer_nth)
  have name: "c_chars (full_block (ps_name ?q)) = Inr (butlast (ps_name ?q))"
    using q by (simp add: product_ok_def c_chars_c_string)
  have "in_int (stock - sint n)" using assms(4-6) by (auto simp: in_int_def)
  from sint_word_of_int [OF this] assms(5)
  have set: "productSetStock (product_of (remaining s ?q)) (word_of_int (stock - sint n)) =
      (1, product_of ((remaining s ?q)\<lparr>ps_stock := word_of_int (stock - sint n)\<rparr>))"
    by (simp only: productSetStock_def product_of_stock) simp
  show ?thesis
  proof (cases "orderAdd (order_of s) (ps_id ?q) n (ps_price ?q)")
    case (Inl e)
    with assms(3-5) show ?thesis
      by (subst addToOrder_loop.simps) (simp add: at productPrint_ok [OF q])
  next
    case (Inr y)
    with assms(3-5) name set show ?thesis
      by (subst addToOrder_loop.simps) (cases y, simp add: at productPrint_ok [OF q] Let_def)
  qed
qed

lemma taken_inv:
  assumes "offered ps" and "shop_inv ps s" and "i < length ps"
    and "0 \<le> k" and "k \<le> sint (ps_stock (remaining s (ps ! i)))"
  shows "shop_inv ps (taken ps i k s)"
  using order_add_offered [OF assms(2), of "ps ! i" k] assms by (fastforce simp: taken_def offered_def)

lemma addToOrder_takes:
  assumes "offered ps" and "shop_inv ps s" and "i < length ps"
    and "scanInt how_many (print (product_text (remaining s (ps ! i))) p) = Inr (n, p2)"
    and "0 \<le> sint n" and "sint n \<le> sint (ps_stock (remaining s (ps ! i)))"
  shows "\<exists>out. addToOrder_loop (sint (ps_stock (remaining s (ps ! i)))) (int i) (map product_of (offer ps s)) (order_of s) p =
      Inr (map product_of (offer ps (taken ps i (sint n) s)), order_of (taken ps i (sint n) s), print out p2)"
proof -
  let ?q = "ps ! i" and ?stock = "sint (ps_stock (remaining s (ps ! i)))"
  note run = addToOrder_run [OF assms(1,3-6) in_int_sint]
  show ?thesis
  proof (cases "n = 0")
    case True
    then show ?thesis unfolding run by (simp add: taken_def) (metis print_Nil)
  next
    case False
    have n: "0 < sint n" "word_of_int (sint n) = n" using False assms(5) signed_eq_0_iff [of n] by (auto simp: order_le_less)
    have q: "?q \<in> set ps" "distinct (map ps_id ps)" using assms(1,3) by (auto simp: offered_def)
    obtain r s' where add: "order_add s (ps_id ?q) n (ps_price ?q) = Inr (r, s')"
      and r: "r = -1 \<and> s' = s \<or> r = 0 \<and> (\<forall>x. quantity_of s' x = quantity_of s x + (if x = ps_id ?q then sint n else 0))"
      using order_add_offered [OF assms(2) q(1) n(1) assms(6) q(2)] n(2) by auto
    have s': "taken ps i (sint n) s = s'" using False add n by (simp add: taken_def)
    have len: "length (os_entries s) \<le> ORDER_MAX_SIZE" using assms(2) by (simp add: shop_inv_def order_inv_def order_ok_def)
    have upd: "(map product_of (offer ps s))[i := product_of ((remaining s ?q)\<lparr>ps_stock := word_of_int (?stock - sint n)\<rparr>)] =
        map product_of (offer ps s')" if "r = 0"
      using offer_update [OF assms(3) q(2) assms(2), of s' "sint n"] r that by (simp add: map_update [symmetric] del: of_int_diff)
    show ?thesis
      using r upd False add unfolding run s' by (auto simp: orderAdd_order_of [OF len] simp del: of_int_diff)
  qed
qed

text \<open>Whatever is typed, the products and the order stay in step.\<close>

definition shops :: "product_spec list \<Rightarrow> proc \<Rightarrow> (product_t list \<times> order_t \<times> proc) c_result \<Rightarrow> bool" where
  "shops ps p r \<longleftrightarrow> r = Inl No_return \<or>
     (\<exists>s' p'. r = Inr (map product_of (offer ps s'), order_of s', p') \<and> shop_inv ps s' \<and> typing p p')"

lemma shops_from: "shops ps q r \<Longrightarrow> typing p q \<Longrightarrow> shops ps p r"
  by (auto simp: shops_def intro: typing_trans)

lemma addToOrder_loop_shops:
  assumes "offered ps" and "shop_inv ps s" and "i < length ps"
  shows "shops ps p (addToOrder_loop (sint (ps_stock (remaining s (ps ! i)))) (int i) (map product_of (offer ps s)) (order_of s) p)"
proof (induction "length (stdin p)" arbitrary: p rule: less_induct)
  case less
  let ?q = "remaining s (ps ! i)" and ?p1 = "print (product_text (remaining s (ps ! i))) p"
  have q: "product_ok ?q" using assms(1,3) by (simp add: offered_def)
  have at: "productAt (map product_of (offer ps s)) (int i) = Inr (product_of ?q)"
    using assms(3) by (simp add: productAt_map offer_nth)
  from scanInt_talks [of ?p1 how_many] consider
    (hangs) "scanInt how_many ?p1 = Inl No_return" |
    (answers) n p2 where "scanInt how_many ?p1 = Inr (n, p2)" "typing ?p1 p2"
    by (auto simp: talks_def)
  then show ?case
  proof cases
    case hangs
    then show ?thesis by (subst addToOrder_loop.simps) (simp add: at productPrint_ok [OF q] shops_def)
  next
    case answers
    have t: "typing p p2" by (rule typing_trans [OF typing_print answers(2)])
    show ?thesis
    proof (cases "sint n < 0 \<or> sint (ps_stock ?q) < sint n")
      case True
      let ?p3 = "print ''Please enter a valid amount.\<newline>'' p2"
      have "length (stdin ?p3) < length (stdin p)" using scanInt_shorter [OF answers(1)] by simp
      from shops_from [OF less [OF this] typing_print_after [OF t]] True answers(1) show ?thesis
        by (subst addToOrder_loop.simps) (simp add: at productPrint_ok [OF q])
    next
      case False
      then show ?thesis
        using addToOrder_takes [OF assms answers(1)] taken_inv [OF assms, of "sint n"] typing_print_after [OF t]
        by (fastforce simp: shops_def)
    qed
  qed
qed

lemma addToOrder_eq:
  assumes "i < length ps"
  shows "addToOrder (int i) (map product_of (offer ps s)) (order_of s) p =
    addToOrder_loop (sint (ps_stock (remaining s (ps ! i)))) (int i) (map product_of (offer ps s)) (order_of s) p"
  using assms by (simp add: addToOrder_def productAt_map offer_nth)

end
