(* ===== verification/Menu.thy ===== *)
theory Menu
  imports Shopping
begin

text \<open>
  The main loop of the client round by round: on any input, and on the input of a shopper who makes
  valid choices.
\<close>

section \<open>Any input\<close>

lemma choose_product_talks: "talks p (choose_product n p) (\<lambda>i. 0 \<le> i \<and> i \<le> n)"
proof (induction "length (stdin p)" arbitrary: p rule: less_induct)
  case less
  from scanInt_talks [of p which_product] consider
    (hangs) "scanInt which_product p = Inl No_return" |
    (answers) i q where "scanInt which_product p = Inr (i, q)" "typing p q"
    by (auto simp: talks_def)
  then show ?case
  proof cases
    case hangs
    then show ?thesis by (subst choose_product.simps) (simp add: talks_def)
  next
    case answers
    let ?q = "print ''Invalid product number\<newline>'' q"
    have "length (stdin ?q) < length (stdin p)" using scanInt_shorter [OF answers(1)] by simp
    from talks_from [OF less [OF this] typing_print_after [OF answers(2)]] answers show ?thesis
      by (subst choose_product.simps) (auto intro: talks_Inr)
  qed
qed

lemma orderPrint_shop: "shop_inv ps s \<Longrightarrow> orderPrint (order_of s) p = Inr (print (order_text s) p)"
  by (rule orderPrint_order) (simp add: shop_inv_def order_inv_def order_ok_def ORDER_MAX_SIZE_def)

lemma offer_ok: "offered ps \<Longrightarrow> \<forall>q \<in> set (offer ps s). product_ok q"
  by (auto simp: offered_def offer_def)

lemma printProducts_offer:
  "offered ps \<Longrightarrow> printProducts (map product_of (offer ps s)) (int (length ps)) p =
     Inr (print (products_text 1 (offer ps s)) p)"
  using printProducts_text [OF offer_ok, of ps s] by simp

lemma addToOrder_shops:
  "offered ps \<Longrightarrow> shop_inv ps s \<Longrightarrow> i < length ps \<Longrightarrow>
     shops ps p (addToOrder (int i) (map product_of (offer ps s)) (order_of s) p)"
  using addToOrder_loop_shops addToOrder_eq by metis

text \<open>A round that does not submit the order.\<close>

lemma client_round_any:
  assumes "offered ps" and "shop_inv ps s" and "scanInt menu_text p = Inr (option, p1)" and "option \<noteq> 4"
  shows "client_round ops conn (int (length ps)) (map product_of (offer ps s)) (order_of s) p = Inl No_return \<or>
    (\<exists>s' p'. client_round ops conn (int (length ps)) (map product_of (offer ps s)) (order_of s) p =
        Inr (option = 0, map product_of (offer ps s'), order_of s', p') \<and>
      shop_inv ps s' \<and> typing p p')"
proof -
  have t: "typing p p1" using scanInt_talks [of p menu_text] assms(3) by (auto simp: talks_def)
  show ?thesis
  proof (cases "option = 2")
    case False
    with assms typing_print_after [OF t] t show ?thesis
      by (simp add: client_round_def printProducts_offer orderPrint_shop) (auto simp: exI [of _ s])
  next
    case True
    from choose_product_talks [of p1 "int (length ps)"] consider
      (hangs) "choose_product (int (length ps)) p1 = Inl No_return" |
      (chosen) i q where "choose_product (int (length ps)) p1 = Inr (i, q)" "typing p1 q" "0 \<le> i" "i \<le> int (length ps)"
      by (auto simp: talks_def)
    then show ?thesis
    proof cases
      case hangs
      with True assms(3) show ?thesis by (simp add: client_round_def)
    next
      case chosen
      show ?thesis
      proof (cases "i = 0")
        case True
        with \<open>option = 2\<close> assms chosen t show ?thesis
          by (auto simp: client_round_def intro: typing_trans)
      next
        case False
        then have i: "nat (i - 1) < length ps" "int (nat (i - 1)) = i - 1" using chosen(3,4) by auto
        have tq: "typing p q" by (rule typing_trans [OF t chosen(2)])
        from addToOrder_shops [OF assms(1,2) i(1), of q] i(2)
        have "shops ps p (addToOrder (i - 1) (map product_of (offer ps s)) (order_of s) q)"
          by (auto intro: shops_from [OF _ tq])
        with False \<open>option = 2\<close> assms(3) chosen(1) show ?thesis
          by (auto simp: client_round_def shops_def)
      qed
    qed
  qed
qed

section \<open>A shopper\<close>

text \<open>What a shopper does before the order is submitted, and what is typed for it.\<close>

datatype action = View | Add nat int | Show

definition line :: "int \<Rightarrow> string" where
  "line k = dec_int k @ [CHR 0x0A]"

fun typed :: "action \<Rightarrow> string" where
  "typed View = line 1"
| "typed (Add i k) = line 2 @ line (int i + 1) @ line k"
| "typed Show = line 3"

fun act :: "product_spec list \<Rightarrow> action \<Rightarrow> order_spec \<Rightarrow> order_spec" where
  "act ps (Add i k) s = taken ps i k s"
| "act ps a s = s"

fun action_ok :: "product_spec list \<Rightarrow> order_spec \<Rightarrow> action \<Rightarrow> bool" where
  "action_ok ps s (Add i k) \<longleftrightarrow> i < length ps \<and> 0 \<le> k \<and> k \<le> sint (ps_stock (remaining s (ps ! i)))"
| "action_ok ps s a = True"

fun acts :: "product_spec list \<Rightarrow> action list \<Rightarrow> order_spec \<Rightarrow> order_spec" where
  "acts ps [] s = s"
| "acts ps (a # as) s = acts ps as (act ps a s)"

fun script_ok :: "product_spec list \<Rightarrow> order_spec \<Rightarrow> action list \<Rightarrow> bool" where
  "script_ok ps s [] = True"
| "script_ok ps s (a # as) \<longleftrightarrow> action_ok ps s a \<and> script_ok ps (act ps a s) as"

lemma scanInt_types:
  "in_int k \<Longrightarrow> stdin p = line k @ rest \<Longrightarrow> scanInt msg p = Inr (word_of_int k, print msg (p\<lparr>stdin := rest\<rparr>))"
  by (rule scanInt_line) (simp_all add: line_def)

lemma act_inv: "offered ps \<Longrightarrow> shop_inv ps s \<Longrightarrow> action_ok ps s a \<Longrightarrow> shop_inv ps (act ps a s)"
  by (cases a) (auto intro: taken_inv)

lemma acts_inv: "offered ps \<Longrightarrow> shop_inv ps s \<Longrightarrow> script_ok ps s as \<Longrightarrow> shop_inv ps (acts ps as s)"
  by (induction as arbitrary: s) (auto intro: act_inv)

lemma client_round_action:
  assumes "offered ps" and "shop_inv ps s" and "action_ok ps s a" and "stdin p = typed a @ rest"
  shows "\<exists>p'. client_round ops conn (int (length ps)) (map product_of (offer ps s)) (order_of s) p =
      Inr (False, map product_of (offer ps (act ps a s)), order_of (act ps a s), p') \<and> typing p p' \<and> stdin p' = rest"
proof (cases a)
  case View
  have "scanInt menu_text p = Inr (1, print menu_text (p\<lparr>stdin := rest\<rparr>))"
    using scanInt_types [of 1 p rest] View assms(4) by (simp add: in_int_def)
  then show ?thesis
    using View printProducts_offer [OF assms(1)] typing_print_after [OF typing_stdin]
    by (auto simp: client_round_def)
next
  case Show
  have "scanInt menu_text p = Inr (3, print menu_text (p\<lparr>stdin := rest\<rparr>))"
    using scanInt_types [of 3 p rest] Show assms(4) by (simp add: in_int_def)
  then show ?thesis
    using Show orderPrint_shop [OF assms(2)] typing_print_after [OF typing_stdin]
    by (auto simp: client_round_def)
next
  case (Add i k)
  have i: "i < length ps" "0 \<le> k" "k \<le> sint (ps_stock (remaining s (ps ! i)))" "int i + 1 \<le> int (length ps)"
    using assms(3) Add by auto
  have r: "in_int (int i + 1)" "in_int k"
    using i assms(1) in_int_sint [of "ps_stock (remaining s (ps ! i))"] by (auto simp: in_int_def offered_def)
  let ?p1 = "print menu_text (p\<lparr>stdin := line (int i + 1) @ line k @ rest\<rparr>)"
  let ?p2 = "print which_product (?p1\<lparr>stdin := line k @ rest\<rparr>)"
  let ?p3 = "print (product_text (remaining s (ps ! i))) ?p2"
  let ?p4 = "print how_many (?p3\<lparr>stdin := rest\<rparr>)"
  have t: "typing p ?p4"
    by (intro typing_print_after typing_trans [OF typing_print_after typing_stdin]) (auto intro: typing_print_after typing_trans [OF typing_print_after typing_stdin])
  have s1: "scanInt menu_text p = Inr (2, ?p1)"
    using scanInt_types [of 2 p "line (int i + 1) @ line k @ rest"] Add assms(4) by (simp add: in_int_def)
  have "scanInt which_product ?p1 = Inr (word_of_int (int i + 1), ?p2)" by (rule scanInt_types [OF r(1)]) simp
  then have s2: "choose_product (int (length ps)) ?p1 = Inr (int i + 1, ?p2)"
    using i(1,4) sint_word_of_int [OF r(1)] by (subst choose_product.simps) (simp del: of_int_add)
  have s3: "scanInt how_many ?p3 = Inr (word_of_int k, ?p4)" by (rule scanInt_types [OF r(2)]) simp
  obtain out where "addToOrder (int i) (map product_of (offer ps s)) (order_of s) ?p2 =
      Inr (map product_of (offer ps (taken ps i k s)), order_of (taken ps i k s), print out ?p4)"
    using addToOrder_takes [OF assms(1,2) i(1) s3] i(2,3) sint_word_of_int [OF r(2)] addToOrder_eq [OF i(1)] by auto
  then show ?thesis
    using Add s1 s2 typing_print_after [OF t, of out] by (auto simp: client_round_def)
qed

lemma client_loop_actions:
  assumes "offered ps" and "shop_inv ps s" and "script_ok ps s as" and "stdin p = concat (map typed as) @ rest"
  shows "\<exists>p'. client_loop ops conn (int (length ps)) (map product_of (offer ps s)) (order_of s) p =
      client_loop ops conn (int (length ps)) (map product_of (offer ps (acts ps as s))) (order_of (acts ps as s)) p' \<and>
    typing p p' \<and> stdin p' = rest"
  using assms(2-4)
proof (induction as arbitrary: s p)
  case Nil
  then show ?case by auto
next
  case (Cons a as)
  obtain p1 where 1: "client_round ops conn (int (length ps)) (map product_of (offer ps s)) (order_of s) p =
      Inr (False, map product_of (offer ps (act ps a s)), order_of (act ps a s), p1)" "typing p p1"
      "stdin p1 = concat (map typed as) @ rest"
    using client_round_action [OF assms(1) Cons.prems(1), of a p "concat (map typed as) @ rest" ops conn] Cons.prems by auto
  obtain p2 where "client_loop ops conn (int (length ps)) (map product_of (offer ps (act ps a s))) (order_of (act ps a s)) p1 =
      client_loop ops conn (int (length ps)) (map product_of (offer ps (acts ps (a # as) s))) (order_of (acts ps (a # as) s)) p2"
      "typing p1 p2" "stdin p2 = rest"
    using Cons.IH [OF act_inv [OF assms(1) Cons.prems(1)] _ 1(3)] Cons.prems(2) by auto
  with 1 typing_trans [OF 1(2)] show ?case by (subst client_loop.simps) auto
qed

end
