(* ===== verification/Address.thy ===== *)
theory Address
  imports Regex
begin

text \<open>
  \<^verbatim>\<open>common/commWithSockets.c\<close>, the addresses: finding the colon, the two regular expressions and
  the checks of an IP address, a port and a whole address. C strings are strings without a
  NUL character.
\<close>

section \<open>The checks\<close>

text \<open>The index of the first colon from the \<open>i\<close>th character on, or -1 at the terminator.\<close>

fun colon_from :: "string \<Rightarrow> int \<Rightarrow> int" where
  "colon_from [] i = -1"
| "colon_from (c # cs) i = (if c = CHR '':'' then i else colon_from cs (i + 1))"

definition searchForColon :: "string \<Rightarrow> int" where
  "searchForColon address = colon_from address 0"

definition getIPRegEx :: string where
  "getIPRegEx =
     (let expr1 = ''^((0|[3-9][0-9]?|1[0-9]?[0-9]?|25[0-5]|2[0-4]?[0-9]?|2[0-9])'' @ CHR 0x5C # ''.)'';
          expr2 = ''{1,3}(0|[3-9][0-9]?|1[0-9]?[0-9]?|25[0-5]|2[0-4]?[0-9]?|2[0-9])$''
      in expr1 @ expr2)"

definition getPortRegEx :: string where
  "getPortRegEx = ''^(0|[1-9][0-9]{1,4})$''"

definition checkIP :: "string \<Rightarrow> int" where
  "checkIP ip = (if regexec getIPRegEx ip = 0 then 1 else 0)"

text \<open>The port is an \<open>unsigned short\<close>: the comparison with 65535 looks at the wrapped value.\<close>

definition checkPort :: "string \<Rightarrow> int" where
  "checkPort portStr =
     (if regexec getPortRegEx portStr \<noteq> 0 then 0
      else
        let port = ucast (atoi portStr) :: 16 word in
        if 65535 < uint port then 0 else 1)"

definition isValidAddress :: "string \<Rightarrow> int" where
  "isValidAddress address =
     (let colonPosition = searchForColon address;
          portPartLength = int (length address) - colonPosition - 1 in
      if colonPosition < 0 then 0
      else
        let ipPart = take (nat colonPosition) address;
            portPart = take (nat portPartLength) (drop (nat colonPosition + 1) address);
            flag1 = checkIP ipPart; flag2 = checkPort portPart in
        if flag1 = -1 then -1 else if flag1 \<noteq> 0 \<and> flag2 \<noteq> 0 then 1 else 0)"

section \<open>What the expressions accept\<close>

definition digit_rx :: rx where
  "digit_rx = Cls False [(48, 57)]"

definition opt :: "rx \<Rightarrow> rx" where
  "opt r = Alt One r"

definition octet_rx :: rx where
  "octet_rx =
     Alt (Alt (Alt (Alt (Alt (char_rx CHR ''0'')
       (Seq (Cls False [(51, 57)]) (opt digit_rx)))
       (Seq (Seq (char_rx CHR ''1'') (opt digit_rx)) (opt digit_rx)))
       (Seq (Seq (char_rx CHR ''2'') (char_rx CHR ''5'')) (Cls False [(48, 53)])))
       (Seq (Seq (char_rx CHR ''2'') (opt (Cls False [(48, 52)]))) (opt digit_rx)))
       (Seq (char_rx CHR ''2'') digit_rx)"

definition ip_rx :: rx where
  "ip_rx = Seq (rep (Seq octet_rx (char_rx CHR ''.'')) 1 3) octet_rx"

definition port_rx :: rx where
  "port_rx = Alt (char_rx CHR ''0'') (Seq (Cls False [(49, 57)]) (rep digit_rx 1 4))"

lemma regcomp_ip: "regcomp getIPRegEx = Some ip_rx"
  by code_simp

lemma regcomp_port: "regcomp getPortRegEx = Some port_rx"
  by code_simp

text \<open>The octets are the numerals up to 255, without superfluous zeros.\<close>

lemma code_of_chars:
  "char_code CHR ''0'' = 48" "char_code CHR ''1'' = 49" "char_code CHR ''2'' = 50"
  "char_code CHR ''5'' = 53"
  by code_simp+

lemma octet_digits:
  assumes "s \<in> lang octet_rx"
  shows "s \<noteq> []" and "\<forall>c \<in> set s. is_digit c" and "length s = 1 \<or> hd s \<noteq> CHR ''0''"
    and "digits_val 0 s \<le> 255"
  using assms code_of_chars
  by (auto simp: octet_rx_def char_rx_def opt_def digit_rx_def in_class_def is_digit_def digit_val_def)

lemma octet_of_1: "a < 10 \<Longrightarrow> [digit a] \<in> lang octet_rx"
  unfolding rx_match_lang [symmetric]
  by (auto simp: octet_rx_def char_rx_def opt_def digit_rx_def in_class_def code_of_chars
      char_code_digit)

lemma octet_of_2: "0 < a \<Longrightarrow> a < 10 \<Longrightarrow> b < 10 \<Longrightarrow> [digit a, digit b] \<in> lang octet_rx"
  unfolding rx_match_lang [symmetric]
  by (auto simp: octet_rx_def char_rx_def opt_def digit_rx_def in_class_def code_of_chars
      char_code_digit)

lemma octet_of_3:
  "b < 10 \<Longrightarrow> c < 10 \<Longrightarrow> a = 1 \<or> a = 2 \<and> 10 * b + c \<le> 55 \<Longrightarrow>
     [digit a, digit b, digit c] \<in> lang octet_rx"
  unfolding rx_match_lang [symmetric]
  by (auto simp: octet_rx_def char_rx_def opt_def digit_rx_def in_class_def code_of_chars
      char_code_digit)

lemma lang_octet: "s \<in> lang octet_rx \<longleftrightarrow> (\<exists>n \<le> 255. s = dec_nat n)"
proof
  assume "s \<in> lang octet_rx"
  note w = octet_digits [OF this]
  from dec_nat_digits_val [OF w(1-3)] w(4) show "\<exists>n \<le> 255. s = dec_nat n"
    by (intro exI [of _ "nat (digits_val 0 s)"]) simp
next
  assume "\<exists>n \<le> 255. s = dec_nat n"
  then obtain n where n: "n \<le> 255" and s: "s = dec_nat n" by blast
  consider "n < 10" | "10 \<le> n" "n < 100" | "100 \<le> n" by linarith
  then show "s \<in> lang octet_rx"
  proof cases
    case 1
    with s octet_of_1 show ?thesis by (simp add: dec_nat_small)
  next
    case 2
    then have "0 < n div 10" "n div 10 < 10" by linarith+
    with 2 s octet_of_2 [of "n div 10" "n mod 10"] show ?thesis
      by (simp add: dec_nat_small dec_nat_step)
  next
    case 3
    let ?m = "n div 10"
    have m: "n = 10 * ?m + n mod 10" "?m = 10 * (?m div 10) + ?m mod 10" "n mod 10 < 10" "?m mod 10 < 10"
      by simp_all
    with 3 n have "?m div 10 = 1 \<or> ?m div 10 = 2" by linarith
    with m n have "?m div 10 = 1 \<or> ?m div 10 = 2 \<and> 10 * (?m mod 10) + n mod 10 \<le> 55"
      and "?m div 10 < 10" by linarith+
    with 3 s octet_of_3 [of "n div 10 mod 10" "n mod 10" "n div 10 div 10"] show ?thesis
      by (simp add: dec_nat_small dec_nat_step)
  qed
qed

text \<open>A dotted address of the octets \<open>ns\<close>.\<close>

definition dotted :: "nat list \<Rightarrow> string" where
  "dotted ns = concat (map (\<lambda>n. dec_nat n @ ''.'') (butlast ns)) @ dec_nat (last ns)"

lemma lang_ip: "s \<in> lang ip_rx \<longleftrightarrow>
    (\<exists>ns. 2 \<le> length ns \<and> length ns \<le> 4 \<and> (\<forall>n \<in> set ns. n \<le> 255) \<and> s = dotted ns)"
proof
  assume "s \<in> lang ip_rx"
  then obtain x y where s: "s = x @ y" and x: "x \<in> lang (rep (Seq octet_rx (char_rx CHR ''.'')) 1 3)"
    and y: "y \<in> lang octet_rx" by (auto simp only: ip_rx_def lang.simps)
  from x obtain ws where ws: "1 \<le> length ws" "length ws \<le> 3" "x = concat ws"
    "\<forall>w \<in> set ws. w \<in> lang (Seq octet_rx (char_rx CHR ''.''))"
    by (subst (asm) lang_rep) auto
  from ws(4) have "\<forall>w \<in> set ws. \<exists>n. n \<le> 255 \<and> w = dec_nat n @ ''.''"
    by (auto simp: lang_octet)
  then obtain f where f: "\<forall>w \<in> set ws. f w \<le> 255 \<and> w = dec_nat (f w) @ ''.''" by metis
  obtain n where n: "n \<le> 255" "y = dec_nat n" using y by (auto simp: lang_octet)
  have "map (\<lambda>w. dec_nat (f w) @ ''.'') ws = ws" using f by (induction ws) auto
  then have "concat (map (\<lambda>n. dec_nat n @ ''.'') (map f ws)) = x" using ws(3) by (simp add: comp_def)
  with s n ws f show "\<exists>ns. 2 \<le> length ns \<and> length ns \<le> 4 \<and> (\<forall>n \<in> set ns. n \<le> 255) \<and> s = dotted ns"
    by (intro exI [of _ "map f ws @ [n]"]) (auto simp: dotted_def)
next
  assume "\<exists>ns. 2 \<le> length ns \<and> length ns \<le> 4 \<and> (\<forall>n \<in> set ns. n \<le> 255) \<and> s = dotted ns"
  then obtain ns where ns: "2 \<le> length ns" "length ns \<le> 4" "\<forall>n \<in> set ns. n \<le> 255" "s = dotted ns"
    by blast
  let ?ws = "map (\<lambda>n. dec_nat n @ ''.'') (butlast ns)"
  have "\<forall>w \<in> set ?ws. w \<in> lang (Seq octet_rx (char_rx CHR ''.''))"
    using ns(3) by (auto simp: lang_octet dest: in_set_butlastD)
  then have "concat ?ws \<in> lang (rep (Seq octet_rx (char_rx CHR ''.'')) 1 3)"
    using ns(1,2) by (subst lang_rep) (auto intro!: exI [of _ ?ws])
  moreover have "last ns \<in> set ns" using ns(1) by (intro last_in_set) auto
  then have "dec_nat (last ns) \<in> lang octet_rx" using ns(3) by (auto simp: lang_octet)
  ultimately show "s \<in> lang ip_rx" using ns(4) by (auto simp: ip_rx_def dotted_def)
qed

lemma in_digit_class: "in_class False [(48, 57)] c \<longleftrightarrow> is_digit c"
  by (auto simp: in_class_def is_digit_def)

lemma in_nonzero_class: "in_class False [(49, 57)] c \<longleftrightarrow> is_digit c \<and> c \<noteq> CHR ''0''"
proof -
  have "char_code c = 48 \<longleftrightarrow> c = CHR ''0''" using char_code_zero code_of_chars(1) by blast
  moreover have "49 \<le> char_code c \<longleftrightarrow> 48 \<le> char_code c \<and> char_code c \<noteq> 48" by arith
  ultimately show ?thesis by (auto simp: in_class_def is_digit_def)
qed

lemma lang_port: "s \<in> lang port_rx \<longleftrightarrow> (\<exists>n. (n = 0 \<or> 10 \<le> n \<and> n < 100000) \<and> s = dec_nat n)"
proof -
  have zero: "dec_nat 0 = ''0''" by code_simp
  have tail: "t \<in> lang (rep digit_rx 1 4) \<longleftrightarrow> 1 \<le> length t \<and> length t \<le> 4 \<and> (\<forall>c \<in> set t. is_digit c)" for t
  proof
    assume "t \<in> lang (rep digit_rx 1 4)"
    then obtain ws where ws: "1 \<le> length ws" "length ws \<le> 4" "t = concat ws"
      "\<forall>w \<in> set ws. \<exists>c. w = [c] \<and> is_digit c"
      by (subst (asm) lang_rep) (auto simp: digit_rx_def in_digit_class)
    moreover from ws(4) have "length (concat ws) = length ws" by (induction ws) auto
    ultimately show "1 \<le> length t \<and> length t \<le> 4 \<and> (\<forall>c \<in> set t. is_digit c)" by fastforce
  next
    assume "1 \<le> length t \<and> length t \<le> 4 \<and> (\<forall>c \<in> set t. is_digit c)"
    moreover have "t = concat (map (\<lambda>c. [c]) t)" by (induction t) auto
    ultimately show "t \<in> lang (rep digit_rx 1 4)"
      by (subst lang_rep) (auto simp: digit_rx_def in_digit_class intro!: exI [of _ "map (\<lambda>c. [c]) t"])
  qed
  show ?thesis
  proof
    assume "s \<in> lang port_rx"
    then consider "s = ''0''" | d t where "s = d # t" "is_digit d" "d \<noteq> CHR ''0''" "1 \<le> length t"
        "length t \<le> 4" "\<forall>c \<in> set t. is_digit c"
      by (auto simp: port_rx_def tail in_nonzero_class simp del: One_nat_def)
    then show "\<exists>n. (n = 0 \<or> 10 \<le> n \<and> n < 100000) \<and> s = dec_nat n"
    proof cases
      case 1
      with zero show ?thesis by auto
    next
      case 2
      then have s: "dec_nat (nat (digits_val 0 s)) = s" by (intro dec_nat_digits_val) auto
      let ?n = "nat (digits_val 0 s)"
      have "\<not> length (dec_nat ?n) \<le> 1" "length (dec_nat ?n) \<le> 5" using s 2 by auto
      then have "10 \<le> ?n \<and> ?n < 100000" by (simp add: length_dec_nat_le del: One_nat_def)
      with s show ?thesis by metis
    qed
  next
    assume "\<exists>n. (n = 0 \<or> 10 \<le> n \<and> n < 100000) \<and> s = dec_nat n"
    then consider "s = dec_nat 0" | n where "10 \<le> n" "n < 100000" "s = dec_nat n" by blast
    then show "s \<in> lang port_rx"
    proof cases
      case 1
      with zero show ?thesis by (simp add: port_rx_def)
    next
      case 2
      have len: "\<not> length s \<le> 1" "length s \<le> 5"
        using 2 by (simp_all add: length_dec_nat_le del: One_nat_def)
      then obtain d t where s: "s = d # t" by (cases s) auto
      have "is_digit d" "\<forall>c \<in> set t. is_digit c" using dec_nat_digits [of n] by (simp_all flip: 2(3) add: s)
      moreover have "d \<noteq> CHR ''0''" using hd_dec_nat [of n] 2(1) by (simp flip: 2(3) add: s)
      ultimately have "[d] \<in> lang (Cls False [(49, 57)])" "t \<in> lang (rep digit_rx 1 4)"
        using len s unfolding tail by (auto simp: in_nonzero_class Suc_le_eq)
      moreover have "s = [d] @ t" using s by simp
      ultimately show ?thesis unfolding port_rx_def lang.simps(4,5) by blast
    qed
  qed
qed


section \<open>What the checks accept\<close>

definition ip_text :: "nat list \<Rightarrow> string \<Rightarrow> bool" where
  "ip_text ns s \<longleftrightarrow> 2 \<le> length ns \<and> length ns \<le> 4 \<and> (\<forall>n \<in> set ns. n \<le> 255) \<and> s = dotted ns"

definition port_number :: "nat \<Rightarrow> bool" where
  "port_number n \<longleftrightarrow> n = 0 \<or> 10 \<le> n \<and> n < 100000"

lemma checkIP_iff: "checkIP s = 1 \<longleftrightarrow> (\<exists>ns. ip_text ns s)" "checkIP s = 0 \<longleftrightarrow> (\<nexists>ns. ip_text ns s)"
  unfolding checkIP_def regexec_lang [OF regcomp_ip] lang_ip ip_text_def by auto

lemma checkPort_iff:
  "checkPort s = 1 \<longleftrightarrow> (\<exists>n. port_number n \<and> s = dec_nat n)"
  "checkPort s = 0 \<longleftrightarrow> (\<nexists>n. port_number n \<and> s = dec_nat n)"
proof -
  have "\<not> 65535 < uint (w :: 16 word)" for w
    using uint_lt2p [of w] by simp
  then show "checkPort s = 1 \<longleftrightarrow> (\<exists>n. port_number n \<and> s = dec_nat n)"
    "checkPort s = 0 \<longleftrightarrow> (\<nexists>n. port_number n \<and> s = dec_nat n)"
    by (simp_all add: checkPort_def regexec_lang [OF regcomp_port] lang_port port_number_def)
qed

lemma colon_from_absent: "CHR '':'' \<notin> set s \<Longrightarrow> colon_from s i = -1"
  by (induction s arbitrary: i) auto

lemma colon_from_at: "CHR '':'' \<notin> set xs \<Longrightarrow> colon_from (xs @ CHR '':'' # ys) i = i + int (length xs)"
  by (induction xs arbitrary: i) auto

lemma searchForColon_absent: "CHR '':'' \<notin> set s \<Longrightarrow> searchForColon s = -1"
  by (simp add: searchForColon_def colon_from_absent)

lemma searchForColon_at: "CHR '':'' \<notin> set xs \<Longrightarrow> searchForColon (xs @ CHR '':'' # ys) = int (length xs)"
  by (simp add: searchForColon_def colon_from_at)

lemma no_colon_dec_nat: "CHR '':'' \<notin> set (dec_nat n)"
proof -
  have "\<not> is_digit CHR '':''" by code_simp
  then show ?thesis using dec_nat_digits by blast
qed

lemma no_colon_dotted: "CHR '':'' \<notin> set (dotted ns)"
  by (auto simp: dotted_def no_colon_dec_nat)

lemma isValidAddress_split:
  assumes "CHR '':'' \<notin> set xs"
  shows "isValidAddress (xs @ CHR '':'' # ys) = (if checkIP xs = 1 \<and> checkPort ys = 1 then 1 else 0)"
  using checkIP_iff [of xs] checkPort_iff [of ys]
  by (auto simp: isValidAddress_def searchForColon_at [OF assms] Let_def nat_add_distrib)

lemma append_Cons_eq_iff':
  assumes "x \<notin> set xs" and "x \<notin> set zs" and "xs @ x # ys = zs @ x # us"
  shows "xs = zs \<and> ys = us"
proof -
  have "takeWhile (\<lambda>c. c \<noteq> x) (zs @ x # us) = zs" if "x \<notin> set zs" for zs us
    using that by (induction zs) auto
  with assms have "xs = zs" by metis
  with assms(3) show ?thesis by simp
qed

lemma isValidAddress_iff:
  "isValidAddress address = 1 \<longleftrightarrow>
     (\<exists>ns n. ip_text ns (dotted ns) \<and> port_number n \<and> address = dotted ns @ '':'' @ dec_nat n)"
proof (cases "CHR '':'' \<in> set address")
  case False
  then show ?thesis by (auto simp: isValidAddress_def searchForColon_absent)
next
  case True
  then obtain xs ys where s: "address = xs @ CHR '':'' # ys" "CHR '':'' \<notin> set xs"
    by (meson split_list_first)
  have eq: "xs @ CHR '':'' # ys = dotted ns @ '':'' @ p \<longleftrightarrow> xs = dotted ns \<and> ys = p" for ns p
    using append_Cons_eq_iff' [OF s(2) no_colon_dotted, of ys ns p] by auto
  have "ip_text ns xs \<Longrightarrow> xs = dotted ns" for ns by (simp add: ip_text_def)
  then show ?thesis
    unfolding s(1) isValidAddress_split [OF s(2)] eq using checkIP_iff(1) checkPort_iff(1) by auto
qed


section \<open>The address parser of the C library\<close>

text \<open>\<open>inet_pton(AF_INET, s, ...)\<close> takes four octets, without superfluous zeros.\<close>

fun split_dots :: "string \<Rightarrow> string list" where
  "split_dots [] = [[]]"
| "split_dots (c # cs) =
     (if c = CHR ''.'' then [] # split_dots cs
      else case split_dots cs of [] \<Rightarrow> [[c]] | w # ws \<Rightarrow> (c # w) # ws)"

definition octet_text :: "string \<Rightarrow> bool" where
  "octet_text s \<longleftrightarrow> s \<noteq> [] \<and> list_all is_digit s \<and> (length s = 1 \<or> hd s \<noteq> CHR ''0'') \<and>
     digits_val 0 s \<le> 255"

definition inet_pton4 :: "string \<Rightarrow> bool" where
  "inet_pton4 s \<longleftrightarrow> (let ws = split_dots s in length ws = 4 \<and> list_all octet_text ws)"

lemma split_dots_not_Nil [simp]: "split_dots s \<noteq> []"
  by (cases s) (auto split: list.splits)

lemma split_dots_word: "CHR ''.'' \<notin> set w \<Longrightarrow> split_dots w = [w]"
  by (induction w) auto

lemma split_dots_append: "CHR ''.'' \<notin> set w \<Longrightarrow> split_dots (w @ CHR ''.'' # s) = w # split_dots s"
  by (induction w) auto

lemma no_dot_dec_nat: "CHR ''.'' \<notin> set (dec_nat n)"
proof -
  have "\<not> is_digit CHR ''.''" by code_simp
  then show ?thesis using dec_nat_digits by blast
qed

lemma split_dots_dotted: "ns \<noteq> [] \<Longrightarrow> split_dots (dotted ns) = map dec_nat ns"
proof (induction ns)
  case (Cons n ns)
  show ?case
  proof (cases "ns = []")
    case True
    then show ?thesis by (simp add: dotted_def split_dots_word no_dot_dec_nat)
  next
    case False
    then have "dotted (n # ns) = dec_nat n @ CHR ''.'' # dotted ns" by (simp add: dotted_def)
    with Cons.IH False show ?thesis by (simp add: split_dots_append no_dot_dec_nat)
  qed
qed simp

lemma octet_text_dec_nat: "n \<le> 255 \<Longrightarrow> octet_text (dec_nat n)"
proof -
  assume "n \<le> 255"
  then have "dec_nat n \<in> lang octet_rx" by (auto simp: lang_octet)
  from octet_digits [OF this] show ?thesis by (simp add: octet_text_def list_all_iff)
qed

lemma inet_pton4_dotted:
  "ns \<noteq> [] \<Longrightarrow> \<forall>n \<in> set ns. n \<le> 255 \<Longrightarrow> inet_pton4 (dotted ns) \<longleftrightarrow> length ns = 4"
  by (auto simp: inet_pton4_def Let_def split_dots_dotted list_all_iff octet_text_dec_nat)

text \<open>C38: An address is accepted exactly when it is two to four octets joined by dots, a colon and a
  port that is 0 or has two to five digits without a leading zero. So the documented form
  is accepted with any octets, but so are addresses of two or three octets and ports beyond
  65535, and a port from 1 to 9 is refused.\<close>

theorem isValidAddress_accepts:
  "isValidAddress address = 1 \<longleftrightarrow>
     (\<exists>ns n. 2 \<le> length ns \<and> length ns \<le> 4 \<and> (\<forall>k \<in> set ns. k \<le> 255) \<and>
        (n = 0 \<or> 10 \<le> n \<and> n < 100000) \<and> address = dotted ns @ '':'' @ dec_nat n)"
  using isValidAddress_iff by (simp add: ip_text_def port_number_def conj_assoc)

lemma isValidAddress_accepts_witness:
  "isValidAddress ''127.0.0.1:8000'' = 1 \<and> isValidAddress ''10.1:70000'' = 1 \<and>
   isValidAddress ''127.0.0.1:9'' = 0"
proof -
  have d: "dotted [127, 0, 0, 1] @ '':'' @ dec_nat 8000 = ''127.0.0.1:8000''"
    "dotted [10, 1] @ '':'' @ dec_nat 70000 = ''10.1:70000''"
    by (simp_all add: dotted_def dec_nat_eval)
  have "isValidAddress (dotted [127, 0, 0, 1] @ '':'' @ dec_nat 8000) = 1"
    unfolding isValidAddress_accepts by (intro exI [of _ "[127, 0, 0, 1]"] exI [of _ "8000 :: nat"]) simp
  moreover have "isValidAddress (dotted [10, 1] @ '':'' @ dec_nat 70000) = 1"
    unfolding isValidAddress_accepts by (intro exI [of _ "[10, 1]"] exI [of _ "70000 :: nat"]) simp
  moreover have "isValidAddress ''127.0.0.1:9'' = 0" by code_simp
  ultimately show ?thesis unfolding d by blast
qed

end
