(* ===== verification/CommSockets.thy ===== *)
theory CommSockets
  imports Comm Address
begin

text \<open>
  \<^verbatim>\<open>common/commWithSockets.c\<close>: connections over TCP. First the connection record, sending,
  receiving and closing, and that they keep the contract of the interface; then opening,
  listening and accepting, over the checks of theory \<open>Address\<close>.
\<close>

record sock_connection =
  sk_ip :: ptr
  sk_port :: in_port_t
  sk_socketfd :: fd

definition sock_conn_send :: "sock_connection \<Rightarrow> byte list \<Rightarrow> proc \<Rightarrow> (int \<times> proc) c_result" where
  "sock_conn_send connection data p =
     (if length data = 0 then Inr (1, p)
      else
        c_bind (ensureWrite (enc64 (word_of_nat (length data))) (sk_socketfd connection) p) (\<lambda>(ok, p).
        if ok = 0 then Inr (0, p) else ensureWrite data (sk_socketfd connection) p))"

definition sock_conn_receive ::
  "sock_connection \<Rightarrow> ptr \<Rightarrow> proc \<Rightarrow> (int \<times> ptr \<times> nat option \<times> proc) c_result" where
  "sock_conn_receive conn data p =
     c_bind (ensureRead 8 (sk_socketfd conn) p) (\<lambda>(ok, bs, p).
     if ok = 0 then Inr (0, data, None, p)
     else
       let len = unat (dec64 bs) in
       c_bind (ensureRead len (sk_socketfd conn) p) (\<lambda>(ok, got, p).
       Inr (ok, received len got, Some len, p)))"

text \<open>
  \<open>shutdown(fd, SHUT_RDWR)\<close> ends both directions of the socket; it fails on a closed one.
\<close>

definition shutdown_wrp :: "fd \<Rightarrow> proc \<Rightarrow> int \<times> proc" where
  "shutdown_wrp fd p =
     (if rd p fd = [Rd_bad] then (-1, eprint ''Couldn't close connection\<newline>'' p)
      else (0, p\<lparr>rd := (rd p)(fd := [Rd_eof]), wr := (wr p)(fd := [Wr_bad])\<rparr>))"

definition sock_conn_close :: "sock_connection \<Rightarrow> proc \<Rightarrow> (int \<times> proc) c_result" where
  "sock_conn_close connection p =
     c_bind (sock_conn_send connection (enc32 MESSAGE_CLOSE) p) (\<lambda>(ok, p).
     if ok = 0 then Inr (0, p)
     else
       let (r, p) = shutdown_wrp (sk_socketfd connection) p in
       if r \<noteq> 0 then Inr (0, p)
       else c_bind (c_free (sk_ip connection)) (\<lambda>_. Inr (1, p)))"

definition sock_comm :: "sock_connection comm" where
  "sock_comm = \<lparr>conn_send = sock_conn_send, conn_receive = sock_conn_receive,
     conn_close = sock_conn_close\<rparr>"

interpretation sockets: channel sock_comm sk_socketfd sk_socketfd
proof
  fix p :: proc and c :: sock_connection and data :: "byte list"
  assume "healthy (wr p (sk_socketfd c))" and "message_ok data"
  then show "conn_send sock_comm c data p = Inr (1, deliver_frame (sk_socketfd c) data p)"
    using send_on_frame [of p "sk_socketfd c" data]
    by (simp add: sock_comm_def sock_conn_send_def send_on_def)
next
  fix p :: proc and c :: sock_connection and data rest :: "byte list" and q :: ptr
  assume a: "rd_avail p (sk_socketfd c) = frame data @ rest" "message_ok data"
  then have "unat (word_of_nat (length data) :: size_t) = length data"
    by (simp add: unat_of_nat64 message_ok_def)
  with a show "conn_receive sock_comm c q p =
      Inr (1, full_block data, Some (length data), consume (sk_socketfd c) (8 + length data) p)"
    by (simp add: sock_comm_def sock_conn_receive_def ensureRead_frame_length
        ensureRead_frame_data received_all message_ok_def Let_def)
qed


text \<open>The socket version says good-bye with \<open>MESSAGE_CLOSE\<close>, as the header documents.\<close>

definition sock_closable :: "sock_connection \<Rightarrow> bool" where
  "sock_closable c \<longleftrightarrow> (\<exists>q. c_free (sk_ip c) = Inr q)"

lemma sent_shutdown [simp]: "shutdown_wrp fd p = (r, p') \<Longrightarrow> sent p' = sent p"
  by (auto simp: shutdown_wrp_def eprint_def split: if_splits)

interpretation sockets_close: closable_channel sock_comm sk_socketfd sk_socketfd sock_closable
    "frame (enc32 MESSAGE_CLOSE)"
proof
  fix c :: sock_connection and p :: proc
  assume c: "sock_closable c" and h: "healthy (wr p (sk_socketfd c))"
  let ?p = "deliver_frame (sk_socketfd c) (enc32 MESSAGE_CLOSE) p"
  have "sock_conn_send c (enc32 MESSAGE_CLOSE) p = Inr (1, ?p)"
    using sockets.send_frame [OF h sockets.message_code_ok] by (simp add: sock_comm_def)
  moreover obtain r p' where sd: "shutdown_wrp (sk_socketfd c) ?p = (r, p')"
    by (cases "shutdown_wrp (sk_socketfd c) ?p") auto
  ultimately have "\<exists>r'. conn_close sock_comm c p = Inr (r', p')"
    using c by (auto simp: sock_comm_def sock_conn_close_def sock_closable_def)
  with sent_shutdown [OF sd] show "\<exists>r p'. conn_close sock_comm c p = Inr (r, p') \<and>
      sent p' = (sent p)(sk_socketfd c := sent p (sk_socketfd c) @ frame (enc32 MESSAGE_CLOSE))"
    by auto
qed


section \<open>Opening a connection\<close>

text \<open>
  The wrappers print what went wrong. \<open>inet_pton\<close> never returns -1 here: the family is always
  \<open>AF_INET\<close>. The results of the others are the coming answers of the system.
\<close>

definition inet_pton_wrp :: "string \<Rightarrow> proc \<Rightarrow> int \<times> proc" where
  "inet_pton_wrp src p =
     (let p = print (src @ ''\<newline>'') p; result = (if inet_pton4 src then 1 else 0 :: int) in
      if result = 0 then (-1, eprint ''Invalid IP address\<newline>'' p)
      else if result = -1 then (-1, eprint ''Couldn't parse IP. System error\<newline>'' p)
      else (0, p))"

definition socket_wrp :: "proc \<Rightarrow> int \<times> proc" where
  "socket_wrp p =
     (let (result, p) = next_answer p in
      (result, if result < 0 then eprint ''Couldn't create socket\<newline>'' p else p))"

definition connect_wrp :: "proc \<Rightarrow> int \<times> proc" where
  "connect_wrp p =
     (let (r, p) = next_answer p in
      if r \<noteq> 0 then (-1, eprint ''Couldn't create connection\<newline>'' p) else (0, p))"

definition bind_wrp :: "proc \<Rightarrow> int \<times> proc" where
  "bind_wrp p =
     (let (r, p) = next_answer p in
      if r \<noteq> 0 then (-1, eprint ''Couldn't bind socket\<newline>'' p) else (0, p))"

definition listen_wrp :: "proc \<Rightarrow> int \<times> proc" where
  "listen_wrp p =
     (let (r, p) = next_answer p in
      if r \<noteq> 0 then (-1, eprint ''Can't listen through socket\<newline>'' p) else (0, p))"

definition createTCPSocketForClient ::
  "sock_connection \<Rightarrow> proc \<Rightarrow> (int \<times> sock_connection \<times> proc) c_result" where
  "createTCPSocketForClient connection p =
     c_bind (c_chars (sk_ip connection)) (\<lambda>ip.
     let (r, p) = inet_pton_wrp (chars_of ip) p in
     if r \<noteq> 0 then Inr (-1, connection, p)
     else
       let (fd, p) = socket_wrp p; connection = connection\<lparr>sk_socketfd := fd\<rparr> in
       if fd < 0 then Inr (-1, connection, p)
       else
         let (r, p) = connect_wrp p in
         if r \<noteq> 0 then Inr (-1, connection, p) else Inr (0, connection, p))"

text \<open>The copy of the IP part; without a colon the length is \<open>(size_t) -1\<close>.\<close>

definition initializeClient ::
  "sock_connection \<Rightarrow> string \<Rightarrow> proc \<Rightarrow> (int \<times> sock_connection \<times> proc) c_result" where
  "initializeClient connection address p =
     (let colonPosition = searchForColon address in
      if colonPosition < 0 then Inl Out_of_bounds
      else
        let connection = connection\<lparr>
          sk_ip := full_block (bytes_of (take (nat colonPosition) address) @ [0]),
          sk_port := ucast (atoi (drop (nat colonPosition + 1) address))\<rparr> in
        createTCPSocketForClient connection p)"

definition sock_conn_open :: "string \<Rightarrow> proc \<Rightarrow> (sock_connection option \<times> proc) c_result" where
  "sock_conn_open address p =
     (if isValidAddress address = 0 then Inr (None, p)
      else
        c_bind (initializeClient \<lparr>sk_ip = Uninit_ptr, sk_port = 0, sk_socketfd = 0\<rparr> address p)
          (\<lambda>(r, connection, p). Inr (if r = -1 then None else Some connection, p)))"

section \<open>Listening and accepting\<close>

record sock_params =
  sp_port :: in_port_t
  sp_socketfd :: fd

definition createTCPSocketForServer :: "sock_params \<Rightarrow> proc \<Rightarrow> int \<times> sock_params \<times> proc" where
  "createTCPSocketForServer params p =
     (let (fd, p) = socket_wrp p; params = params\<lparr>sp_socketfd := fd\<rparr> in
      if fd < 0 then (-1, params, p)
      else
        let (r, p) = bind_wrp p in
        if r \<noteq> 0 then (-1, params, p)
        else
          let (r, p) = listen_wrp p in
          if r \<noteq> 0 then (-1, params, p) else (0, params, p))"

definition initializeServer :: "sock_params \<Rightarrow> string \<Rightarrow> proc \<Rightarrow> int \<times> sock_params \<times> proc" where
  "initializeServer params listeningAddress p =
     createTCPSocketForServer (params\<lparr>sp_port := ucast (atoi listeningAddress)\<rparr>) p"

definition sock_conn_listen :: "string \<Rightarrow> proc \<Rightarrow> sock_params option \<times> proc" where
  "sock_conn_listen listeningAddress p =
     (if checkPort listeningAddress = 0 then (None, p)
      else
        let (r, params, p) = initializeServer \<lparr>sp_port = 0, sp_socketfd = 0\<rparr> listeningAddress p in
        (if r = -1 then None else Some params, p))"

text \<open>The descriptor of an accepted client is the next one the system opens.\<close>

definition sock_conn_accept :: "sock_params \<Rightarrow> proc \<Rightarrow> sock_connection option \<times> proc" where
  "sock_conn_accept params p =
     (let (newFD, p) = next_open p in
      if newFD < 0 then (None, p)
      else (Some \<lparr>sk_ip = Null_ptr, sk_port = sp_port params, sk_socketfd = newFD\<rparr>, p))"

section \<open>What opening and listening give\<close>

lemma atoi_dec_nat: "n < 2 ^ 31 \<Longrightarrow> atoi (dec_nat n) = word_of_nat n"
  using atoi_dec_int [of "int n" "[]"] by (simp add: dec_int_def)

lemma ucast_port: "(ucast (word_of_nat n :: c_int) :: in_port_t) = word_of_nat n"
  by transfer simp

lemma dec_nat_10: "CHR 0x00 \<notin> set (dec_nat n)"
  using c_text_dec_nat by (simp add: c_text_def)

lemma c_text_dotted: "c_text (dotted ns)"
  by (auto simp: c_text_def dotted_def dec_nat_10)

text \<open>Everything but the answers of the system is settled by the address.\<close>

lemma open_dotted:
  assumes "2 \<le> length ns" "length ns \<le> 4" "\<forall>k \<in> set ns. k \<le> 255" and "n = 0 \<or> 10 \<le> n \<and> n < 100000"
  shows "sock_conn_open (dotted ns @ CHR '':'' # dec_nat n) p =
    (let c = \<lparr>sk_ip = full_block (bytes_of (dotted ns) @ [0]), sk_port = word_of_nat n, sk_socketfd = 0\<rparr>;
         p1 = print (dotted ns @ ''\<newline>'') p in
     if length ns \<noteq> 4 then Inr (None, eprint ''Invalid IP address\<newline>'' p1)
     else
       let (fd, p2) = socket_wrp p1 in
       if fd < 0 then Inr (None, p2)
       else let (r, p3) = connect_wrp p2 in
         Inr (if r \<noteq> 0 then None else Some (c\<lparr>sk_socketfd := fd\<rparr>), p3))"
proof -
  let ?a = "dotted ns @ CHR '':'' # dec_nat n"
  have ok: "isValidAddress ?a = 1"
    using isValidAddress_iff [of ?a] assms by (fastforce simp: ip_text_def port_number_def)
  have colon: "searchForColon ?a = int (length (dotted ns))"
    using searchForColon_at [OF no_colon_dotted, of ns "dec_nat n"] by simp
  have port: "ucast (atoi (dec_nat n)) = (word_of_nat n :: in_port_t)"
    using assms(4) by (auto simp: atoi_dec_nat ucast_port)
  have ip: "c_chars (full_block (bytes_of (dotted ns) @ [0])) = Inr (bytes_of (dotted ns))"
    by (rule c_chars_copy [OF c_text_dotted])
  have "inet_pton4 (dotted ns) \<longleftrightarrow> length ns = 4"
    using assms(1,3) by (intro inet_pton4_dotted) auto
  then show ?thesis
    by (auto simp: sock_conn_open_def ok initializeClient_def colon port createTCPSocketForClient_def
        ip inet_pton_wrp_def connect_wrp_def Let_def split: prod.splits)
qed

lemma isValidAddress_bool: "isValidAddress a = 0 \<or> isValidAddress a = 1"
  using checkIP_def by (auto simp: isValidAddress_def Let_def)

text \<open>Opening a connection never faults, whatever the address and the system answer. A
  connection is returned only for an address of four octets; it holds a copy of the IP part, a
  socket that was opened, and the port modulo 65536, so a port beyond the range is not refused
  but connects elsewhere. Such a connection can be closed.\<close>

theorem sock_conn_open_result:
  "\<exists>opened p'. sock_conn_open address p = Inr (opened, p') \<and>
    (\<forall>c. opened = Some c \<longrightarrow>
       (\<exists>ns n. length ns = 4 \<and> (\<forall>k \<in> set ns. k \<le> 255) \<and> (n = 0 \<or> 10 \<le> n \<and> n < 100000) \<and>
          address = dotted ns @ CHR '':'' # dec_nat n \<and>
          c_chars (sk_ip c) = Inr (bytes_of (dotted ns)) \<and>
          uint (sk_port c) = int n mod 65536 \<and> 0 \<le> sk_socketfd c \<and> sock_closable c))"
proof (cases "isValidAddress address = 0")
  case True
  then show ?thesis by (simp add: sock_conn_open_def)
next
  case False
  then have "isValidAddress address = 1" using isValidAddress_bool by blast
  then obtain ns n where a: "2 \<le> length ns" "length ns \<le> 4" "\<forall>k \<in> set ns. k \<le> 255"
      "n = 0 \<or> 10 \<le> n \<and> n < 100000" "address = dotted ns @ CHR '':'' # dec_nat n"
    unfolding isValidAddress_iff ip_text_def port_number_def by auto
  have port: "uint (word_of_nat n :: in_port_t) = int n mod 65536"
    using uint_word_of_int [of "int n", where ?'a = 16] by simp
  let ?c = "\<lambda>fd. \<lparr>sk_ip = full_block (bytes_of (dotted ns) @ [0]), sk_port = word_of_nat n, sk_socketfd = fd\<rparr>"
  have "\<exists>opened p'. sock_conn_open address p = Inr (opened, p') \<and>
      (opened = None \<or> length ns = 4 \<and> (\<exists>fd \<ge> 0. opened = Some (?c fd)))"
    unfolding a(5) open_dotted [OF a(1-4)] by (auto simp: Let_def split: prod.splits)
  then obtain opened p' where o: "sock_conn_open address p = Inr (opened, p')"
      "opened = None \<or> length ns = 4 \<and> (\<exists>fd \<ge> 0. opened = Some (?c fd))" by blast
  have "c_chars (sk_ip c) = Inr (bytes_of (dotted ns)) \<and> uint (sk_port c) = int n mod 65536 \<and>
      0 \<le> sk_socketfd c \<and> sock_closable c \<and> length ns = 4" if "opened = Some c" for c
    using that o(2) port c_chars_copy [OF c_text_dotted [of ns]] by (auto simp: sock_closable_def)
  with o(1) a(3-5) show ?thesis by blast
qed

lemma sock_conn_open_result_witness:
  "\<exists>c p'. sock_conn_open ''127.0.0.1:70000'' ((fresh_proc (\<lambda>_. []))\<lparr>answers := [3, 0]\<rparr>) =
     Inr (Some c, p') \<and> uint (sk_port c) = 4464"
proof -
  let ?p = "(fresh_proc (\<lambda>_. []))\<lparr>answers := [3, 0]\<rparr>"
  have d: "dotted [127, 0, 0, 1] @ CHR '':'' # dec_nat 70000 = ''127.0.0.1:70000''"
    by (simp add: dotted_def dec_nat_eval)
  have dom: "\<forall>k \<in> set [127, 0, 0, 1]. k \<le> (255 :: nat)" by simp
  obtain c p' where c: "sock_conn_open ''127.0.0.1:70000'' ?p = Inr (Some c, p')"
    using open_dotted [of "[127, 0, 0, 1]" 70000 ?p]
    unfolding d by (simp add: socket_wrp_def connect_wrp_def next_answer_def print_def)
  then obtain ns n where "''127.0.0.1:70000'' = dotted ns @ CHR '':'' # dec_nat n"
      "uint (sk_port c) = int n mod 65536"
    using sock_conn_open_result [of "''127.0.0.1:70000''" ?p] by auto
  moreover from this(1) have "dec_nat n = dec_nat 70000"
    using append_Cons_eq_iff' no_colon_dotted d by metis
  ultimately show ?thesis using c dec_nat_inject by fastforce
qed

text \<open>Listening succeeds exactly when the port is written as a port, and the system opens,
  binds and listens on a socket; the parameters then hold that socket and the port modulo 65536.\<close>

theorem sock_conn_listen_iff:
  assumes "answers p = [fd, bound, listening]"
  shows "fst (sock_conn_listen port p) = Some params \<longleftrightarrow>
    (\<exists>n. (n = 0 \<or> 10 \<le> n \<and> n < 100000) \<and> port = dec_nat n \<and> 0 \<le> fd \<and> bound = 0 \<and> listening = 0 \<and>
       params = \<lparr>sp_port = word_of_nat n, sp_socketfd = fd\<rparr>)"
proof (cases "checkPort port = 0")
  case True
  then show ?thesis using checkPort_iff(2) [of port] by (auto simp: sock_conn_listen_def port_number_def)
next
  case False
  then obtain n where n: "n = 0 \<or> 10 \<le> n \<and> n < 100000" "port = dec_nat n"
    using checkPort_iff(2) [of port] by (auto simp: port_number_def)
  then have "ucast (atoi port) = (word_of_nat n :: in_port_t)"
    by (auto simp: atoi_dec_nat ucast_port)
  with False n assms show ?thesis
    by (auto simp: sock_conn_listen_def initializeServer_def createTCPSocketForServer_def
        socket_wrp_def bind_wrp_def listen_wrp_def next_answer_def eprint_def Let_def
        dec_nat_inject split: if_splits)
qed

lemma sock_conn_listen_iff_witness:
  "fst (sock_conn_listen ''8000'' ((fresh_proc (\<lambda>_. []))\<lparr>answers := [4, 0, 0]\<rparr>)) =
     Some \<lparr>sp_port = 8000, sp_socketfd = 4\<rparr>"
  by (subst sock_conn_listen_iff [of _ 4 0 0]) (auto intro!: exI [of _ "8000 :: nat"] simp: dec_nat_eval)

end
