(* ===== verification/CommFIFOs.thy ===== *)
theory CommFIFOs
  imports Comm
begin

text \<open>
  \<^verbatim>\<open>common/commWithFIFOs.c\<close>: connections over a pair of FIFOs. First the connection record,
  sending, receiving and closing, and that they keep the contract of the interface; then the
  handshake of \<open>conn_open\<close> and \<open>conn_accept\<close>.
\<close>

record fifo_connection =
  ff_outFIFOPath :: ptr
  ff_inFIFOPath :: ptr
  ff_outFD :: fd
  ff_inFD :: fd

definition fifo_conn_send :: "fifo_connection \<Rightarrow> byte list \<Rightarrow> proc \<Rightarrow> (int \<times> proc) c_result" where
  "fifo_conn_send conn data p =
     (if length data = 0 then Inr (1, p)
      else
        c_bind (ensureWrite (enc64 (word_of_nat (length data))) (ff_outFD conn) p) (\<lambda>(ok, p).
        if ok = 0 then Inr (0, p) else ensureWrite data (ff_outFD conn) p))"

text \<open>A receive that fails half-way frees the buffer and leaves the caller's pointer dangling.\<close>

definition fifo_conn_receive ::
  "fifo_connection \<Rightarrow> ptr \<Rightarrow> proc \<Rightarrow> (int \<times> ptr \<times> nat option \<times> proc) c_result" where
  "fifo_conn_receive conn data p =
     c_bind (ensureRead 8 (ff_inFD conn) p) (\<lambda>(ok, bs, p).
     if ok = 0 then Inr (0, data, None, p)
     else
       let len = unat (dec64 bs) in
       c_bind (ensureRead len (ff_inFD conn) p) (\<lambda>(ok, got, p).
       if ok = 0 then
         Inr (0, (if received len got \<noteq> Null_ptr then Freed else Null_ptr), Some len, p)
       else Inr (1, received len got, Some len, p)))"

text \<open>Closing shuts both descriptors; the two files are removed and the record is freed.\<close>

definition fifo_conn_close :: "fifo_connection \<Rightarrow> proc \<Rightarrow> (int \<times> proc) c_result" where
  "fifo_conn_close conn p =
     (let (_, p) = sys_close (ff_outFD conn) p; (_, p) = sys_close (ff_inFD conn) p in
     c_bind (c_chars (ff_outFIFOPath conn)) (\<lambda>outPath.
     c_bind (c_chars (ff_inFIFOPath conn)) (\<lambda>inPath.
     let p = remove_file (chars_of inPath) (remove_file (chars_of outPath) p) in
     c_bind (c_free (ff_outFIFOPath conn)) (\<lambda>_.
     c_bind (c_free (ff_inFIFOPath conn)) (\<lambda>_. Inr (1, p))))))"

definition fifo_comm :: "fifo_connection comm" where
  "fifo_comm = \<lparr>conn_send = fifo_conn_send, conn_receive = fifo_conn_receive,
     conn_close = fifo_conn_close\<rparr>"

interpretation fifos: channel fifo_comm ff_inFD ff_outFD
proof
  fix p :: proc and c :: fifo_connection and data :: "byte list"
  assume "healthy (wr p (ff_outFD c))" and "message_ok data"
  then show "conn_send fifo_comm c data p = Inr (1, deliver_frame (ff_outFD c) data p)"
    using send_on_frame [of p "ff_outFD c" data]
    by (simp add: fifo_comm_def fifo_conn_send_def send_on_def)
next
  fix p :: proc and c :: fifo_connection and data rest :: "byte list" and q :: ptr
  assume a: "rd_avail p (ff_inFD c) = frame data @ rest" "message_ok data"
  then have "unat (word_of_nat (length data) :: size_t) = length data"
    by (simp add: unat_of_nat64 message_ok_def)
  with a show "conn_receive fifo_comm c q p =
      Inr (1, full_block data, Some (length data), consume (ff_inFD c) (8 + length data) p)"
    by (simp add: fifo_comm_def fifo_conn_receive_def ensureRead_frame_length
        ensureRead_frame_data received_all message_ok_def Let_def)
qed


text \<open>
  The FIFO version closes and removes its files without a word to the other side, although the
  header documents a \<open>MESSAGE_CLOSE\<close>.
\<close>

definition fifo_closable :: "fifo_connection \<Rightarrow> bool" where
  "fifo_closable c \<longleftrightarrow>
     (\<exists>xs ys. c_string xs \<and> c_string ys \<and>
        ff_outFIFOPath c = full_block xs \<and> ff_inFIFOPath c = full_block ys)"

interpretation fifos_close: closable_channel fifo_comm ff_inFD ff_outFD fifo_closable "[]"
proof
  fix c :: fifo_connection and p :: proc
  assume c: "fifo_closable c"
  then obtain xs ys where "c_string xs" "c_string ys"
    "ff_outFIFOPath c = full_block xs" "ff_inFIFOPath c = full_block ys"
    by (auto simp: fifo_closable_def)
  then show "\<exists>r p'. conn_close fifo_comm c p = Inr (r, p') \<and>
      sent p' = (sent p)(ff_outFD c := sent p (ff_outFD c) @ [])"
    by (simp add: fifo_comm_def fifo_conn_close_def c_chars_c_string remove_file_def Let_def
        split_beta)
qed


section \<open>The handshake\<close>

text \<open>
  \<open>mkfifo\<close> fails when the path exists, or when the system says so. The calls whose results
  the code ignores (\<open>fcntl\<close> in \<open>conn_open\<close> and \<open>conn_accept\<close>, \<open>flock\<close> to unlock) draw no answer.
\<close>

definition mkfifo :: "string \<Rightarrow> proc \<Rightarrow> int \<times> proc" where
  "mkfifo path p =
     (if path \<in> set (files p) then (-1, p)
      else let (r, p) = next_answer p in
        if r = -1 then (-1, p) else (0, p\<lparr>files := files p @ [path]\<rparr>))"

definition createProcessFIFOs ::
  "string \<Rightarrow> fifo_connection \<Rightarrow> proc \<Rightarrow> (int \<times> fifo_connection \<times> proc) c_result" where
  "createProcessFIFOs basePath c p =
     (let baseLength = length basePath in
      c_bind (sprintf (baseLength + 4 + 1) (basePath @ ''-out'')) (\<lambda>outPath.
      let c = c\<lparr>ff_outFIFOPath := outPath\<rparr>; (r, p) = mkfifo (basePath @ ''-out'') p in
      if r = -1 then Inr (0, c\<lparr>ff_outFIFOPath := Freed\<rparr>, p)
      else
        c_bind (sprintf (baseLength + 3 + 1) (basePath @ ''-in'')) (\<lambda>inPath.
        let c = c\<lparr>ff_inFIFOPath := inPath\<rparr>; (r, p) = mkfifo (basePath @ ''-in'') p in
        if r = -1 then Inr (0, c\<lparr>ff_inFIFOPath := Freed\<rparr>, p)
        else Inr (1, c, p))))"

text \<open>One path: its length with the terminator, then its bytes.\<close>

definition sendPath :: "ptr \<Rightarrow> fd \<Rightarrow> proc \<Rightarrow> (int \<times> proc) c_result" where
  "sendPath path fd p =
     c_bind (c_bytes path) (\<lambda>bs.
     c_bind (ensureWrite (enc64 (word_of_nat (length bs))) fd p) (\<lambda>(ok, p).
     if ok = 0 then Inr (0, p) else ensureWrite bs fd p))"

definition sendFIFOPaths :: "fifo_connection \<Rightarrow> string \<Rightarrow> proc \<Rightarrow> (int \<times> proc) c_result" where
  "sendFIFOPaths c mainServerFIFO p =
     (let (fd, p) = next_open p in
      if fd = -1 then Inr (0, p)
      else
        let (lock, p) = next_answer p in
        if lock \<noteq> 0 then Inr (0, p)
        else
          c_bind (sendPath (ff_outFIFOPath c) fd p) (\<lambda>(ok, p).
          if ok = 0 then Inr (0, snd (sys_close fd p))
          else
            c_bind (sendPath (ff_inFIFOPath c) fd p) (\<lambda>(ok, p).
            Inr (if ok = 0 then 0 else 1, snd (sys_close fd p)))))"

definition fifo_base :: "int \<Rightarrow> string" where
  "fifo_base pid = ''/tmp/'' @ dec_int pid"

definition fifo_conn_open ::
  "int \<Rightarrow> string \<Rightarrow> proc \<Rightarrow> (fifo_connection option \<times> proc) c_result" where
  "fifo_conn_open pid address p =
     (let connection = \<lparr>ff_outFIFOPath = Uninit_ptr, ff_inFIFOPath = Uninit_ptr, ff_outFD = 0, ff_inFD = 0\<rparr> in
      c_bind (sprintf (nat (5 + sint (countDigits (word_of_int pid)) + 1)) (fifo_base pid)) (\<lambda>buff.
      c_bind (c_chars buff) (\<lambda>base.
      c_bind (createProcessFIFOs (chars_of base) connection p) (\<lambda>(ok, connection, p).
      if ok = 0 then Inr (None, p)
      else
        let (inFD, p) = next_open p; connection = connection\<lparr>ff_inFD := inFD\<rparr> in
        c_bind (sendFIFOPaths connection address p) (\<lambda>(ok, p).
        if ok = 0 then Inr (None, p)
        else
          let (selectResult, p) = next_answer p in
          if selectResult = -1 then Inr (None, p)
          else if selectResult = 0 then Inr (None, p)
          else
            c_bind (fifo_conn_receive connection Uninit_ptr p) (\<lambda>(ok, ack, _, p).
            if ok = 0 then Inr (None, p)
            else
              c_bind (load_int ack) (\<lambda>code.
              if code = MESSAGE_OK then
                let (outFD, p) = next_open p in Inr (Some (connection\<lparr>ff_outFD := outFD\<rparr>), p)
              else Inr (None, p))))))))"

record fifo_params =
  fp_connRequestsFD :: fd

definition fifo_conn_listen :: "string \<Rightarrow> proc \<Rightarrow> fifo_params option \<times> proc" where
  "fifo_conn_listen listeningAddress p =
     (let (r, p) = mkfifo listeningAddress p in
      if r = -1 then (None, p)
      else
        let (fd, p) = next_open p; (r, p) = next_answer p in
        if r = -1 then (None, p) else (Some \<lparr>fp_connRequestsFD = fd\<rparr>, p))"

text \<open>A path as \<open>conn_accept\<close> reads it. Opening it reads its characters up to the terminator.\<close>

definition receivePath :: "fd \<Rightarrow> proc \<Rightarrow> (ptr option \<times> proc) c_result" where
  "receivePath fd p =
     c_bind (ensureRead 8 fd p) (\<lambda>(ok, bs, p).
     if ok = 0 then Inr (None, p)
     else
       let len = unat (dec64 bs) in
       c_bind (ensureRead len fd p) (\<lambda>(ok, got, p).
       Inr (if ok = 0 then None else Some (received len got), p)))"

definition fifo_conn_accept ::
  "fifo_params \<Rightarrow> proc \<Rightarrow> (fifo_connection option \<times> proc) c_result" where
  "fifo_conn_accept params p =
     (let (selectResult, p) = next_answer p in
      if selectResult = -1 then Inr (None, p)
      else
        c_bind (receivePath (fp_connRequestsFD params) p) (\<lambda>(inPath, p).
        case inPath of None \<Rightarrow> Inr (None, p)
        | Some inPath \<Rightarrow>
          c_bind (receivePath (fp_connRequestsFD params) p) (\<lambda>(outPath, p).
          case outPath of None \<Rightarrow> Inr (None, p)
          | Some outPath \<Rightarrow>
            c_bind (c_chars inPath) (\<lambda>_. let (inFD, p) = next_open p in
            c_bind (c_chars outPath) (\<lambda>_. let (outFD, p) = next_open p;
                c = \<lparr>ff_outFIFOPath = outPath, ff_inFIFOPath = inPath, ff_outFD = outFD, ff_inFD = inFD\<rparr> in
            c_bind (fifo_conn_send c (enc32 MESSAGE_OK) p) (\<lambda>(_, p). Inr (Some c, p)))))))"

section \<open>Both sides of the handshake\<close>

definition path_bytes :: "string \<Rightarrow> byte list" where
  "path_bytes s = bytes_of s @ [0]"

definition out_path :: "int \<Rightarrow> string" where "out_path pid = fifo_base pid @ ''-out''"
definition in_path :: "int \<Rightarrow> string" where "in_path pid = fifo_base pid @ ''-in''"

text \<open>What a client asks the main server.\<close>

definition open_request :: "int \<Rightarrow> byte list" where
  "open_request pid = frame (path_bytes (out_path pid)) @ frame (path_bytes (in_path pid))"

lemma length_path_bytes [simp]: "length (path_bytes s) = Suc (length s)"
  by (simp add: path_bytes_def bytes_of_def)

lemma fifo_base_text [simp]: "c_text (fifo_base pid)"
proof -
  have "c_text ''/tmp/''" by (simp add: c_text_def)
  then show ?thesis by (simp only: fifo_base_def c_text_append c_text_dec_int)
qed

lemma path_texts [simp]: "c_text (out_path pid)" "c_text (in_path pid)"
proof -
  have "c_text ''-out''" "c_text ''-in''" by (simp_all add: c_text_def)
  then show "c_text (out_path pid)" "c_text (in_path pid)"
    by (simp_all only: out_path_def in_path_def c_text_append fifo_base_text)
qed

lemma length_paths:
  assumes "in_int pid"
  shows "length (fifo_base pid) \<le> 16" "length (out_path pid) \<le> 20" "length (in_path pid) \<le> 19"
  using length_dec_int_le [OF assms] by (simp_all add: fifo_base_def out_path_def in_path_def)

lemma path_message: "in_int pid \<Longrightarrow> message_ok (path_bytes (out_path pid))"
    "in_int pid \<Longrightarrow> message_ok (path_bytes (in_path pid))"
  using length_paths [of pid] by (simp_all add: message_ok_def)

lemma base_buffer:
  assumes "in_int pid"
  shows "sprintf (nat (5 + sint (countDigits (word_of_int pid)) + 1)) (fifo_base pid) =
      Inr (full_block (path_bytes (fifo_base pid)))"
    and "c_chars (full_block (path_bytes (fifo_base pid))) = Inr (bytes_of (fifo_base pid))"
proof -
  show "sprintf (nat (5 + sint (countDigits (word_of_int pid)) + 1)) (fifo_base pid) =
      Inr (full_block (path_bytes (fifo_base pid)))"
    using length_dec_int_le [OF assms]
    by (simp add: sprintf_fits countDigits_of_int [OF assms] fifo_base_def path_bytes_def nat_add_distrib)
  show "c_chars (full_block (path_bytes (fifo_base pid))) = Inr (bytes_of (fifo_base pid))"
    by (simp only: path_bytes_def c_chars_copy [OF fifo_base_text])
qed

lemma createProcessFIFOs_ok:
  assumes "in_int pid" and "answers p = a # b # rest" and "a \<noteq> -1" and "b \<noteq> -1"
    and "out_path pid \<notin> set (files p)" and "in_path pid \<notin> set (files p)"
  shows "createProcessFIFOs (fifo_base pid) c p =
    Inr (1, c\<lparr>ff_outFIFOPath := full_block (path_bytes (out_path pid)),
      ff_inFIFOPath := full_block (path_bytes (in_path pid))\<rparr>,
      p\<lparr>answers := rest, files := files p @ [out_path pid, in_path pid]\<rparr>)"
proof -
  have "in_path pid \<noteq> out_path pid" by (simp add: in_path_def out_path_def)
  moreover have "sprintf (length (fifo_base pid) + 4 + 1) (out_path pid) =
      Inr (full_block (path_bytes (out_path pid)))"
    "sprintf (length (fifo_base pid) + 3 + 1) (in_path pid) = Inr (full_block (path_bytes (in_path pid)))"
    using length_paths [OF assms(1)]
    by (simp_all add: sprintf_fits path_bytes_def out_path_def in_path_def)
  ultimately show ?thesis
    using assms(2-6) by (simp add: createProcessFIFOs_def mkfifo_def next_answer_def Let_def
        flip: out_path_def in_path_def)
qed

lemma sendPath_frame:
  assumes "healthy (wr p fd)" and "c_text s" and "length s < 1000"
  shows "sendPath (full_block (path_bytes s)) fd p = Inr (1, deliver_frame fd (path_bytes s) p)"
proof -
  have "message_ok (path_bytes s)" using assms(3) by (simp add: message_ok_def)
  from send_on_frame [OF assms(1) this] show ?thesis
    by (simp add: sendPath_def c_bytes_copy [OF assms(2)] send_on_def path_bytes_def)
qed

lemma receivePath_frame:
  assumes "rd_avail p fd = frame (path_bytes s) @ rest" and "length s < 1000"
  shows "receivePath fd p = Inr (Some (full_block (path_bytes s)), consume fd (9 + length s) p)"
proof -
  have "unat (1 + word_of_nat (length s) :: size_t) = Suc (length s)"
    using unat_of_nat64 [of "Suc (length s)"] assms(2) by simp
  then show ?thesis
    using assms(2) ensureRead_frame_length [OF assms(1)] ensureRead_frame_data [OF assms(1)]
    by (simp add: receivePath_def Let_def received_all)
qed

lemma files_deliver_frame [simp]: "files (deliver_frame fd data p) = files p"
  "opens (deliver_frame fd data p) = opens p" "answers (deliver_frame fd data p) = answers p"
  by (simp_all add: deliver_frame_def deliver_def emit_def)

lemma files_consume [simp]: "files (consume fd n p) = files p" "opens (consume fd n p) = opens p"
  "answers (consume fd n p) = answers p"
  by (simp_all add: consume_def)

lemma client_opens:
  assumes pid: "in_int pid" and ans: "answers p = a # b # 0 # k # as" "a \<noteq> -1" "b \<noteq> -1" "0 < k"
    and files: "out_path pid \<notin> set (files p)" "in_path pid \<notin> set (files p)"
    and opens: "opens p = inFD # reqFD # outFD # os" "reqFD \<noteq> -1" "inFD \<noteq> reqFD"
    and req: "healthy (wr p reqFD)" and ack: "rd_avail p inFD = frame (enc32 MESSAGE_OK) @ rest"
  shows "\<exists>p'. fifo_conn_open pid address p =
      Inr (Some \<lparr>ff_outFIFOPath = full_block (path_bytes (out_path pid)),
        ff_inFIFOPath = full_block (path_bytes (in_path pid)), ff_outFD = outFD, ff_inFD = inFD\<rparr>, p') \<and>
    sent p' = (sent p)(reqFD := sent p reqFD @ open_request pid) \<and>
    files p' = files p @ [out_path pid, in_path pid] \<and> rd_avail p' inFD = rest"
proof -
  let ?c = "\<lparr>ff_outFIFOPath = full_block (path_bytes (out_path pid)),
    ff_inFIFOPath = full_block (path_bytes (in_path pid)), ff_outFD = 0, ff_inFD = inFD\<rparr>"
  let ?p1 = "p\<lparr>files := files p @ [out_path pid, in_path pid], opens := outFD # os, answers := k # as\<rparr>"
  let ?p2 = "deliver_frame reqFD (path_bytes (in_path pid)) (deliver_frame reqFD (path_bytes (out_path pid)) ?p1)"
  let ?p3 = "snd (sys_close reqFD ?p2)"
  have len: "length (out_path pid) < 1000" "length (in_path pid) < 1000" using length_paths [OF pid] by simp_all
  have send: "sendFIFOPaths ?c address (p\<lparr>answers := 0 # k # as,
      files := files p @ [out_path pid, in_path pid], opens := reqFD # outFD # os\<rparr>) = Inr (1, ?p3)"
    using req opens(2) len by (simp add: sendFIFOPaths_def next_open_def next_answer_def sendPath_frame)
  have "rd_avail (?p3\<lparr>answers := as\<rparr>) inFD = rd_avail p inFD"
    using opens(3) by (simp add: rd_avail_def sys_close_def)
  then have "fifo_conn_receive ?c Uninit_ptr (?p3\<lparr>answers := as\<rparr>) =
      Inr (1, full_block (enc32 MESSAGE_OK), Some 4, consume inFD 12 (?p3\<lparr>answers := as\<rparr>))"
    using fifos.receive_frame [of "?p3\<lparr>answers := as\<rparr>" ?c "enc32 MESSAGE_OK" rest] ack
    by (simp add: fifo_comm_def)
  moreover have "answers ?p3 = k # as" "opens ?p3 = outFD # os" by (simp_all add: sys_close_def)
  ultimately have "fifo_conn_open pid address p = Inr (Some (?c\<lparr>ff_outFD := outFD\<rparr>),
      (consume inFD 12 (?p3\<lparr>answers := as\<rparr>))\<lparr>opens := os\<rparr>)"
    using createProcessFIFOs_ok [OF pid ans(1-3) files] base_buffer [OF pid] send opens(1) ans(4)
    by (simp add: fifo_conn_open_def next_open_def next_answer_def)
  moreover have "sent ?p3 = (sent p)(reqFD := sent p reqFD @ open_request pid)"
    by (simp add: open_request_def fun_eq_iff)
  ultimately show ?thesis
    using ack opens(3) by (simp add: rd_avail_def consume_def sys_close_def)
qed

lemma server_accepts:
  assumes pid: "in_int pid" and ans: "answers q = k # as" "k \<noteq> -1"
    and opens: "opens q = i # o' # os" and ack: "healthy (wr q o')"
    and req: "rd_avail q reqs = open_request pid @ reqs'"
  shows "\<exists>q'. fifo_conn_accept \<lparr>fp_connRequestsFD = reqs\<rparr> q =
      Inr (Some \<lparr>ff_outFIFOPath = full_block (path_bytes (in_path pid)),
        ff_inFIFOPath = full_block (path_bytes (out_path pid)), ff_outFD = o', ff_inFD = i\<rparr>, q') \<and>
    sent q' = (sent q)(o' := sent q o' @ frame (enc32 MESSAGE_OK)) \<and> rd_avail q' reqs = reqs'"
proof -
  have len: "length (out_path pid) < 1000" "length (in_path pid) < 1000" using length_paths [OF pid] by simp_all
  let ?q1 = "consume reqs (9 + length (out_path pid)) (q\<lparr>answers := as\<rparr>)"
  let ?q2 = "consume reqs (9 + length (in_path pid)) ?q1"
  let ?c = "\<lparr>ff_outFIFOPath = full_block (path_bytes (in_path pid)),
    ff_inFIFOPath = full_block (path_bytes (out_path pid)), ff_outFD = o', ff_inFD = i\<rparr>"
  have a: "rd_avail (q\<lparr>answers := as\<rparr>) reqs =
      frame (path_bytes (out_path pid)) @ frame (path_bytes (in_path pid)) @ reqs'"
    using req by (simp add: rd_avail_def open_request_def)
  then have b: "rd_avail ?q1 reqs = frame (path_bytes (in_path pid)) @ reqs'" by simp
  note r = receivePath_frame [OF a len(1)] receivePath_frame [OF b len(2)]
  have send: "fifo_conn_send ?c (enc32 MESSAGE_OK) (?q2\<lparr>opens := os\<rparr>) =
      Inr (1, deliver_frame o' (enc32 MESSAGE_OK) (?q2\<lparr>opens := os\<rparr>))"
    using fifos.send_frame [of "?q2\<lparr>opens := os\<rparr>" ?c "enc32 MESSAGE_OK"] ack by (simp add: fifo_comm_def)
  have chars: "c_chars (full_block (path_bytes (out_path pid))) = Inr (bytes_of (out_path pid))"
    "c_chars (full_block (path_bytes (in_path pid))) = Inr (bytes_of (in_path pid))"
    by (simp_all add: path_bytes_def c_chars_copy)
  have "fifo_conn_accept \<lparr>fp_connRequestsFD = reqs\<rparr> q =
      Inr (Some ?c, deliver_frame o' (enc32 MESSAGE_OK) (?q2\<lparr>opens := os\<rparr>))"
    using ans opens r send by (simp add: fifo_conn_accept_def next_answer_def next_open_def chars)
  moreover have "rd_avail (?q2\<lparr>opens := os\<rparr>) reqs = reqs'"
    using a by (simp add: rd_avail_def consume_def)
  ultimately show ?thesis by (simp add: fun_eq_iff)
qed

lemma path_closable: "c_string (path_bytes s) \<longleftrightarrow> c_text s"
proof
  show "c_string (path_bytes s) \<Longrightarrow> c_text s"
  proof (rule ccontr)
    assume "c_string (path_bytes s)" "\<not> c_text s"
    then have "0 \<notin> set (bytes_of s)" "CHR 0x00 \<in> set s" by (simp_all add: path_bytes_def c_text_def)
    then show False by (force simp: bytes_of_def image_iff)
  qed
qed (simp add: path_bytes_def zero_notin_bytes_of)


text \<open>When the main server's FIFO cannot be opened, \<open>conn_open\<close> returns null but leaves the two FIFOs
  it created behind; every later attempt of the same process then fails, whatever the system
  answers, because the FIFOs exist.\<close>

theorem fifo_open_failure_sticks:
  assumes "in_int pid" and "answers p = a # b # as" "a \<noteq> -1" "b \<noteq> -1"
    and "out_path pid \<notin> set (files p)" "in_path pid \<notin> set (files p)" and "opens p = inFD # (-1) # os"
  shows "\<exists>p'. fifo_conn_open pid address p = Inr (None, p') \<and>
    files p' = files p @ [out_path pid, in_path pid] \<and>
    (\<forall>q address'. files q = files p' \<longrightarrow> fifo_conn_open pid address' q = Inr (None, q))"
proof -
  have "sprintf (length (fifo_base pid) + 4 + 1) (out_path pid) =
      Inr (full_block (path_bytes (out_path pid)))"
    using length_paths [OF assms(1)] by (simp add: sprintf_fits path_bytes_def out_path_def)
  then have "fifo_conn_open pid address' q = Inr (None, q)" if "out_path pid \<in> set (files q)" for address' q
    using that base_buffer [OF assms(1)]
    by (simp add: fifo_conn_open_def createProcessFIFOs_def mkfifo_def Let_def flip: out_path_def)
  moreover have "fifo_conn_open pid address p =
      Inr (None, p\<lparr>files := files p @ [out_path pid, in_path pid], opens := os, answers := as\<rparr>)"
    using createProcessFIFOs_ok [OF assms(1-6)] base_buffer [OF assms(1)] assms(7)
    by (simp add: fifo_conn_open_def next_open_def sendFIFOPaths_def)
  ultimately show ?thesis by simp
qed

definition fifo_client :: "int list \<Rightarrow> fd list \<Rightarrow> rd_event list \<Rightarrow> proc" where
  "fifo_client ans fds es = (fresh_proc ((\<lambda>_. [])(3 := es)))\<lparr>answers := ans, opens := fds\<rparr>"

lemma fifo_client_simps [simp]:
  "answers (fifo_client ans fds es) = ans" "opens (fifo_client ans fds es) = fds"
  "files (fifo_client ans fds es) = []" "wr (fifo_client ans fds es) fd = []"
  "sent (fifo_client ans fds es) fd = []" "rd_avail (fifo_client ans fds es) 3 = avail es"
  by (simp_all add: fifo_client_def rd_avail_def)


lemma fifo_open_failure_sticks_witness:
  "\<exists>p'. fifo_conn_open 77 ''/tmp/s'' (fifo_client [0, 0] [3, -1] []) = Inr (None, p') \<and>
     fifo_conn_open 77 ''/tmp/s'' (fifo_client [0, 0] [3, 4] []\<lparr>files := files p'\<rparr>) =
       Inr (None, fifo_client [0, 0] [3, 4] []\<lparr>files := files p'\<rparr>)"
  using fifo_open_failure_sticks [of 77 "fifo_client [0, 0] [3, -1] []" 0 0 "[]" 3 "[]" "''/tmp/s''"]
  by (auto simp: in_int_def)

end
