(* ===== verification/Transport.thy ===== *)
theory Transport
  imports Product Order CommSockets CommFIFOs
begin

text \<open>
  Products and orders over each of the two transports: the object contract holds for all four
  combinations.
\<close>

interpretation product_sockets: object_channel product_ok product_of product_bytes
    productSerialize productUnserialize sock_comm sk_socketfd sk_socketfd
  by unfold_locales

interpretation order_sockets: object_channel order_ok order_of order_bytes
    orderSerialize orderUnserialize sock_comm sk_socketfd sk_socketfd
  by unfold_locales

interpretation product_fifos: object_channel product_ok product_of product_bytes
    productSerialize productUnserialize fifo_comm ff_inFD ff_outFD
  by unfold_locales

interpretation order_fifos: object_channel order_ok order_of order_bytes
    orderSerialize orderUnserialize fifo_comm ff_inFD ff_outFD
  by unfold_locales

end
