(* ===== verification/DbConn.thy ===== *)
theory DbConn
  imports C_Prelude Process
begin

text \<open>
  \<^verbatim>\<open>server/dbConn.c\<close>: the shared database connection, a mutex and the two pipe descriptors in
  a shared memory region that every forked server maps.
\<close>

section \<open>The structure and its operations\<close>

text \<open>The mutex records the process that holds it.\<close>

record shared_conn_t =
  sh_mutex :: "int option"
  sh_outFD :: fd
  sh_inFD :: fd

text \<open>The pointer to the region, \<open>None\<close> for null.\<close>

type_synonym shared_conn = "shared_conn_t option"

definition sharedMemPath :: string where
  "sharedMemPath = ''/db-shared-mem''"

text \<open>
  \<open>sh_conn_create\<close> with the results of \<open>shm_open\<close> and \<open>ftruncate\<close>, and whether \<open>mmap\<close>
  succeeded. A failed \<open>mmap\<close> returns \<open>MAP_FAILED\<close>, which is not null: the check that follows
  does not see it and the mutex is set up at an address that is not mapped.
\<close>

definition sh_conn_create :: "fd \<Rightarrow> fd \<Rightarrow> fd \<Rightarrow> int \<Rightarrow> bool \<Rightarrow> shared_conn c_result" where
  "sh_conn_create outFD inFD shm_fd truncated mapped =
     (if shm_fd < 0 then Inr None
      else if truncated < 0 then Inr None
      else if \<not> mapped then Inl Out_of_bounds
      else Inr (Some \<lparr>sh_mutex = None, sh_outFD = outFD, sh_inFD = inFD\<rparr>))"

definition deref_conn :: "shared_conn \<Rightarrow> shared_conn_t c_result" where
  "deref_conn c = (case c of None \<Rightarrow> Inl Null_deref | Some s \<Rightarrow> Inr s)"

text \<open>\<open>unlinked\<close> is the result of \<open>shm_unlink\<close>.\<close>

definition sh_conn_destroy :: "shared_conn \<Rightarrow> int \<Rightarrow> proc \<Rightarrow> (int \<times> proc) c_result" where
  "sh_conn_destroy c unlinked p =
     c_bind (deref_conn c) (\<lambda>s.
     let (r, p) = sys_close (sh_outFD s) p in
     if r = -1 then Inr (0, p)
     else
       let (r, p) = sys_close (sh_inFD s) p in
       if r = -1 then Inr (0, p)
       else if unlinked < 0 then Inr (0, p)
       else Inr (1, p))"

definition sh_conn_get_out_fd :: "shared_conn \<Rightarrow> fd c_result" where
  "sh_conn_get_out_fd c = c_bind (deref_conn c) (\<lambda>s. Inr (sh_outFD s))"

definition sh_conn_get_in_fd :: "shared_conn \<Rightarrow> fd c_result" where
  "sh_conn_get_in_fd c = c_bind (deref_conn c) (\<lambda>s. Inr (sh_inFD s))"

text \<open>
  Locking succeeds when nobody holds the mutex. While another process holds it the caller
  waits; if the mutex is never released, or the caller holds it already, the call does not
  come back.
\<close>

definition sh_conn_open :: "int \<Rightarrow> shared_conn \<Rightarrow> (int \<times> shared_conn) c_result" where
  "sh_conn_open me c =
     c_bind (deref_conn c) (\<lambda>s.
     case sh_mutex s of
       None \<Rightarrow> Inr (1, Some (s\<lparr>sh_mutex := Some me\<rparr>))
     | Some holder \<Rightarrow> Inl No_return)"

definition sh_conn_close :: "shared_conn \<Rightarrow> (int \<times> shared_conn) c_result" where
  "sh_conn_close c = c_bind (deref_conn c) (\<lambda>s. Inr (1, Some (s\<lparr>sh_mutex := None\<rparr>)))"

section \<open>The contract of the lock\<close>

text \<open>
  What a client of the connection relies on: a lock that is free can be taken, taking it
  changes neither descriptor, a lock that is taken cannot be taken again, and releasing it
  makes it free. \<open>free\<close> and \<open>fds\<close> abstract the connection.
\<close>

locale shared_lock =
  fixes acquire :: "int \<Rightarrow> 'l \<Rightarrow> (int \<times> 'l) c_result"
    and release :: "'l \<Rightarrow> (int \<times> 'l) c_result"
    and is_free :: "'l \<Rightarrow> bool" and valid :: "'l \<Rightarrow> bool" and fds :: "'l \<Rightarrow> fd \<times> fd"
  assumes acquire_free:
      "valid l \<Longrightarrow> is_free l \<Longrightarrow>
         \<exists>l'. acquire i l = Inr (1, l') \<and> \<not> is_free l' \<and> valid l' \<and> fds l' = fds l"
    and acquire_busy: "valid l \<Longrightarrow> \<not> is_free l \<Longrightarrow> acquire i l = Inl No_return"
    and release_valid: "valid l \<Longrightarrow> \<exists>l'. release l = Inr (1, l') \<and> is_free l' \<and> valid l' \<and> fds l' = fds l"
begin

text \<open>A complete section leaves the connection free, with the descriptors it had.\<close>

lemma section_restores:
  assumes "valid l" and "is_free l"
  shows "\<exists>l1 l2. acquire i l = Inr (1, l1) \<and> release l1 = Inr (1, l2) \<and> is_free l2 \<and> valid l2 \<and>
    fds l2 = fds l"
  using assms acquire_free [of l i] release_valid by metis

text \<open>Without the release, nobody gets in again.\<close>

lemma held_blocks:
  assumes "valid l" and "is_free l" and "acquire i l = Inr (r, l1)"
  shows "acquire j l1 = Inl No_return"
  using assms acquire_free [of l i] acquire_busy [of l1 j] by auto

end

definition conn_free :: "shared_conn \<Rightarrow> bool" where
  "conn_free c \<longleftrightarrow> (case c of None \<Rightarrow> False | Some s \<Rightarrow> sh_mutex s = None)"

definition conn_fds :: "shared_conn \<Rightarrow> fd \<times> fd" where
  "conn_fds c = (case c of None \<Rightarrow> (-1, -1) | Some s \<Rightarrow> (sh_outFD s, sh_inFD s))"

text \<open>
  The copy in \<^verbatim>\<open>database/dbConn.c\<close> is the same text but for \<open>sh_conn_destroy\<close>, which takes the lock first.
\<close>

definition sh_conn_destroy_locking :: "int \<Rightarrow> shared_conn \<Rightarrow> int \<Rightarrow> proc \<Rightarrow> (int \<times> proc) c_result" where
  "sh_conn_destroy_locking me c unlinked p =
     c_bind (sh_conn_open me c) (\<lambda>(_, c). sh_conn_destroy c unlinked p)"

text \<open>Whoever holds the lock, the caller included, it never comes back; otherwise both copies do the same.\<close>

lemma destroy_locking_cases:
  "sh_conn_destroy_locking me c unlinked p =
     (case c of None \<Rightarrow> Inl Null_deref
      | Some s \<Rightarrow> if sh_mutex s = None then sh_conn_destroy c unlinked p else Inl No_return)"
  by (cases c) (auto simp: sh_conn_destroy_locking_def sh_conn_open_def sh_conn_destroy_def deref_conn_def Let_def split_beta split: option.splits)

interpretation db_lock: shared_lock sh_conn_open sh_conn_close conn_free "\<lambda>c. c \<noteq> None" conn_fds
  by unfold_locales
    (auto simp: sh_conn_open_def sh_conn_close_def deref_conn_def conn_free_def conn_fds_def)

end
