(* ===== verification/Logging.thy ===== *)
theory Logging
  imports Lib
begin

text \<open>
  \<^verbatim>\<open>logging/logging.c\<close> and \<^verbatim>\<open>logging/loggingDaemon.c\<close>: log messages go through a System V
  message queue to a daemon that prints them; without a queue they go to standard output.
\<close>

section \<open>Levels and messages\<close>

datatype LogLevel = INFO | WARNING | ERROR

fun level_code :: "LogLevel \<Rightarrow> int" where
  "level_code INFO = 1"
| "level_code WARNING = 2"
| "level_code ERROR = 3"

lemma level_code_inject: "level_code a = level_code b \<Longrightarrow> a = b"
  by (cases a; cases b) auto

text \<open>Levels are ordered by severity, as their codes are.\<close>

instantiation LogLevel :: linorder
begin

definition less_eq_LogLevel :: "LogLevel \<Rightarrow> LogLevel \<Rightarrow> bool" where
  "less_eq_LogLevel a b \<longleftrightarrow> level_code a \<le> level_code b"

definition less_LogLevel :: "LogLevel \<Rightarrow> LogLevel \<Rightarrow> bool" where
  "less_LogLevel a b \<longleftrightarrow> level_code a < level_code b"

instance
  by standard (auto simp: less_eq_LogLevel_def less_LogLevel_def dest: level_code_inject)

end

text \<open>
  The 256 bytes of \<open>message_t.msg\<close> after \<open>strncpy\<close> of at most 255: the last byte of the local
  variable is never stored to.
\<close>

definition message_cells :: "string \<Rightarrow> cell list c_result" where
  "message_cells message =
     c_bind (strncpy_cells 255 (map Some (bytes_of message @ [0]))) (\<lambda>bs. Inr (map Some bs @ [None]))"

text \<open>What \<open>%s\<close> prints for a buffer: its characters up to the terminator.\<close>

definition cells_text :: "cell list \<Rightarrow> string c_result" where
  "cells_text cs = c_bind (c_chars (Block cs)) (\<lambda>bs. Inr (chars_of bs))"

section \<open>Sending a message\<close>

definition QUEUE_KEY :: int where "QUEUE_KEY = 0x95134529"

text \<open>
  \<open>msgget\<close> and \<open>msgsnd\<close> answer with what the environment has in store: the queue that was
  found or -1, and whether the message could not be queued.
\<close>

definition connectToMsgQueue :: "proc \<Rightarrow> proc" where
  "connectToMsgQueue p = (case mq_get p of
     [] \<Rightarrow> p\<lparr>msqid := -1\<rparr> | q # qs \<Rightarrow> p\<lparr>msqid := q, mq_get := qs\<rparr>)"

definition msgsnd :: "c_int \<Rightarrow> cell list \<Rightarrow> proc \<Rightarrow> int \<times> proc" where
  "msgsnd lvl msg p = (case mq_full p of
     True # bs \<Rightarrow> (-1, p\<lparr>mq_full := bs\<rparr>)
   | False # bs \<Rightarrow> (0, p\<lparr>mq_full := bs, mq_sent := mq_sent p @ [(lvl, msg)]\<rparr>)
   | [] \<Rightarrow> (0, p\<lparr>mq_sent := mq_sent p @ [(lvl, msg)]\<rparr>))"

definition logMessage :: "string \<Rightarrow> LogLevel \<Rightarrow> proc \<Rightarrow> (int \<times> proc) c_result" where
  "logMessage message lvl p =
     (let p = (if msqid p = -1 then connectToMsgQueue p else p) in
      if msqid p = -1 then
        Inr (-1, print (''Couldn't connect to log message queue. Falling back to stdout:\<newline>['' @
          dec_int (level_code lvl) @ '']: '' @ message @ ''\<newline>'') p)
      else
        c_bind (message_cells message) (\<lambda>msg.
        let (sendResult, p) = msgsnd (word_of_int (level_code lvl)) msg p in
        if sendResult = -1 then
          c_bind (cells_text msg) (\<lambda>text.
          Inr (-1, print (''Sending log message failed. Falling back to stdout:\<newline>['' @
            dec_int (level_code lvl) @ '']: '' @ text @ ''\<newline>'') p))
        else Inr (1, p)))"

definition log_info :: "string \<Rightarrow> proc \<Rightarrow> (int \<times> proc) c_result" where
  "log_info msg p = logMessage msg INFO p"

definition log_warn :: "string \<Rightarrow> proc \<Rightarrow> (int \<times> proc) c_result" where
  "log_warn msg p = logMessage msg WARNING p"

definition log_err :: "string \<Rightarrow> proc \<Rightarrow> (int \<times> proc) c_result" where
  "log_err msg p = logMessage msg ERROR p"

section \<open>The daemon\<close>

text \<open>What a blocking \<open>msgrcv\<close> meets: a message, or a failure. After the last one it blocks.\<close>

datatype rcv_event = Rcv_msg c_int "cell list" | Rcv_fail

text \<open>\<open>LevelNames[m.lvl - 1]\<close>: an array of three.\<close>

definition level_name :: "c_int \<Rightarrow> string c_result" where
  "level_name lvl =
     (let i = sint lvl - 1 in
      if 0 \<le> i \<and> i < 3 then Inr ([''INFO'', ''WARNING'', ''ERROR''] ! nat i) else Inl Out_of_bounds)"

definition prettyPrintMessage :: "c_int \<Rightarrow> cell list \<Rightarrow> proc \<Rightarrow> proc c_result" where
  "prettyPrintMessage lvl msg p =
     c_bind (level_name lvl) (\<lambda>name.
     c_bind (cells_text msg) (\<lambda>text.
     Inr (print (''['' @ name @ '']: '' @ text @ ''\<newline>'') p)))"

text \<open>The receive loop: its result is the exit status.\<close>

fun daemon_loop :: "rcv_event list \<Rightarrow> proc \<Rightarrow> (int \<times> proc) c_result" where
  "daemon_loop [] p = Inl No_return"
| "daemon_loop (Rcv_fail # es) p = Inr (1, eprint ''msgrcv\<newline>'' p)"
| "daemon_loop (Rcv_msg lvl msg # es) p =
     c_bind (prettyPrintMessage lvl msg p) (\<lambda>p. daemon_loop es p)"

definition daemon_main :: "rcv_event list \<Rightarrow> proc \<Rightarrow> (int \<times> proc) c_result" where
  "daemon_main es p =
     (let p = connectToMsgQueue p in
      if msqid p = -1 then Inr (1, eprint ''msgget\<newline>'' p)
      else daemon_loop es (print ''Log server online! Waiting for messages...\<newline>'' p))"

text \<open>
  The signal handler: \<open>None\<close> when it returns to the program, otherwise the exit status.
  \<open>rmid\<close> is the result of \<open>msgctl(msqid, IPC_RMID, NULL)\<close>.
\<close>

definition msgqueue_cleanup :: "bool \<Rightarrow> int \<Rightarrow> proc \<Rightarrow> int option \<times> proc" where
  "msgqueue_cleanup is_sigint rmid p =
     (if \<not> is_sigint then (None, p)
      else
        let p = print ''Log server received SIGINT, shutting down.\<newline>'' p in
        if rmid = -1 then (Some 1, eprint ''msgctl\<newline>'' p) else (Some 0, p))"

section \<open>Short and long messages\<close>

lemma strncpy_cells_long:
  "0 \<notin> set cs \<Longrightarrow> n \<le> length cs \<Longrightarrow> strncpy_cells n (map Some cs @ rest) = Inr (take n cs)"
proof (induction cs arbitrary: n)
  case Nil
  then show ?case by simp
next
  case (Cons c cs)
  then show ?case by (cases n) auto
qed

lemma message_cells_short:
  assumes "c_text s" and "length s < 255"
  shows "message_cells s = Inr (map Some (bytes_of s @ replicate (255 - length s) 0) @ [None])"
  using strncpy_cells_terminated [OF zero_notin_bytes_of [OF assms(1)], of 255 "[]"] assms(2)
  by (simp add: message_cells_def bytes_of_def)

lemma message_cells_long:
  assumes "c_text s" and "255 \<le> length s"
  shows "message_cells s = Inr (map Some (take 255 (bytes_of s)) @ [None])"
  using strncpy_cells_long [OF zero_notin_bytes_of [OF assms(1)], of 255 "[Some 0]"] assms(2)
  by (simp add: message_cells_def bytes_of_def)

lemma cells_text_terminated:
  assumes "c_text s"
  shows "cells_text (map Some (bytes_of s) @ Some 0 # rest) = Inr s"
proof -
  have "strlen (Block (map Some (bytes_of s) @ Some 0 # rest)) = Inr (length s)"
    using strlen_cells_terminated [OF zero_notin_bytes_of [OF assms], of rest]
    by (simp add: strlen_def bytes_of_def)
  then have "c_chars (Block (map Some (bytes_of s) @ Some 0 # rest)) = Inr (bytes_of s)"
    by (simp add: c_chars_def mem_read_def bytes_of_def flip: map_map)
  then show ?thesis by (simp add: cells_text_def)
qed

lemma cells_text_short:
  assumes "c_text s" and "length s < 255"
  shows "cells_text (map Some (bytes_of s @ replicate (255 - length s) 0) @ [None]) = Inr s"
proof -
  obtain n where "255 - length s = Suc n" using assms(2) by (metis Suc_diff_Suc)
  with cells_text_terminated [OF assms(1), of "map Some (replicate n 0) @ [None]"]
  show ?thesis by simp
qed

lemma strlen_cells_uninit: "0 \<notin> set bs \<Longrightarrow> strlen_cells (map Some bs @ None # rest) = Inl Uninit"
  by (induction bs) auto

lemma cells_text_long:
  assumes "c_text s"
  shows "cells_text (map Some (take 255 (bytes_of s)) @ [None]) = Inl Uninit"
proof -
  have "0 \<notin> set (take 255 (bytes_of s))"
    using zero_notin_bytes_of [OF assms] by (meson in_set_takeD)
  then show ?thesis
    by (simp add: cells_text_def c_chars_def strlen_def strlen_cells_uninit)
qed

section \<open>Logging and the rest of the process\<close>

text \<open>
  \<open>logged s lvl p\<close> is the state after a text was logged that fits the message. Logging touches
  the message queue and standard output only.
\<close>

definition logged :: "string \<Rightarrow> LogLevel \<Rightarrow> proc \<Rightarrow> proc" where
  "logged s lvl p = (case logMessage s lvl p of Inr (r, p') \<Rightarrow> p' | Inl e \<Rightarrow> p)"

lemma logMessage_logged:
  assumes "c_text s" and "length s < 255"
  shows "\<exists>r. logMessage s lvl p = Inr (r, logged s lvl p) \<and> r \<in> {-1, 1}"
  using assms message_cells_short [OF assms] cells_text_short [OF assms]
  by (auto simp: logged_def logMessage_def Let_def split: prod.splits)

lemma logMessage_frame:
  assumes "logMessage s lvl p = Inr (r, p')"
  shows "rd p' = rd p" and "wr p' = wr p" and "sent p' = sent p" and "stdin p' = stdin p"
    and "files p' = files p" and "opens p' = opens p" and "stderr p' = stderr p" and "answers p' = answers p"
  using assms
  by (auto simp: logMessage_def Let_def connectToMsgQueue_def msgsnd_def print_def c_bind_eq_Inr_iff
      split: if_splits list.splits bool.splits)

lemma logged_frame [simp]:
  "rd (logged s lvl p) = rd p" "wr (logged s lvl p) = wr p" "sent (logged s lvl p) = sent p"
  "stdin (logged s lvl p) = stdin p" "files (logged s lvl p) = files p"
  "opens (logged s lvl p) = opens p" "answers (logged s lvl p) = answers p"
  by (auto simp: logged_def logMessage_frame split: sum.splits prod.splits)

lemma rd_avail_logged [simp]: "rd_avail (logged s lvl p) = rd_avail p"
  by (simp add: rd_avail_def fun_eq_iff)


lemma log_info_short:
  "c_text s \<Longrightarrow> length s < 255 \<Longrightarrow> \<exists>r. log_info s p = Inr (r, logged s INFO p)"
  using logMessage_logged [of s INFO p] by (auto simp: log_info_def)

lemma log_warn_short:
  "c_text s \<Longrightarrow> length s < 255 \<Longrightarrow> \<exists>r. log_warn s p = Inr (r, logged s WARNING p)"
  using logMessage_logged [of s WARNING p] by (auto simp: log_warn_def)

lemma log_err_short:
  "c_text s \<Longrightarrow> length s < 255 \<Longrightarrow> \<exists>r. log_err s p = Inr (r, logged s ERROR p)"
  using logMessage_logged [of s ERROR p] by (auto simp: log_err_def)

section \<open>From the logger to the daemon\<close>

text \<open>C37: A text of fewer than 255 characters that is logged while the queue takes messages is queued
  once, nothing is printed by the sender, and the daemon prints it with the name of its level.\<close>

theorem log_reaches_daemon:
  assumes "c_text s" and "length s < 255" and "msqid p \<noteq> -1" and "mq_full p = []"
  shows "\<exists>m p'. logMessage s lvl p = Inr (1, p') \<and>
    mq_sent p' = mq_sent p @ [(word_of_int (level_code lvl), m)] \<and> stdout p' = stdout p \<and>
    prettyPrintMessage (word_of_int (level_code lvl)) m d =
      Inr (print (''['' @ [''INFO'', ''WARNING'', ''ERROR''] ! nat (level_code lvl - 1) @ '']: '' @ s @ ''\<newline>'') d)"
  using assms message_cells_short [OF assms(1,2)] cells_text_short [OF assms(1,2)]
  by (cases lvl)
    (auto simp: logMessage_def Let_def msgsnd_def prettyPrintMessage_def level_name_def)

text \<open>A longer text is cut to 255 characters and nothing stores a terminator after them: the
  daemon's print runs into a byte of the sender's stack that was never written.\<close>

theorem long_message_unterminated:
  assumes "c_text s" and "255 \<le> length s" and "msqid p \<noteq> -1" and "mq_full p = []"
  shows "\<exists>m p'. logMessage s lvl p = Inr (1, p') \<and>
    mq_sent p' = mq_sent p @ [(word_of_int (level_code lvl), m)] \<and>
    prettyPrintMessage (word_of_int (level_code lvl)) m d = Inl Uninit"
  using assms message_cells_long [OF assms(1,2)] cells_text_long [OF assms(1)]
  by (cases lvl)
    (auto simp: logMessage_def Let_def msgsnd_def prettyPrintMessage_def level_name_def)

definition queue_proc :: proc where
  "queue_proc = (fresh_proc (\<lambda>_. []))\<lparr>msqid := 5\<rparr>"

lemma log_reaches_daemon_witness:
  "\<exists>m p'. logMessage ''hi'' WARNING queue_proc = Inr (1, p') \<and> mq_sent p' = mq_sent queue_proc @ [(2, m)] \<and>
     prettyPrintMessage 2 m queue_proc = Inr (print ''[WARNING]: hi\<newline>'' queue_proc)"
  using log_reaches_daemon [of "''hi''" queue_proc WARNING queue_proc]
  by (auto simp: queue_proc_def c_text_def)

lemma long_message_unterminated_witness:
  "\<exists>m p'. logMessage (replicate 300 CHR ''x'') ERROR queue_proc = Inr (1, p') \<and>
     prettyPrintMessage 3 m queue_proc = Inl Uninit"
  using long_message_unterminated [of "replicate 300 CHR ''x''" queue_proc ERROR queue_proc]
  by (auto simp: queue_proc_def c_text_def)

end
