(* ===== verification/ForkedServer.thy ===== *)
theory ForkedServer
  imports Transport DbConn Logging
begin

text \<open>
  \<^verbatim>\<open>server/forkedServer.c\<close>: the process that serves one client. It answers product requests and
  orders by asking the database server over the shared pipes, under the shared lock.

  A handler takes its process identifier, the pointer to the shared connection and the process
  state, and gives both back. \<open>ops\<close> is the linked communication interface.
\<close>

section \<open>Products\<close>

text \<open>The loop of \<open>getProducts\<close> over the products still to be read.\<close>

fun getProducts_loop ::
  "fd \<Rightarrow> nat \<Rightarrow> product_t list \<Rightarrow> proc \<Rightarrow> (int \<times> product_t list \<times> proc) c_result" where
  "getProducts_loop inFD 0 destArray p = Inr (1, destArray, p)"
| "getProducts_loop inFD (Suc n) destArray p =
     c_bind (ensureRead 8 inFD p) (\<lambda>(ok, bs, p).
     if ok = 0 then Inr (-1, destArray, p)
     else
       let serializedLen = unat (dec64 bs) in
       c_bind (ensureRead serializedLen inFD p) (\<lambda>(ok, got, p).
       if ok = 0 then Inr (-1, destArray, p)
       else
         c_bind (productUnserialize (received serializedLen got)) (\<lambda>product.
         getProducts_loop inFD n (destArray @ [product]) p)))"

text \<open>Every early return of -1 leaves the lock taken.\<close>

definition getProducts ::
  "int \<Rightarrow> shared_conn \<Rightarrow> proc \<Rightarrow> (int \<times> product_t list \<times> shared_conn \<times> proc) c_result" where
  "getProducts me dbConn p =
     c_bind (sh_conn_get_out_fd dbConn) (\<lambda>outFD.
     c_bind (sh_conn_get_in_fd dbConn) (\<lambda>inFD.
     c_bind (sh_conn_open me dbConn) (\<lambda>(_, dbConn).
     c_bind (ensureWrite (enc32 CMD_GET_PRODUCTS) outFD p) (\<lambda>(ok, p).
     if ok = 0 then Inr (-1, [], dbConn, p)
     else
       c_bind (ensureRead 4 inFD p) (\<lambda>(ok, bs, p).
       if ok = 0 \<or> dec32 bs = MESSAGE_ERROR then Inr (-1, [], dbConn, p)
       else
         let code = sint (dec32 bs) in
         c_bind (getProducts_loop inFD (nat code) [] p) (\<lambda>(r, products, p).
         if r = -1 then Inr (-1, products, dbConn, p)
         else c_bind (sh_conn_close dbConn) (\<lambda>(_, dbConn). Inr (code, products, dbConn, p))))))))"

text \<open>The results of the sends are not looked at.\<close>

fun sendProducts_loop :: "'c comm \<Rightarrow> 'c \<Rightarrow> product_t list \<Rightarrow> proc \<Rightarrow> proc c_result" where
  "sendProducts_loop ops c [] p = Inr p"
| "sendProducts_loop ops c (product # products) p =
     c_bind (productSerialize product) (\<lambda>(serializedLen, serialized).
     c_bind (mem_read serialized 0 serializedLen) (\<lambda>bs.
     c_bind (conn_send ops c bs p) (\<lambda>(_, p). sendProducts_loop ops c products p)))"

definition sendProducts ::
  "'c comm \<Rightarrow> 'c \<Rightarrow> int \<Rightarrow> shared_conn \<Rightarrow> proc \<Rightarrow> (shared_conn \<times> proc) c_result" where
  "sendProducts ops c me dbConn p =
     c_bind (getProducts me dbConn p) (\<lambda>(numProducts, products, dbConn, p).
     if numProducts = -1 then
       c_bind (conn_send ops c (enc32 MESSAGE_ERROR) p) (\<lambda>(_, p). Inr (dbConn, p))
     else
       c_bind (conn_send ops c (enc32 (word_of_int numProducts)) p) (\<lambda>(_, p).
       c_bind (sendProducts_loop ops c (take (nat numProducts) products) p) (\<lambda>p.
       Inr (dbConn, p))))"

section \<open>Orders\<close>

text \<open>
  A variable after a read of its size that may have stopped early: the bytes that arrived
  replace the first bytes it had.
\<close>

definition overlay :: "byte list \<Rightarrow> byte list \<Rightarrow> byte list" where
  "overlay got old = got @ drop (length got) old"

definition processOrder ::
  "'c comm \<Rightarrow> 'c \<Rightarrow> int \<Rightarrow> shared_conn \<Rightarrow> proc \<Rightarrow> (shared_conn \<times> proc) c_result" where
  "processOrder ops c me dbConn p =
     c_bind (conn_receive ops c Uninit_ptr p) (\<lambda>(_, serialized, serializedLen, p).
     c_bind (sh_conn_open me dbConn) (\<lambda>(_, dbConn).
     c_bind (sh_conn_get_out_fd dbConn) (\<lambda>outFD.
     c_bind (sh_conn_get_in_fd dbConn) (\<lambda>inFD.
     c_bind (ensureWrite (enc32 CMD_PLACE_ORDER) outFD p) (\<lambda>(_, p).
     c_bind (case serializedLen of None \<Rightarrow> Inl Uninit | Some n \<Rightarrow> Inr n) (\<lambda>len.
     c_bind (ensureWrite (enc64 (word_of_nat len)) outFD p) (\<lambda>(_, p).
     c_bind (mem_read serialized 0 len) (\<lambda>bs.
     c_bind (ensureWrite bs outFD p) (\<lambda>(_, p).
     c_bind (c_free serialized) (\<lambda>_.
     c_bind (ensureRead 4 inFD p) (\<lambda>(_, got, p).
     let code = overlay got (enc32 CMD_PLACE_ORDER) in
     c_bind (conn_send ops c code p) (\<lambda>(_, p).
     c_bind (if dec32 code = MESSAGE_UNSATISFIABLE_ORDER then
               c_bind (ensureRead 8 inFD p) (\<lambda>(_, got, p).
               let len = unat (dec64 (overlay got (enc64 (word_of_nat len)))) in
               c_bind (ensureRead len inFD p) (\<lambda>(_, got, p).
               c_bind (mem_read (received len got) 0 len) (\<lambda>bs.
               c_bind (conn_send ops c bs p) (\<lambda>(_, p). Inr p))))
             else Inr p) (\<lambda>p.
     c_bind (sh_conn_close dbConn) (\<lambda>(_, dbConn). Inr (dbConn, p)))))))))))))))"

section \<open>The main loop\<close>

definition shut_down :: "'c comm \<Rightarrow> 'c \<Rightarrow> proc \<Rightarrow> proc c_result" where
  "shut_down ops c p =
     c_bind (log_info ''Forked server shutting down.'' p) (\<lambda>(_, p).
     c_bind (conn_close ops c p) (\<lambda>(_, p). Inr p))"

text \<open>The 255 bytes \<open>snprintf\<close> may fill hold 254 characters.\<close>

definition received_text :: "int \<Rightarrow> c_int \<Rightarrow> string" where
  "received_text pid msgCode =
     take 254 (''Forked server #'' @ dec_int pid @ '' received code '' @ dec_int (sint msgCode))"

text \<open>One round: whether the server is done, and its state.\<close>

definition forkedServer_round ::
  "'c comm \<Rightarrow> 'c \<Rightarrow> int \<Rightarrow> shared_conn \<Rightarrow> proc \<Rightarrow> (bool \<times> shared_conn \<times> proc) c_result" where
  "forkedServer_round ops c me dbConn p =
     c_bind (conn_receive ops c Uninit_ptr p) (\<lambda>(_, clientData, _, p).
     c_bind (load_int clientData) (\<lambda>msgCode.
     c_bind (log_info (received_text me msgCode) p) (\<lambda>(_, p).
     c_bind (c_free clientData) (\<lambda>_.
     if msgCode = CMD_GET_PRODUCTS then
       c_bind (sendProducts ops c me dbConn p) (\<lambda>(dbConn, p). Inr (False, dbConn, p))
     else if msgCode = CMD_PLACE_ORDER then
       c_bind (processOrder ops c me dbConn p) (\<lambda>(dbConn, p). Inr (False, dbConn, p))
     else if msgCode = MESSAGE_CLOSE then
       c_bind (shut_down ops c p) (\<lambda>p. Inr (True, dbConn, p))
     else
       c_bind (log_warn ''Forked server received unknown message code. Behavior might be wacky from now on.'' p)
         (\<lambda>(_, p). Inr (False, dbConn, p))))))"

text \<open>The loop ends when the client closes; \<open>None\<close> is a session that goes on for ever.\<close>

partial_function (option) forkedServer_loop ::
  "'c comm \<Rightarrow> 'c \<Rightarrow> int \<Rightarrow> shared_conn \<Rightarrow> proc \<Rightarrow> (shared_conn \<times> proc) c_result option" where
  "forkedServer_loop ops c me dbConn p =
     (case forkedServer_round ops c me dbConn p of
        Inl e \<Rightarrow> Some (Inl e)
      | Inr (done, dbConn', p') \<Rightarrow>
          if done then Some (Inr (dbConn', p')) else forkedServer_loop ops c me dbConn' p')"

definition forkedServer ::
  "'c comm \<Rightarrow> 'c \<Rightarrow> int \<Rightarrow> shared_conn \<Rightarrow> proc \<Rightarrow> (shared_conn \<times> proc) c_result" where
  "forkedServer ops c me dbConn p =
     c_bind (log_info ''Forked server started, listening to client requests.'' p) (\<lambda>(_, p).
     case forkedServer_loop ops c me dbConn p of None \<Rightarrow> Inl No_return | Some r \<Rightarrow> r)"


section \<open>Asking the database for products\<close>

definition shared_free :: "fd \<Rightarrow> fd \<Rightarrow> shared_conn" where
  "shared_free outFD inFD = Some \<lparr>sh_mutex = None, sh_outFD = outFD, sh_inFD = inFD\<rparr>"

definition shared_held :: "int \<Rightarrow> fd \<Rightarrow> fd \<Rightarrow> shared_conn" where
  "shared_held me outFD inFD = Some \<lparr>sh_mutex = Some me, sh_outFD = outFD, sh_inFD = inFD\<rparr>"

lemma shared_simps [simp]:
  "sh_conn_get_out_fd (shared_free f g) = Inr f" "sh_conn_get_in_fd (shared_free f g) = Inr g"
  "sh_conn_get_out_fd (shared_held i f g) = Inr f" "sh_conn_get_in_fd (shared_held i f g) = Inr g"
  "sh_conn_open i (shared_free f g) = Inr (1, shared_held i f g)"
  "sh_conn_open j (shared_held i f g) = Inl No_return"
  "sh_conn_close (shared_held i f g) = Inr (1, shared_free f g)"
  by (simp_all add: shared_free_def shared_held_def sh_conn_get_out_fd_def sh_conn_get_in_fd_def
      sh_conn_open_def sh_conn_close_def deref_conn_def)

definition product_frames :: "product_spec list \<Rightarrow> byte list" where
  "product_frames ps = concat (map (\<lambda>s. frame (product_bytes s)) ps)"

lemma product_frames_simps [simp]:
  "product_frames [] = []" "product_frames (s # ps) = frame (product_bytes s) @ product_frames ps"
  by (simp_all add: product_frames_def)

lemma getProducts_loop_frames:
  assumes "\<forall>s \<in> set ps. product_ok s" and "rd_avail p inFD = product_frames ps @ rest"
  shows "getProducts_loop inFD (length ps) acc p =
    Inr (1, acc @ map product_of ps, consume inFD (length (product_frames ps)) p)"
  using assms
proof (induction ps arbitrary: acc p)
  case Nil
  then show ?case by simp
next
  case (Cons s ps)
  let ?bs = "product_bytes s"
  have len: "length ?bs < 2 ^ 31"
    using product_wire.enc_message [of s] Cons.prems(1) by (simp add: message_ok_def)
  then have u: "unat (word_of_nat (length ?bs) :: size_t) = length ?bs"
    by (intro unat_of_nat64) simp
  have stream: "rd_avail p inFD = frame ?bs @ product_frames ps @ rest"
    using Cons.prems(2) by simp
  have "getProducts_loop inFD (length ps) (acc @ [product_of s]) (consume inFD (8 + length ?bs) p) =
      Inr (1, (acc @ [product_of s]) @ map product_of ps,
        consume inFD (length (product_frames ps)) (consume inFD (8 + length ?bs) p))"
    using Cons.prems stream by (intro Cons.IH) auto
  with len u Cons.prems(1) stream show ?case
    by (simp add: ensureRead_frame_length [OF stream] ensureRead_frame_data [OF stream] Let_def
        received_all product_wire.unser_enc consume_consume)
qed

lemma getProducts_answered:
  assumes "healthy (wr p outFD)" and "length ps < 2 ^ 31" and "\<forall>s \<in> set ps. product_ok s"
    and "rd_avail p inFD = enc32 (word_of_nat (length ps)) @ product_frames ps @ rest"
  shows "getProducts me (shared_free outFD inFD) p =
    Inr (int (length ps), map product_of ps, shared_free outFD inFD,
      consume inFD (4 + length (product_frames ps)) (deliver outFD (enc32 CMD_GET_PRODUCTS) p))"
proof -
  let ?n = "word_of_nat (length ps) :: c_int"
  let ?p = "deliver outFD (enc32 CMD_GET_PRODUCTS) p"
  have n: "sint ?n = int (length ps)" using assms(2) by (simp add: sint_of_nat in_int_def)
  then have "?n \<noteq> MESSAGE_ERROR"
    by (intro notI) (simp add: MESSAGE_ERROR_def)
  moreover have "ensureRead 4 inFD ?p = Inr (1, enc32 ?n, consume inFD 4 ?p)"
    using assms(4) ensureRead_exact [of 4 ?p inFD] by simp
  moreover have "getProducts_loop inFD (length ps) [] (consume inFD 4 ?p) =
      Inr (1, map product_of ps, consume inFD (4 + length (product_frames ps)) ?p)"
    using assms(3,4) getProducts_loop_frames [of ps "consume inFD 4 ?p" inFD rest "[]"]
    by (simp add: consume_consume)
  ultimately show ?thesis
    using assms(1) n by (simp add: getProducts_def ensureWrite_healthy)
qed

text \<open>When the database answers with an error, the lock stays with the server that asked.\<close>

lemma getProducts_error:
  assumes "healthy (wr p outFD)" and "rd_avail p inFD = enc32 MESSAGE_ERROR @ rest"
  shows "getProducts me (shared_free outFD inFD) p =
    Inr (-1, [], shared_held me outFD inFD,
      consume inFD 4 (deliver outFD (enc32 CMD_GET_PRODUCTS) p))"
  using assms ensureRead_exact [of 4 "deliver outFD (enc32 CMD_GET_PRODUCTS) p" inFD]
  by (simp add: getProducts_def ensureWrite_healthy)

section \<open>The handlers over any transport\<close>

context channel
begin

lemma sendProducts_loop_frames:
  assumes "\<forall>s \<in> set ps. product_ok s" and "healthy (wr p (out_fd c))"
  shows "\<exists>p'. sendProducts_loop ops c (map product_of ps) p = Inr p' \<and> rd p' = rd p \<and>
    (\<forall>f. healthy (wr p f) \<longrightarrow> healthy (wr p' f)) \<and>
    sent p' = (sent p)(out_fd c := sent p (out_fd c) @ product_frames ps)"
  using assms
proof (induction ps arbitrary: p)
  case Nil
  then show ?case by auto
next
  case (Cons s ps)
  let ?p = "deliver_frame (out_fd c) (product_bytes s) p"
  have ok: "product_ok s" using Cons.prems(1) by simp
  obtain p' where "sendProducts_loop ops c (map product_of ps) ?p = Inr p'" "rd p' = rd ?p"
    "\<forall>f. healthy (wr ?p f) \<longrightarrow> healthy (wr p' f)"
    "sent p' = (sent ?p)(out_fd c := sent ?p (out_fd c) @ product_frames ps)"
    using Cons.IH [of ?p] Cons.prems by (metis healthy_deliver_frame list.set_intros(2))
  then show ?case
    using Cons.prems product_wire.enc_message [OF ok]
    by (auto simp: product_wire.ser_layout [OF ok] mem_read_full send_frame)
qed

text \<open>A product request is answered with the number of products and each of them.\<close>

lemma sendProducts_relays:
  assumes "healthy (wr p outFD)" and "healthy (wr p (out_fd c))" and "outFD \<noteq> out_fd c"
    and "length ps < 2 ^ 31" and "\<forall>s \<in> set ps. product_ok s"
    and "rd_avail p inFD = enc32 (word_of_nat (length ps)) @ product_frames ps @ rest"
  shows "\<exists>p'. sendProducts ops c me (shared_free outFD inFD) p = Inr (shared_free outFD inFD, p') \<and>
    sent p' = (sent p)(outFD := sent p outFD @ enc32 CMD_GET_PRODUCTS,
      out_fd c := sent p (out_fd c) @ frame (enc32 (word_of_nat (length ps))) @ product_frames ps) \<and>
    rd_avail p' = (rd_avail p)(inFD := rest) \<and>
    (\<forall>f. healthy (wr p f) \<longrightarrow> healthy (wr p' f))"
proof -
  let ?q = "consume inFD (4 + length (product_frames ps)) (deliver outFD (enc32 CMD_GET_PRODUCTS) p)"
  let ?q' = "deliver_frame (out_fd c) (enc32 (word_of_nat (length ps))) ?q"
  have h: "healthy (wr ?q (out_fd c))" using assms(2) by simp
  obtain p' where p': "sendProducts_loop ops c (map product_of ps) ?q' = Inr p'" "rd p' = rd ?q'"
    "\<forall>f. healthy (wr ?q' f) \<longrightarrow> healthy (wr p' f)"
    "sent p' = (sent ?q')(out_fd c := sent ?q' (out_fd c) @ product_frames ps)"
    using sendProducts_loop_frames [of ps ?q' c] assms(5) h by (metis healthy_deliver_frame)
  have "sendProducts ops c me (shared_free outFD inFD) p = Inr (shared_free outFD inFD, p')"
    using assms p'(1) getProducts_answered [of p outFD ps inFD rest me] h
    by (simp add: sendProducts_def send_frame)
  moreover have "sent p' = (sent p)(outFD := sent p outFD @ enc32 CMD_GET_PRODUCTS,
      out_fd c := sent p (out_fd c) @ frame (enc32 (word_of_nat (length ps))) @ product_frames ps)"
    using assms(3) p'(4) by (simp add: fun_eq_iff)
  moreover have "rd_avail p' = (rd_avail p)(inFD := rest)"
    using p'(2) assms(6) by (auto simp: fun_eq_iff rd_avail_def consume_def)
  ultimately show ?thesis using p'(3) by auto
qed

lemma sendProducts_error:
  assumes "healthy (wr p outFD)" and "healthy (wr p (out_fd c))" and "outFD \<noteq> out_fd c"
    and "rd_avail p inFD = enc32 MESSAGE_ERROR @ rest"
  shows "\<exists>p'. sendProducts ops c me (shared_free outFD inFD) p = Inr (shared_held me outFD inFD, p') \<and>
    sent p' (out_fd c) = sent p (out_fd c) @ frame (enc32 MESSAGE_ERROR)"
  using assms getProducts_error [of p outFD inFD rest me]
  by (simp add: sendProducts_def send_frame)


end

section \<open>Whole exchanges\<close>

text \<open>
  An answer of the database to an order: its code, and the reduced order after the code of an
  order that cannot be satisfied.
\<close>

definition answer_tail :: "c_int \<Rightarrow> byte list \<Rightarrow> byte list" where
  "answer_tail code reduced = (if code = MESSAGE_UNSATISFIABLE_ORDER then frame reduced else [])"

text \<open>
  What a client can ask and what it is answered: for a product request the products the
  database has, for an order the database's answer. The four functions give the bytes on the
  two sides of the server.
\<close>

datatype exchange = Products "product_spec list" | Place "byte list" c_int "byte list"

fun exchange_ok :: "exchange \<Rightarrow> bool" where
  "exchange_ok (Products ps) \<longleftrightarrow> length ps < 2 ^ 31 \<and> (\<forall>s \<in> set ps. product_ok s)"
| "exchange_ok (Place ord code reduced) \<longleftrightarrow> message_ok ord \<and> message_ok reduced"

fun client_asks :: "exchange \<Rightarrow> byte list" where
  "client_asks (Products ps) = frame (enc32 CMD_GET_PRODUCTS)"
| "client_asks (Place ord code reduced) = frame (enc32 CMD_PLACE_ORDER) @ frame ord"

fun db_asked :: "exchange \<Rightarrow> byte list" where
  "db_asked (Products ps) = enc32 CMD_GET_PRODUCTS"
| "db_asked (Place ord code reduced) = enc32 CMD_PLACE_ORDER @ frame ord"

fun db_answers :: "exchange \<Rightarrow> byte list" where
  "db_answers (Products ps) = enc32 (word_of_nat (length ps)) @ product_frames ps"
| "db_answers (Place ord code reduced) = enc32 code @ answer_tail code reduced"

fun client_answered :: "exchange \<Rightarrow> byte list" where
  "client_answered (Products ps) = frame (enc32 (word_of_nat (length ps))) @ product_frames ps"
| "client_answered (Place ord code reduced) = frame (enc32 code) @ answer_tail code reduced"

lemma message_ok_length:
  assumes "message_ok data"
  shows "length data < 2 ^ 31" and "unat (word_of_nat (length data) :: size_t) = length data"
    and "0 < length data"
  using assms unat_of_nat64 [of "length data"] by (simp_all add: message_ok_def)

context channel
begin

lemma processOrder_relays:
  assumes h: "healthy (wr p outFD)" "healthy (wr p (out_fd c))"
    and d: "outFD \<noteq> out_fd c" "inFD \<noteq> in_fd c"
    and ok: "message_ok ord" "message_ok reduced"
    and client: "rd_avail p (in_fd c) = frame ord @ crest"
    and db: "rd_avail p inFD = enc32 code @ answer_tail code reduced @ rest"
  shows "\<exists>p'. processOrder ops c me (shared_free outFD inFD) p = Inr (shared_free outFD inFD, p') \<and>
    sent p' = (sent p)(outFD := sent p outFD @ enc32 CMD_PLACE_ORDER @ frame ord,
      out_fd c := sent p (out_fd c) @ frame (enc32 code) @ answer_tail code reduced) \<and>
    rd_avail p' = (rd_avail p)(in_fd c := crest, inFD := rest) \<and>
    (\<forall>f. healthy (wr p f) \<longrightarrow> healthy (wr p' f))"
proof -
  note len = message_ok_length [OF ok(1)]
  let ?p1 = "consume (in_fd c) (8 + length ord) p"
  let ?p2 = "deliver outFD ord (deliver outFD (enc64 (word_of_nat (length ord)))
    (deliver outFD (enc32 CMD_PLACE_ORDER) ?p1))"
  let ?p3 = "deliver_frame (out_fd c) (enc32 code) (consume inFD 4 ?p2)"
  have recv: "conn_receive ops c q p = Inr (1, full_block ord, Some (length ord), ?p1)" for q
    using receive_frame [OF client ok(1)] .
  have read: "ensureRead 4 inFD ?p2 = Inr (1, enc32 code, consume inFD 4 ?p2)"
    using ensureRead_exact [of 4 ?p2 inFD] db d by simp
  have code: "overlay (enc32 code) (enc32 CMD_PLACE_ORDER) = enc32 code"
    by (simp add: overlay_def)
  show ?thesis
  proof (cases "code = MESSAGE_UNSATISFIABLE_ORDER")
    case False
    with recv read code len h d db client show ?thesis
      by (simp add: processOrder_def ensureWrite_healthy mem_read_full send_frame answer_tail_def
          frame_def Let_def fun_eq_iff)
  next
    case True
    note len' = message_ok_length [OF ok(2)]
    have stream: "rd_avail ?p3 inFD = frame reduced @ rest"
      using db d True by (simp add: answer_tail_def)
    have ov: "overlay (enc64 x) (enc64 y) = enc64 x" for x y :: size_t
      by (simp add: overlay_def)
    note r = ensureRead_frame_length [OF stream] ensureRead_frame_data [OF stream len'(1)]
    show ?thesis
      using recv read code len len' h d db client True ok(2) ov r
      by (simp add: processOrder_def ensureWrite_healthy mem_read_full send_frame answer_tail_def
          Let_def received_all fun_eq_iff) (simp add: frame_def)
  qed
qed

end

section \<open>Whole sessions\<close>

lemma log_info_received:
  "\<exists>r. log_info (received_text me code) p = Inr (r, logged (received_text me code) INFO p)"
proof -
  have "c_text (received_text me code)"
  proof -
    have "c_text ''Forked server #''" "c_text '' received code ''" by (simp_all add: c_text_def)
    then show ?thesis
      unfolding received_text_def by (intro c_text_take) (simp only: c_text_append c_text_dec_int)
  qed
  moreover have "length (received_text me code) < 255" by (simp add: received_text_def)
  ultimately show ?thesis using logMessage_logged [of _ INFO p] by (fastforce simp: log_info_def)
qed

context channel
begin

lemma round_code:
  fixes me :: int and code :: c_int
  assumes "rd_avail p (in_fd c) = frame (enc32 code) @ rest"
  defines "q \<equiv> logged (received_text me code) INFO (consume (in_fd c) 12 p)"
  shows "forkedServer_round ops c me conn p =
    (if code = CMD_GET_PRODUCTS then
       c_bind (sendProducts ops c me conn q) (\<lambda>(conn, p). Inr (False, conn, p))
     else if code = CMD_PLACE_ORDER then
       c_bind (processOrder ops c me conn q) (\<lambda>(conn, p). Inr (False, conn, p))
     else if code = MESSAGE_CLOSE then
       c_bind (shut_down ops c q) (\<lambda>p. Inr (True, conn, p))
     else
       c_bind (log_warn ''Forked server received unknown message code. Behavior might be wacky from now on.'' q)
         (\<lambda>(_, p). Inr (False, conn, p)))"
proof -
  have "conn_receive ops c Uninit_ptr p =
      Inr (1, full_block (enc32 code), Some 4, consume (in_fd c) 12 p)"
    using receive_frame [OF assms(1) message_code_ok] by simp
  moreover obtain r where "log_info (received_text me code) (consume (in_fd c) 12 p) = Inr (r, q)"
    using log_info_received q_def by blast
  ultimately show ?thesis by (simp add: forkedServer_round_def)
qed

lemma round_exchange:
  assumes ok: "exchange_ok e"
    and h: "healthy (wr p outFD)" "healthy (wr p (out_fd c))"
    and d: "outFD \<noteq> out_fd c" "inFD \<noteq> in_fd c"
    and client: "rd_avail p (in_fd c) = client_asks e @ crest"
    and db: "rd_avail p inFD = db_answers e @ rest"
  shows "\<exists>p'. forkedServer_round ops c me (shared_free outFD inFD) p =
      Inr (False, shared_free outFD inFD, p') \<and>
    sent p' = (sent p)(outFD := sent p outFD @ db_asked e,
      out_fd c := sent p (out_fd c) @ client_answered e) \<and>
    rd_avail p' = (rd_avail p)(in_fd c := crest, inFD := rest) \<and>
    (\<forall>f. healthy (wr p f) \<longrightarrow> healthy (wr p' f))"
proof (cases e)
  case (Products ps)
  let ?q = "logged (received_text me CMD_GET_PRODUCTS) INFO (consume (in_fd c) 12 p)"
  have "\<exists>p'. sendProducts ops c me (shared_free outFD inFD) ?q = Inr (shared_free outFD inFD, p') \<and>
    sent p' = (sent ?q)(outFD := sent ?q outFD @ enc32 CMD_GET_PRODUCTS,
      out_fd c := sent ?q (out_fd c) @ frame (enc32 (word_of_nat (length ps))) @ product_frames ps) \<and>
    rd_avail p' = (rd_avail ?q)(inFD := rest) \<and>
    (\<forall>f. healthy (wr ?q f) \<longrightarrow> healthy (wr p' f))"
    by (rule sendProducts_relays) (use ok h d db Products in auto)
  then show ?thesis
    using Products client round_code [of p c CMD_GET_PRODUCTS crest me "shared_free outFD inFD"]
    by auto
next
  case (Place ord code reduced)
  let ?q = "logged (received_text me CMD_PLACE_ORDER) INFO (consume (in_fd c) 12 p)"
  have "\<exists>p'. processOrder ops c me (shared_free outFD inFD) ?q = Inr (shared_free outFD inFD, p') \<and>
    sent p' = (sent ?q)(outFD := sent ?q outFD @ enc32 CMD_PLACE_ORDER @ frame ord,
      out_fd c := sent ?q (out_fd c) @ frame (enc32 code) @ answer_tail code reduced) \<and>
    rd_avail p' = (rd_avail ?q)(in_fd c := crest, inFD := rest) \<and>
    (\<forall>f. healthy (wr ?q f) \<longrightarrow> healthy (wr p' f))"
    by (rule processOrder_relays) (use ok h d db client Place in auto)
  moreover have "CMD_PLACE_ORDER \<noteq> CMD_GET_PRODUCTS" by (simp add: message_codes)
  ultimately show ?thesis
    using Place client round_code [of p c CMD_PLACE_ORDER "frame ord @ crest" me "shared_free outFD inFD"]
    by auto
qed

end

text \<open>
  A session is a list of exchanges the client ends with \<open>MESSAGE_CLOSE\<close>. The bytes of its four
  directions follow one another in the order of the exchanges.
\<close>

definition session_asks :: "exchange list \<Rightarrow> byte list" where
  "session_asks es = concat (map client_asks es) @ frame (enc32 MESSAGE_CLOSE)"

definition session_answered :: "exchange list \<Rightarrow> byte list" where
  "session_answered es = concat (map client_answered es)"

definition session_db_asked :: "exchange list \<Rightarrow> byte list" where
  "session_db_asked es = concat (map db_asked es)"

definition session_db_answers :: "exchange list \<Rightarrow> byte list" where
  "session_db_answers es = concat (map db_answers es)"

lemma server_texts:
  "c_text ''Forked server shutting down.''" "c_text ''Forked server started, listening to client requests.''"
  by (simp_all add: c_text_def)

context closable_channel
begin

lemma round_close:
  assumes "closable c" and "healthy (wr p (out_fd c))"
    and "rd_avail p (in_fd c) = frame (enc32 MESSAGE_CLOSE) @ crest"
  shows "\<exists>p'. forkedServer_round ops c me conn p = Inr (True, conn, p') \<and>
    sent p' = (sent p)(out_fd c := sent p (out_fd c) @ farewell)"
proof -
  let ?q = "logged (received_text me MESSAGE_CLOSE) INFO (consume (in_fd c) 12 p)"
  let ?q' = "logged ''Forked server shutting down.'' INFO ?q"
  obtain r where "log_info ''Forked server shutting down.'' ?q = Inr (r, ?q')"
    using log_info_short [OF server_texts(1)] by auto
  moreover obtain r' p' where "conn_close ops c ?q' = Inr (r', p')"
      and "sent p' = (sent p)(out_fd c := sent p (out_fd c) @ farewell)"
    using close_returns [of c ?q'] assms(1,2) by auto
  moreover have "MESSAGE_CLOSE \<noteq> CMD_GET_PRODUCTS" "MESSAGE_CLOSE \<noteq> CMD_PLACE_ORDER"
    by (simp_all add: message_codes)
  ultimately show ?thesis using round_code [OF assms(3)] by (simp add: shut_down_def)
qed

lemma loop_session:
  assumes "\<forall>e \<in> set es. exchange_ok e" and "closable c"
    and "healthy (wr p outFD)" and "healthy (wr p (out_fd c))"
    and "outFD \<noteq> out_fd c" and "inFD \<noteq> in_fd c"
    and "rd_avail p (in_fd c) = session_asks es @ crest"
    and "rd_avail p inFD = session_db_answers es @ rest"
  shows "\<exists>p'. forkedServer_loop ops c me (shared_free outFD inFD) p =
      Some (Inr (shared_free outFD inFD, p')) \<and>
    sent p' = (sent p)(outFD := sent p outFD @ session_db_asked es,
      out_fd c := sent p (out_fd c) @ session_answered es @ farewell)"
  using assms
proof (induction es arbitrary: p)
  case Nil
  then obtain p' where "forkedServer_round ops c me (shared_free outFD inFD) p =
      Inr (True, shared_free outFD inFD, p')"
    and "sent p' = (sent p)(out_fd c := sent p (out_fd c) @ farewell)"
    using round_close by (fastforce simp: session_asks_def)
  then show ?case
    by (subst forkedServer_loop.simps) (simp add: session_db_asked_def session_answered_def)
next
  case (Cons e es)
  obtain p1 where r: "forkedServer_round ops c me (shared_free outFD inFD) p =
      Inr (False, shared_free outFD inFD, p1)"
    and s: "sent p1 = (sent p)(outFD := sent p outFD @ db_asked e,
      out_fd c := sent p (out_fd c) @ client_answered e)"
    and a: "rd_avail p1 = (rd_avail p)(in_fd c := session_asks es @ crest,
      inFD := session_db_answers es @ rest)"
    and h: "\<forall>f. healthy (wr p f) \<longrightarrow> healthy (wr p1 f)"
    using round_exchange [of e p outFD c inFD "session_asks es @ crest" "session_db_answers es @ rest" me]
      Cons.prems by (auto simp: session_asks_def session_db_answers_def)
  have "\<exists>p'. forkedServer_loop ops c me (shared_free outFD inFD) p1 =
      Some (Inr (shared_free outFD inFD, p')) \<and>
    sent p' = (sent p1)(outFD := sent p1 outFD @ session_db_asked es,
      out_fd c := sent p1 (out_fd c) @ session_answered es @ farewell)"
    by (rule Cons.IH) (use Cons.prems a h in auto)
  then obtain p' where "forkedServer_loop ops c me (shared_free outFD inFD) p1 =
      Some (Inr (shared_free outFD inFD, p'))"
    and "sent p' = (sent p1)(outFD := sent p1 outFD @ session_db_asked es,
      out_fd c := sent p1 (out_fd c) @ session_answered es @ farewell)"
    by blast
  with r s Cons.prems(5) show ?case
    by (subst forkedServer_loop.simps)
      (simp add: session_db_asked_def session_answered_def fun_eq_iff)
qed

lemma serves_session:
  assumes "\<forall>e \<in> set es. exchange_ok e" and "closable c"
    and "healthy (wr p outFD)" and "healthy (wr p (out_fd c))"
    and "outFD \<noteq> out_fd c" and "inFD \<noteq> in_fd c"
    and "rd_avail p (in_fd c) = session_asks es @ crest"
    and "rd_avail p inFD = session_db_answers es @ rest"
  shows "\<exists>p'. forkedServer ops c me (shared_free outFD inFD) p = Inr (shared_free outFD inFD, p') \<and>
    sent p' = (sent p)(outFD := sent p outFD @ session_db_asked es,
      out_fd c := sent p (out_fd c) @ session_answered es @ farewell)"
proof -
  let ?q = "logged ''Forked server started, listening to client requests.'' INFO p"
  obtain r where "log_info ''Forked server started, listening to client requests.'' p = Inr (r, ?q)"
    using log_info_short [OF server_texts(2)] by auto
  moreover obtain p' where "forkedServer_loop ops c me (shared_free outFD inFD) ?q =
      Some (Inr (shared_free outFD inFD, p'))"
    and "sent p' = (sent ?q)(outFD := sent ?q outFD @ session_db_asked es,
      out_fd c := sent ?q (out_fd c) @ session_answered es @ farewell)"
    using loop_session [of es c ?q outFD inFD crest rest me] assms by auto
  ultimately show ?thesis by (simp add: forkedServer_def)
qed

end

section \<open>What a forked server does for its client\<close>

text \<open>C7: Over TCP sockets, a forked server whose client asks any list of product requests and
  orders and then closes, while the database answers each of them, comes to its end with the
  shared lock free; it has asked the database exactly what the client asked, in order, and it
  has sent the client exactly the database's answers, in order, and a last
  \<open>MESSAGE_CLOSE\<close>.\<close>

theorem socket_session_served:
  assumes "\<forall>e \<in> set es. exchange_ok e" and "sock_closable c"
    and "healthy (wr p outFD)" and "healthy (wr p (sk_socketfd c))"
    and "outFD \<noteq> sk_socketfd c" and "inFD \<noteq> sk_socketfd c"
    and "rd_avail p (sk_socketfd c) = session_asks es @ crest"
    and "rd_avail p inFD = session_db_answers es @ rest"
  shows "\<exists>p'. forkedServer sock_comm c me (shared_free outFD inFD) p =
      Inr (shared_free outFD inFD, p') \<and>
    sent p' = (sent p)(outFD := sent p outFD @ session_db_asked es,
      sk_socketfd c := sent p (sk_socketfd c) @ session_answered es @ frame (enc32 MESSAGE_CLOSE))"
  by (rule sockets_close.serves_session [OF assms])

text \<open>Over FIFOs the same session ends the same way, without the last \<open>MESSAGE_CLOSE\<close>.\<close>

theorem fifo_session_served:
  assumes "\<forall>e \<in> set es. exchange_ok e" and "fifo_closable c"
    and "healthy (wr p outFD)" and "healthy (wr p (ff_outFD c))"
    and "outFD \<noteq> ff_outFD c" and "inFD \<noteq> ff_inFD c"
    and "rd_avail p (ff_inFD c) = session_asks es @ crest"
    and "rd_avail p inFD = session_db_answers es @ rest"
  shows "\<exists>p'. forkedServer fifo_comm c me (shared_free outFD inFD) p =
      Inr (shared_free outFD inFD, p') \<and>
    sent p' = (sent p)(outFD := sent p outFD @ session_db_asked es,
      ff_outFD c := sent p (ff_outFD c) @ session_answered es)"
  using fifos_close.serves_session [OF assms] by simp

text \<open>C21: When the database answers a product request with an error, the server passes the
  error to its client but keeps the shared lock: every later product request, of any forked
  server, never returns.\<close>

theorem failed_query_blocks_everyone:
  assumes "healthy (wr p outFD)" and "healthy (wr p (sk_socketfd c))" and "outFD \<noteq> sk_socketfd c"
    and "rd_avail p inFD = enc32 MESSAGE_ERROR @ rest"
  shows "\<exists>conn p'. sendProducts sock_comm c me (shared_free outFD inFD) p = Inr (conn, p') \<and>
    sent p' (sk_socketfd c) = sent p (sk_socketfd c) @ frame (enc32 MESSAGE_ERROR) \<and>
    (\<forall>other d q. sendProducts sock_comm d other conn q = Inl No_return)"
proof -
  let ?held = "shared_held me outFD inFD"
  have blocked: "getProducts other ?held q = Inl No_return" for other q
    using db_lock.held_blocks [of "shared_free outFD inFD" me 1 ?held other]
    by (simp add: getProducts_def)
  then have "\<forall>other d q. sendProducts sock_comm d other ?held q = Inl No_return"
    by (simp add: sendProducts_def)
  with sockets.sendProducts_error [OF assms] show ?thesis by metis
qed

text \<open>A session with a product request and an order, and a failing database.\<close>

definition sample_conn :: sock_connection where
  "sample_conn = \<lparr>sk_ip = Null_ptr, sk_port = 1337, sk_socketfd = 3\<rparr>"

definition sample_fifo :: fifo_connection where
  "sample_fifo = \<lparr>ff_outFIFOPath = full_block [97, 0], ff_inFIFOPath = full_block [98, 0],
     ff_outFD = 3, ff_inFD = 4\<rparr>"

definition sample_session :: "exchange list" where
  "sample_session =
     [Products [\<lparr>ps_id = 1, ps_name = [80, 0], ps_description = [0], ps_price = 0, ps_stock = 3\<rparr>],
      Place [1, 0, 0, 0] MESSAGE_UNSATISFIABLE_ORDER [0, 0]]"

lemma sample_session_ok: "\<forall>e \<in> set sample_session. exchange_ok e"
  by (simp add: sample_session_def product_ok_def message_ok_def c_string_def)

lemma sample_fifo_closable: "fifo_closable sample_fifo"
  unfolding fifo_closable_def sample_fifo_def
  by (intro exI [of _ "[97, 0]"] exI [of _ "[98, 0]"]) (simp add: c_string_def)

lemma socket_session_served_witness:
  "\<exists>p'. forkedServer sock_comm sample_conn 7 (shared_free 6 5)
      (fresh_proc ((\<lambda>_. [])(3 := [Rd_data (session_asks sample_session)],
        5 := [Rd_data (session_db_answers sample_session)]))) = Inr (shared_free 6 5, p') \<and>
    sent p' 6 = session_db_asked sample_session"
  using socket_session_served [of sample_session sample_conn
      "fresh_proc ((\<lambda>_. [])(3 := [Rd_data (session_asks sample_session)],
        5 := [Rd_data (session_db_answers sample_session)]))" 6 5 "[]" "[]" 7]
    sample_session_ok
  by (fastforce simp: sample_conn_def sock_closable_def rd_avail_def)

lemma fifo_session_served_witness:
  "\<exists>p'. forkedServer fifo_comm sample_fifo 7 (shared_free 6 5)
      (fresh_proc ((\<lambda>_. [])(4 := [Rd_data (session_asks sample_session)],
        5 := [Rd_data (session_db_answers sample_session)]))) = Inr (shared_free 6 5, p') \<and>
    sent p' 3 = session_answered sample_session"
  using fifo_session_served [of sample_session sample_fifo
      "fresh_proc ((\<lambda>_. [])(4 := [Rd_data (session_asks sample_session)],
        5 := [Rd_data (session_db_answers sample_session)]))" 6 5 "[]" "[]" 7]
    sample_session_ok sample_fifo_closable
  by (fastforce simp: sample_fifo_def rd_avail_def)

lemma failed_query_blocks_everyone_witness:
  "\<exists>conn p'. sendProducts sock_comm sample_conn 7 (shared_free 6 5)
      (fresh_proc ((\<lambda>_. [])(5 := [Rd_data (enc32 MESSAGE_ERROR)]))) = Inr (conn, p') \<and>
    sendProducts sock_comm sample_conn 8 conn p' = Inl No_return"
  using failed_query_blocks_everyone [of
      "fresh_proc ((\<lambda>_. [])(5 := [Rd_data (enc32 MESSAGE_ERROR)]))" 6 sample_conn 5 "[]" 7]
  by (fastforce simp: sample_conn_def rd_avail_def)

end
