(* ===== verification/Submitting.thy ===== *)
theory Submitting
  imports Menu ForkedServer
begin

text \<open>
  The messages of the client: the address it lets through, the products it receives and the order it
  sends, over every implementation of the communication interface.
\<close>

section \<open>The address\<close>

definition address_text :: "string \<Rightarrow> bool" where
  "address_text t \<longleftrightarrow> (\<forall>c \<in> set t. isalnum c \<or> c = CHR '' '')"

lemma address_text_simps [simp]:
  "address_text []" "address_text (c # t) \<longleftrightarrow> (isalnum c \<or> c = CHR '' '') \<and> address_text t"
  by (simp_all add: address_text_def)

lemma address_text_c_text: "address_text t \<Longrightarrow> c_text t"
proof -
  assume "address_text t"
  moreover have "\<not> isalnum (CHR 0x00)" by (simp add: isalnum_def is_digit_def char_code_def)
  ultimately show ?thesis by (auto simp: address_text_def c_text_def)
qed

lemma newline_not_alnum [simp]: "\<not> isalnum (CHR 0x0A)"
  by (simp add: isalnum_def is_digit_def char_code_def)

lemma address_loop_any:
  assumes "address_loop a i c s = (a', i', c', rest)" and "length a = 1024" and "i \<le> 1023" and "c \<noteq> Some (CHR 0x0A)"
  shows "\<exists>t. i' = i + length t \<and> i' \<le> 1023 \<and> address_text t \<and> length a' = 1024 \<and>
    take i' a' = take i a @ map Some (bytes_of t) \<and> (c' = Some (CHR 0x0A) \<longrightarrow> i' < 1023)"
  using assms
proof (induction a i c s rule: address_loop.induct)
  case (1 a i c)
  then show ?case by (auto split: if_splits intro!: exI [of _ "[]"] simp: bytes_of_def)
next
  case (2 a i c x xs)
  show ?case
  proof (cases "i < 1023 \<and> x \<noteq> CHR 0x0A \<and> (isalnum x \<or> x = CHR '' '')")
    case True
    then have step: "address_loop (a[i := Some (of_char x)]) (i + 1) (Some x) xs = (a', i', c', rest)"
      using 2(2) by auto
    have "\<exists>t. i' = i + 1 + length t \<and> i' \<le> 1023 \<and> address_text t \<and> length a' = 1024 \<and>
        take i' a' = take (i + 1) (a[i := Some (of_char x)]) @ map Some (bytes_of t) \<and>
        (c' = Some (CHR 0x0A) \<longrightarrow> i' < 1023)"
      by (rule "2.IH" [OF _ _ _ step]) (use True 2(3) in auto)
    then obtain t where "i' = i + 1 + length t" "i' \<le> 1023" "address_text t" "length a' = 1024"
      "take i' a' = take (i + 1) (a[i := Some (of_char x)]) @ map Some (bytes_of t)"
      "c' = Some (CHR 0x0A) \<longrightarrow> i' < 1023"
      by blast
    moreover have "take (i + 1) (a[i := Some (of_char x)]) = take i a @ [Some (of_char x)]"
      using True 2(3) by (simp add: take_Suc_conv_app_nth)
    ultimately show ?thesis using True by (auto intro!: exI [of _ "x # t"] simp: bytes_of_def)
  next
    case False
    with 2 show ?thesis by (auto split: if_splits intro!: exI [of _ "[]"] simp: bytes_of_def)
  qed
qed

lemma address_loop_line:
  "address_text t \<Longrightarrow> i + length t < 1023 \<Longrightarrow> length a = 1024 \<Longrightarrow>
     \<exists>a'. address_loop a i c (t @ CHR 0x0A # rest) = (a', i + length t, Some (CHR 0x0A), rest) \<and>
       length a' = 1024 \<and> take (i + length t) a' = take i a @ map Some (bytes_of t)"
proof (induction t arbitrary: a i c)
  case (Cons x t)
  have "take (i + 1) (a[i := Some (of_char x)]) = take i a @ [Some (of_char x)]"
    using Cons.prems by (simp add: take_Suc_conv_app_nth)
  moreover have "\<exists>a'. address_loop (a[i := Some (of_char x)]) (i + 1) (Some x) (t @ CHR 0x0A # rest) =
      (a', i + 1 + length t, Some (CHR 0x0A), rest) \<and> length a' = 1024 \<and>
      take (i + 1 + length t) a' = take (i + 1) (a[i := Some (of_char x)]) @ map Some (bytes_of t)"
    by (rule Cons.IH) (use Cons.prems in auto)
  moreover have "x \<noteq> CHR 0x0A" using Cons.prems(1) by auto
  ultimately show ?case using Cons.prems by (auto simp: bytes_of_def)
qed (simp add: bytes_of_def)

definition address_prompt :: string where
  "address_prompt = ''Please enter your delivery address (alphanumeric characters only): ''"

lemma enter_address_any:
  assumes "length a = 1024"
  shows "enter_address a p = Inl No_return \<or>
    (\<exists>a' t p'. enter_address a p = Inr (a', length t, p') \<and> length a' = 1024 \<and> length t < 1023 \<and>
       address_text t \<and> take (length t) a' = map Some (bytes_of t) \<and> typing p p')"
  using assms
proof (induction "length (stdin p)" arbitrary: a p rule: less_induct)
  case less
  obtain a' i c rest where l: "address_loop a 0 None (stdin p) = (a', i, c, rest)" by (metis prod_cases4)
  obtain t where t: "i = length t" "address_text t" "length a' = 1024" "take i a' = map Some (bytes_of t)"
    "c = Some (CHR 0x0A) \<longrightarrow> i < 1023"
    using address_loop_any [OF l less.prems] by auto
  let ?p = "print address_prompt p\<lparr>stdin := rest\<rparr>"
  note run = enter_address.simps [of a p, folded address_prompt_def]
  show ?case
  proof (cases "c = Some (CHR 0x0A)")
    case True
    have "typing p ?p" by (rule typing_trans [OF typing_print typing_stdin])
    with True t l show ?thesis by (subst (1 2) run) auto
  next
    case False
    show ?thesis
    proof (cases "flush_line rest")
      case None
      with False l show ?thesis by (subst run) simp
    next
      case (Some r)
      let ?q = "print address_prompt p\<lparr>stdin := r\<rparr>"
      have tq: "typing p ?q" by (rule typing_trans [OF typing_print typing_stdin])
      have "length (stdin ?q) < length (stdin p)"
        using address_loop_shorter [of a 0 None "stdin p"] l flush_line_shorter [OF Some] by simp
      from less.hyps [OF this t(3)] False l Some typing_trans [OF tq] show ?thesis
        by (subst (1 2) run) (simp, blast)
    qed
  qed
qed

lemma enter_address_line:
  assumes "address_text t" and "length t < 1023" and "length a = 1024" and "stdin p = t @ CHR 0x0A # rest"
  shows "\<exists>a'. enter_address a p = Inr (a', length t, print address_prompt p\<lparr>stdin := rest\<rparr>) \<and>
    length a' = 1024 \<and> take (length t) a' = map Some (bytes_of t)"
proof -
  obtain a' where l: "address_loop a 0 None (stdin p) = (a', length t, Some (CHR 0x0A), rest)"
    "length a' = 1024" "take (length t) a' = map Some (bytes_of t)"
    using address_loop_line [of t 0 a None rest] assms by auto
  then show ?thesis by (subst enter_address.simps) (simp add: address_prompt_def)
qed

text \<open>The terminated array is copied into the order.\<close>

lemma orderSetAddress_text:
  assumes "order_ok s" and "length a = 1024" and "take (length t) a = map Some (bytes_of t)"
    and "length t < 1023" and "c_text t"
  shows "orderSetAddress (order_of s) (Block (a[length t := Some 0])) =
    Inr (order_of (s\<lparr>os_address := Some (bytes_of t @ [0])\<rparr>))"
proof -
  have cells: "a[length t := Some 0] = map Some (bytes_of t) @ Some 0 # drop (Suc (length t)) a"
    using assms(2-4) by (simp add: upd_conv_take_nth_drop)
  note z = zero_notin_bytes_of [OF assms(5)]
  have "strlen (Block (a[length t := Some 0])) = Inr (length t)"
    using strlen_cells_terminated [OF z] by (simp add: strlen_def cells)
  moreover have "strncpy (malloc (length (bytes_of t @ [0]))) (Block (a[length t := Some 0])) (length (bytes_of t @ [0])) =
      Inr (full_block (bytes_of t @ [0]))"
    using strncpy_block [of "bytes_of t @ [0]" "drop (Suc (length t)) a"] z assms(4) by (simp add: cells)
  moreover have "to_int (int (length t + 1)) = int (length t + 1)" using assms(4) by (intro to_int_id in_int_nat) simp
  moreover have "size_of_int (int (length t + 1)) = length t + 1" using assms(4) by (intro size_of_int_nat) simp
  moreover have "\<exists>r. (if or_address (order_of s) \<noteq> Null_ptr then c_free (or_address (order_of s)) else Inr Null_ptr) = Inr r"
    by (auto simp: order_of_def address_ptr_def split: option.split)
  moreover have "(order_of s)\<lparr>or_address := full_block bs\<rparr> = order_of (s\<lparr>os_address := Some bs\<rparr>)" for bs
    by (simp add: order_of_def address_ptr_def)
  ultimately show ?thesis by (auto simp: orderSetAddress_def Let_def)
qed

section \<open>Messages\<close>

lemma orderFree_ok: "order_ok s \<Longrightarrow> \<exists>ord. orderFree (order_of s) = Inr ord"
proof -
  assume "order_ok s"
  from order_ok_bounds(1) [OF this] have len: "length (os_entries s) \<le> 16" .
  have "\<exists>ord'. orderFree_loop i ord = Inr ord'"
    if "0 \<le> i" and "length (or_items ord) = 16" and "sint (or_numEntries ord) \<le> 16" for i ord
    using that
  proof (induction i ord rule: orderFree_loop.induct)
    case (1 i ord)
    then show ?case by (subst orderFree_loop.simps) auto
  qed
  from this [of 0 "order_of s"] len show ?thesis
    by (simp add: orderFree_def items_length_order_of numEntries_order_of)
qed

lemma stdin_messages [simp]:
  "stdin (deliver_frame fd data p) = stdin p" "stdin (consume fd n p) = stdin p"
  by (simp_all add: deliver_frame_def deliver_def emit_def consume_def)

lemma products_code: "n < 2 ^ 31 \<Longrightarrow> (word_of_nat n :: c_int) \<noteq> MESSAGE_ERROR"
proof
  assume n: "n < 2 ^ 31" and "(word_of_nat n :: c_int) = MESSAGE_ERROR"
  then have "sint (word_of_nat n :: c_int) = sint MESSAGE_ERROR" by simp
  with n show False by (simp add: sint_of_nat in_int_def MESSAGE_ERROR_def)
qed

context channel
begin

lemma requestProducts_loop_frames:
  assumes "\<forall>q \<in> set ps. product_ok q" and "rd_avail p (in_fd c) = product_frames ps @ rest"
  shows "requestProducts_loop ops c capacity junk (length ps) acc p =
    (if ps = [] \<or> 8 * (length acc + length ps) \<le> capacity then
       Inr (acc @ map product_of ps, consume (in_fd c) (length (product_frames ps)) p)
     else Inl Out_of_bounds)"
  using assms
proof (induction ps arbitrary: acc p)
  case Nil
  then show ?case by simp
next
  case (Cons q ps)
  let ?bs = "product_bytes q"
  have q: "product_ok q" using Cons.prems(1) by simp
  note msg = product_wire.enc_message [OF q]
  have stream: "rd_avail p (in_fd c) = frame ?bs @ product_frames ps @ rest" using Cons.prems(2) by simp
  have "rd_avail (consume (in_fd c) (8 + length ?bs) p) (in_fd c) = product_frames ps @ rest"
    using stream by simp
  note IH = Cons.IH [OF _ this, of "acc @ [product_of q]"]
  have "consume (in_fd c) (length (product_frames ps)) (consume (in_fd c) (8 + length ?bs) p) =
      consume (in_fd c) (length (product_frames (q # ps))) p"
    using stream by (simp add: consume_consume add.assoc)
  with IH Cons.prems(1) show ?case
    by (cases ps) (auto simp: receive_frame [OF stream msg] product_wire.unser_enc [OF q])
qed

text \<open>With room for the pointers, the client has the products that were sent; else it writes past the array.\<close>

lemma requestProducts_answered:
  assumes "healthy (wr p (out_fd c))" and "\<forall>q \<in> set ps. product_ok q" and "length ps < 2 ^ 31"
    and "rd_avail p (in_fd c) = client_answered (Products ps) @ rest"
  shows "requestProducts ops c room junk p =
    (if ps = [] \<or> 8 * length ps \<le> room (length ps) then
       Inr (1, map product_of ps, int (length ps),
         consume (in_fd c) (12 + length (product_frames ps)) (deliver_frame (out_fd c) (enc32 CMD_GET_PRODUCTS) p))
     else Inl Out_of_bounds)"
proof -
  let ?code = "word_of_nat (length ps) :: c_int"
  let ?p1 = "deliver_frame (out_fd c) (enc32 CMD_GET_PRODUCTS) p"
  have stream: "rd_avail ?p1 (in_fd c) = frame (enc32 ?code) @ product_frames ps @ rest" using assms(4) by simp
  have n: "sint ?code = int (length ps)" using assms(3) by (simp add: sint_of_nat in_int_def)
  have "rd_avail (consume (in_fd c) 12 ?p1) (in_fd c) = product_frames ps @ rest" using stream by simp
  note loop = requestProducts_loop_frames [OF assms(2) this, of _ junk "[]"]
  have "consume (in_fd c) (length (product_frames ps)) (consume (in_fd c) 12 ?p1) =
      consume (in_fd c) (12 + length (product_frames ps)) ?p1"
    using stream by (simp add: consume_consume)
  then show ?thesis
    using assms(3) products_code [OF assms(3)]
    by (simp add: requestProducts_def send_frame [OF assms(1)] receive_frame [OF stream] n loop)
qed

text \<open>The order that is sent, with its address.\<close>

lemma submitOrder_answered:
  assumes "order_ok s" and "address_text t" and "length t < 1023" and "stdin p = t @ CHR 0x0A # typed_rest"
    and "healthy (wr p (out_fd c))" and "s' = s\<lparr>os_address := Some (bytes_of t @ [0])\<rparr>" and "order_ok red"
    and "rd_avail p (in_fd c) = client_answered (Place (order_bytes s') code (order_bytes red)) @ rest"
  shows "\<exists>p'. submitOrder ops c (order_of s) p =
      Inr (if code = MESSAGE_ERROR then (-1, order_of s', p')
        else if code = MESSAGE_UNSATISFIABLE_ORDER then (0, order_of red, p')
        else (1, order_of s', p')) \<and>
    stdin p' = typed_rest \<and> sent p' = (sent p)(out_fd c := sent p (out_fd c) @ client_asks (Place (order_bytes s') code (order_bytes red))) \<and>
    rd_avail p' = (rd_avail p)(in_fd c := rest) \<and> (\<forall>f. healthy (wr p f) \<longrightarrow> healthy (wr p' f))"
proof -
  have s': "order_ok s'"
    using assms(1-3,6) zero_notin_bytes_of [OF address_text_c_text [OF assms(2)]]
    by (simp add: order_ok_def address_ok_def)
  obtain a where a: "enter_address (replicate 1024 None) p = Inr (a, length t, print address_prompt p\<lparr>stdin := typed_rest\<rparr>)"
    "length a = 1024" "take (length t) a = map Some (bytes_of t)"
    using enter_address_line [OF assms(2,3) _ assms(4), of "replicate 1024 None"] by auto
  have set: "orderSetAddress (order_of s) (Block (a[length t := Some 0])) = Inr (order_of s')"
    unfolding assms(6) by (rule orderSetAddress_text [OF assms(1) a(2,3) assms(3) address_text_c_text [OF assms(2)]])
  let ?p0 = "print address_prompt p\<lparr>stdin := typed_rest\<rparr>"
  let ?p1 = "deliver_frame (out_fd c) (enc32 CMD_PLACE_ORDER) ?p0"
  let ?p2 = "deliver_frame (out_fd c) (order_bytes s') ?p1"
  let ?p3 = "consume (in_fd c) 12 ?p2"
  have h: "healthy (wr ?p0 (out_fd c))" "healthy (wr ?p1 (out_fd c))" using assms(5) by simp_all
  have in0: "rd_avail ?p0 = rd_avail p" by (simp add: fun_eq_iff rd_avail_def)
  have in2: "rd_avail ?p2 (in_fd c) = frame (enc32 code) @ answer_tail code (order_bytes red) @ rest"
    using assms(8) in0 by simp
  note msg = order_wire.enc_message [OF s'] order_wire.enc_message [OF assms(7)]
  note received = receive_frame [OF in2 message_code_ok]
  obtain freed where free: "orderFree (order_of s') = Inr freed" using orderFree_ok [OF s'] by blast
  have codes: "MESSAGE_ERROR \<noteq> MESSAGE_UNSATISFIABLE_ORDER" by (simp add: message_codes)
  show ?thesis
  proof (cases "code = MESSAGE_UNSATISFIABLE_ORDER")
    case False
    have "submitOrder ops c (order_of s) p = Inr (if code = MESSAGE_ERROR then -1 else 1, order_of s', ?p3)"
      using False msg received
      by (simp add: submitOrder_def a(1) set send_frame [OF h(1)] send_frame [OF h(2)] order_wire.ser_layout [OF s'] mem_read_full)
    with False in0 in2 codes show ?thesis by (auto simp: answer_tail_def fun_eq_iff)
  next
    case True
    then have in3: "rd_avail ?p3 (in_fd c) = frame (order_bytes red) @ rest" using in2 by (simp add: answer_tail_def)
    let ?p4 = "consume (in_fd c) (8 + length (order_bytes red)) ?p3"
    have "submitOrder ops c (order_of s) p = Inr (0, order_of red, ?p4)"
      using True msg received receive_frame [OF in3 msg(2)] free codes
      by (simp add: submitOrder_def a(1) set send_frame [OF h(1)] send_frame [OF h(2)] order_wire.ser_layout [OF s']
          order_wire.unser_enc [OF assms(7)] mem_read_full)
    with True in0 in2 in3 codes show ?thesis by (auto simp: fun_eq_iff)
  qed
qed

end

end
