(* ===== verification/ClientRuns.thy ===== *)
theory ClientRuns
  imports Submitting
begin

text \<open>
  A whole session of the client over every implementation of the communication interface: the products
  are fetched, a script of menu choices is typed, the order is submitted and the connection closed.
\<close>

definition with_address :: "string \<Rightarrow> order_spec \<Rightarrow> order_spec" where
  "with_address t s = s\<lparr>os_address := Some (bytes_of t @ [0])\<rparr>"

text \<open>The two exchanges of a purchase.\<close>

definition purchase :: "product_spec list \<Rightarrow> order_spec \<Rightarrow> exchange list" where
  "purchase ps s = [Products ps, Place (order_bytes s) MESSAGE_OK (order_bytes s)]"

text \<open>What the shopper types: the script, then the address for the order.\<close>

definition shopping :: "action list \<Rightarrow> string \<Rightarrow> string" where
  "shopping as t = concat (map typed as) @ line 4 @ t @ [CHR 0x0A]"

lemma ok_codes: "MESSAGE_OK \<noteq> MESSAGE_ERROR" "MESSAGE_OK \<noteq> MESSAGE_UNSATISFIABLE_ORDER"
  by (simp_all add: message_codes)

lemma with_address_ok: "order_ok s \<Longrightarrow> address_text t \<Longrightarrow> length t < 1023 \<Longrightarrow> order_ok (with_address t s)"
  using zero_notin_bytes_of [OF address_text_c_text]
  by (simp add: with_address_def order_ok_def address_ok_def)

lemma numEntries_of:
  "length (os_entries s) \<le> 16 \<Longrightarrow> orderGetNumEntries (order_of s) = int (length (os_entries s))"
  using numEntries_order_of [of s] by (simp add: orderGetNumEntries_def)

context channel
begin

lemma client_submits:
  assumes "offered ps" and "shop_inv ps s" and "os_entries s \<noteq> []" and "address_text t" and "length t < 1023"
    and "stdin p = line 4 @ t @ CHR 0x0A # typed_rest" and "healthy (wr p (out_fd c))"
    and "s' = with_address t s"
    and "rd_avail p (in_fd c) = client_answered (Place (order_bytes s') MESSAGE_OK (order_bytes s')) @ rest"
  shows "\<exists>p'. client_loop ops c n products (order_of s) p = Some (Inr (order_of s', p')) \<and>
    sent p' = (sent p)(out_fd c := sent p (out_fd c) @ client_asks (Place (order_bytes s') MESSAGE_OK (order_bytes s'))) \<and>
    (\<forall>f. healthy (wr p f) \<longrightarrow> healthy (wr p' f))"
proof -
  have s: "order_ok s" using assms(2) by (simp add: shop_inv_def order_inv_def)
  have s': "order_ok s'" unfolding assms(8) by (rule with_address_ok [OF s assms(4,5)])
  let ?p1 = "print menu_text (p\<lparr>stdin := t @ CHR 0x0A # typed_rest\<rparr>)"
  have menu: "scanInt menu_text p = Inr (4, ?p1)"
    using scanInt_types [of 4 p "t @ CHR 0x0A # typed_rest"] assms(6) by (simp add: in_int_def)
  have entries: "orderGetNumEntries (order_of s) \<noteq> 0"
    using assms(3) order_ok_bounds(1) [OF s] by (simp add: numEntries_of)
  have frame: "rd_avail ?p1 = rd_avail p" "sent ?p1 = sent p" "wr ?p1 = wr p"
    by (simp_all add: rd_avail_def fun_eq_iff)
  obtain p2 where p2: "submitOrder ops c (order_of s) ?p1 = Inr (1, order_of s', p2)"
    "sent p2 = (sent p)(out_fd c := sent p (out_fd c) @ client_asks (Place (order_bytes s') MESSAGE_OK (order_bytes s')))"
    "\<forall>f. healthy (wr p f) \<longrightarrow> healthy (wr p2 f)"
    using submitOrder_answered [OF s assms(4,5), of ?p1 typed_rest c s' s' MESSAGE_OK rest] assms(7-9) s' frame ok_codes
    by (auto simp: with_address_def)
  have "client_round ops c n products (order_of s) p =
      Inr (True, products, order_of s', print ''Order placed. Thank you for your order!\<newline>'' p2)"
    using menu entries p2(1) by (simp add: client_round_def client_submit_def)
  with p2(2,3) show ?thesis by (subst client_loop.simps) auto
qed

end

context closable_channel
begin

lemma disconnect_sends:
  assumes "closable c" and "healthy (wr p (out_fd c))"
  shows "\<exists>p'. disconnect ops c p = Inr p' \<and>
    sent p' = (sent p)(out_fd c := sent p (out_fd c) @ frame (enc32 MESSAGE_CLOSE) @ farewell)"
  using close_returns [OF assms(1), of "deliver_frame (out_fd c) (enc32 MESSAGE_CLOSE) p"] assms(2)
  by (auto simp: disconnect_def send_frame)

lemma session_purchases:
  assumes "offered ps" and "script_ok ps empty_order as" and "s = with_address t (acts ps as empty_order)"
    and "os_entries s \<noteq> []" and "address_text t" and "length t < 1023"
    and "stdin p = shopping as t" and "closable c" and "healthy (wr p (out_fd c))"
    and "8 * length ps \<le> room (length ps)"
    and "rd_avail p (in_fd c) = session_answered (purchase ps s) @ rest"
  shows "\<exists>p'. client_session ops c room junk p = Inr p' \<and>
    sent p' = (sent p)(out_fd c := sent p (out_fd c) @ session_asks (purchase ps s) @ farewell)"
proof -
  let ?place = "Place (order_bytes s) MESSAGE_OK (order_bytes s)" and ?s0 = "acts ps as empty_order"
  have inv: "shop_inv ps ?s0" by (rule acts_inv [OF assms(1) shop_inv_empty assms(2)])
  then have s0: "order_ok ?s0" by (simp add: shop_inv_def order_inv_def)
  have s: "order_ok s" unfolding assms(3) by (rule with_address_ok [OF s0 assms(5,6)])
  have ps: "\<forall>q \<in> set ps. product_ok q" "length ps < 2 ^ 31" using assms(1) by (auto simp: offered_def)
  have stream: "rd_avail p (in_fd c) = client_answered (Products ps) @ client_answered ?place @ rest"
    using assms(11) by (simp add: session_answered_def purchase_def)
  let ?p1 = "consume (in_fd c) (12 + length (product_frames ps)) (deliver_frame (out_fd c) (enc32 CMD_GET_PRODUCTS) p)"
  have req: "requestProducts ops c room junk p = Inr (1, map product_of ps, int (length ps), ?p1)"
    using requestProducts_answered [OF assms(9) ps stream] assms(10) by simp
  have in1: "rd_avail ?p1 (in_fd c) = client_answered ?place @ rest" using stream by simp
  obtain p2 where p2: "client_loop ops c (int (length ps)) (map product_of ps) (order_of empty_order) ?p1 =
      client_loop ops c (int (length ps)) (map product_of (offer ps ?s0)) (order_of ?s0) p2"
    "typing ?p1 p2" "stdin p2 = line 4 @ t @ CHR 0x0A # []"
    using client_loop_actions [OF assms(1) shop_inv_empty assms(2), of ?p1 "line 4 @ t @ [CHR 0x0A]" ops c] assms(7)
    by (auto simp: shopping_def offer_empty)
  note same = typing_frame [OF p2(2)]
  have h2: "healthy (wr p2 (out_fd c))" using same(2) assms(9) by simp
  have in2: "rd_avail p2 (in_fd c) = client_answered ?place @ rest" using in1 unfolding rd_avail_def same(1) .
  have entries: "os_entries ?s0 \<noteq> []" using assms(3,4) by (simp add: with_address_def)
  obtain p3 where p3: "client_loop ops c (int (length ps)) (map product_of (offer ps ?s0)) (order_of ?s0) p2 =
      Some (Inr (order_of s, p3))"
    "sent p3 = (sent p2)(out_fd c := sent p2 (out_fd c) @ client_asks ?place)" "\<forall>f. healthy (wr p2 f) \<longrightarrow> healthy (wr p3 f)"
    using client_submits [OF assms(1) inv entries assms(5,6) p2(3) h2 assms(3) in2] by blast
  have h3: "healthy (wr (print ''Disconnecting...'' p3) (out_fd c))" using p3(3) h2 by simp
  obtain p4 where p4: "disconnect ops c (print ''Disconnecting...'' p3) = Inr p4"
    "sent p4 = (sent p3)(out_fd c := sent p3 (out_fd c) @ frame (enc32 MESSAGE_CLOSE) @ farewell)"
    using disconnect_sends [OF assms(8) h3] by auto
  obtain freed where "orderFree (order_of s) = Inr freed" using orderFree_ok [OF s] by blast
  with req p2(1) p3(1) p4(1) have "client_session ops c room junk p =
      Inr (print ''disconnected.\<newline>See you next time!\<newline>'' p4)"
    by (simp add: client_session_def orderNew_empty)
  moreover have "sent p4 = (sent p)(out_fd c := sent p (out_fd c) @ session_asks (purchase ps s) @ farewell)"
    using p4(2) p3(2) same(3) by (simp add: session_asks_def purchase_def)
  ultimately show ?thesis by auto
qed

end

end
