(* ===== verification/ClientProps.thy ===== *)
theory ClientProps
  imports ClientRuns
begin

text \<open>
  What the client guarantees: on any input from its terminal, and towards a server that answers as
  \<^verbatim>\<open>forkedServer.c\<close> does.
\<close>

section \<open>Lemmas\<close>

lemma enter_address_eof:
  assumes "CHR 0x0A \<notin> set (stdin p)"
  shows "enter_address a p = Inl No_return"
proof -
  obtain a' i c rest where l: "address_loop a 0 None (stdin p) = (a', i, c, rest)" by (metis prod_cases4)
  have "set rest \<subseteq> set s \<and> (c' = Some (CHR 0x0A) \<longrightarrow> c = Some (CHR 0x0A) \<or> CHR 0x0A \<in> set s)"
    if "address_loop a i c s = (a', i', c', rest)" for a i c s a' i' c' rest
    using that by (induction a i c s rule: address_loop.induct) (auto split: if_splits)
  from this [OF l] assms have "c \<noteq> Some (CHR 0x0A)" "flush_line rest = None" by (auto intro: flush_line_None)
  with l show ?thesis by (subst enter_address.simps) simp
qed

lemma wait_seconds_range: "r < 2 ^ 31 \<Longrightarrow> 1 \<le> wait_seconds r \<and> wait_seconds r \<le> 10"
  by (simp add: wait_seconds_def)

context closable_channel
begin

lemma dummy_visits:
  assumes "setup_config beyond file = Inr (Some config)" and "cf_server config = c_str address" and "c_text address"
    and "connect address (print (''Dummy client #'' @ dec_int pid @ '' connecting...'') p) = Inr (Some c, q)"
    and "closable c" and "healthy (wr q (out_fd c))" and "r < 2 ^ 31"
  shows "\<exists>p'. dummy_main ops connect beyond file pid r p = Inr (0, wait_seconds r, p') \<and>
    sent p' = (sent q)(out_fd c := sent q (out_fd c) @ session_asks [] @ farewell)"
proof -
  let ?q = "print (''connected.\<newline>Dummy client #'' @ dec_int pid @ '' sleeping for '' @ dec_int (int (wait_seconds r)) @
      '' sec...Dummy client #'' @ dec_int pid @ '' woke up, disconnecting...'') q"
  obtain x p' where x: "conn_close ops c (deliver_frame (out_fd c) (enc32 MESSAGE_CLOSE) ?q) = Inr (x, p')"
    "sent p' = (sent q)(out_fd c := sent q (out_fd c) @ session_asks [] @ farewell)"
    using close_returns [OF assms(5), of "deliver_frame (out_fd c) (enc32 MESSAGE_CLOSE) ?q"] assms(6)
    by (auto simp: session_asks_def)
  have h: "healthy (wr ?q (out_fd c))" using assms(6) by simp
  from x(1) assms(1-4) send_frame [OF h message_code_ok]
  show ?thesis using x(2) by (auto simp: dummy_main_def getServerAddress_def deref_config_def Let_def)
qed

end

section \<open>The properties\<close>

text \<open>C18: Whatever is typed at the menu, a round that does not submit the order either waits for more input or
  keeps the order and the products in step: the order is well formed, has the prices on offer, and every
  product shows exactly the stock the order has left of it. The loop is left only with choice 0, and
  nothing but the terminal was touched.\<close>

theorem menu_keeps_shop:
  assumes "offered ps" and "shop_inv ps s" and "scanInt menu_text p = Inr (option, p1)" and "option \<noteq> 4"
  shows "client_round ops conn (int (length ps)) (map product_of (offer ps s)) (order_of s) p = Inl No_return \<or>
    (\<exists>s' p'. client_round ops conn (int (length ps)) (map product_of (offer ps s)) (order_of s) p =
        Inr (option = 0, map product_of (offer ps s'), order_of s', p') \<and> shop_inv ps s' \<and> typing p p')"
  using assms by (rule client_round_any)

text \<open>C26: Whatever is typed at the address prompt, the prompt waits for more input or ends with at most 1022
  letters, digits and spaces, and these become the address of the order: no quote ever reaches the
  query of the database server.\<close>

theorem address_is_plain:
  assumes "order_ok s"
  shows "enter_address (replicate 1024 None) p = Inl No_return \<or>
    (\<exists>a t p'. enter_address (replicate 1024 None) p = Inr (a, length t, p') \<and> length t < 1023 \<and>
       address_text t \<and> take (length t) a = map Some (bytes_of t) \<and> typing p p' \<and>
       orderSetAddress (order_of s) (Block (a[length t := Some 0])) = Inr (order_of (with_address t s)))"
  using enter_address_any [of "replicate 1024 None" p] orderSetAddress_text [OF assms] address_text_c_text
  by (fastforce simp: with_address_def)

text \<open>At the end of its input the client never ends: neither the menu nor the address prompt looks for the
  end of the file.\<close>

theorem client_hangs_at_eof:
  assumes "CHR 0x0A \<notin> set (stdin p)"
  shows "client_loop ops conn n products ord p = Some (Inl No_return) \<and>
    submitOrder ops conn ord p = Inl No_return"
proof
  have "scanInt menu_text p = Inl No_return" by (rule scanInt_ends) (rule assms)
  then show "client_loop ops conn n products ord p = Some (Inl No_return)"
    by (subst client_loop.simps) (simp add: client_round_def)
qed (simp add: submitOrder_def enter_address_eof [OF assms])

text \<open>C25: The products a forked server sends are the products the client gets, provided the allocator gave
  the array room for the pointers. The client asks for one byte per product: an allocator that gives
  just that makes it write past the array, for every catalogue but the empty one.\<close>

theorem products_received:
  assumes "healthy (wr p (sk_socketfd c))" and "\<forall>q \<in> set ps. product_ok q" and "length ps < 2 ^ 31"
    and "rd_avail p (sk_socketfd c) = client_answered (Products ps) @ rest"
  shows "\<exists>p'. requestProducts sock_comm c room junk p =
      (if ps = [] \<or> 8 * length ps \<le> room (length ps) then Inr (1, map product_of ps, int (length ps), p')
       else Inl Out_of_bounds) \<and>
    (ps \<noteq> [] \<longrightarrow> requestProducts sock_comm c (\<lambda>n. n) junk p = Inl Out_of_bounds)"
  using sockets.requestProducts_answered [OF assms] by auto

text \<open>Submitting an order sends its code and the order with the typed address. The answer of the forked
  server decides the result: an error gives -1, an order that cannot be satisfied gives 0 and is
  replaced by the one that was sent back, anything else gives 1.\<close>

theorem submitOrder_outcome:
  assumes "order_ok s" and "address_text t" and "length t < 1023" and "stdin p = t @ CHR 0x0A # typed_rest"
    and "healthy (wr p (sk_socketfd c))" and "order_ok red"
    and "rd_avail p (sk_socketfd c) =
      client_answered (Place (order_bytes (with_address t s)) code (order_bytes red)) @ rest"
  shows "\<exists>p'. submitOrder sock_comm c (order_of s) p =
      Inr (if code = MESSAGE_ERROR then (-1, order_of (with_address t s), p')
        else if code = MESSAGE_UNSATISFIABLE_ORDER then (0, order_of red, p')
        else (1, order_of (with_address t s), p')) \<and>
    sent p' (sk_socketfd c) = sent p (sk_socketfd c) @
      frame (enc32 CMD_PLACE_ORDER) @ frame (order_bytes (with_address t s)) \<and>
    rd_avail p' (sk_socketfd c) = rest"
  using sockets.submitOrder_answered [OF assms(1-5) refl assms(6), of code rest] assms(7)
  by (auto simp: with_address_def)

text \<open>The dummy client sleeps for 1 to 10 seconds and asks for nothing: over FIFOs it sends
  \<open>MESSAGE_CLOSE\<close> and no more.\<close>

theorem dummy_only_closes:
  assumes "setup_config beyond file = Inr (Some config)" and "cf_server config = c_str address" and "c_text address"
    and "connect address (print (''Dummy client #'' @ dec_int pid @ '' connecting...'') p) = Inr (Some c, q)"
    and "fifo_closable c" and "healthy (wr q (ff_outFD c))" and "r < 2 ^ 31"
  shows "\<exists>n p'. dummy_main fifo_comm connect beyond file pid r p = Inr (0, n, p') \<and> 1 \<le> n \<and> n \<le> 10 \<and>
    sent p' = (sent q)(ff_outFD c := sent q (ff_outFD c) @ frame (enc32 MESSAGE_CLOSE))"
  using fifos_close.dummy_visits [where connect = connect, OF assms] wait_seconds_range [OF assms(7)]
  by (auto simp: session_asks_def)

section \<open>Runs\<close>

lemma fifos_conf_lines: "spec_lines False (file_lines (fifos_conf, False)) no_config =
    (0, no_config\<lparr>cf_server := c_str ''/tmp/mainServerFIFO'', cf_listeningPort := c_str ''/tmp/mainServerFIFO''\<rparr>)"
  by code_simp

lemma fifos_setup: "setup_config kind_allocator (Some fifos_conf) =
    Inr (Some (no_config\<lparr>cf_server := c_str ''/tmp/mainServerFIFO'', cf_listeningPort := c_str ''/tmp/mainServerFIFO''\<rparr>))"
proof -
  have "length fifos_conf < 100" by code_simp
  then show ?thesis
    using run_parser_spec [OF kind_allocator_zero, of "(fifos_conf, False)" Null_ptr False no_config] fifos_conf_lines
    by (simp add: setup_config_def parse_def createAutomaton_automaton)
qed

definition at_terminal :: "string \<Rightarrow> byte list \<Rightarrow> proc" where
  "at_terminal s bs = (fresh_proc (\<lambda>_. [Rd_data bs]))\<lparr>stdin := s\<rparr>"

lemma at_terminal_simps [simp]:
  "stdin (at_terminal s bs) = s" "rd_avail (at_terminal s bs) fd = bs" "wr (at_terminal s bs) fd = []"
  "sent (at_terminal s bs) fd = []"
  by (simp_all add: at_terminal_def rd_avail_def)

lemma sample_offered: "offered [sample_product]"
  using sample_product_ok by (simp add: offered_def)

lemma menu_keeps_shop_witness:
  "\<exists>s' p'. client_round sock_comm sample_conn 1 [product_of sample_product] orderNew (at_terminal (line 2 @ line 1 @ line 2) []) =
     Inr (False, map product_of (offer [sample_product] s'), order_of s', p') \<and> shop_inv [sample_product] s'"
proof -
  let ?p = "at_terminal (line 2 @ line 1 @ line 2) []"
  have scan: "scanInt menu_text ?p = Inr (word_of_int 2, print menu_text (?p\<lparr>stdin := line 1 @ line 2\<rparr>))"
    by (rule scanInt_types) (simp_all add: in_int_def)
  have "\<exists>p'. client_round sock_comm sample_conn (int (length [sample_product])) (map product_of (offer [sample_product] empty_order))
      (order_of empty_order) ?p = Inr (False, map product_of (offer [sample_product] (act [sample_product] (Add 0 2) empty_order)),
      order_of (act [sample_product] (Add 0 2) empty_order), p') \<and> typing ?p p' \<and> stdin p' = []"
    by (rule client_round_action [OF sample_offered shop_inv_empty])
      (simp_all add: remaining_def empty_order_def quantity_of_def sample_product_def)
  with menu_keeps_shop [OF sample_offered shop_inv_empty scan, of sock_comm sample_conn]
  show ?thesis by (auto simp: offer_empty orderNew_empty)
qed

lemma address_is_plain_witness:
  "\<exists>a t p'. enter_address (replicate 1024 None) (at_terminal ''Main 1\<newline>'' []) = Inr (a, length t, p') \<and>
     orderSetAddress (order_of sample_order) (Block (a[length t := Some 0])) =
       Inr (order_of (with_address t sample_order))"
proof -
  have t: "address_text ''Main 1''" by (simp add: isalnum_def is_digit_def char_code_def)
  have "\<exists>a. enter_address (replicate 1024 None) (at_terminal ''Main 1\<newline>'' []) =
      Inr (a, length ''Main 1'', print address_prompt (at_terminal ''Main 1\<newline>'' [])\<lparr>stdin := []\<rparr>) \<and>
      length a = 1024 \<and> take (length ''Main 1'') a = map Some (bytes_of ''Main 1'')"
    by (rule enter_address_line [OF t]) simp_all
  with address_is_plain [OF sample_order_ok, of "at_terminal ''Main 1\<newline>'' []"] show ?thesis by auto
qed

lemma client_hangs_at_eof_witness:
  "client_loop sock_comm sample_conn 0 [] orderNew (at_terminal ''1'' []) = Some (Inl No_return)"
  using client_hangs_at_eof [of "at_terminal ''1'' []" sock_comm sample_conn 0 "[]" orderNew] by simp

lemma products_received_witness:
  "\<exists>p'. requestProducts sock_comm sample_conn (\<lambda>n. 24) (\<lambda>_. 0) (at_terminal [] (client_answered (Products [sample_product]))) =
     Inr (1, [product_of sample_product], 1, p')"
  using products_received [of "at_terminal [] (client_answered (Products [sample_product]))" sample_conn "[sample_product]" "[]" "\<lambda>n. 24" "\<lambda>_. 0"]
    sample_product_ok by (auto simp: healthy_def)

lemma submitOrder_outcome_witness:
  "\<exists>p'. submitOrder sock_comm sample_conn (order_of sample_order) (at_terminal ''Main 1\<newline>''
      (client_answered (Place [] MESSAGE_UNSATISFIABLE_ORDER (order_bytes empty_order)))) = Inr (0, orderNew, p')"
proof -
  let ?p = "at_terminal ''Main 1\<newline>'' (client_answered (Place (order_bytes (with_address ''Main 1'' sample_order))
      MESSAGE_UNSATISFIABLE_ORDER (order_bytes empty_order)))"
  have t: "address_text ''Main 1''" by (simp add: isalnum_def is_digit_def char_code_def)
  have red: "order_ok empty_order" by (simp add: order_ok_def address_ok_def empty_order_def)
  have "\<exists>p'. submitOrder sock_comm sample_conn (order_of sample_order) ?p = Inr (0, order_of empty_order, p')"
    using submitOrder_outcome [OF sample_order_ok t, of ?p "[]" sample_conn empty_order MESSAGE_UNSATISFIABLE_ORDER "[]"] red
    by (auto simp: healthy_def message_codes)
  then show ?thesis by (simp add: orderNew_empty)
qed

lemma dummy_only_closes_witness:
  "\<exists>n p'. dummy_main fifo_comm (\<lambda>a p. Inr (Some sample_fifo, p)) kind_allocator (Some fifos_conf) 7 12345
     (fresh_proc (\<lambda>_. [])) = Inr (0, n, p') \<and> n \<le> 10"
  using dummy_only_closes [OF fifos_setup, of "''/tmp/mainServerFIFO''" "\<lambda>a p. Inr (Some sample_fifo, p)" 7
      "fresh_proc (\<lambda>_. [])" sample_fifo _ 12345] sample_fifo_closable
  by (fastforce simp: c_text_def healthy_def)

end
