(* ===== verification/Database.thy ===== *)
theory Database
  imports Printing Logging SQLite_Codes
begin

text \<open>
  \<^verbatim>\<open>database/databaseServer.c\<close>: the process that owns the database and answers product requests
  and orders over two pipes.

  The SQLite library is not part of these sources; the model takes it as a record of operations
  over a handle of any type (\<open>'d sqlite\<close>) and runs the server against it. Every operation passes
  the handle and the process state along.
\<close>

section \<open>The SQLite interface\<close>

text \<open>A result row: for each column its name and its text, \<open>None\<close> for SQL NULL.\<close>

type_synonym row = "(string \<times> string option) list"

text \<open>
  What \<open>sqlite3_exec\<close> does: its code, the rows it hands to the callback in order, and the error
  message it stores (null without an error).
\<close>

record exec_result =
  ex_code :: int
  ex_rows :: "row list"
  ex_errmsg :: "string option"

record 'd sqlite =
  sq_open :: "string \<Rightarrow> int \<times> 'd"
  sq_errmsg :: "'d \<Rightarrow> string"
  sq_exec :: "string \<Rightarrow> 'd \<Rightarrow> exec_result \<times> 'd"
  sq_last_insert_rowid :: "'d \<Rightarrow> int"
  sq_close :: "'d \<Rightarrow> int"

text \<open>The callbacks all return 0, so every row is delivered.\<close>

fun each_row :: "(row \<Rightarrow> 'a \<Rightarrow> 'a c_result) \<Rightarrow> row list \<Rightarrow> 'a \<Rightarrow> 'a c_result" where
  "each_row callback [] a = Inr a"
| "each_row callback (r # rs) a = c_bind (callback r a) (\<lambda>a. each_row callback rs a)"

definition no_callback :: "row \<Rightarrow> unit \<Rightarrow> unit c_result" where
  "no_callback r u = Inr u"

definition run_query ::
  "'d sqlite \<Rightarrow> string \<Rightarrow> (row \<Rightarrow> 'a \<Rightarrow> 'a c_result) \<Rightarrow> 'a \<Rightarrow> 'd \<Rightarrow> proc \<Rightarrow>
     (int \<times> 'a \<times> string option \<times> 'd \<times> proc) c_result" where
  "run_query db query callback a d p =
     c_bind (log_info query p) (\<lambda>(_, p).
     case sq_exec db query d of (r, d) \<Rightarrow>
     c_bind (each_row callback (ex_rows r) a) (\<lambda>a.
     if ex_code r \<noteq> SQLITE_OK then
       c_bind (log_warn ''Last query was not completed successfully.'' p) (\<lambda>(_, p).
       Inr (ex_code r, a, ex_errmsg r, d, p))
     else Inr (ex_code r, a, ex_errmsg r, d, p)))"

text \<open>\<open>log_warn(err)\<close> reads the message through the pointer.\<close>

definition warn_error :: "string option \<Rightarrow> proc \<Rightarrow> proc c_result" where
  "warn_error err p = (case err of
     None \<Rightarrow> Inl Null_deref | Some e \<Rightarrow> c_bind (log_warn e p) (\<lambda>(_, p). Inr p))"

section \<open>The callbacks\<close>

definition col :: "row \<Rightarrow> nat \<Rightarrow> string option c_result" where
  "col r i = (if i < length r then Inr (snd (r ! i)) else Inl Out_of_bounds)"

definition col_text :: "row \<Rightarrow> nat \<Rightarrow> string c_result" where
  "col_text r i = c_bind (col r i) (\<lambda>c. case c of None \<Rightarrow> Inl Null_deref | Some s \<Rightarrow> Inr s)"

definition col_ptr :: "row \<Rightarrow> nat \<Rightarrow> ptr c_result" where
  "col_ptr r i = c_bind (col r i) (\<lambda>c. Inr (case c of None \<Rightarrow> Null_ptr | Some s \<Rightarrow> c_str s))"

text \<open>The destination of \<open>store_single_number\<close> is \<open>None\<close> until a row arrives.\<close>

definition store_single_number :: "row \<Rightarrow> c_int option \<Rightarrow> c_int option c_result" where
  "store_single_number r result = c_bind (col_text r 0) (\<lambda>s. Inr (Some (atoi s)))"

text \<open>The array of \<open>append_products\<close>, null pointers where nothing was stored yet.\<close>

fun free_slot :: "product_t option list \<Rightarrow> nat c_result" where
  "free_slot [] = Inl Out_of_bounds"
| "free_slot (None # xs) = Inr 0"
| "free_slot (Some x # xs) = c_bind (free_slot xs) (\<lambda>i. Inr (Suc i))"

definition append_products :: "row \<Rightarrow> product_t option list \<Rightarrow> product_t option list c_result" where
  "append_products r array =
     c_bind (free_slot array) (\<lambda>i.
     c_bind (col_text r 0) (\<lambda>ident.
     c_bind (col_ptr r 1) (\<lambda>name.
     c_bind (col_ptr r 2) (\<lambda>description.
     c_bind (col_text r 3) (\<lambda>price.
     c_bind (col_text r 4) (\<lambda>quantity.
     c_bind (productNew (atoi ident) name description (f_atof price) (atoi quantity)) (\<lambda>product.
     Inr (array[i := Some product]))))))))"

section \<open>Products\<close>

definition count_query :: string where
  "count_query = ''SELECT count(id) FROM products''"

definition products_query :: string where
  "products_query = ''SELECT id, name, description, price, quantity FROM products''"

definition initialised :: "'a option \<Rightarrow> 'a c_result" where
  "initialised x = (case x of None \<Rightarrow> Inl Uninit | Some v \<Rightarrow> Inr v)"

definition get_products ::
  "'d sqlite \<Rightarrow> 'd \<Rightarrow> proc \<Rightarrow> (int \<times> product_t option list \<times> 'd \<times> proc) c_result" where
  "get_products db d p =
     c_bind (run_query db count_query store_single_number None d p) (\<lambda>(code, num, err, d, p).
     if code \<noteq> SQLITE_OK then c_bind (warn_error err p) (\<lambda>p. Inr (-1, [], d, p))
     else
       c_bind (initialised num) (\<lambda>numProducts.
       if sint numProducts \<le> 0 then Inr (-1, [], d, p)
       else
         c_bind (run_query db products_query append_products (replicate (nat (sint numProducts)) None) d p)
           (\<lambda>(code, array, err, d, p).
         if code \<noteq> SQLITE_OK then c_bind (warn_error err p) (\<lambda>p. Inr (-1, array, d, p))
         else Inr (sint numProducts, array, d, p))))"

text \<open>The results of the writes are not looked at.\<close>

fun send_products_loop :: "fd \<Rightarrow> product_t option list \<Rightarrow> proc \<Rightarrow> proc c_result" where
  "send_products_loop outFD [] p = Inr p"
| "send_products_loop outFD (None # prods) p = Inl Null_deref"
| "send_products_loop outFD (Some product # prods) p =
     c_bind (productSerialize product) (\<lambda>(serializedLen, serialized).
     c_bind (ensureWrite (enc64 (word_of_nat serializedLen)) outFD p) (\<lambda>(_, p).
     c_bind (mem_read serialized 0 serializedLen) (\<lambda>bs.
     c_bind (ensureWrite bs outFD p) (\<lambda>(_, p). send_products_loop outFD prods p))))"

definition send_products :: "'d sqlite \<Rightarrow> fd \<Rightarrow> 'd \<Rightarrow> proc \<Rightarrow> ('d \<times> proc) c_result" where
  "send_products db outFD d p =
     c_bind (get_products db d p) (\<lambda>(numProds, prods, d, p).
     if numProds < 0 then
       c_bind (log_warn ''DB: Error querying products from database.'' p) (\<lambda>(_, p).
       c_bind (ensureWrite (enc32 MESSAGE_ERROR) outFD p) (\<lambda>(_, p). Inr (d, p)))
     else
       c_bind (ensureWrite (enc32 (word_of_int numProds)) outFD p) (\<lambda>(_, p).
       c_bind (send_products_loop outFD prods p) (\<lambda>p. Inr (d, p))))"

section \<open>Stock\<close>

definition stock_base :: string where
  "stock_base = ''SELECT quantity FROM products WHERE id=''"

text \<open>
  The query is cut to its buffer. Without a result row the variable that is returned was never
  stored to.
\<close>

definition stock_query :: "c_int \<Rightarrow> string" where
  "stock_query productId =
     (let size = length stock_base + nat (sint (countDigits productId)) + 1 in
      take (size - 1) (stock_base @ dec_int (sint productId)))"

definition get_stock :: "'d sqlite \<Rightarrow> c_int \<Rightarrow> 'd \<Rightarrow> proc \<Rightarrow> (int \<times> 'd \<times> proc) c_result" where
  "get_stock db productId d p =
     c_bind (run_query db (stock_query productId) store_single_number None d p) (\<lambda>(code, result, err, d, p).
     if code \<noteq> SQLITE_OK then Inr (-1, d, p)
     else c_bind (initialised result) (\<lambda>result. Inr (sint result, d, p)))"

text \<open>The loop over the entries: \<open>k\<close> rounds are left, \<open>i\<close> is the next entry.\<close>

fun verify_loop ::
  "'d sqlite \<Rightarrow> nat \<Rightarrow> int \<Rightarrow> int \<Rightarrow> order_t \<Rightarrow> 'd \<Rightarrow> proc \<Rightarrow> (int \<times> order_t \<times> 'd \<times> proc) c_result" where
  "verify_loop db 0 i satisfied ord d p = Inr (satisfied, ord, d, p)"
| "verify_loop db (Suc k) i satisfied ord d p =
     c_bind (orderGetEntryNum ord i) (\<lambda>e.
     c_bind (orderEntryGetQuantity ord e) (\<lambda>quantity.
     c_bind (orderEntryGetId ord e) (\<lambda>ident.
     c_bind (get_stock db ident d p) (\<lambda>(stock, d, p).
     if stock < sint quantity then
       c_bind (orderEntrySetQuantity ord e (word_of_int stock)) (\<lambda>ord.
       verify_loop db k (i + 1) 0 ord d p)
     else verify_loop db k (i + 1) satisfied ord d p))))"

definition verifyOrderStock ::
  "'d sqlite \<Rightarrow> order_t \<Rightarrow> 'd \<Rightarrow> proc \<Rightarrow> (int \<times> order_t \<times> 'd \<times> proc) c_result" where
  "verifyOrderStock db ord d p =
     c_bind (log_info ''Database server verifying order.'' p) (\<lambda>(_, p).
     c_bind (verify_loop db (nat (orderGetNumEntries ord)) 0 1 ord d p) (\<lambda>(satisfied, ord, d, p).
     c_bind (log_info (if satisfied \<noteq> 0 then ''Order verified.''
       else ''Unsatisfiable order, updated order.'') p) (\<lambda>(_, p).
     Inr (satisfied, ord, d, p))))"

definition update_query :: "c_int \<Rightarrow> c_int \<Rightarrow> string" where
  "update_query quantity ident =
     ''UPDATE products SET quantity=quantity-'' @ dec_int (sint quantity) @ '' WHERE id='' @ dec_int (sint ident)"

text \<open>\<open>query\<close> is a local array of 1024 bytes that the rounds of the loop share.\<close>

definition query_buffer :: ptr where
  "query_buffer = Block (replicate 1024 None)"

text \<open>\<open>sprintf(query + index, ...)\<close>, and the text of the buffer.\<close>

definition sprintf_at :: "ptr \<Rightarrow> int \<Rightarrow> string \<Rightarrow> ptr c_result" where
  "sprintf_at query index s = mem_write query index (bytes_of s @ [0])"

definition buffer_text :: "ptr \<Rightarrow> string c_result" where
  "buffer_text query = c_bind (c_chars query) (\<lambda>bs. Inr (chars_of bs))"

fun update_loop ::
  "'d sqlite \<Rightarrow> nat \<Rightarrow> int \<Rightarrow> order_t \<Rightarrow> ptr \<Rightarrow> 'd \<Rightarrow> proc \<Rightarrow> (int \<times> 'd \<times> proc) c_result" where
  "update_loop db 0 i ord query d p = Inr (1, d, p)"
| "update_loop db (Suc k) i ord query d p =
     c_bind (orderGetEntryNum ord i) (\<lambda>e.
     c_bind (orderEntryGetQuantity ord e) (\<lambda>quantity.
     c_bind (orderEntryGetId ord e) (\<lambda>ident.
     c_bind (sprintf_at query 0 (update_query quantity ident)) (\<lambda>query.
     c_bind (buffer_text query) (\<lambda>text.
     c_bind (run_query db text no_callback () d p) (\<lambda>(code, _, err, d, p).
     if code \<noteq> SQLITE_OK then c_bind (warn_error err p) (\<lambda>p. Inr (-1, d, p))
     else update_loop db k (i + 1) ord query d p))))))"

definition update_stock :: "'d sqlite \<Rightarrow> order_t \<Rightarrow> 'd \<Rightarrow> proc \<Rightarrow> (int \<times> 'd \<times> proc) c_result" where
  "update_stock db ord d p = update_loop db (nat (orderGetNumEntries ord)) 0 ord query_buffer d p"

section \<open>Storing an order\<close>

definition order_base :: string where
  "order_base = ''INSERT INTO orders (total, address, `time`) VALUES (''"

definition entry_base :: string where
  "entry_base = ''INSERT INTO orderEntry (order_id, product_id, quantity) VALUES (''"

text \<open>
  The text of the query is put together in the buffer, piece by piece, at an index that is
  counted along: \<open>countDigits\<close> of the truncated total stands for the digits that \<open>"%.2f"\<close>
  prints before the point.
\<close>

definition order_query :: "order_t \<Rightarrow> int \<Rightarrow> ptr c_result" where
  "order_query ord timestamp =
     c_bind (sprintf_at query_buffer 0 order_base) (\<lambda>query.
     let index = int (length order_base) in
     c_bind (orderGetTotal ord) (\<lambda>total.
     c_bind (sprintf_at query index (print_f2 total @ '','')) (\<lambda>query.
     c_bind (int_of_f total) (\<lambda>whole.
     let index = index + (sint (countDigits (word_of_int whole)) + 1 + 2 + 1) in
     c_bind (c_chars (orderGetAddress ord)) (\<lambda>address.
     c_bind (sprintf_at query index ([CHR 0x22] @ chars_of address @ [CHR 0x22] @ '','')) (\<lambda>query.
     let index = to_int (index + 1 + int (length address) + 1 + 1) in
     c_bind (sprintf_at query index (dec_int timestamp @ '')'')) (\<lambda>query.
     let index = index + (sint (countDigits (word_of_int timestamp)) + 1) in
     mem_write query index [0])))))))"

definition entry_query :: "ptr \<Rightarrow> int \<Rightarrow> c_int \<Rightarrow> c_int \<Rightarrow> ptr c_result" where
  "entry_query query orderID ident quantity =
     c_bind (sprintf_at query 0 entry_base) (\<lambda>query.
     let index = int (length entry_base) in
     c_bind (sprintf_at query index (dec_int orderID @ '','')) (\<lambda>query.
     let index = index + (sint (countDigits (word_of_int orderID)) + 1) in
     c_bind (sprintf_at query index (dec_int (sint ident) @ '','')) (\<lambda>query.
     let index = index + (sint (countDigits ident) + 1) in
     c_bind (sprintf_at query index (dec_int (sint quantity) @ '')'')) (\<lambda>query.
     let index = index + (sint (countDigits quantity) + 1) in
     mem_write query index [0]))))"

fun store_entries_loop ::
  "'d sqlite \<Rightarrow> int \<Rightarrow> nat \<Rightarrow> int \<Rightarrow> order_t \<Rightarrow> ptr \<Rightarrow> 'd \<Rightarrow> proc \<Rightarrow> (int \<times> 'd \<times> proc) c_result" where
  "store_entries_loop db orderID 0 i ord query d p = Inr (orderID, d, p)"
| "store_entries_loop db orderID (Suc k) i ord query d p =
     c_bind (orderGetEntryNum ord i) (\<lambda>e.
     c_bind (orderEntryGetId ord e) (\<lambda>ident.
     c_bind (orderEntryGetQuantity ord e) (\<lambda>quantity.
     c_bind (entry_query query orderID ident quantity) (\<lambda>query.
     c_bind (buffer_text query) (\<lambda>text.
     c_bind (run_query db text no_callback () d p) (\<lambda>(code, _, err, d, p).
     if code \<noteq> SQLITE_OK then
       c_bind (log_warn ''Couldn't store verified order entry:'' p) (\<lambda>(_, p).
       c_bind (warn_error err p) (\<lambda>p. Inr (-1, d, p)))
     else store_entries_loop db orderID k (i + 1) ord query d p))))))"

text \<open>\<open>time(NULL)\<close> is one of the answers of the system.\<close>

definition store_verified_order :: "'d sqlite \<Rightarrow> order_t \<Rightarrow> 'd \<Rightarrow> proc \<Rightarrow> (int \<times> 'd \<times> proc) c_result" where
  "store_verified_order db ord d p =
     (let (timestamp, p) = next_answer p in
      c_bind (order_query ord timestamp) (\<lambda>query.
      c_bind (buffer_text query) (\<lambda>text.
      c_bind (run_query db text no_callback () d p) (\<lambda>(code, _, err, d, p).
      if code \<noteq> SQLITE_OK then
        c_bind (log_warn ''Couldn't store verified order:'' p) (\<lambda>(_, p).
        c_bind (warn_error err p) (\<lambda>p. Inr (-1, d, p)))
      else
        store_entries_loop db (sq_last_insert_rowid db d) (nat (orderGetNumEntries ord)) 0 ord query d p))))"

section \<open>Placing an order\<close>

text \<open>Reading into a variable that was not stored to before, without looking at the result.\<close>

definition read_fresh :: "nat \<Rightarrow> fd \<Rightarrow> proc \<Rightarrow> (byte list \<times> proc) c_result" where
  "read_fresh n fd p =
     c_bind (ensureRead n fd p) (\<lambda>(_, bs, p). if length bs < n then Inl Uninit else Inr (bs, p))"

text \<open>The code of the answer to a satisfiable order.\<close>

definition record_order :: "'d sqlite \<Rightarrow> order_t \<Rightarrow> 'd \<Rightarrow> proc \<Rightarrow> (c_int \<times> 'd \<times> proc) c_result" where
  "record_order db ord d p =
     c_bind (store_verified_order db ord d p) (\<lambda>(stored, d, p).
     c_bind (if stored = -1 then Inr (-1, d, p) else update_stock db ord d p) (\<lambda>(r, d, p).
     if r = -1 then
       c_bind (log_warn ''Database error verifying order.'' p) (\<lambda>(_, p). Inr (MESSAGE_ERROR, d, p))
     else
       c_bind (log_info ''Order placed successfully.'' p) (\<lambda>(_, p). Inr (MESSAGE_OK, d, p))))"

definition place_order :: "'d sqlite \<Rightarrow> fd \<Rightarrow> fd \<Rightarrow> 'd \<Rightarrow> proc \<Rightarrow> ('d \<times> proc) c_result" where
  "place_order db inFD outFD d p =
     c_bind (read_fresh 8 inFD p) (\<lambda>(bs, p).
     let serializedSize = unat (dec64 bs) in
     c_bind (ensureRead serializedSize inFD p) (\<lambda>(_, got, p).
     c_bind (orderUnserialize (received serializedSize got)) (\<lambda>ord.
     c_bind (verifyOrderStock db ord d p) (\<lambda>(satisfiable, ord, d, p).
     if satisfiable \<noteq> 0 then
       c_bind (record_order db ord d p) (\<lambda>(responseCode, d, p).
       c_bind (ensureWrite (enc32 responseCode) outFD p) (\<lambda>(_, p). Inr (d, p)))
     else
       c_bind (ensureWrite (enc32 MESSAGE_UNSATISFIABLE_ORDER) outFD p) (\<lambda>(_, p).
       c_bind (orderSerialize ord) (\<lambda>(serializedSize, serialized).
       c_bind (ensureWrite (enc64 (word_of_nat serializedSize)) outFD p) (\<lambda>(_, p).
       c_bind (mem_read serialized 0 serializedSize) (\<lambda>bs.
       c_bind (ensureWrite bs outFD p) (\<lambda>(_, p).
       c_bind (log_info ''Received unsatisfiable order, replied with biggest satisfiable sub-order.'' p) (\<lambda>(_, p).
       Inr (d, p)))))))))))"

section \<open>The server process\<close>

text \<open>The statements of \<open>init\<close>, with their quotes.\<close>

definition quoted :: "string \<Rightarrow> string" where
  "quoted s = [CHR 0x22] @ s @ [CHR 0x22]"

definition init_queries :: "string list" where
  "init_queries =
    [''CREATE TABLE IF NOT EXISTS products(id INTEGER PRIMARY KEY NOT NULL, name TEXT NOT NULL, quantity INTEGER NOT NULL DEFAULT 0 check(quantity >= 0), price FLOAT NOT NULL, description TEXT);'',
     ''CREATE TABLE IF NOT EXISTS orders(id INTEGER PRIMARY KEY NOT NULL, total FLOAT NOT NULL, address TEXT, `time` INTEGER NOT NULL);'',
     ''CREATE TABLE IF NOT EXISTS orderEntry(id INTEGER PRIMARY KEY NOT NULL, order_id INTEGER NOT NULL, product_id INTEGER NOT NULL, quantity INTEGER NOT NULL DEFAULT 1, FOREIGN KEY (order_id) REFERENCES orders(id), FOREIGN KEY (product_id) REFERENCES products(id));'',
     ''DELETE FROM products;'',
     ''INSERT INTO products VALUES(1, '' @ quoted ''Vodka'' @ '', 60, 30.5, '' @ quoted ''A Russian favourite imported from the heart of the coldest place on Earth, Serbia'' @ '');'',
     ''INSERT INTO products VALUES(2, '' @ quoted ''Gin'' @ '', 30, 40, '' @ quoted ''A Dutch favourite'' @ '');'',
     ''INSERT INTO products VALUES(3, '' @ quoted ''Chianti'' @ '', 40, 90, '' @ quoted ''Aged wine imported from the cuore of Tuscany, Italy'' @ '');'',
     ''INSERT INTO products VALUES(4, '' @ quoted ''Fernet'' @ '', 100, 25, '' @ quoted ''Want to get drunk at a pregame with your amigos? Nothing beats the terrible hangover that Fernet gives you'' @ '');'',
     ''INSERT INTO products VALUES(5, '' @ quoted ''Quilmes'' @ '', 200, 20, '' @ quoted ''You aren't Argentine until you've drunk Quilmes, the most famous beer in la Tierra de la Plata'' @ '');'']"

fun init_loop :: "'d sqlite \<Rightarrow> string list \<Rightarrow> int \<Rightarrow> 'd \<Rightarrow> proc \<Rightarrow> (int \<times> 'd \<times> proc) c_result" where
  "init_loop db [] result d p = Inr (result, d, p)"
| "init_loop db (q # qs) result d p =
     c_bind (run_query db q no_callback () d p) (\<lambda>(code, _, err, d, p).
     if code \<noteq> SQLITE_OK then c_bind (warn_error err p) (\<lambda>p. init_loop db qs 0 d p)
     else init_loop db qs result d p)"

definition init_db :: "'d sqlite \<Rightarrow> 'd \<Rightarrow> proc \<Rightarrow> (int \<times> 'd \<times> proc) c_result" where
  "init_db db d p = init_loop db init_queries 1 d p"

definition db_shut_down :: "'d sqlite \<Rightarrow> fd \<Rightarrow> fd \<Rightarrow> 'd \<Rightarrow> proc \<Rightarrow> proc c_result" where
  "db_shut_down db outFD inFD d p =
     (let (_, p) = sys_close outFD p; (_, p) = sys_close inFD p in
      c_bind (if sq_close db d \<noteq> SQLITE_OK then
                log_warn ''Couldn't close database handle. Shutting down database server anyway.'' p
              else Inr (1, p)) (\<lambda>(_, p).
      c_bind (log_info ''Bye-bye from database server.'' p) (\<lambda>(_, p). Inr p)))"

text \<open>
  One round of the main loop: whether it was the last one. \<open>select\<close> draws the next answer of
  the system.
\<close>

definition db_round :: "'d sqlite \<Rightarrow> fd \<Rightarrow> fd \<Rightarrow> 'd \<Rightarrow> proc \<Rightarrow> (bool \<times> 'd \<times> proc) c_result" where
  "db_round db inFD outFD d p =
     (let (answer, p) = next_answer p in
      c_bind (select_wrapper (inFD + 1) (Some [inFD]) 1 None 0 None 0 (- 1) (- 1) (\<lambda>_. answer)) (\<lambda>s.
      if s = -1 then
        c_bind (log_warn ''Database select failed. Trying again.'' p) (\<lambda>(_, p). Inr (False, d, p))
      else
        c_bind (read_fresh 4 inFD p) (\<lambda>(bs, p).
        let msgCode = dec32 bs in
        if msgCode = CMD_GET_PRODUCTS then
          c_bind (log_info ''Database server sending back products'' p) (\<lambda>(_, p).
          c_bind (send_products db outFD d p) (\<lambda>(d, p). Inr (False, d, p)))
        else if msgCode = CMD_PLACE_ORDER then
          c_bind (log_info ''Database server placing order'' p) (\<lambda>(_, p).
          c_bind (place_order db inFD outFD d p) (\<lambda>(d, p). Inr (False, d, p)))
        else if msgCode = MESSAGE_CLOSE then
          c_bind (log_info ''Database received CLOSE command, shutting down.'' p) (\<lambda>(_, p).
          Inr (True, d, p))
        else
          c_bind (log_warn ''WAT. Database received unknown message code. Behavior from here on is unspecified.'' p)
            (\<lambda>(_, p). Inr (False, d, p)))))"

partial_function (option) db_loop ::
  "'d sqlite \<Rightarrow> fd \<Rightarrow> fd \<Rightarrow> 'd \<Rightarrow> proc \<Rightarrow> ('d \<times> proc) c_result option" where
  "db_loop db inFD outFD d p =
     (case db_round db inFD outFD d p of
        Inl e \<Rightarrow> Some (Inl e)
      | Inr (finished, d', p') \<Rightarrow> if finished then Some (Inr (d', p')) else db_loop db inFD outFD d' p')"

definition dbFileName :: string where
  "dbFileName = ''db''"

text \<open>
  \<open>main\<close> with its arguments after the program name: the exit status, the last state of the
  handle when one was opened, and the process.
\<close>

definition db_main :: "'d sqlite \<Rightarrow> string list \<Rightarrow> proc \<Rightarrow> (int \<times> 'd option \<times> proc) c_result" where
  "db_main db args p =
     (case args of
        [arg1, arg2] \<Rightarrow>
          (let inFD = sint (atoi arg1); outFD = sint (atoi arg2); p = remove_file dbFileName p;
               (opened, d) = sq_open db dbFileName in
           if opened \<noteq> 0 then
             c_bind (log_err ''Database server couldn't open database:'' p) (\<lambda>(_, p).
             c_bind (log_err (sq_errmsg db d) p) (\<lambda>(_, p).
             c_bind (log_err ''Database server aborting.'' p) (\<lambda>(_, p). Inr (0, Some d, p))))
           else
             c_bind (init_db db d p) (\<lambda>(ok, d, p).
             c_bind (if ok = 0 then log_warn ''Database initialized with errors.'' p else Inr (1, p)) (\<lambda>(_, p).
             c_bind (log_info ''This is database server, waiting for requests...'' p) (\<lambda>(_, p).
             c_bind (case db_loop db inFD outFD d p of None \<Rightarrow> Inl No_return | Some r \<Rightarrow> r) (\<lambda>(d, p).
             c_bind (db_shut_down db outFD inFD d p) (\<lambda>p. Inr (0, Some d, p)))))))
      | _ \<Rightarrow>
          c_bind (log_err ''Database started with invalid parameters. Aborting.'' p) (\<lambda>(_, p).
          Inr (-1, None, p)))"

end
