(* ===== verification/Store.thy ===== *)
theory Store
  imports Database
begin

text \<open>
  What the database server stores, the contract it relies on of the SQLite library
  (\<open>sql_store\<close>: the meaning of the statements it runs), and what its queries do under it.
\<close>

section \<open>The contents of the database\<close>

text \<open>A row of the products table; the price is the text SQLite gives for it.\<close>

record stock_row =
  sr_id :: int
  sr_name :: string
  sr_description :: string
  sr_price :: string
  sr_quantity :: int

text \<open>
  The rows of \<open>orders\<close> (identifier, total, address, time) and of \<open>orderEntry\<close> (order, product,
  quantity), in the order they were inserted.
\<close>

record store =
  st_products :: "stock_row list"
  st_orders :: "(int \<times> string \<times> string \<times> int) list"
  st_lines :: "(int \<times> int \<times> int) list"

definition spec_of_row :: "stock_row \<Rightarrow> product_spec" where
  "spec_of_row r = \<lparr>ps_id = word_of_int (sr_id r), ps_name = bytes_of (sr_name r) @ [0],
     ps_description = bytes_of (sr_description r) @ [0], ps_price = f_atof (sr_price r),
     ps_stock = word_of_int (sr_quantity r)\<rparr>"

definition row_ok :: "stock_row \<Rightarrow> bool" where
  "row_ok r \<longleftrightarrow> in_int (sr_id r) \<and> in_int (sr_quantity r) \<and> 0 \<le> sr_quantity r \<and>
     c_text (sr_name r) \<and> c_text (sr_description r) \<and>
     length (sr_name r) + length (sr_description r) + 22 < 2 ^ 31"

definition store_ok :: "store \<Rightarrow> bool" where
  "store_ok st \<longleftrightarrow> distinct (map sr_id (st_products st)) \<and> (\<forall>r \<in> set (st_products st). row_ok r) \<and>
     length (st_products st) < 2 ^ 31 \<and> (\<forall>x \<in> set (st_orders st). 0 < fst x)"

text \<open>The identifier of a new order: one more than the largest one in the table.\<close>

definition next_id :: "store \<Rightarrow> int" where
  "next_id st = (if st_orders st = [] then 1 else Max (fst ` set (st_orders st)) + 1)"

definition row_values :: "stock_row \<Rightarrow> string option list" where
  "row_values r = [Some (dec_int (sr_id r)), Some (sr_name r), Some (sr_description r),
     Some (sr_price r), Some (dec_int (sr_quantity r))]"

definition stock_of :: "store \<Rightarrow> int \<Rightarrow> int option" where
  "stock_of st i = map_option sr_quantity (find (\<lambda>r. sr_id r = i) (st_products st))"

text \<open>The rows \<open>init\<close> inserts, the prices as SQLite gives a \<open>FLOAT\<close> column back.\<close>

definition catalogue :: "stock_row list" where
  "catalogue =
    [\<lparr>sr_id = 1, sr_name = ''Vodka'',
       sr_description = ''A Russian favourite imported from the heart of the coldest place on Earth, Serbia'',
       sr_price = ''30.5'', sr_quantity = 60\<rparr>,
     \<lparr>sr_id = 2, sr_name = ''Gin'', sr_description = ''A Dutch favourite'', sr_price = ''40.0'', sr_quantity = 30\<rparr>,
     \<lparr>sr_id = 3, sr_name = ''Chianti'', sr_description = ''Aged wine imported from the cuore of Tuscany, Italy'',
       sr_price = ''90.0'', sr_quantity = 40\<rparr>,
     \<lparr>sr_id = 4, sr_name = ''Fernet'',
       sr_description = ''Want to get drunk at a pregame with your amigos? Nothing beats the terrible hangover that Fernet gives you'',
       sr_price = ''25.0'', sr_quantity = 100\<rparr>,
     \<lparr>sr_id = 5, sr_name = ''Quilmes'',
       sr_description = ''You aren't Argentine until you've drunk Quilmes, the most famous beer in la Tierra de la Plata'',
       sr_price = ''20.0'', sr_quantity = 200\<rparr>]"

definition empty_store :: store where
  "empty_store = \<lparr>st_products = [], st_orders = [], st_lines = []\<rparr>"

definition start_store :: store where
  "start_store = empty_store\<lparr>st_products := catalogue\<rparr>"

text \<open>\<open>UPDATE ... SET quantity=quantity-n WHERE id=i\<close>.\<close>

definition take_stock :: "int \<Rightarrow> int \<Rightarrow> store \<Rightarrow> store" where
  "take_stock n i st = st\<lparr>st_products :=
     map (\<lambda>r. if sr_id r = i then r\<lparr>sr_quantity := sr_quantity r - n\<rparr> else r) (st_products st)\<rparr>"

definition enough :: "int \<Rightarrow> int \<Rightarrow> store \<Rightarrow> bool" where
  "enough n i st \<longleftrightarrow> (\<forall>r \<in> set (st_products st). sr_id r = i \<longrightarrow> n \<le> sr_quantity r)"

text \<open>The amounts \<open>"%.2f"\<close> prints for a total that is not negative, and the addresses the client accepts.\<close>

definition amount_text :: "string \<Rightarrow> bool" where
  "amount_text t \<longleftrightarrow> (\<exists>w c. c < 100 \<and> t = dec_nat w @ ''.'' @ two_digits c)"

definition plain :: "string \<Rightarrow> bool" where
  "plain a \<longleftrightarrow> (\<forall>c \<in> set a. c = CHR '' '' \<or> is_digit c \<or> 65 \<le> char_code c \<and> char_code c \<le> 90 \<or>
     97 \<le> char_code c \<and> char_code c \<le> 122)"

definition insert_order_text :: "string \<Rightarrow> string \<Rightarrow> int \<Rightarrow> string" where
  "insert_order_text amount address time =
     order_base @ amount @ '','' @ [CHR 0x22] @ address @ [CHR 0x22] @ '','' @ dec_int time @ '')''"

definition insert_line_text :: "int \<Rightarrow> int \<Rightarrow> int \<Rightarrow> string" where
  "insert_line_text orderID ident quantity =
     entry_base @ dec_int orderID @ '','' @ dec_int ident @ '','' @ dec_int quantity @ '')''"

definition update_text :: "int \<Rightarrow> int \<Rightarrow> string" where
  "update_text quantity ident =
     ''UPDATE products SET quantity=quantity-'' @ dec_int quantity @ '' WHERE id='' @ dec_int ident"

section \<open>The contract of the library\<close>

definition answers_rows :: "exec_result \<times> 'd \<Rightarrow> string option list list \<Rightarrow> 'd \<Rightarrow> bool" where
  "answers_rows x rows d \<longleftrightarrow> ex_code (fst x) = SQLITE_OK \<and> map (map snd) (ex_rows (fst x)) = rows \<and> snd x = d"

definition refuses :: "exec_result \<times> 'd \<Rightarrow> 'd \<Rightarrow> bool" where
  "refuses x d \<longleftrightarrow> ex_code (fst x) \<noteq> SQLITE_OK \<and> ex_rows (fst x) = [] \<and> snd x = d \<and>
     (\<exists>e. ex_errmsg (fst x) = Some e \<and> c_text e \<and> length e < 255)"

definition performs :: "exec_result \<times> 'd \<Rightarrow> bool" where
  "performs x \<longleftrightarrow> ex_code (fst x) = SQLITE_OK \<and> ex_rows (fst x) = []"

text \<open>
  For a handle that is in order (\<open>usable\<close>), with contents \<open>view\<close>: the statements of the server
  mean what SQL says, the check on \<open>quantity\<close> refuses an update, and a new row of \<open>orders\<close> gets
  the next identifier, which \<open>sqlite3_last_insert_rowid\<close> reports.
\<close>

locale sql_store =
  fixes db :: "'d sqlite" and view :: "'d \<Rightarrow> store" and usable :: "'d \<Rightarrow> bool"
  assumes view_ok: "usable d \<Longrightarrow> store_ok (view d)"
    and count_rows: "usable d \<Longrightarrow>
      answers_rows (sq_exec db count_query d) [[Some (dec_int (int (length (st_products (view d)))))]] d"
    and product_rows: "usable d \<Longrightarrow>
      answers_rows (sq_exec db products_query d) (map row_values (st_products (view d))) d"
    and stock_row: "usable d \<Longrightarrow> in_int i \<Longrightarrow> answers_rows (sq_exec db (stock_base @ dec_int i) d)
      (case stock_of (view d) i of None \<Rightarrow> [] | Some q \<Rightarrow> [[Some (dec_int q)]]) d"
    and update_row: "usable d \<Longrightarrow> in_int i \<Longrightarrow> in_int n \<Longrightarrow> 0 \<le> n \<Longrightarrow> enough n i (view d) \<Longrightarrow>
      performs (sq_exec db (update_text n i) d) \<and> usable (snd (sq_exec db (update_text n i) d)) \<and>
      view (snd (sq_exec db (update_text n i) d)) = take_stock n i (view d)"
    and update_refused: "usable d \<Longrightarrow> in_int i \<Longrightarrow> in_int n \<Longrightarrow> 0 \<le> n \<Longrightarrow> \<not> enough n i (view d) \<Longrightarrow>
      refuses (sq_exec db (update_text n i) d) d"
    and insert_order: "usable d \<Longrightarrow> amount_text t \<Longrightarrow> plain a \<Longrightarrow> in_int time \<Longrightarrow> 0 \<le> time \<Longrightarrow>
      performs (sq_exec db (insert_order_text t a time) d) \<and>
      usable (snd (sq_exec db (insert_order_text t a time) d)) \<and>
      sq_last_insert_rowid db (snd (sq_exec db (insert_order_text t a time) d)) = next_id (view d) \<and>
      view (snd (sq_exec db (insert_order_text t a time) d)) =
        (view d)\<lparr>st_orders := st_orders (view d) @ [(next_id (view d), t, a, time)]\<rparr>"
    and insert_line: "usable d \<Longrightarrow> in_int k \<Longrightarrow> in_int i \<Longrightarrow> in_int n \<Longrightarrow>
      performs (sq_exec db (insert_line_text k i n) d) \<and>
      usable (snd (sq_exec db (insert_line_text k i n) d)) \<and>
      view (snd (sq_exec db (insert_line_text k i n) d)) =
        (view d)\<lparr>st_lines := st_lines (view d) @ [(k, i, n)]\<rparr>"
begin

lemma next_id_pos: "usable d \<Longrightarrow> 0 < next_id (view d)"
  using view_ok [of d] Max_in [of "fst ` set (st_orders (view d))"]
  by (fastforce simp: next_id_def store_ok_def)

end

text \<open>A database that can be opened, and that the statements of \<open>init\<close> fill.\<close>

fun all_perform :: "'d sqlite \<Rightarrow> string list \<Rightarrow> 'd \<Rightarrow> bool" where
  "all_perform db [] d = True"
| "all_perform db (q # qs) d =
     (performs (sq_exec db q d) \<and> all_perform db qs (snd (sq_exec db q d)))"

definition after_queries :: "'d sqlite \<Rightarrow> string list \<Rightarrow> 'd \<Rightarrow> 'd" where
  "after_queries db qs d = fold (\<lambda>q d. snd (sq_exec db q d)) qs d"

locale sql_server = sql_store db view usable
  for db :: "'d sqlite" and view :: "'d \<Rightarrow> store" and usable :: "'d \<Rightarrow> bool" +
  assumes opened: "fst (sq_open db dbFileName) = 0"
    and init_performs: "all_perform db init_queries (snd (sq_open db dbFileName))"
    and init_usable: "usable (after_queries db init_queries (snd (sq_open db dbFileName)))"
    and init_view: "view (after_queries db init_queries (snd (sq_open db dbFileName))) = start_store"
begin

end

section \<open>Running a query\<close>

text \<open>Everything but the log is as it was.\<close>

definition same_io :: "proc \<Rightarrow> proc \<Rightarrow> bool" where
  "same_io p p' \<longleftrightarrow> rd p' = rd p \<and> wr p' = wr p \<and> sent p' = sent p \<and> stdin p' = stdin p \<and>
     files p' = files p \<and> opens p' = opens p \<and> answers p' = answers p"

lemma same_io_refl [simp]: "same_io p p"
  by (simp add: same_io_def)

lemma same_io_trans [trans]: "same_io p q \<Longrightarrow> same_io q r \<Longrightarrow> same_io p r"
  by (simp add: same_io_def)

lemma same_io_logged [simp]: "same_io p (logged s lvl q) \<longleftrightarrow> same_io p q"
  by (simp add: same_io_def)

lemma same_ioD:
  assumes "same_io p p'"
  shows "rd p' = rd p" "wr p' = wr p" "sent p' = sent p" "answers p' = answers p" "rd_avail p' = rd_avail p"
  using assms by (simp_all add: same_io_def rd_avail_def fun_eq_iff)

lemma run_query_answers:
  assumes "c_text query" and "length query < 255" and "answers_rows (sq_exec db query d) vals d'"
  obtains rows err p' where "map (map snd) rows = vals" and "same_io p p'"
    and "run_query db query callback a d p =
      c_bind (each_row callback rows a) (\<lambda>a. Inr (SQLITE_OK, a, err, d', p'))"
proof -
  obtain r where "log_info query p = Inr (r, logged query INFO p)"
    using log_info_short [OF assms(1,2)] by blast
  with assms(3) show thesis
    by (intro that [of "ex_rows (fst (sq_exec db query d))" "logged query INFO p"
        "ex_errmsg (fst (sq_exec db query d))"])
      (auto simp: run_query_def answers_rows_def split: prod.splits)
qed

lemma run_query_performs:
  assumes "c_text query" and "length query < 255" and "performs (sq_exec db query d)"
  shows "\<exists>err p'. same_io p p' \<and>
    run_query db query callback a d p = Inr (SQLITE_OK, a, err, snd (sq_exec db query d), p')"
proof -
  have "answers_rows (sq_exec db query d) [] (snd (sq_exec db query d))"
    using assms(3) by (simp add: performs_def answers_rows_def)
  then obtain rows err p' where "map (map snd) rows = []" "same_io p p'"
    "run_query db query callback a d p = c_bind (each_row callback rows a)
      (\<lambda>a. Inr (SQLITE_OK, a, err, snd (sq_exec db query d), p'))"
    by (rule run_query_answers [OF assms(1,2)])
  then show ?thesis by auto
qed

lemma run_query_refuses:
  assumes "c_text query" and "length query < 255" and "refuses (sq_exec db query d) d"
  shows "\<exists>code e p'. code \<noteq> SQLITE_OK \<and> c_text e \<and> length e < 255 \<and> same_io p p' \<and>
    run_query db query callback a d p = Inr (code, a, Some e, d, p')"
proof -
  let ?w = "''Last query was not completed successfully.''"
  obtain r where r: "log_info query p = Inr (r, logged query INFO p)"
    using log_info_short [OF assms(1,2)] by blast
  have "c_text ?w" "length ?w < 255" by (simp_all add: c_text_def)
  then obtain r' where r': "log_warn ?w (logged query INFO p) = Inr (r', logged ?w WARNING (logged query INFO p))"
    using log_warn_short by blast
  show ?thesis using assms(3) r r' by (auto simp: run_query_def refuses_def split: prod.splits)
qed

lemma warn_error_short:
  "c_text e \<Longrightarrow> length e < 255 \<Longrightarrow> \<exists>p'. warn_error (Some e) p = Inr p' \<and> same_io p p'"
  using log_warn_short [of e p] by (auto simp: warn_error_def)

section \<open>Reading the products\<close>

lemma col_vals: "map snd r = vals \<Longrightarrow> col r i = (if i < length vals then Inr (vals ! i) else Inl Out_of_bounds)"
  by (auto simp: col_def)

lemma free_slot_next: "free_slot (map Some xs @ None # rest) = Inr (length xs)"
  by (induction xs) auto

lemma spec_of_row_ok: "row_ok r \<Longrightarrow> product_ok (spec_of_row r)"
  by (simp add: row_ok_def product_ok_def spec_of_row_def zero_notin_bytes_of)

lemma atoi_int: "in_int k \<Longrightarrow> atoi (dec_int k) = word_of_int k"
  using atoi_dec_int [of k "[]"] by (simp add: in_int_def)

lemma append_product:
  assumes "map snd r = row_values x" and "row_ok x"
  shows "append_products r (map Some xs @ None # rest) =
    Inr (map Some (xs @ [product_of (spec_of_row x)]) @ rest)"
proof -
  note new = productNew_of [OF spec_of_row_ok [OF assms(2)]]
  have "in_int (sr_id x)" "in_int (sr_quantity x)" using assms(2) by (simp_all add: row_ok_def)
  with new show ?thesis
    by (simp add: append_products_def free_slot_next col_text_def col_ptr_def col_vals [OF assms(1)]
        row_values_def atoi_int c_str_def spec_of_row_def list_update_append)
qed

lemma append_rows:
  "map (map snd) rs = map row_values xs \<Longrightarrow> \<forall>x \<in> set xs. row_ok x \<Longrightarrow>
     each_row append_products rs (map Some done @ replicate (length xs) None) =
       Inr (map Some (done @ map (\<lambda>x. product_of (spec_of_row x)) xs))"
proof (induction xs arbitrary: rs "done")
  case (Cons x xs)
  then obtain r rs' where rs: "rs = r # rs'" "map snd r = row_values x" "map (map snd) rs' = map row_values xs"
    by (auto simp: map_eq_Cons_conv)
  with Cons.IH [of rs' "done @ [product_of (spec_of_row x)]"] Cons.prems
    append_product [OF rs(2), of "done" "replicate (length xs) None"] show ?case by simp
qed simp

lemma single_number:
  "map (map snd) rs = [[Some (dec_int k)]] \<Longrightarrow> in_int k \<Longrightarrow>
     each_row store_single_number rs x = Inr (Some (word_of_int k))"
  by (auto simp: map_eq_Cons_conv store_single_number_def col_text_def col_def atoi_int)

definition catalogue_specs :: "store \<Rightarrow> product_spec list" where
  "catalogue_specs st = map spec_of_row (st_products st)"

lemma catalogue_specs_ok: "store_ok st \<Longrightarrow> \<forall>s \<in> set (catalogue_specs st). product_ok s"
  by (auto simp: catalogue_specs_def store_ok_def spec_of_row_ok)

lemma query_texts:
  "c_text count_query" "length count_query < 255" "c_text products_query" "length products_query < 255"
  by (simp_all add: count_query_def products_query_def c_text_def)

context sql_store
begin

lemma count_products:
  assumes "usable d"
  shows "\<exists>err p'. same_io p p' \<and> run_query db count_query store_single_number None d p =
    Inr (SQLITE_OK, Some (word_of_nat (length (st_products (view d)))), err, d, p')"
proof -
  let ?n = "length (st_products (view d))"
  have "in_int (int ?n)" using view_ok [OF assms] by (simp add: store_ok_def in_int_nat)
  then have num: "each_row store_single_number rows None = Inr (Some (word_of_nat ?n))"
    if "map (map snd) rows = [[Some (dec_int (int ?n))]]" for rows
    using single_number [OF that, of None] by simp
  obtain rows err p' where "map (map snd) rows = [[Some (dec_int (int ?n))]]" "same_io p p'"
    "run_query db count_query store_single_number None d p =
      c_bind (each_row store_single_number rows None) (\<lambda>a. Inr (SQLITE_OK, a, err, d, p'))"
    by (rule run_query_answers [OF query_texts(1,2) count_rows [OF assms]])
  with num [of rows] show ?thesis by auto
qed

lemma get_products_catalogue:
  assumes "usable d" and "st_products (view d) \<noteq> []"
  shows "\<exists>p'. same_io p p' \<and> get_products db d p = Inr (int (length (st_products (view d))),
    map Some (map product_of (catalogue_specs (view d))), d, p')"
proof -
  let ?xs = "st_products (view d)"
  have ok: "\<forall>x \<in> set ?xs. row_ok x" "length ?xs < 2 ^ 31"
    using view_ok [OF assms(1)] by (simp_all add: store_ok_def)
  then have n: "sint (word_of_nat (length ?xs) :: c_int) = int (length ?xs)"
    by (simp add: sint_of_nat in_int_def)
  obtain err p1 where 1: "same_io p p1" "run_query db count_query store_single_number None d p =
      Inr (SQLITE_OK, Some (word_of_nat (length ?xs)), err, d, p1)"
    using count_products [OF assms(1)] by blast
  obtain rows err' p2 where 2: "map (map snd) rows = map row_values ?xs" "same_io p1 p2"
    "run_query db products_query append_products (replicate (length ?xs) None) d p1 =
      c_bind (each_row append_products rows (replicate (length ?xs) None))
        (\<lambda>a. Inr (SQLITE_OK, a, err', d, p2))"
    by (rule run_query_answers [OF query_texts(3,4) product_rows [OF assms(1)]])
  have "get_products db d p = Inr (int (length ?xs), map Some (map product_of (catalogue_specs (view d))), d, p2)"
    using assms(2) n 1(2) 2(3) append_rows [OF 2(1) ok(1), of "[]"]
    by (simp add: get_products_def initialised_def catalogue_specs_def comp_def)
  with same_io_trans [OF 1(1) 2(2)] show ?thesis by blast
qed

lemma get_products_empty:
  assumes "usable d" and "st_products (view d) = []"
  shows "\<exists>p'. same_io p p' \<and> get_products db d p = Inr (-1, [], d, p')"
  using count_products [OF assms(1), of p] assms(2) by (auto simp: get_products_def initialised_def)

end

section \<open>Sending them\<close>

lemma send_products_loop_frames:
  assumes "\<forall>s \<in> set ps. product_ok s" and "healthy (wr p f)"
  shows "\<exists>p'. send_products_loop f (map Some (map product_of ps)) p = Inr p' \<and> rd p' = rd p \<and>
    answers p' = answers p \<and> (\<forall>g. healthy (wr p g) \<longrightarrow> healthy (wr p' g)) \<and>
    sent p' = (sent p)(f := sent p f @ concat (map (\<lambda>s. frame (product_bytes s)) ps))"
  using assms
proof (induction ps arbitrary: p)
  case (Cons s ps)
  let ?n = "word_of_nat (length (product_bytes s)) :: size_t"
  let ?p = "deliver f (product_bytes s) (deliver f (enc64 ?n) p)"
  have ok: "product_ok s" using Cons.prems(1) by simp
  have len: "length (product_bytes s) < 2 ^ 31"
    using product_wire.enc_message [OF ok] by (simp add: message_ok_def)
  obtain p' where "send_products_loop f (map Some (map product_of ps)) ?p = Inr p'" "rd p' = rd ?p"
    "answers p' = answers ?p" "\<forall>g. healthy (wr ?p g) \<longrightarrow> healthy (wr p' g)"
    "sent p' = (sent ?p)(f := sent ?p f @ concat (map (\<lambda>s. frame (product_bytes s)) ps))"
    using Cons.IH [of ?p] Cons.prems by (metis healthy_deliver list.set_intros(2))
  then show ?case
    using Cons.prems len
    by (auto simp: product_wire.ser_layout [OF ok] mem_read_full ensureWrite_healthy frame_def)
qed auto

end
