(* ===== verification/Placing.thy ===== *)
theory Placing
  imports Store
begin

text \<open>
  What placing an order does, over any database that keeps the contract of \<open>sql_store\<close>: checking
  the stock, writing the order, taking the stock, and the answer.
\<close>

section \<open>The entries of an order\<close>

lemma orderGetEntryNum_order_of [simp]:
  "length (os_entries s) \<le> 16 \<Longrightarrow> k < length (os_entries s) \<Longrightarrow>
     orderGetEntryNum (order_of s) (int k) = Inr (Some (int k))"
  using items_length_order_of [of s] by (simp add: orderGetEntryNum_def orderGetNumEntries_def numEntries_order_of)
    (simp add: order_of_def nth_append)

lemma orderEntryGet_order_of [simp]:
  assumes "length (os_entries s) \<le> 16" and "k < length (os_entries s)"
  shows "orderEntryGetId (order_of s) (Some (int k)) = Inr (oe_product_id (os_entries s ! k))"
    and "orderEntryGetQuantity (order_of s) (Some (int k)) = Inr (oe_quantity (os_entries s ! k))"
    and "orderEntrySetQuantity (order_of s) (Some (int k)) q =
      Inr (order_of (s\<lparr>os_entries := (os_entries s)[k := (os_entries s ! k)\<lparr>oe_quantity := q\<rparr>]\<rparr>))"
  using assms by (simp_all add: orderEntryGetId_def orderEntryGetQuantity_def orderEntrySetQuantity_def
      deref_entry_def entry_at_order_of set_item_order_of)

lemma numEntries_nat [simp]:
  "length (os_entries s) \<le> 16 \<Longrightarrow> nat (orderGetNumEntries (order_of s)) = length (os_entries s)"
  by (simp add: orderGetNumEntries_def numEntries_order_of)

section \<open>Looking up the stock\<close>

lemma length_dec_sint: "length (dec_int (sint (w :: c_int))) \<le> 11"
  by (rule length_dec_int_le) simp

lemma sint_countDigits [simp]: "sint (countDigits w) = int (length (dec_int (sint w)))"
  using countDigits_of_int [of "sint w"] by simp

lemma stock_query_text: "stock_query i = stock_base @ dec_int (sint i)"
  by (simp add: stock_query_def Let_def)

lemma c_text_stock_query: "c_text (stock_base @ dec_int k)"
proof -
  have "c_text stock_base" by (simp add: stock_base_def c_text_def)
  then show ?thesis by (simp only: c_text_append c_text_dec_int simp_thms)
qed

lemma stock_of_in_int: "store_ok st \<Longrightarrow> stock_of st i = Some q \<Longrightarrow> in_int q \<and> 0 \<le> q"
  by (auto simp: stock_of_def store_ok_def find_Some_iff row_ok_def)

context sql_store
begin

lemma get_stock_row:
  assumes "usable d"
  obtains p' where "same_io p p'" and "get_stock db i d p = (case stock_of (view d) (sint i) of
    None \<Rightarrow> Inl Uninit | Some q \<Rightarrow> Inr (q, d, p'))"
proof -
  let ?q = "stock_query i"
  have q: "c_text ?q" "length ?q < 255"
    using c_text_stock_query length_dec_sint [of i] by (simp_all add: stock_query_text stock_base_def)
  have law: "answers_rows (sq_exec db ?q d)
      (case stock_of (view d) (sint i) of None \<Rightarrow> [] | Some q \<Rightarrow> [[Some (dec_int q)]]) d"
    unfolding stock_query_text by (rule stock_row [OF assms]) simp
  obtain rows err p' where r: "map (map snd) rows =
      (case stock_of (view d) (sint i) of None \<Rightarrow> [] | Some q \<Rightarrow> [[Some (dec_int q)]])" "same_io p p'"
    "run_query db ?q store_single_number None d p = c_bind (each_row store_single_number rows None)
      (\<lambda>a. Inr (SQLITE_OK, a, err, d, p'))"
    by (rule run_query_answers [OF q law])
  have "get_stock db i d p = (case stock_of (view d) (sint i) of
    None \<Rightarrow> Inl Uninit | Some q \<Rightarrow> Inr (q, d, p'))"
  proof (cases "stock_of (view d) (sint i)")
    case None
    with r show ?thesis by (simp add: get_stock_def initialised_def)
  next
    case (Some q)
    with stock_of_in_int [OF view_ok [OF assms] Some] r(1) single_number [of rows q None] r(3)
    show ?thesis by (simp add: get_stock_def initialised_def sint_word_of_int)
  qed
  with that r(2) show thesis by blast
qed

end

section \<open>Verifying an order\<close>

definition listed :: "store \<Rightarrow> order_entry_t list \<Rightarrow> bool" where
  "listed st es \<longleftrightarrow> (\<forall>e \<in> set es. stock_of st (sint (oe_product_id e)) \<noteq> None)"

definition in_stock :: "store \<Rightarrow> order_entry_t \<Rightarrow> bool" where
  "in_stock st e \<longleftrightarrow> (case stock_of st (sint (oe_product_id e)) of
     None \<Rightarrow> False | Some q \<Rightarrow> sint (oe_quantity e) \<le> q)"

definition reduced :: "store \<Rightarrow> order_entry_t \<Rightarrow> order_entry_t" where
  "reduced st e = (case stock_of st (sint (oe_product_id e)) of
     None \<Rightarrow> e | Some q \<Rightarrow> if q < sint (oe_quantity e) then e\<lparr>oe_quantity := word_of_int q\<rparr> else e)"

definition satisfiable :: "store \<Rightarrow> order_entry_t list \<Rightarrow> bool" where
  "satisfiable st es \<longleftrightarrow> (\<forall>e \<in> set es. in_stock st e)"

text \<open>The same products at the same prices, none in a larger quantity.\<close>

definition sub_entry :: "order_entry_t \<Rightarrow> order_entry_t \<Rightarrow> bool" where
  "sub_entry e' e \<longleftrightarrow> oe_product_id e' = oe_product_id e \<and> oe_price e' = oe_price e \<and>
     sint (oe_quantity e') \<le> sint (oe_quantity e)"

lemma reduced_sub: "store_ok st \<Longrightarrow> sub_entry (reduced st e) e"
  using stock_of_in_int [of st "sint (oe_product_id e)"]
  by (auto simp: reduced_def sub_entry_def sint_word_of_int split: option.splits)

lemma reduced_in_stock:
  "store_ok st \<Longrightarrow> stock_of st (sint (oe_product_id e)) \<noteq> None \<Longrightarrow> in_stock st (reduced st e)"
  using stock_of_in_int [of st "sint (oe_product_id e)"]
  by (auto simp: reduced_def in_stock_def sint_word_of_int)

lemma reduced_largest:
  "store_ok st \<Longrightarrow> sub_entry e' e \<Longrightarrow> in_stock st e' \<Longrightarrow> sub_entry e' (reduced st e)"
  using stock_of_in_int [of st "sint (oe_product_id e)"]
  by (auto simp: reduced_def in_stock_def sub_entry_def sint_word_of_int split: option.splits)

lemma reduced_id: "in_stock st e \<Longrightarrow> reduced st e = e"
  by (auto simp: reduced_def in_stock_def split: option.splits)

context sql_store
begin

lemma verify_step:
  assumes "usable d" and "length (os_entries s) \<le> 16" and "os_entries s = pre @ e # es"
    and "stock_of (view d) (sint (oe_product_id e)) \<noteq> None"
  obtains p1 where "same_io p p1"
    and "verify_loop db (Suc (length es)) (int (length pre)) satisfied (order_of s) d p =
      verify_loop db (length es) (int (length (pre @ [reduced (view d) e])))
        (if in_stock (view d) e then satisfied else 0)
        (order_of (s\<lparr>os_entries := (pre @ [reduced (view d) e]) @ es\<rparr>)) d p1"
proof -
  have e: "length pre < length (os_entries s)" "os_entries s ! length pre = e" using assms(3) by simp_all
  obtain q where q: "stock_of (view d) (sint (oe_product_id e)) = Some q" using assms(4) by auto
  obtain p1 where p1: "same_io p p1" "get_stock db (oe_product_id e) d p = Inr (q, d, p1)"
    by (rule get_stock_row [OF assms(1), of p "oe_product_id e"]) (simp add: q)
  let ?e = "reduced (view d) e" and ?s = "s\<lparr>os_entries := (pre @ [reduced (view d) e]) @ es\<rparr>"
  have "verify_loop db (Suc (length es)) (int (length pre)) satisfied (order_of s) d p =
      verify_loop db (length es) (int (length (pre @ [?e]))) (if in_stock (view d) e then satisfied else 0)
        (order_of ?s) d p1"
  proof (cases "q < sint (oe_quantity e)")
    case True
    then have "?e = e\<lparr>oe_quantity := word_of_int q\<rparr>" "\<not> in_stock (view d) e"
      using q by (simp_all add: reduced_def in_stock_def)
    with True assms(2,3) e p1(2) show ?thesis by (simp add: add.commute)
  next
    case False
    then have s: "?e = e" "in_stock (view d) e" using q by (simp_all add: reduced_def in_stock_def)
    have "s\<lparr>os_entries := pre @ e # es\<rparr> = s" by (simp flip: assms(3))
    with False s assms(2) e p1(2) show ?thesis by (simp add: add.commute)
  qed
  with that p1(1) show thesis by blast
qed

lemma verify_loop_entries:
  assumes "usable d" and "length (os_entries s) \<le> 16" and "os_entries s = pre @ es" and "listed (view d) es"
  shows "\<exists>p'. same_io p p' \<and> verify_loop db (length es) (int (length pre)) satisfied (order_of s) d p =
    Inr (if satisfiable (view d) es then satisfied else 0,
      order_of (s\<lparr>os_entries := pre @ map (reduced (view d)) es\<rparr>), d, p')"
  using assms(2-)
proof (induction es arbitrary: s pre satisfied p)
  case Nil
  then show ?case by (auto simp: satisfiable_def intro!: exI [of _ p])
next
  case (Cons e es)
  let ?e = "reduced (view d) e" and ?s = "s\<lparr>os_entries := (pre @ [reduced (view d) e]) @ es\<rparr>"
  let ?sat = "if in_stock (view d) e then satisfied else 0"
  obtain p1 where p1: "same_io p p1"
    "verify_loop db (Suc (length es)) (int (length pre)) satisfied (order_of s) d p =
      verify_loop db (length es) (int (length (pre @ [?e]))) ?sat (order_of ?s) d p1"
    by (rule verify_step [OF assms(1) Cons.prems(1,2)]) (use Cons.prems(3) in \<open>simp add: listed_def\<close>)
  obtain p2 where p2: "same_io p1 p2"
    "verify_loop db (length es) (int (length (pre @ [?e]))) ?sat (order_of ?s) d p1 =
      Inr (if satisfiable (view d) es then ?sat else 0,
        order_of (?s\<lparr>os_entries := (pre @ [?e]) @ map (reduced (view d)) es\<rparr>), d, p2)"
    using Cons.IH [of ?s "pre @ [?e]" p1 ?sat] Cons.prems by (auto simp: listed_def)
  have sat: "(if satisfiable (view d) es then ?sat else 0) = (if satisfiable (view d) (e # es) then satisfied else 0)"
    by (simp add: satisfiable_def)
  have ord: "?s\<lparr>os_entries := (pre @ [?e]) @ map (reduced (view d)) es\<rparr> =
      s\<lparr>os_entries := pre @ map (reduced (view d)) (e # es)\<rparr>" by simp
  from p1(2) p2(2) same_io_trans [OF p1(1) p2(1)] show ?case
    unfolding sat ord by (intro exI [of _ p2]) (simp only: list.size add_0_right add_Suc_right One_nat_def simp_thms)
qed

lemma verify_loop_unlisted:
  assumes "usable d" and "length (os_entries s) \<le> 16" and "os_entries s = pre @ es" and "\<not> listed (view d) es"
  shows "verify_loop db (length es) (int (length pre)) satisfied (order_of s) d p = Inl Uninit"
  using assms(2-)
proof (induction es arbitrary: s pre satisfied p)
  case Nil
  then show ?case by (simp add: listed_def)
next
  case (Cons e es)
  show ?case
  proof (cases "stock_of (view d) (sint (oe_product_id e))")
    case None
    obtain p1 where "get_stock db (oe_product_id e) d p = Inl Uninit"
      by (rule get_stock_row [OF assms(1), of p "oe_product_id e"]) (simp add: None)
    then show ?thesis using Cons.prems(1,2) by simp
  next
    case (Some q)
    let ?e = "reduced (view d) e" and ?s = "s\<lparr>os_entries := (pre @ [reduced (view d) e]) @ es\<rparr>"
    let ?sat = "if in_stock (view d) e then satisfied else 0"
    obtain p1 where p1: "verify_loop db (Suc (length es)) (int (length pre)) satisfied (order_of s) d p =
        verify_loop db (length es) (int (length (pre @ [?e]))) ?sat (order_of ?s) d p1"
      by (rule verify_step [OF assms(1) Cons.prems(1,2)]) (use Some in simp)
    moreover have "verify_loop db (length es) (int (length (pre @ [?e]))) ?sat (order_of ?s) d p1 = Inl Uninit"
      using Cons.IH [of ?s "pre @ [?e]"] Cons.prems Some by (auto simp: listed_def)
    ultimately show ?thesis by (simp only: list.size add_0_right add_Suc_right One_nat_def)
  qed
qed

lemma verifyOrderStock_entries:
  assumes "usable d" and "order_ok s" and "listed (view d) (os_entries s)"
  shows "\<exists>p'. same_io p p' \<and> verifyOrderStock db (order_of s) d p =
    Inr (if satisfiable (view d) (os_entries s) then 1 else 0,
      order_of (s\<lparr>os_entries := map (reduced (view d)) (os_entries s)\<rparr>), d, p')"
proof -
  have len: "length (os_entries s) \<le> 16" using order_ok_bounds [OF assms(2)] by simp
  have msgs: "c_text ''Database server verifying order.''" "c_text ''Order verified.''"
    "c_text ''Unsatisfiable order, updated order.''" by (simp_all add: c_text_def)
  let ?m1 = "''Database server verifying order.''"
  let ?m2 = "if satisfiable (view d) (os_entries s) then ''Order verified.'' else ''Unsatisfiable order, updated order.''"
  obtain r1 where r1: "log_info ?m1 p = Inr (r1, logged ?m1 INFO p)"
    using log_info_short [OF msgs(1)] by auto
  obtain p1 where p1: "same_io (logged ?m1 INFO p) p1"
    "verify_loop db (length (os_entries s)) 0 1 (order_of s) d (logged ?m1 INFO p) =
      Inr (if satisfiable (view d) (os_entries s) then 1 else 0,
        order_of (s\<lparr>os_entries := map (reduced (view d)) (os_entries s)\<rparr>), d, p1)"
    using verify_loop_entries [OF assms(1) len, of "[]" "os_entries s" "logged ?m1 INFO p" 1] assms(3) by auto
  have m2: "c_text ?m2" "length ?m2 < 255" using msgs by simp_all
  obtain r2 where "log_info ?m2 p1 = Inr (r2, logged ?m2 INFO p1)"
    using log_info_short [OF m2] by blast
  with r1 p1 len have "verifyOrderStock db (order_of s) d p =
    Inr (if satisfiable (view d) (os_entries s) then 1 else 0,
      order_of (s\<lparr>os_entries := map (reduced (view d)) (os_entries s)\<rparr>), d, logged ?m2 INFO p1)"
    by (auto simp: verifyOrderStock_def)
  moreover have "same_io p (logged ?m2 INFO p1)"
    using p1(1) by (simp add: same_io_def)
  ultimately show ?thesis by blast
qed

end

section \<open>The query buffer\<close>

text \<open>The 1024 bytes of \<open>query\<close>: a text with its terminator, and the rest.\<close>

definition buffer :: "string \<Rightarrow> cell list \<Rightarrow> ptr" where
  "buffer s rest = Block (map Some (bytes_of s @ [0]) @ rest)"

definition buffer_room :: "string \<Rightarrow> cell list \<Rightarrow> bool" where
  "buffer_room s rest \<longleftrightarrow> length s + 1 + length rest = 1024"

lemma sprintf_at_start:
  assumes "length cs = 1024" and "length s < 1024"
  shows "sprintf_at (Block cs) 0 s = Inr (buffer s (drop (length s + 1) cs))"
    and "buffer_room s (drop (length s + 1) cs)"
  using assms by (simp_all add: sprintf_at_def mem_write_def buffer_def buffer_room_def)

lemma sprintf_at_buffer_start:
  assumes "buffer_room t rest" and "length s < 1024"
  shows "\<exists>rest'. sprintf_at (buffer t rest) 0 s = Inr (buffer s rest') \<and> buffer_room s rest'"
proof -
  have "length (map Some (bytes_of t @ [0]) @ rest) = 1024"
    using assms(1) by (simp add: buffer_room_def)
  from sprintf_at_start [OF this assms(2)] show ?thesis unfolding buffer_def [of t] by blast
qed

lemma sprintf_at_append:
  assumes "buffer_room s rest" and "index = int (length s)" and "length s + length t < 1024"
  shows "sprintf_at (buffer s rest) index t = Inr (buffer (s @ t) (drop (length t) rest))"
    and "buffer_room (s @ t) (drop (length t) rest)"
proof -
  have "drop (length s + length t + 1) (map Some (bytes_of s @ [0]) @ rest) = drop (length t) rest"
    by simp
  moreover have "take (length s) (map Some (bytes_of s @ [0]) @ rest) = map Some (bytes_of s)"
    by simp
  ultimately show "sprintf_at (buffer s rest) index t = Inr (buffer (s @ t) (drop (length t) rest))"
    using assms by (simp add: sprintf_at_def mem_write_def buffer_def buffer_room_def)
qed (use assms in \<open>simp add: buffer_room_def\<close>)

lemma sprintf_at_overflows:
  "buffer_room s rest \<Longrightarrow> 1024 \<le> length s + length t \<Longrightarrow>
     sprintf_at (buffer s rest) (int (length s)) t = Inl Out_of_bounds"
  by (simp add: sprintf_at_def mem_write_def buffer_def buffer_room_def)

lemma terminate_buffer: "index = int (length s) \<Longrightarrow> mem_write (buffer s rest) index [0] = Inr (buffer s rest)"
  by (simp add: mem_write_def buffer_def)

lemma buffer_text_buffer: "c_text s \<Longrightarrow> buffer_text (buffer s rest) = Inr s"
proof -
  assume s: "c_text s"
  have "strlen (buffer s rest) = Inr (length s)"
    using strlen_cells_terminated [OF zero_notin_bytes_of [OF s], of rest] by (simp add: strlen_def buffer_def)
  then have "c_chars (buffer s rest) = Inr (bytes_of s)"
    by (simp add: c_chars_def mem_read_def buffer_def)
  then show ?thesis by (simp add: buffer_text_def)
qed

lemma query_buffer_start:
  assumes "length s < 1024"
  shows "sprintf_at query_buffer 0 s = Inr (buffer s (replicate (1023 - length s) None))"
    and "buffer_room s (replicate (1023 - length s) None)"
  using sprintf_at_start [of "replicate 1024 None" s] assms by (simp_all add: query_buffer_def)

section \<open>Taking the stock\<close>

text \<open>The updates in order, up to the first one that is refused.\<close>

fun take_each :: "order_entry_t list \<Rightarrow> store \<Rightarrow> bool \<times> store" where
  "take_each [] st = (True, st)"
| "take_each (e # es) st =
     (if enough (sint (oe_quantity e)) (sint (oe_product_id e)) st
      then take_each es (take_stock (sint (oe_quantity e)) (sint (oe_product_id e)) st)
      else (False, st))"

lemma update_query_text: "update_query q i = update_text (sint q) (sint i)"
  by (simp add: update_query_def update_text_def)

lemma update_text_ok:
  assumes "in_int q" and "in_int i"
  shows "c_text (update_text q i)" and "length (update_text q i) < 255"
proof -
  have "c_text ''UPDATE products SET quantity=quantity-''" "c_text '' WHERE id=''"
    by (simp_all add: c_text_def)
  then show "c_text (update_text q i)" unfolding update_text_def by (simp only: c_text_append c_text_dec_int simp_thms)
  show "length (update_text q i) < 255"
    using length_dec_int_le [OF assms(1)] length_dec_int_le [OF assms(2)] by (simp add: update_text_def)
qed

definition counted :: "order_entry_t list \<Rightarrow> bool" where
  "counted es \<longleftrightarrow> (\<forall>e \<in> set es. 0 \<le> sint (oe_quantity e))"

context sql_store
begin

lemma update_loop_entries:
  assumes "usable d" and "length (os_entries s) \<le> 16" and "os_entries s = pre @ es" and "counted es"
    and "buffer_room t rest \<and> query = buffer t rest \<or> query = query_buffer"
  shows "\<exists>p' d'. same_io p p' \<and> usable d' \<and> view d' = snd (take_each es (view d)) \<and>
    update_loop db (length es) (int (length pre)) (order_of s) query d p =
      Inr (if fst (take_each es (view d)) then 1 else -1, d', p')"
  using assms
proof (induction es arbitrary: pre d p query t rest)
  case Nil
  then show ?case by (auto intro!: exI [of _ p] exI [of _ d])
next
  case (Cons e es)
  let ?q = "sint (oe_quantity e)" and ?i = "sint (oe_product_id e)"
  have e: "length pre < length (os_entries s)" "os_entries s ! length pre = e" using Cons.prems(3) by simp_all
  have q: "0 \<le> ?q" "in_int ?q" "in_int ?i" using Cons.prems(4) by (simp_all add: counted_def)
  note tx = update_text_ok [OF q(2,3)]
  obtain rest' where buf: "sprintf_at query 0 (update_text ?q ?i) = Inr (buffer (update_text ?q ?i) rest')"
    "buffer_room (update_text ?q ?i) rest'"
    using Cons.prems(5) tx(2) sprintf_at_buffer_start [of t rest "update_text ?q ?i"]
      query_buffer_start [of "update_text ?q ?i"] by fastforce
  have start: "update_loop db (Suc (length es)) (int (length pre)) (order_of s) query d p =
      c_bind (run_query db (update_text ?q ?i) no_callback () d p) (\<lambda>(code, _, err, d, p).
        if code \<noteq> SQLITE_OK then c_bind (warn_error err p) (\<lambda>p. Inr (-1, d, p))
        else update_loop db (length es) (int (length pre) + 1) (order_of s)
          (buffer (update_text ?q ?i) rest') d p)"
    using e Cons.prems(2) buf(1) buffer_text_buffer [OF tx(1)] by (simp add: update_query_text)
  show ?case
  proof (cases "enough ?q ?i (view d)")
    case True
    let ?d = "snd (sq_exec db (update_text ?q ?i) d)"
    have law: "performs (sq_exec db (update_text ?q ?i) d)" "usable ?d" "view ?d = take_stock ?q ?i (view d)"
      using update_row [OF Cons.prems(1) q(3,2,1) True] by simp_all
    obtain err p1 where p1: "same_io p p1"
      "run_query db (update_text ?q ?i) no_callback () d p = Inr (SQLITE_OK, (), err, ?d, p1)"
      using run_query_performs [OF tx law(1), of p no_callback "()"] by blast
    obtain p2 d' where "same_io p1 p2" "usable d'" "view d' = snd (take_each es (view ?d))"
      "update_loop db (length es) (int (length pre) + 1) (order_of s) (buffer (update_text ?q ?i) rest') ?d p1 =
        Inr (if fst (take_each es (view ?d)) then 1 else -1, d', p2)"
      using Cons.IH [where pre = "pre @ [e]" and d = ?d and p = p1 and t = "update_text ?q ?i" and rest = rest'
        and query = "buffer (update_text ?q ?i) rest'"] Cons.prems(2-4) law(2) buf(2)
      by (auto simp: counted_def add.commute)
    with start p1 law(3) True same_io_trans [OF p1(1)] show ?thesis
      by (intro exI [of _ p2] exI [of _ d']) simp
  next
    case False
    obtain code msg p1 where p1: "code \<noteq> SQLITE_OK" "c_text msg" "length msg < 255" "same_io p p1"
      "run_query db (update_text ?q ?i) no_callback () d p = Inr (code, (), Some msg, d, p1)"
      using run_query_refuses [OF tx update_refused [OF Cons.prems(1) q(3,2,1) False], of p no_callback "()"] by blast
    obtain p2 where "warn_error (Some msg) p1 = Inr p2" "same_io p1 p2"
      using warn_error_short [OF p1(2,3)] by blast
    with start p1 False Cons.prems(1) same_io_trans [OF p1(4)] show ?thesis
      by (intro exI [of _ p2] exI [of _ d]) simp
  qed
qed

lemma update_stock_entries:
  assumes "usable d" and "order_ok s" and "counted (os_entries s)"
  shows "\<exists>p' d'. same_io p p' \<and> usable d' \<and> view d' = snd (take_each (os_entries s) (view d)) \<and>
    update_stock db (order_of s) d p =
      Inr (if fst (take_each (os_entries s) (view d)) then 1 else -1, d', p')"
  using update_loop_entries [OF assms(1), of s "[]" "os_entries s"] order_ok_bounds [OF assms(2)] assms(3)
  by (simp add: update_stock_def)

end

section \<open>What taking the stock leaves\<close>

lemma find_map_rows:
  "(\<And>r. sr_id (f r) = sr_id r) \<Longrightarrow>
     find (\<lambda>r. sr_id r = i) (map f rs) = map_option f (find (\<lambda>r. sr_id r = i) rs)"
  by (induction rs) auto

lemma find_SomeD: "find P xs = Some x \<Longrightarrow> P x \<and> x \<in> set xs"
  by (auto simp: find_Some_iff)

lemma stock_of_take_stock:
  "stock_of (take_stock n i st) j =
     (if j = i then map_option (\<lambda>q. q - n) (stock_of st j) else stock_of st j)"
proof -
  let ?f = "\<lambda>r. if sr_id r = i then r\<lparr>sr_quantity := sr_quantity r - n\<rparr> else r"
  have f: "find (\<lambda>r. sr_id r = j) (map ?f (st_products st)) =
      map_option ?f (find (\<lambda>r. sr_id r = j) (st_products st))"
    by (rule find_map_rows) simp
  show ?thesis
  proof (cases "find (\<lambda>r. sr_id r = j) (st_products st)")
    case None
    then show ?thesis by (auto simp: stock_of_def take_stock_def f)
  next
    case (Some r)
    with find_SomeD [OF Some] show ?thesis by (auto simp: stock_of_def take_stock_def f)
  qed
qed

lemma take_stock_frame [simp]:
  "map sr_id (st_products (take_stock n i st)) = map sr_id (st_products st)"
  "st_orders (take_stock n i st) = st_orders st" "st_lines (take_stock n i st) = st_lines st"
  by (simp_all add: take_stock_def comp_def cong: map_cong if_cong)

lemma enough_stock:
  assumes "distinct (map sr_id (st_products st))" and "stock_of st i = Some q"
  shows "enough n i st \<longleftrightarrow> n \<le> q"
proof -
  obtain r where r: "r \<in> set (st_products st)" "sr_id r = i" "sr_quantity r = q"
    using assms(2) by (auto simp: stock_of_def dest: find_SomeD)
  with assms(1) show ?thesis by (auto simp: enough_def distinct_map inj_on_def)
qed

definition asked :: "order_entry_t list \<Rightarrow> int \<Rightarrow> int" where
  "asked es i = (\<Sum>e \<leftarrow> es. if sint (oe_product_id e) = i then sint (oe_quantity e) else 0)"

lemma asked_none: "i \<notin> sint ` set (product_ids es) \<Longrightarrow> asked es i = 0"
  by (induction es) (auto simp: asked_def product_ids_def)

lemma in_stock_take_stock:
  "oe_product_id e \<noteq> i \<Longrightarrow> in_stock (take_stock n (sint i) st) e = in_stock st e"
  by (simp add: in_stock_def stock_of_take_stock flip: word_eq_iff_signed)

text \<open>An order with one entry per product that is in stock is taken completely.\<close>

lemma take_each_all:
  "distinct (product_ids es) \<Longrightarrow> satisfiable st es \<Longrightarrow> distinct (map sr_id (st_products st)) \<Longrightarrow>
     fst (take_each es st) \<and> st_orders (snd (take_each es st)) = st_orders st \<and>
     st_lines (snd (take_each es st)) = st_lines st \<and>
     (\<forall>i. stock_of (snd (take_each es st)) i = map_option (\<lambda>q. q - asked es i) (stock_of st i))"
proof (induction es arbitrary: st)
  case Nil
  show ?case by (auto simp: asked_def option.map_ident)
next
  case (Cons e es)
  let ?q = "sint (oe_quantity e)" and ?i = "sint (oe_product_id e)"
  let ?st = "take_stock ?q ?i st"
  obtain q where q: "stock_of st ?i = Some q" "?q \<le> q"
    using Cons.prems(2) by (auto simp: satisfiable_def in_stock_def split: option.splits)
  then have step: "take_each (e # es) st = take_each es ?st"
    using enough_stock [OF Cons.prems(3) q(1)] by simp
  have sat: "satisfiable ?st es"
    using Cons.prems(1,2) by (auto simp: satisfiable_def product_ids_def in_stock_take_stock image_iff)
  have new: "?i \<notin> sint ` set (product_ids es)"
    using Cons.prems(1) by (auto simp: product_ids_def simp flip: word_eq_iff_signed)
  have IH: "fst (take_each es ?st) \<and> st_orders (snd (take_each es ?st)) = st_orders ?st \<and>
      st_lines (snd (take_each es ?st)) = st_lines ?st \<and>
      (\<forall>i. stock_of (snd (take_each es ?st)) i = map_option (\<lambda>q. q - asked es i) (stock_of ?st i))"
    using Cons.prems by (intro Cons.IH sat) (simp_all add: product_ids_def)
  have "map_option (\<lambda>q. q - asked es i) (stock_of ?st i) =
      map_option (\<lambda>q. q - asked (e # es) i) (stock_of st i)" for i
    using asked_none [OF new] by (cases "stock_of st i") (auto simp: stock_of_take_stock asked_def)
  with IH step show ?case by simp
qed

end
