(* ===== verification/Recording.thy ===== *)
theory Recording
  imports Placing
begin

text \<open>
  Writing an order into the database: the statement that is put together in the buffer, when it
  fits and when it does not, and what the database holds after it ran.
\<close>

section \<open>Amounts\<close>

text \<open>
  The amount of an order is billable when the digits that are printed before the point are those
  of the truncated amount; prices in whole, half and quarter units always are.
\<close>

definition amount_of :: "order_spec \<Rightarrow> string" where
  "amount_of s = print_f2 (total_of (os_entries s))"

definition billable :: "order_spec \<Rightarrow> bool" where
  "billable s \<longleftrightarrow> (\<exists>w c. w < 2 ^ 24 \<and> c < 100 \<and> amount_of s = dec_nat w @ ''.'' @ two_digits c \<and>
     int_of_f (total_of (os_entries s)) = Inr (int w))"

definition exact_prices :: "order_entry_t list \<Rightarrow> bool" where
  "exact_prices es \<longleftrightarrow> (\<exists>j c. j \<le> 2 \<and> (\<forall>e \<in> set es. frac j (c e) (oe_price e) \<and>
     0 \<le> sint (oe_quantity e) \<and> sint (oe_quantity e) < 2 ^ 24) \<and>
     (\<Sum>e \<leftarrow> es. c e * nat (sint (oe_quantity e))) < 2 ^ 24)"

lemma exact_billable:
  assumes "exact_prices (os_entries s)"
  shows "billable s"
proof -
  obtain j c where j: "j \<le> 2" and e: "\<forall>e \<in> set (os_entries s). frac j (c e) (oe_price e) \<and>
     0 \<le> sint (oe_quantity e) \<and> sint (oe_quantity e) < 2 ^ 24"
    and n: "(\<Sum>e \<leftarrow> os_entries s. c e * nat (sint (oe_quantity e))) < 2 ^ 24"
    using assms by (auto simp: exact_prices_def)
  let ?n = "\<Sum>e \<leftarrow> os_entries s. c e * nat (sint (oe_quantity e))"
  have f: "frac j ?n (total_of (os_entries s))"
    using foldl_total_exact [OF e, of 0 0] n j frac_0 [of j] by (simp add: total_of_def)
  have "?n div 2 ^ j \<le> ?n" by (rule div_le_dividend)
  with n have w: "?n div 2 ^ j < 2 ^ 24" by linarith
  then have i: "int_of_f (total_of (os_entries s)) = Inr (int (?n div 2 ^ j))"
    by (intro int_of_f_frac [OF f]) simp
  have "?n * 100 div 2 ^ j mod 100 < 100" by simp
  with w i print_f2_frac [OF f j] show ?thesis unfolding billable_def amount_of_def by blast
qed

lemma c_text_two_digits [simp]: "c_text (two_digits c)"
proof -
  have "is_digit d \<Longrightarrow> d \<noteq> CHR 0x00" for d by (auto simp: is_digit_def char_code_def)
  then have "digit (c div 10 mod 10) \<noteq> CHR 0x00" "digit (c mod 10) \<noteq> CHR 0x00"
    using is_digit_digit by (metis mod_less_divisor zero_less_numeral)+
  then show ?thesis by (auto simp: two_digits_def c_text_def)
qed

lemma amount_text_c_text:
  assumes "amount_text t"
  shows "c_text t"
proof -
  obtain w c where t: "t = dec_nat w @ ''.'' @ two_digits c" using assms by (auto simp: amount_text_def)
  have "c_text ''.''" by (simp add: c_text_def)
  then show ?thesis unfolding t c_text_append by simp
qed

lemma billable_amount: "billable s \<Longrightarrow> amount_text (amount_of s)"
  by (auto simp: billable_def amount_text_def)

lemma plain_c_text:
  assumes "plain a"
  shows "c_text a"
  unfolding c_text_def
proof
  assume "CHR 0x00 \<in> set a"
  then show False using bspec [OF assms [unfolded plain_def]] by (fastforce simp: is_digit_def char_code_def)
qed

section \<open>Putting the statement together\<close>

lemma length_order_base: "length order_base = 52"
  by (simp add: order_base_def)

lemma length_insert_order_text:
  "length (insert_order_text t a k) = 52 + length t + length a + length (dec_int k) + 5"
  by (simp add: insert_order_text_def length_order_base)

text \<open>The address goes right behind the amount.\<close>

lemma order_query_head:
  assumes "length (os_entries s) \<le> 16" and "os_address s = Some (bytes_of a @ [0])" and "c_text a"
    and "billable s"
  obtains r1 where "buffer_room (order_base @ amount_of s @ '','') r1"
    and "order_query (order_of s) ts =
      c_bind (sprintf_at (buffer (order_base @ amount_of s @ '','') r1)
        (int (length (order_base @ amount_of s @ '',''))) ([CHR 0x22] @ a @ [CHR 0x22] @ '','')) (\<lambda>query.
      c_bind (sprintf_at query (to_int (int (length (order_base @ amount_of s @ '','')) + 1 + int (length a) + 1 + 1))
        (dec_int ts @ '')'')) (\<lambda>query.
      mem_write query (to_int (int (length (order_base @ amount_of s @ '','')) + 1 + int (length a) + 1 + 1) +
        (sint (countDigits (word_of_int ts)) + 1)) [0]))"
proof -
  let ?t = "amount_of s"
  obtain w c where w: "w < 2 ^ 24" "?t = dec_nat w @ ''.'' @ two_digits c"
    "int_of_f (total_of (os_entries s)) = Inr (int w)"
    using assms(4) by (auto simp: billable_def)
  have "length (two_digits c) = 2" by (simp add: two_digits_def)
  then have len: "length ?t = length (dec_nat w) + 3" using w(2) by simp
  have iw: "in_int (int w)" using w(1) by (simp add: in_int_def)
  have digits: "sint (countDigits (word_of_int (int w))) = int (length (dec_nat w))"
    using countDigits_of_int [OF iw] by (simp add: dec_int_def)
  have short: "length (dec_nat w) \<le> 11" using length_dec_int_le [OF iw] by (simp add: dec_int_def)
  let ?s1 = "order_base @ ?t @ '',''"
  obtain r0 where r0: "sprintf_at query_buffer 0 order_base = Inr (buffer order_base r0)" "buffer_room order_base r0"
    using query_buffer_start [of order_base] by (auto simp: length_order_base)
  obtain r1 where r1: "sprintf_at (buffer order_base r0) (int (length order_base)) (?t @ '','') = Inr (buffer ?s1 r1)"
    "buffer_room ?s1 r1"
    using sprintf_at_append [OF r0(2) refl, of "?t @ '',''"] len short by (auto simp: length_order_base)
  have i1: "int (length order_base) + (sint (countDigits (word_of_int (int w))) + 1 + 2 + 1) = int (length ?s1)"
    unfolding digits by (simp add: len)
  have addr: "c_chars (orderGetAddress (order_of s)) = Inr (bytes_of a)"
    using assms(2,3) by (simp add: orderGetAddress_def order_of_def address_ptr_def c_chars_copy)
  show thesis
    using that [OF r1(2)] unfolding order_query_def Let_def orderGetTotal_entries [OF assms(1)] addr w(3)
      c_bind_Inr r0(1) length_bytes_of i1 amount_of_def [symmetric] r1(1) chars_of_bytes_of by blast
qed

lemma order_query_fits:
  assumes "length (os_entries s) \<le> 16" and "os_address s = Some (bytes_of a @ [0])" and "c_text a"
    and "billable s" and "in_int ts" and "length (insert_order_text (amount_of s) a ts) < 1024"
  shows "\<exists>rest. order_query (order_of s) ts = Inr (buffer (insert_order_text (amount_of s) a ts) rest) \<and>
    buffer_room (insert_order_text (amount_of s) a ts) rest"
proof -
  let ?q = "[CHR 0x22]" and ?s1 = "order_base @ amount_of s @ '',''"
  let ?s2 = "(order_base @ amount_of s @ '','') @ ?q @ a @ ?q @ '',''"
  obtain r1 where head: "buffer_room ?s1 r1" "order_query (order_of s) ts =
      c_bind (sprintf_at (buffer ?s1 r1) (int (length ?s1)) (?q @ a @ ?q @ '','')) (\<lambda>query.
      c_bind (sprintf_at query (to_int (int (length ?s1) + 1 + int (length a) + 1 + 1)) (dec_int ts @ '')'')) (\<lambda>query.
      mem_write query (to_int (int (length ?s1) + 1 + int (length a) + 1 + 1) +
        (sint (countDigits (word_of_int ts)) + 1)) [0]))"
    by (rule order_query_head [OF assms(1-4)])
  have room: "length (amount_of s) + length a + length (dec_int ts) < 967"
    using assms(6) by (simp add: length_insert_order_text)
  obtain r2 where r2: "sprintf_at (buffer ?s1 r1) (int (length ?s1)) (?q @ a @ ?q @ '','') = Inr (buffer ?s2 r2)"
    "buffer_room ?s2 r2"
    using sprintf_at_append [OF head(1) refl, of "?q @ a @ ?q @ '',''"] room by (auto simp: length_order_base)
  obtain r3 where r3: "sprintf_at (buffer ?s2 r2) (int (length ?s2)) (dec_int ts @ '')'') =
      Inr (buffer (?s2 @ dec_int ts @ '')'') r3)" "buffer_room (?s2 @ dec_int ts @ '')'') r3"
    using sprintf_at_append [OF r2(2) refl, of "dec_int ts @ '')''"] room by (auto simp: length_order_base)
  have i2: "to_int (int (length ?s1) + 1 + int (length a) + 1 + 1) = int (length ?s2)"
    using room by (simp add: to_int_id in_int_def length_order_base)
  have i3: "int (length ?s2) + (sint (countDigits (word_of_int ts)) + 1) = int (length (?s2 @ dec_int ts @ '')''))"
    using countDigits_of_int [OF assms(5)] by simp
  have whole: "insert_order_text (amount_of s) a ts = ?s2 @ dec_int ts @ '')''"
    by (simp add: insert_order_text_def)
  have "order_query (order_of s) ts = Inr (buffer (insert_order_text (amount_of s) a ts) r3)"
    unfolding head(2) i2 r2(1) c_bind_Inr r3(1) i3 whole by (rule terminate_buffer) simp
  with r3(2) show ?thesis unfolding whole by blast
qed

text \<open>An address that leaves no room makes the third piece run over the end of the buffer.\<close>

lemma order_query_overflows:
  assumes "length (os_entries s) \<le> 16" and "os_address s = Some (bytes_of a @ [0])" and "c_text a"
    and "billable s" and "1024 \<le> 52 + length (amount_of s) + length a + 4"
  shows "order_query (order_of s) ts = Inl Out_of_bounds"
proof -
  let ?q = "[CHR 0x22]" and ?s1 = "order_base @ amount_of s @ '',''"
  obtain r1 where head: "buffer_room ?s1 r1" "order_query (order_of s) ts =
      c_bind (sprintf_at (buffer ?s1 r1) (int (length ?s1)) (?q @ a @ ?q @ '','')) (\<lambda>query.
      c_bind (sprintf_at query (to_int (int (length ?s1) + 1 + int (length a) + 1 + 1)) (dec_int ts @ '')'')) (\<lambda>query.
      mem_write query (to_int (int (length ?s1) + 1 + int (length a) + 1 + 1) +
        (sint (countDigits (word_of_int ts)) + 1)) [0]))"
    by (rule order_query_head [OF assms(1-4)])
  have "sprintf_at (buffer ?s1 r1) (int (length ?s1)) (?q @ a @ ?q @ '','') = Inl Out_of_bounds"
    using assms(5) by (intro sprintf_at_overflows [OF head(1)]) (simp add: length_order_base)
  with head(2) show ?thesis by simp
qed

lemma entry_query_text:
  assumes "in_int k" and "buffer_room t rest"
  shows "\<exists>rest'. entry_query (buffer t rest) k i q = Inr (buffer (insert_line_text k (sint i) (sint q)) rest') \<and>
    buffer_room (insert_line_text k (sint i) (sint q)) rest'"
proof -
  note short = length_dec_int_le [OF assms(1)] length_dec_sint [of i] length_dec_sint [of q]
  have base: "length entry_base = 64" by (simp add: entry_base_def)
  let ?s1 = "entry_base @ dec_int k @ '',''" and ?s2 = "(entry_base @ dec_int k @ '','') @ dec_int (sint i) @ '',''"
  let ?s3 = "((entry_base @ dec_int k @ '','') @ dec_int (sint i) @ '','') @ dec_int (sint q) @ '')''"
  obtain r0 where r0: "sprintf_at (buffer t rest) 0 entry_base = Inr (buffer entry_base r0)" "buffer_room entry_base r0"
    using sprintf_at_buffer_start [OF assms(2), of entry_base] by (auto simp: base)
  obtain r1 where r1: "sprintf_at (buffer entry_base r0) (int (length entry_base)) (dec_int k @ '','') = Inr (buffer ?s1 r1)"
    "buffer_room ?s1 r1"
    using sprintf_at_append [OF r0(2) refl, of "dec_int k @ '',''"] short by (auto simp: base)
  obtain r2 where r2: "sprintf_at (buffer ?s1 r1) (int (length ?s1)) (dec_int (sint i) @ '','') = Inr (buffer ?s2 r2)"
    "buffer_room ?s2 r2"
    using sprintf_at_append [OF r1(2) refl, of "dec_int (sint i) @ '',''"] short by (auto simp: base)
  obtain r3 where r3: "sprintf_at (buffer ?s2 r2) (int (length ?s2)) (dec_int (sint q) @ '')'') = Inr (buffer ?s3 r3)"
    "buffer_room ?s3 r3"
    using sprintf_at_append [OF r2(2) refl, of "dec_int (sint q) @ '')''"] short by (auto simp: base)
  have i1: "int (length entry_base) + (sint (countDigits (word_of_int k)) + 1) = int (length ?s1)"
    using countDigits_of_int [OF assms(1)] by simp
  have i2: "int (length ?s1) + (sint (countDigits i) + 1) = int (length ?s2)" by simp
  have i3: "int (length ?s2) + (sint (countDigits q) + 1) = int (length ?s3)" by simp
  have whole: "insert_line_text k (sint i) (sint q) = ?s3" by (simp add: insert_line_text_def)
  have "entry_query (buffer t rest) k i q = Inr (buffer (insert_line_text k (sint i) (sint q)) r3)"
    unfolding entry_query_def Let_def c_bind_Inr r0(1) i1 i2 i3 whole r1(1) r2(1) r3(1)
    by (rule terminate_buffer) simp
  with r3(2) show ?thesis unfolding whole by blast
qed


section \<open>Storing an order\<close>

definition order_lines :: "int \<Rightarrow> order_entry_t list \<Rightarrow> (int \<times> int \<times> int) list" where
  "order_lines k es = map (\<lambda>e. (k, sint (oe_product_id e), sint (oe_quantity e))) es"

definition recorded :: "order_spec \<Rightarrow> string \<Rightarrow> int \<Rightarrow> store \<Rightarrow> store" where
  "recorded s a ts st = st\<lparr>st_orders := st_orders st @ [(next_id st, amount_of s, a, ts)],
     st_lines := st_lines st @ order_lines (next_id st) (os_entries s)\<rparr>"

lemma c_text_bases: "c_text order_base" "c_text entry_base" "c_text '',''" "c_text [CHR 0x22]" "c_text '')''"
  by (simp_all add: order_base_def entry_base_def c_text_def)

lemma insert_line_text_ok:
  assumes "in_int k" and "in_int i" and "in_int q"
  shows "c_text (insert_line_text k i q)" and "length (insert_line_text k i q) < 255"
proof -
  show "c_text (insert_line_text k i q)"
    unfolding insert_line_text_def c_text_append using c_text_bases by simp
  show "length (insert_line_text k i q) < 255"
    using assms [THEN length_dec_int_le] by (simp add: insert_line_text_def entry_base_def)
qed

lemma c_text_insert_order: "c_text t \<Longrightarrow> c_text a \<Longrightarrow> c_text (insert_order_text t a k)"
  unfolding insert_order_text_def c_text_append using c_text_bases by simp

context sql_store
begin

lemma store_entries_loop_lines:
  assumes "usable d" and "length (os_entries s) \<le> 16" and "os_entries s = pre @ es" and "in_int k"
    and "buffer_room t rest"
  shows "\<exists>p' d'. same_io p p' \<and> usable d' \<and>
    view d' = (view d)\<lparr>st_lines := st_lines (view d) @ order_lines k es\<rparr> \<and>
    store_entries_loop db k (length es) (int (length pre)) (order_of s) (buffer t rest) d p = Inr (k, d', p')"
  using assms
proof (induction es arbitrary: pre d p t rest)
  case Nil
  then show ?case by (auto simp: order_lines_def intro!: exI [of _ p] exI [of _ d])
next
  case (Cons e es)
  let ?q = "sint (oe_quantity e)" and ?i = "sint (oe_product_id e)"
  let ?t = "insert_line_text k ?i ?q"
  have e: "length pre < length (os_entries s)" "os_entries s ! length pre = e" using Cons.prems(3) by simp_all
  note tx = insert_line_text_ok [OF Cons.prems(4), of ?i ?q, simplified]
  obtain rest' where buf: "entry_query (buffer t rest) k (oe_product_id e) (oe_quantity e) = Inr (buffer ?t rest')"
    "buffer_room ?t rest'"
    using entry_query_text [OF Cons.prems(4,5)] by blast
  let ?d = "snd (sq_exec db ?t d)"
  have law: "performs (sq_exec db ?t d)" "usable ?d"
    "view ?d = (view d)\<lparr>st_lines := st_lines (view d) @ [(k, ?i, ?q)]\<rparr>"
    using insert_line [OF Cons.prems(1,4), of ?i ?q] by simp_all
  obtain err p1 where p1: "same_io p p1"
    "run_query db ?t no_callback () d p = Inr (SQLITE_OK, (), err, ?d, p1)"
    using run_query_performs [OF tx law(1), of p no_callback "()"] by blast
  have step: "store_entries_loop db k (Suc (length es)) (int (length pre)) (order_of s) (buffer t rest) d p =
      store_entries_loop db k (length es) (int (length pre) + 1) (order_of s) (buffer ?t rest') ?d p1"
    using e Cons.prems(2) buf(1) buffer_text_buffer [OF tx(1)] p1(2) by simp
  obtain p2 d' where "same_io p1 p2" "usable d'"
    "view d' = (view ?d)\<lparr>st_lines := st_lines (view ?d) @ order_lines k es\<rparr>"
    "store_entries_loop db k (length es) (int (length pre) + 1) (order_of s) (buffer ?t rest') ?d p1 = Inr (k, d', p2)"
    using Cons.IH [where pre = "pre @ [e]" and d = ?d and p = p1 and t = ?t and rest = rest']
      Cons.prems(2-4) law(2) buf(2) by (auto simp: add.commute)
  with step law(3) same_io_trans [OF p1(1)] show ?case
    by (intro exI [of _ p2] exI [of _ d']) (simp add: order_lines_def)
qed

lemma store_verified_order_stores:
  assumes "usable d" and "order_ok s" and "os_address s = Some (bytes_of a @ [0])" and "plain a"
    and "billable s" and "answers p = ts # as" and "in_int ts" and "0 \<le> ts"
    and "length (insert_order_text (amount_of s) a ts) < 255" and "in_int (next_id (view d))"
  shows "\<exists>p' d'. same_io (p\<lparr>answers := as\<rparr>) p' \<and> usable d' \<and>
    view d' = recorded s a ts (view d) \<and>
    store_verified_order db (order_of s) d p = Inr (next_id (view d), d', p')"
proof -
  note len = order_ok_bounds(1) [OF assms(2)]
  let ?t = "insert_order_text (amount_of s) a ts"
  let ?d = "snd (sq_exec db ?t d)"
  let ?k = "next_id (view d)"
  have amt: "amount_text (amount_of s)" using billable_amount [OF assms(5)] .
  have tx: "c_text ?t" using amount_text_c_text [OF amt] plain_c_text [OF assms(4)] by (rule c_text_insert_order)
  obtain rest where buf: "order_query (order_of s) ts = Inr (buffer ?t rest)" "buffer_room ?t rest"
    using order_query_fits [OF len assms(3) plain_c_text [OF assms(4)] assms(5,7)] assms(9) by auto
  have law: "performs (sq_exec db ?t d)" "usable ?d" "sq_last_insert_rowid db ?d = ?k"
    "view ?d = (view d)\<lparr>st_orders := st_orders (view d) @ [(?k, amount_of s, a, ts)]\<rparr>"
    using insert_order [OF assms(1) amt assms(4,7,8)] by simp_all
  obtain err p1 where p1: "same_io (p\<lparr>answers := as\<rparr>) p1"
    "run_query db ?t no_callback () d (p\<lparr>answers := as\<rparr>) = Inr (SQLITE_OK, (), err, ?d, p1)"
    using run_query_performs [OF tx assms(9) law(1), of "p\<lparr>answers := as\<rparr>" no_callback "()"] by blast
  obtain p2 d' where p2: "same_io p1 p2" "usable d'"
    "view d' = (view ?d)\<lparr>st_lines := st_lines (view ?d) @ order_lines ?k (os_entries s)\<rparr>"
    "store_entries_loop db ?k (length (os_entries s)) 0 (order_of s) (buffer ?t rest) ?d p1 = Inr (?k, d', p2)"
    using store_entries_loop_lines [OF law(2) len _ assms(10) buf(2), of "[]" "os_entries s" p1] by auto
  have "store_verified_order db (order_of s) d p = Inr (?k, d', p2)"
    using assms(6) buf(1) buffer_text_buffer [OF tx] p1(2) p2(4) len law(3)
    by (simp add: store_verified_order_def next_answer_def)
  moreover have "view d' = recorded s a ts (view d)" by (simp add: p2(3) law(4) recorded_def)
  ultimately show ?thesis using p2(2) same_io_trans [OF p1(1) p2(1)] by blast
qed

end

end
