(* ===== verification/Serving.thy ===== *)
theory Serving
  imports Recording
begin

text \<open>
  The handlers and the main loop of the database server over any database that keeps the contract
  of \<open>sql_store\<close>: what is read, what is answered, and what the database holds afterwards.
\<close>

section \<open>Requests and answers\<close>

text \<open>What a request leaves of the process: the answer was sent, the request was consumed.\<close>

definition answered :: "fd \<Rightarrow> fd \<Rightarrow> byte list \<Rightarrow> byte list \<Rightarrow> int list \<Rightarrow> proc \<Rightarrow> proc \<Rightarrow> bool" where
  "answered inFD outFD rest answer as p p' \<longleftrightarrow>
     rd_avail p' = (rd_avail p)(inFD := rest) \<and> sent p' = (sent p)(outFD := sent p outFD @ answer) \<and>
     answers p' = as \<and> (\<forall>g. healthy (wr p g) \<longrightarrow> healthy (wr p' g))"

definition catalogue_bytes :: "store \<Rightarrow> byte list" where
  "catalogue_bytes st = (if st_products st = [] then enc32 MESSAGE_ERROR
     else enc32 (word_of_nat (length (st_products st))) @
       concat (map (\<lambda>s. frame (product_bytes s)) (catalogue_specs st)))"

definition reduced_order :: "store \<Rightarrow> order_spec \<Rightarrow> order_spec" where
  "reduced_order st s = s\<lparr>os_entries := map (reduced st) (os_entries s)\<rparr>"

lemma reduced_order_ok: "order_ok s \<Longrightarrow> order_ok (reduced_order st s)"
  by (simp add: order_ok_def reduced_order_def)

lemma satisfiable_listed: "satisfiable st es \<Longrightarrow> listed st es"
  by (auto simp: satisfiable_def listed_def in_stock_def split: option.splits)

lemma reduced_satisfiable: "satisfiable st es \<Longrightarrow> map (reduced st) es = es"
  by (simp add: satisfiable_def map_idI reduced_id)

text \<open>The orders the server can bill: a plain address that leaves the log message whole, exact prices.\<close>

definition order_address :: "order_spec \<Rightarrow> string \<Rightarrow> bool" where
  "order_address s a \<longleftrightarrow> os_address s = Some (bytes_of a @ [0]) \<and> plain a"

lemma length_amount:
  assumes "billable s"
  shows "length (amount_of s) \<le> 14"
proof -
  obtain w c where w: "w < 2 ^ 24" "amount_of s = dec_nat w @ ''.'' @ two_digits c"
    using assms by (auto simp: billable_def)
  have "in_int (int w)" using w(1) by (simp add: in_int_def)
  from length_dec_int_le [OF this] w(2) show ?thesis by (simp add: dec_int_def two_digits_def)
qed

lemma same_io_answered:
  assumes "same_io p p'"
  shows "rd_avail p' = rd_avail p" "sent p' = sent p" "answers p' = answers p" "wr p' = wr p"
  using assms same_ioD by auto

section \<open>Reading a request\<close>

lemma read_fresh_exact:
  "n < 2 ^ 31 \<Longrightarrow> n \<le> length (rd_avail p fd) \<Longrightarrow>
     read_fresh n fd p = Inr (take n (rd_avail p fd), consume fd n p)"
  by (simp add: read_fresh_def ensureRead_exact)

lemma place_order_reads:
  assumes "order_ok s" and "rd_avail p inFD = frame (order_bytes s) @ rest"
  shows "place_order db inFD outFD d p =
    c_bind (verifyOrderStock db (order_of s) d (consume inFD (8 + length (order_bytes s)) p)) (\<lambda>(satisfiable, ord, d, p).
     if satisfiable \<noteq> 0 then
       c_bind (record_order db ord d p) (\<lambda>(responseCode, d, p).
       c_bind (ensureWrite (enc32 responseCode) outFD p) (\<lambda>(_, p). Inr (d, p)))
     else
       c_bind (ensureWrite (enc32 MESSAGE_UNSATISFIABLE_ORDER) outFD p) (\<lambda>(_, p).
       c_bind (orderSerialize ord) (\<lambda>(serializedSize, serialized).
       c_bind (ensureWrite (enc64 (word_of_nat serializedSize)) outFD p) (\<lambda>(_, p).
       c_bind (mem_read serialized 0 serializedSize) (\<lambda>bs.
       c_bind (ensureWrite bs outFD p) (\<lambda>(_, p).
       c_bind (log_info ''Received unsatisfiable order, replied with biggest satisfiable sub-order.'' p) (\<lambda>(_, p).
       Inr (d, p))))))))"
proof -
  let ?bs = "order_bytes s"
  have m: "message_ok ?bs" using order_wire.enc_message [OF assms(1)] .
  then have len: "length ?bs < 2 ^ 31" "unat (word_of_nat (length ?bs) :: size_t) = length ?bs"
    using unat_of_nat64 [of "length ?bs"] by (simp_all add: message_ok_def)
  have r1: "read_fresh 8 inFD p = Inr (enc64 (word_of_nat (length ?bs)), consume inFD 8 p)"
    using assms(2) read_fresh_exact [of 8 p inFD] by (simp add: frame_def)
  have r2: "ensureRead (length ?bs) inFD (consume inFD 8 p) =
      Inr (1, ?bs, consume inFD (8 + length ?bs) p)"
    by (rule ensureRead_frame_data [OF assms(2) len(1)])
  have r3: "orderUnserialize (received (length ?bs) ?bs) = Inr (order_of s)"
    using len(1) order_wire.unser_enc [OF assms(1)] by (simp add: received_all)
  show ?thesis unfolding place_order_def r1 c_bind_Inr prod.case Let_def dec64_enc64 len(2) r2 r3 ..
qed

text \<open>What the database holds after an order was placed.\<close>

definition placed :: "order_spec \<Rightarrow> string \<Rightarrow> int \<Rightarrow> store \<Rightarrow> store" where
  "placed s a ts st = snd (take_each (os_entries s) (recorded s a ts st))"

lemma recorded_frame [simp]:
  "st_products (recorded s a ts st) = st_products st" "stock_of (recorded s a ts st) i = stock_of st i"
  by (simp_all add: recorded_def stock_of_def)

lemma satisfiable_recorded [simp]: "satisfiable (recorded s a ts st) es = satisfiable st es"
  by (simp add: satisfiable_def in_stock_def)

lemma placed_effect:
  assumes "distinct (product_ids (os_entries s))" and "satisfiable st (os_entries s)" and "store_ok st"
  shows "st_orders (placed s a ts st) = st_orders st @ [(next_id st, amount_of s, a, ts)]"
    and "st_lines (placed s a ts st) = st_lines st @ order_lines (next_id st) (os_entries s)"
    and "stock_of (placed s a ts st) i = map_option (\<lambda>q. q - asked (os_entries s) i) (stock_of st i)"
    and "fst (take_each (os_entries s) (recorded s a ts st))"
  using take_each_all [OF assms(1), of "recorded s a ts st"] assms(2,3)
  by (simp_all add: placed_def store_ok_def) (simp_all add: recorded_def)

context sql_store
begin

lemma record_order_ok:
  assumes "usable d" and "order_inv s" and "order_address s a" and "length a \<le> 150" and "billable s"
    and "satisfiable (view d) (os_entries s)" and "answers p = ts # as" and "in_int ts" and "0 \<le> ts"
    and "in_int (next_id (view d))"
  shows "\<exists>p' d'. same_io (p\<lparr>answers := as\<rparr>) p' \<and> usable d' \<and> view d' = placed s a ts (view d) \<and>
    record_order db (order_of s) d p = Inr (MESSAGE_OK, d', p')"
proof -
  let ?es = "os_entries s"
  have ok: "order_ok s" and pos: "counted ?es" and dist: "distinct (product_ids ?es)"
    using assms(2) by (auto simp: order_inv_def counted_def intro: less_imp_le)
  have addr: "os_address s = Some (bytes_of a @ [0])" "plain a"
    using assms(3) by (simp_all add: order_address_def)
  have len: "length (insert_order_text (amount_of s) a ts) < 255"
    using length_amount [OF assms(5)] assms(4) length_dec_int_le [OF assms(8)]
    by (simp add: length_insert_order_text)
  obtain p1 d1 where 1: "same_io (p\<lparr>answers := as\<rparr>) p1" "usable d1" "view d1 = recorded s a ts (view d)"
    "store_verified_order db (order_of s) d p = Inr (next_id (view d), d1, p1)"
    using store_verified_order_stores [OF assms(1) ok addr assms(5,7-9) len assms(10)] by blast
  have all: "fst (take_each ?es (view d1))"
    using placed_effect(4) [OF dist assms(6) view_ok [OF assms(1)]] 1(3) by simp
  obtain p2 d2 where 2: "same_io p1 p2" "usable d2" "view d2 = placed s a ts (view d)"
    "update_stock db (order_of s) d1 p1 = Inr (1, d2, p2)"
    using update_stock_entries [OF 1(2) ok pos, of p1] all 1(3) by (auto simp: placed_def)
  have msg: "c_text ''Order placed successfully.''" by (simp add: c_text_def)
  obtain r where "log_info ''Order placed successfully.'' p2 = Inr (r, logged ''Order placed successfully.'' INFO p2)"
    using log_info_short [OF msg] by auto
  with next_id_pos [OF assms(1)] 1(4) 2(4) have "record_order db (order_of s) d p =
      Inr (MESSAGE_OK, d2, logged ''Order placed successfully.'' INFO p2)"
    by (simp add: record_order_def)
  moreover have "same_io (p\<lparr>answers := as\<rparr>) (logged ''Order placed successfully.'' INFO p2)"
    using same_io_trans [OF 1(1) 2(1)] by simp
  ultimately show ?thesis using 2(2,3) by blast
qed

text \<open>A satisfiable order is answered with what recording it gives.\<close>

lemma place_order_records:
  assumes "usable d" and "order_ok s" and "satisfiable (view d) (os_entries s)" and "answers p = ts # as"
    and "rd_avail p inFD = frame (order_bytes s) @ rest" and "healthy (wr p outFD)"
    and "\<And>q. answers q = ts # as \<Longrightarrow> \<exists>q' d'. same_io (q\<lparr>answers := as\<rparr>) q' \<and> P d' \<and>
      record_order db (order_of s) d q = Inr (code, d', q')"
  shows "\<exists>p' d'. place_order db inFD outFD d p = Inr (d', p') \<and> P d' \<and>
    answered inFD outFD rest (enc32 code) as p p'"
proof -
  let ?p = "consume inFD (8 + length (order_bytes s)) p"
  obtain p1 where 1: "same_io ?p p1" "verifyOrderStock db (order_of s) d ?p = Inr (1, order_of s, d, p1)"
    using verifyOrderStock_entries [OF assms(1,2) satisfiable_listed [OF assms(3)], of ?p] assms(3)
    by (auto simp: reduced_satisfiable)
  have "answers p1 = ts # as" using same_io_answered(3) [OF 1(1)] assms(4) by simp
  then obtain p2 d' where 2: "same_io (p1\<lparr>answers := as\<rparr>) p2" "P d'"
    "record_order db (order_of s) d p1 = Inr (code, d', p2)"
    using assms(7) by blast
  have frame: "rd_avail p2 = rd_avail ?p" "sent p2 = sent p" "answers p2 = as" "wr p2 = wr p"
    using same_ioD [OF 1(1)] same_ioD [OF 2(1)] by (simp_all add: rd_avail_def fun_eq_iff)
  have "place_order db inFD outFD d p = Inr (d', deliver outFD (enc32 code) p2)"
    unfolding place_order_reads [OF assms(2,5)] using 1(2) 2(3) frame(4) assms(6)
    by (simp add: ensureWrite_healthy)
  moreover have "answered inFD outFD rest (enc32 code) as p (deliver outFD (enc32 code) p2)"
    using frame assms(5) by (auto simp: answered_def fun_eq_iff)
  ultimately show ?thesis using 2(2) by blast
qed

lemma place_order_ok:
  assumes "usable d" and "order_inv s" and "order_address s a" and "length a \<le> 150" and "billable s"
    and "satisfiable (view d) (os_entries s)" and "answers p = ts # as" and "in_int ts" and "0 \<le> ts"
    and "in_int (next_id (view d))"
    and "rd_avail p inFD = frame (order_bytes s) @ rest" and "healthy (wr p outFD)"
  shows "\<exists>p' d'. place_order db inFD outFD d p = Inr (d', p') \<and> (usable d' \<and>
    view d' = placed s a ts (view d)) \<and> answered inFD outFD rest (enc32 MESSAGE_OK) as p p'"
  using assms(2) record_order_ok [OF assms(1-6) _ assms(8-10)]
  by (intro place_order_records [OF assms(1) _ assms(6,7,11,12)]) (auto simp: order_inv_def)

lemma place_order_short:
  assumes "usable d" and "order_ok s" and "listed (view d) (os_entries s)"
    and "\<not> satisfiable (view d) (os_entries s)"
    and "rd_avail p inFD = frame (order_bytes s) @ rest" and "healthy (wr p outFD)"
  shows "\<exists>p'. place_order db inFD outFD d p = Inr (d, p') \<and>
    answered inFD outFD rest (enc32 MESSAGE_UNSATISFIABLE_ORDER @
      frame (order_bytes (reduced_order (view d) s))) (answers p) p p'"
proof -
  let ?p = "consume inFD (8 + length (order_bytes s)) p" and ?s = "reduced_order (view d) s"
  let ?m = "''Received unsatisfiable order, replied with biggest satisfiable sub-order.''"
  obtain p1 where 1: "same_io ?p p1" "verifyOrderStock db (order_of s) d ?p = Inr (0, order_of ?s, d, p1)"
    using verifyOrderStock_entries [OF assms(1-3), of ?p] assms(4) by (auto simp: reduced_order_def)
  note ok = reduced_order_ok [OF assms(2)]
  have len: "length (order_bytes ?s) < 2 ^ 31"
    using order_wire.enc_message [OF ok] by (simp add: message_ok_def)
  let ?p2 = "deliver_frame outFD (order_bytes ?s) (deliver outFD (enc32 MESSAGE_UNSATISFIABLE_ORDER) p1)"
  have frame: "rd_avail p1 = rd_avail ?p" "sent p1 = sent p" "answers p1 = answers p" "wr p1 = wr p"
    using same_ioD [OF 1(1)] by simp_all
  have msg: "c_text ?m" "length ?m < 255" by (simp_all add: c_text_def)
  obtain r where "log_info ?m ?p2 = Inr (r, logged ?m INFO ?p2)"
    using log_info_short [OF msg, of ?p2] by blast
  then have "place_order db inFD outFD d p = Inr (d, logged ?m INFO ?p2)"
    unfolding place_order_reads [OF assms(2,5)]
    using 1(2) frame(4) assms(6) len order_wire.ser_layout [OF ok]
    by (simp add: ensureWrite_healthy mem_read_full deliver_frame_def)
  moreover have "answered inFD outFD rest (enc32 MESSAGE_UNSATISFIABLE_ORDER @
      frame (order_bytes ?s)) (answers p) p (logged ?m INFO ?p2)"
    using frame assms(5) by (auto simp: answered_def fun_eq_iff deliver_frame_def frame_def)
  ultimately show ?thesis by blast
qed

lemma send_products_ok:
  assumes "usable d" and "healthy (wr p outFD)"
  shows "\<exists>p'. send_products db outFD d p = Inr (d, p') \<and>
    answered inFD outFD (rd_avail p inFD) (catalogue_bytes (view d)) (answers p) p p'"
proof (cases "st_products (view d) = []")
  case True
  let ?m = "''DB: Error querying products from database.''"
  obtain p1 where 1: "same_io p p1" "get_products db d p = Inr (-1, [], d, p1)"
    using get_products_empty [OF assms(1) True] by blast
  have msg: "c_text ?m" "length ?m < 255" by (simp_all add: c_text_def)
  obtain r where "log_warn ?m p1 = Inr (r, logged ?m WARNING p1)"
    using log_warn_short [OF msg, of p1] by blast
  with 1 assms(2) same_ioD [OF 1(1)]
  have "send_products db outFD d p = Inr (d, deliver outFD (enc32 MESSAGE_ERROR) (logged ?m WARNING p1))"
    by (simp add: send_products_def ensureWrite_healthy)
  with True same_ioD [OF 1(1)] show ?thesis by (auto simp: answered_def catalogue_bytes_def fun_eq_iff)
next
  case False
  let ?n = "length (st_products (view d))" and ?ps = "catalogue_specs (view d)"
  obtain p1 where 1: "same_io p p1" "get_products db d p = Inr (int ?n, map Some (map product_of ?ps), d, p1)"
    using get_products_catalogue [OF assms(1) False] by blast
  let ?p2 = "deliver outFD (enc32 (word_of_nat ?n)) p1"
  have h: "healthy (wr ?p2 outFD)" using assms(2) same_ioD [OF 1(1)] by simp
  obtain p3 where 3: "send_products_loop outFD (map Some (map product_of ?ps)) ?p2 = Inr p3" "rd p3 = rd ?p2"
    "answers p3 = answers ?p2" "\<forall>g. healthy (wr ?p2 g) \<longrightarrow> healthy (wr p3 g)"
    "sent p3 = (sent ?p2)(outFD := sent ?p2 outFD @ concat (map (\<lambda>s. frame (product_bytes s)) ?ps))"
    using send_products_loop_frames [OF catalogue_specs_ok [OF view_ok [OF assms(1)]] h] by blast
  have "send_products db outFD d p = Inr (d, p3)"
    using 1 3(1) assms(2) same_ioD [OF 1(1)] by (simp add: send_products_def ensureWrite_healthy)
  moreover have "answered inFD outFD (rd_avail p inFD) (catalogue_bytes (view d)) (answers p) p p3"
    using False 3 same_ioD [OF 1(1)] by (auto simp: answered_def catalogue_bytes_def fun_eq_iff rd_avail_def)
  ultimately show ?thesis by blast
qed

end

section \<open>Requests the contract of the client does not cover\<close>

lemma two_digits_length [simp]: "length (two_digits c) = 2"
  by (simp add: two_digits_def)

lemma amount_at_least:
  assumes "billable s"
  shows "4 \<le> length (amount_of s)"
proof -
  obtain w c where "amount_of s = dec_nat w @ ''.'' @ two_digits c" using assms by (auto simp: billable_def)
  moreover have "0 < length (dec_nat w)" by simp
  ultimately show ?thesis by (simp add: Suc_le_eq del: length_greater_0_conv)
qed

context sql_store
begin

lemma place_order_unlisted:
  assumes "usable d" and "order_ok s" and "\<not> listed (view d) (os_entries s)"
    and "rd_avail p inFD = frame (order_bytes s) @ rest"
  shows "place_order db inFD outFD d p = Inl Uninit"
proof -
  note len = order_ok_bounds(1) [OF assms(2)]
  let ?p = "consume inFD (8 + length (order_bytes s)) p" and ?m = "''Database server verifying order.''"
  have msg: "c_text ?m" "length ?m < 255" by (simp_all add: c_text_def)
  obtain r where "log_info ?m ?p = Inr (r, logged ?m INFO ?p)" using log_info_short [OF msg, of ?p] by blast
  then have "verifyOrderStock db (order_of s) d ?p = Inl Uninit"
    using verify_loop_unlisted [OF assms(1) len _ assms(3), of "[]"] len by (simp add: verifyOrderStock_def)
  then show ?thesis unfolding place_order_reads [OF assms(2,4)] by simp
qed

lemma place_order_overflows:
  assumes "usable d" and "order_ok s" and "order_address s a" and "billable s"
    and "satisfiable (view d) (os_entries s)" and "964 \<le> length a"
    and "rd_avail p inFD = frame (order_bytes s) @ rest"
  shows "place_order db inFD outFD d p = Inl Out_of_bounds"
proof -
  let ?p = "consume inFD (8 + length (order_bytes s)) p"
  obtain p1 where 1: "verifyOrderStock db (order_of s) d ?p = Inr (1, order_of s, d, p1)"
    using verifyOrderStock_entries [OF assms(1,2) satisfiable_listed [OF assms(5)], of ?p] assms(5)
    by (auto simp: reduced_satisfiable)
  have "order_query (order_of s) ts = Inl Out_of_bounds" for ts
    using order_query_overflows [OF order_ok_bounds(1) [OF assms(2)] _ _ assms(4), of a ts] assms(3,6)
      plain_c_text [of a] amount_at_least [OF assms(4)] by (simp add: order_address_def)
  then have "store_verified_order db (order_of s) d p1 = Inl Out_of_bounds"
    by (simp add: store_verified_order_def split: prod.split)
  with 1 show ?thesis unfolding place_order_reads [OF assms(2,7)] by (simp add: record_order_def)
qed

text \<open>When an update is refused, the order and the earlier updates stay.\<close>

lemma record_order_partial:
  assumes "usable d" and "order_ok s" and "counted (os_entries s)" and "order_address s a" and "length a \<le> 150"
    and "billable s" and "answers p = ts # as" and "in_int ts" and "0 \<le> ts" and "in_int (next_id (view d))"
    and "\<not> fst (take_each (os_entries s) (recorded s a ts (view d)))"
  shows "\<exists>p' d'. same_io (p\<lparr>answers := as\<rparr>) p' \<and> usable d' \<and> view d' = placed s a ts (view d) \<and>
    record_order db (order_of s) d p = Inr (MESSAGE_ERROR, d', p')"
proof -
  have addr: "os_address s = Some (bytes_of a @ [0])" "plain a"
    using assms(4) by (simp_all add: order_address_def)
  have len: "length (insert_order_text (amount_of s) a ts) < 255"
    using length_amount [OF assms(6)] assms(5) length_dec_int_le [OF assms(8)]
    by (simp add: length_insert_order_text)
  obtain p1 d1 where 1: "same_io (p\<lparr>answers := as\<rparr>) p1" "usable d1" "view d1 = recorded s a ts (view d)"
    "store_verified_order db (order_of s) d p = Inr (next_id (view d), d1, p1)"
    using store_verified_order_stores [OF assms(1,2) addr assms(6-9) len assms(10)] by blast
  obtain p2 d2 where 2: "same_io p1 p2" "usable d2" "view d2 = placed s a ts (view d)"
    "update_stock db (order_of s) d1 p1 = Inr (-1, d2, p2)"
    using update_stock_entries [OF 1(2) assms(2,3), of p1] assms(11) 1(3) by (auto simp: placed_def)
  let ?m = "''Database error verifying order.''"
  have msg: "c_text ?m" "length ?m < 255" by (simp_all add: c_text_def)
  obtain r where "log_warn ?m p2 = Inr (r, logged ?m WARNING p2)" using log_warn_short [OF msg, of p2] by blast
  with next_id_pos [OF assms(1)] 1(4) 2(4)
  have "record_order db (order_of s) d p = Inr (MESSAGE_ERROR, d2, logged ?m WARNING p2)"
    by (simp add: record_order_def)
  moreover have "same_io (p\<lparr>answers := as\<rparr>) (logged ?m WARNING p2)"
    using same_io_trans [OF 1(1) 2(1)] by simp
  ultimately show ?thesis using 2(2,3) by blast
qed

lemma place_order_partial:
  assumes "usable d" and "order_ok s" and "counted (os_entries s)" and "order_address s a" and "length a \<le> 150"
    and "billable s" and "answers p = ts # as" and "in_int ts" and "0 \<le> ts" and "in_int (next_id (view d))"
    and "satisfiable (view d) (os_entries s)"
    and "\<not> fst (take_each (os_entries s) (recorded s a ts (view d)))"
    and "rd_avail p inFD = frame (order_bytes s) @ rest" and "healthy (wr p outFD)"
  shows "\<exists>p' d'. place_order db inFD outFD d p = Inr (d', p') \<and> (usable d' \<and>
    view d' = placed s a ts (view d)) \<and> answered inFD outFD rest (enc32 MESSAGE_ERROR) as p p'"
  using record_order_partial [OF assms(1-6) _ assms(8-10,12)]
  by (intro place_order_records [OF assms(1,2,11,7,13,14)]) auto

end

end
