(* ===== verification/RefStore.thy ===== *)
theory RefStore
  imports Store
begin

text \<open>
  A small engine that understands the statements of the server, working directly on the contents.
  It keeps the contract of \<open>sql_store\<close>: the contract can be met, and results about every
  database that keeps it can be run.
\<close>

section \<open>Reading the statements\<close>

fun strip :: "string \<Rightarrow> string \<Rightarrow> string option" where
  "strip [] s = Some s"
| "strip (c # cs) [] = None"
| "strip (c # cs) (x # xs) = (if c = x then strip cs xs else None)"

lemma strip_append [simp]: "strip pre (pre @ s) = Some s"
  by (induction pre) auto

definition update_base :: string where
  "update_base = ''UPDATE products SET quantity=quantity-''"

definition ok_rows :: "row list \<Rightarrow> exec_result" where
  "ok_rows rows = \<lparr>ex_code = 0, ex_rows = rows, ex_errmsg = None\<rparr>"

definition failed :: exec_result where
  "failed = \<lparr>ex_code = 1, ex_rows = [], ex_errmsg = Some ''statement failed''\<rparr>"

definition ref_stock :: "string \<Rightarrow> store \<Rightarrow> exec_result \<times> store" where
  "ref_stock r st = (case strtol r of
     None \<Rightarrow> (failed, st)
   | Some (i, _) \<Rightarrow> (ok_rows (case stock_of st i of
       None \<Rightarrow> [] | Some q \<Rightarrow> [[(''quantity'', Some (dec_int q))]]), st))"

definition ref_update :: "string \<Rightarrow> store \<Rightarrow> exec_result \<times> store" where
  "ref_update r st = (case strtol r of
     None \<Rightarrow> (failed, st)
   | Some (n, r) \<Rightarrow> (case strip '' WHERE id='' r of
       None \<Rightarrow> (failed, st)
     | Some r \<Rightarrow> (case strtol r of
         None \<Rightarrow> (failed, st)
       | Some (i, _) \<Rightarrow> if enough n i st then (ok_rows [], take_stock n i st) else (failed, st))))"

definition ref_insert_order :: "string \<Rightarrow> store \<Rightarrow> exec_result \<times> store" where
  "ref_insert_order r st =
     (let t = takeWhile (\<lambda>c. c \<noteq> CHR '','') r; r = drop (length t + 2) r;
          a = takeWhile (\<lambda>c. c \<noteq> CHR 0x22) r; r = drop (length a + 2) r in
      case strtol r of
        None \<Rightarrow> (failed, st)
      | Some (time, _) \<Rightarrow> (ok_rows [], st\<lparr>st_orders := st_orders st @ [(next_id st, t, a, time)]\<rparr>))"

definition ref_insert_line :: "string \<Rightarrow> store \<Rightarrow> exec_result \<times> store" where
  "ref_insert_line r st = (case strtol r of
     None \<Rightarrow> (failed, st)
   | Some (k, r) \<Rightarrow> (case strtol (drop 1 r) of
       None \<Rightarrow> (failed, st)
     | Some (i, r) \<Rightarrow> (case strtol (drop 1 r) of
         None \<Rightarrow> (failed, st)
       | Some (n, _) \<Rightarrow> (ok_rows [], st\<lparr>st_lines := st_lines st @ [(k, i, n)]\<rparr>))))"

definition ref_init :: "string \<Rightarrow> store \<Rightarrow> exec_result \<times> store" where
  "ref_init q st =
     (if q \<in> set (take 3 init_queries) then (ok_rows [], st)
      else if q = init_queries ! 3 then (ok_rows [], st\<lparr>st_products := []\<rparr>)
      else case map_of (zip (drop 4 init_queries) catalogue) q of
        None \<Rightarrow> (failed, st)
      | Some r \<Rightarrow> (ok_rows [], st\<lparr>st_products := st_products st @ [r]\<rparr>))"

definition column_names :: "string list" where
  "column_names = [''id'', ''name'', ''description'', ''price'', ''quantity'']"

definition ref_exec :: "string \<Rightarrow> store \<Rightarrow> exec_result \<times> store" where
  "ref_exec q st =
     (if q = count_query then
        (ok_rows [[(''count(id)'', Some (dec_int (int (length (st_products st)))))]], st)
      else if q = products_query then
        (ok_rows (map (\<lambda>r. zip column_names (row_values r)) (st_products st)), st)
      else case strip stock_base q of Some r \<Rightarrow> ref_stock r st
      | None \<Rightarrow> (case strip update_base q of Some r \<Rightarrow> ref_update r st
      | None \<Rightarrow> (case strip order_base q of Some r \<Rightarrow> ref_insert_order r st
      | None \<Rightarrow> (case strip entry_base q of Some r \<Rightarrow> ref_insert_line r st
      | None \<Rightarrow> ref_init q st))))"

definition ref_db :: "store sqlite" where
  "ref_db = \<lparr>sq_open = (\<lambda>_. (0, empty_store)), sq_errmsg = (\<lambda>_. ''error''), sq_exec = ref_exec,
     sq_last_insert_rowid = (\<lambda>st. next_id st - 1), sq_close = (\<lambda>_. 0)\<rparr>"

section \<open>It keeps the contract\<close>

lemma strtol_int:
  assumes "in_int k" and "rest = [] \<or> \<not> is_digit (hd rest)"
  shows "strtol (dec_int k @ rest) = Some (k, rest)"
  using strtol_dec_int [of k rest] assms by (simp add: in_int_def)

lemma strtol_int_end: "in_int k \<Longrightarrow> strtol (dec_int k) = Some (k, [])"
  using strtol_int [of k "[]"] by simp

lemma no_digits [simp]: "\<not> is_digit (CHR '','')" "\<not> is_digit (CHR '' '')" "\<not> is_digit (CHR '')'')"
  by (simp_all add: is_digit_def char_code_def)

lemmas base_defs = count_query_def products_query_def stock_base_def update_base_def order_base_def entry_base_def

lemma ref_exec_count [simp]: "ref_exec count_query st =
    (ok_rows [[(''count(id)'', Some (dec_int (int (length (st_products st)))))]], st)"
  by (simp add: ref_exec_def)

lemma ref_exec_products [simp]: "ref_exec products_query st =
    (ok_rows (map (\<lambda>r. zip column_names (row_values r)) (st_products st)), st)"
  by (simp add: ref_exec_def base_defs)

lemma ref_exec_stock [simp]: "ref_exec (stock_base @ r) st = ref_stock r st"
proof -
  have "stock_base @ r \<noteq> count_query" "stock_base @ r \<noteq> products_query" by (simp_all add: base_defs)
  then show ?thesis by (simp add: ref_exec_def)
qed

lemma ref_exec_update [simp]: "ref_exec (update_base @ r) st = ref_update r st"
proof -
  have "update_base @ r \<noteq> count_query" "update_base @ r \<noteq> products_query" "strip stock_base (update_base @ r) = None"
    by (simp_all add: base_defs)
  then show ?thesis by (simp add: ref_exec_def)
qed

lemma ref_exec_order [simp]: "ref_exec (order_base @ r) st = ref_insert_order r st"
proof -
  have "order_base @ r \<noteq> count_query" "order_base @ r \<noteq> products_query" "strip stock_base (order_base @ r) = None"
    "strip update_base (order_base @ r) = None"
    by (simp_all add: base_defs)
  then show ?thesis by (simp add: ref_exec_def)
qed

lemma ref_exec_line [simp]: "ref_exec (entry_base @ r) st = ref_insert_line r st"
proof -
  have "entry_base @ r \<noteq> count_query" "entry_base @ r \<noteq> products_query" "strip stock_base (entry_base @ r) = None"
    "strip update_base (entry_base @ r) = None" "strip order_base (entry_base @ r) = None"
    by (simp_all add: base_defs)
  then show ?thesis by (simp add: ref_exec_def)
qed

lemma ref_update_text:
  assumes "in_int i" and "in_int n"
  shows "ref_exec (update_text n i) st =
    (if enough n i st then (ok_rows [], take_stock n i st) else (failed, st))"
proof -
  have "update_text n i = update_base @ dec_int n @ '' WHERE id='' @ dec_int i"
    by (simp add: update_text_def update_base_def)
  moreover have "strtol (dec_int n @ '' WHERE id='' @ dec_int i) = Some (n, '' WHERE id='' @ dec_int i)"
    using assms(2) by (intro strtol_int) simp_all
  moreover have "strip '' WHERE id='' ('' WHERE id='' @ dec_int i) = Some (dec_int i)"
    by (rule strip_append)
  ultimately show ?thesis
    using strtol_int_end [OF assms(1)] by (simp only: ref_exec_update ref_update_def) simp
qed

lemma ref_line_text:
  assumes "in_int k" and "in_int i" and "in_int n"
  shows "ref_exec (insert_line_text k i n) st = (ok_rows [], st\<lparr>st_lines := st_lines st @ [(k, i, n)]\<rparr>)"
proof -
  have "strtol (dec_int k @ CHR '','' # dec_int i @ CHR '','' # dec_int n @ '')'') =
      Some (k, CHR '','' # dec_int i @ CHR '','' # dec_int n @ '')'')"
    "strtol (dec_int i @ CHR '','' # dec_int n @ '')'') = Some (i, CHR '','' # dec_int n @ '')'')"
    "strtol (dec_int n @ '')'') = Some (n, '')'')"
    using assms by (simp_all add: strtol_int)
  then show ?thesis by (simp add: insert_line_text_def ref_insert_line_def)
qed

lemma takeWhile_until: "\<forall>c \<in> set xs. P c \<Longrightarrow> \<not> P y \<Longrightarrow> takeWhile P (xs @ y # ys) = xs"
  by (induction xs) auto

lemma amount_no_comma: "amount_text t \<Longrightarrow> \<forall>c \<in> set t. c \<noteq> CHR '',''"
proof -
  have "\<forall>c \<in> set (two_digits n). is_digit c" for n by (simp add: two_digits_def)
  then have "CHR '','' \<notin> set (two_digits n)" "CHR '','' \<notin> set (dec_nat n)" for n
    using dec_nat_digits no_digits(1) by blast+
  then show "amount_text t \<Longrightarrow> \<forall>c \<in> set t. c \<noteq> CHR '',''" by (auto simp: amount_text_def)
qed

lemma plain_no_quote: "plain a \<Longrightarrow> \<forall>c \<in> set a. c \<noteq> CHR 0x22"
proof
  fix c assume "plain a" "c \<in> set a"
  then have "c = CHR '' '' \<or> is_digit c \<or> 65 \<le> char_code c \<and> char_code c \<le> 90 \<or> 97 \<le> char_code c \<and> char_code c \<le> 122"
    by (simp add: plain_def)
  then show "c \<noteq> CHR 0x22" by (auto simp: is_digit_def char_code_def)
qed

lemma ref_order_text:
  assumes "amount_text t" and "plain a" and "in_int time"
  shows "ref_exec (insert_order_text t a time) st =
    (ok_rows [], st\<lparr>st_orders := st_orders st @ [(next_id st, t, a, time)]\<rparr>)"
proof -
  have "takeWhile (\<lambda>c. c \<noteq> CHR '','') (t @ CHR '','' # r) = t" for r
    using amount_no_comma [OF assms(1)] by (intro takeWhile_until) auto
  moreover have "takeWhile (\<lambda>c. c \<noteq> CHR 0x22) (a @ CHR 0x22 # r) = a" for r
    using plain_no_quote [OF assms(2)] by (intro takeWhile_until) auto
  moreover have "strtol (dec_int time @ '')'') = Some (time, '')'')"
    using assms(3) by (simp add: strtol_int)
  ultimately show ?thesis by (simp add: insert_order_text_def ref_insert_order_def Let_def)
qed

lemma take_stock_ok:
  assumes "store_ok st" and "0 \<le> n" and "in_int n" and "enough n i st"
  shows "store_ok (take_stock n i st)"
proof -
  let ?f = "\<lambda>r. if sr_id r = i then r\<lparr>sr_quantity := sr_quantity r - n\<rparr> else r"
  have rows: "st_products (take_stock n i st) = map ?f (st_products st)" by (simp add: take_stock_def)
  have "row_ok r" if r: "r \<in> set (map ?f (st_products st))" for r
  proof -
    from r obtain x where "x \<in> set (st_products st)" "r = ?f x" by auto
    with assms show ?thesis by (auto simp: store_ok_def row_ok_def enough_def in_int_def)
  qed
  moreover have "sr_id (?f r) = sr_id r" for r by simp
  then have "map sr_id (map ?f (st_products st)) = map sr_id (st_products st)" by simp
  then have "distinct (map sr_id (map ?f (st_products st)))" using assms(1) by (simp only: store_ok_def)
  moreover have "st_orders (take_stock n i st) = st_orders st" by (simp add: take_stock_def)
  ultimately show ?thesis using assms(1) unfolding store_ok_def rows by (simp only: length_map) blast
qed

lemma next_id_positive: "store_ok st \<Longrightarrow> 0 < next_id st"
  using Max_in [of "fst ` set (st_orders st)"] by (fastforce simp: next_id_def store_ok_def)

lemma next_id_snoc:
  assumes "x = next_id st"
  shows "next_id (st\<lparr>st_orders := st_orders st @ [(x, y)]\<rparr>) = next_id st + 1"
proof (cases "st_orders st = []")
  case True
  with assms show ?thesis by (simp add: next_id_def)
next
  case False
  then have "Max (insert x (fst ` set (st_orders st))) = max x (Max (fst ` set (st_orders st)))"
    by (intro Max_insert) auto
  with False assms show ?thesis by (simp add: next_id_def max_def)
qed

lemma ref_db_simps [simp]:
  "sq_exec ref_db = ref_exec" "sq_open ref_db f = (0, empty_store)" "sq_close ref_db st = 0"
  "sq_last_insert_rowid ref_db st = next_id st - 1"
  by (simp_all add: ref_db_def)

lemma snd_zip_names: "map snd (zip column_names (row_values r)) = row_values r"
  by (simp add: column_names_def row_values_def)

interpretation ref: sql_store ref_db "\<lambda>st. st" store_ok
proof (unfold_locales, goal_cases)
  case (2 d)
  show ?case by (simp add: answers_rows_def ok_rows_def SQLITE_OK_def)
next
  case (3 d)
  show ?case by (simp add: answers_rows_def ok_rows_def SQLITE_OK_def snd_zip_names comp_def)
next
  case (4 d i)
  then show ?case
    by (simp add: answers_rows_def ref_stock_def strtol_int_end ok_rows_def SQLITE_OK_def split: option.split)
next
  case (5 d i n)
  then show ?case by (simp add: ref_update_text performs_def ok_rows_def SQLITE_OK_def take_stock_ok)
next
  case (6 d i n)
  then show ?case by (simp add: ref_update_text refuses_def failed_def SQLITE_OK_def c_text_def)
next
  case (7 d t a time)
  then show ?case
    by (simp add: ref_order_text performs_def ok_rows_def SQLITE_OK_def next_id_snoc)
      (auto simp: store_ok_def next_id_positive)
next
  case (8 d k i n)
  then show ?case by (simp add: ref_line_text performs_def ok_rows_def SQLITE_OK_def store_ok_def)
qed

section \<open>It starts as the contract says\<close>

lemma ref_init_queries:
  "ref_exec (init_queries ! 0) st = (ok_rows [], st)"
  "ref_exec (init_queries ! 1) st = (ok_rows [], st)"
  "ref_exec (init_queries ! 2) st = (ok_rows [], st)"
  "ref_exec (init_queries ! 3) st = (ok_rows [], st\<lparr>st_products := []\<rparr>)"
  "ref_exec (init_queries ! 4) st = (ok_rows [], st\<lparr>st_products := st_products st @ [catalogue ! 0]\<rparr>)"
  "ref_exec (init_queries ! 5) st = (ok_rows [], st\<lparr>st_products := st_products st @ [catalogue ! 1]\<rparr>)"
  "ref_exec (init_queries ! 6) st = (ok_rows [], st\<lparr>st_products := st_products st @ [catalogue ! 2]\<rparr>)"
  "ref_exec (init_queries ! 7) st = (ok_rows [], st\<lparr>st_products := st_products st @ [catalogue ! 3]\<rparr>)"
  "ref_exec (init_queries ! 8) st = (ok_rows [], st\<lparr>st_products := st_products st @ [catalogue ! 4]\<rparr>)"
  by (simp_all add: ref_exec_def ref_init_def init_queries_def base_defs catalogue_def quoted_def)

lemma list_of_nine: "length xs = 9 \<Longrightarrow> xs = [xs ! 0, xs ! 1, xs ! 2, xs ! 3, xs ! 4, xs ! 5, xs ! 6, xs ! 7, xs ! 8]"
  by (intro nth_equalityI) (auto simp: less_Suc_eq numeral_eq_Suc)

lemma init_queries_nine: "init_queries = [init_queries ! 0, init_queries ! 1, init_queries ! 2, init_queries ! 3,
    init_queries ! 4, init_queries ! 5, init_queries ! 6, init_queries ! 7, init_queries ! 8]"
  by (rule list_of_nine) (simp add: init_queries_def)

lemma catalogue_ok: "store_ok start_store"
  by (simp add: store_ok_def start_store_def empty_store_def catalogue_def row_ok_def in_int_def c_text_def)

lemma ref_performs: "performs (ok_rows [], st)"
  by (simp add: performs_def ok_rows_def SQLITE_OK_def)

lemma ref_init_all: "all_perform ref_db init_queries empty_store"
    "after_queries ref_db init_queries empty_store = start_store"
proof -
  have "catalogue = [catalogue ! 0, catalogue ! 1, catalogue ! 2, catalogue ! 3, catalogue ! 4]"
    by (simp add: catalogue_def)
  then show "after_queries ref_db init_queries empty_store = start_store"
    by (subst init_queries_nine)
      (simp add: after_queries_def ref_init_queries ref_init_queries(2) [unfolded One_nat_def] start_store_def empty_store_def)
  show "all_perform ref_db init_queries empty_store"
    by (subst init_queries_nine)
      (simp add: ref_init_queries ref_init_queries(2) [unfolded One_nat_def] ref_performs)
qed

interpretation ref: sql_server ref_db "\<lambda>st. st" store_ok
  by unfold_locales (simp_all add: ref_init_all catalogue_ok)

end
