(* ===== verification/DatabaseRuns.thy ===== *)
theory DatabaseRuns
  imports Serving RefStore
begin

text \<open>
  Whole runs of the database server: its main loop implements a machine on the abstract contents,
  for every database that keeps the contract; and what it does with requests the contract of the
  client does not cover.
\<close>

section \<open>The abstract machine\<close>

text \<open>A request: the products, or an order with its address and the time at which it arrives.\<close>

datatype request = Ask | Put order_spec string int

fun request_bytes :: "request \<Rightarrow> byte list" where
  "request_bytes Ask = enc32 CMD_GET_PRODUCTS"
| "request_bytes (Put s a ts) = enc32 CMD_PLACE_ORDER @ frame (order_bytes s)"

fun serve :: "store \<Rightarrow> request \<Rightarrow> byte list \<times> store" where
  "serve st Ask = (catalogue_bytes st, st)"
| "serve st (Put s a ts) =
     (if satisfiable st (os_entries s) then (enc32 MESSAGE_OK, placed s a ts st)
      else (enc32 MESSAGE_UNSATISFIABLE_ORDER @ frame (order_bytes (reduced_order st s)), st))"

text \<open>What the system is asked for on the way: \<open>select\<close>, and the time of an order that is stored.\<close>

fun ticks :: "store \<Rightarrow> request \<Rightarrow> int list" where
  "ticks st Ask = [1]"
| "ticks st (Put s a ts) = (if satisfiable st (os_entries s) then [1, ts] else [1])"

fun request_ok :: "store \<Rightarrow> request \<Rightarrow> bool" where
  "request_ok st Ask = True"
| "request_ok st (Put s a ts) =
     (order_inv s \<and> order_address s a \<and> length a \<le> 150 \<and> billable s \<and> listed st (os_entries s) \<and>
      in_int ts \<and> 0 \<le> ts \<and> in_int (next_id st))"

fun serve_all :: "store \<Rightarrow> request list \<Rightarrow> byte list \<times> store" where
  "serve_all st [] = ([], st)"
| "serve_all st (r # rs) = (let (out, st) = serve st r; (outs, st) = serve_all st rs in (out @ outs, st))"

fun all_ticks :: "store \<Rightarrow> request list \<Rightarrow> int list" where
  "all_ticks st [] = []"
| "all_ticks st (r # rs) = ticks st r @ all_ticks (snd (serve st r)) rs"

fun all_ok :: "store \<Rightarrow> request list \<Rightarrow> bool" where
  "all_ok st [] = True"
| "all_ok st (r # rs) = (request_ok st r \<and> all_ok (snd (serve st r)) rs)"

section \<open>One round\<close>

lemma select_one:
  "0 \<le> fd \<Longrightarrow> fd < 1024 \<Longrightarrow>
     select_wrapper (fd + 1) (Some [fd]) 1 None 0 None 0 (- 1) (- 1) (\<lambda>_. r) = Inr r"
  by (simp add: select_wrapper_def fd_array_def)

lemma next_answer_Cons [simp]: "answers p = a # as \<Longrightarrow> next_answer p = (a, p\<lparr>answers := as\<rparr>)"
  by (simp add: next_answer_def)

lemma answers_update_frame [simp]:
  "rd_avail (p\<lparr>answers := as\<rparr>) = rd_avail p" "consume fd n (p\<lparr>answers := as\<rparr>) = (consume fd n p)\<lparr>answers := as\<rparr>"
  by (simp_all add: rd_avail_def fun_eq_iff consume_def)

text \<open>The code of a request is read and logged.\<close>

lemma db_round_code:
  assumes "0 \<le> inFD" and "inFD < 1024" and "answers p = 1 # as" and "rd_avail p inFD = enc32 code @ rest"
  shows "db_round db inFD outFD d p =
    (let p = (consume inFD 4 p)\<lparr>answers := as\<rparr> in
     if code = CMD_GET_PRODUCTS then
       c_bind (log_info ''Database server sending back products'' p) (\<lambda>(_, p).
       c_bind (send_products db outFD d p) (\<lambda>(d, p). Inr (False, d, p)))
     else if code = CMD_PLACE_ORDER then
       c_bind (log_info ''Database server placing order'' p) (\<lambda>(_, p).
       c_bind (place_order db inFD outFD d p) (\<lambda>(d, p). Inr (False, d, p)))
     else if code = MESSAGE_CLOSE then
       c_bind (log_info ''Database received CLOSE command, shutting down.'' p) (\<lambda>(_, p). Inr (True, d, p))
     else
       c_bind (log_warn ''WAT. Database received unknown message code. Behavior from here on is unspecified.'' p)
         (\<lambda>(_, p). Inr (False, d, p)))"
proof -
  have "read_fresh 4 inFD (p\<lparr>answers := as\<rparr>) = Inr (enc32 code, (consume inFD 4 p)\<lparr>answers := as\<rparr>)"
    using read_fresh_exact [of 4 "p\<lparr>answers := as\<rparr>" inFD] assms(4) by simp
  then show ?thesis using assms(3) select_one [OF assms(1,2), of 1] by (simp add: db_round_def)
qed

lemma round_messages:
  "c_text ''Database server sending back products''" "length ''Database server sending back products'' < 255"
  "c_text ''Database server placing order''" "length ''Database server placing order'' < 255"
  "c_text ''Database received CLOSE command, shutting down.''"
  "length ''Database received CLOSE command, shutting down.'' < 255"
  by (simp_all add: c_text_def)

lemma answered_later:
  assumes "rd_avail q = (rd_avail p)(inFD := r)" and "sent q = sent p" and "wr q = wr p"
    and "answered inFD outFD rest out as q p'"
  shows "answered inFD outFD rest out as p p'"
  using assms by (auto simp: answered_def)

context sql_store
begin

lemma db_round_request:
  assumes "usable d" and "request_ok (view d) r" and "0 \<le> inFD" and "inFD < 1024"
    and "rd_avail p inFD = request_bytes r @ rest" and "answers p = ticks (view d) r @ as"
    and "healthy (wr p outFD)"
  shows "\<exists>p' d'. db_round db inFD outFD d p = Inr (False, d', p') \<and> usable d' \<and>
    view d' = snd (serve (view d) r) \<and> answered inFD outFD rest (fst (serve (view d) r)) as p p'"
proof (cases r)
  case Ask
  let ?m = "''Database server sending back products''" and ?p = "(consume inFD 4 p)\<lparr>answers := as\<rparr>"
  obtain x where x: "log_info ?m ?p = Inr (x, logged ?m INFO ?p)"
    using log_info_short [OF round_messages(1,2), of ?p] by blast
  have p: "rd_avail (logged ?m INFO ?p) = (rd_avail p)(inFD := rest)" "sent (logged ?m INFO ?p) = sent p"
    "wr (logged ?m INFO ?p) = wr p" "answers (logged ?m INFO ?p) = as"
    using Ask assms(5) by simp_all
  obtain p' where p': "send_products db outFD d (logged ?m INFO ?p) = Inr (d, p')"
    "answered inFD outFD rest (catalogue_bytes (view d)) as (logged ?m INFO ?p) p'"
    using send_products_ok [OF assms(1), of "logged ?m INFO ?p" outFD inFD] assms(7) Ask assms(5) by auto
  have "db_round db inFD outFD d p = Inr (False, d, p')"
    using db_round_code [OF assms(3,4), of p as CMD_GET_PRODUCTS rest db outFD d] Ask assms(5,6) x p'(1)
    by (simp add: Let_def)
  with Ask assms(1) answered_later [OF p(1-3) p'(2)] show ?thesis by auto
next
  case (Put s a ts)
  let ?as = "(if satisfiable (view d) (os_entries s) then [ts] else []) @ as"
  let ?m = "''Database server placing order''" and ?p = "(consume inFD 4 p)\<lparr>answers := ?as\<rparr>"
  obtain x where x: "log_info ?m ?p = Inr (x, logged ?m INFO ?p)"
    using log_info_short [OF round_messages(3,4), of ?p] by blast
  have p: "rd_avail (logged ?m INFO ?p) = (rd_avail p)(inFD := frame (order_bytes s) @ rest)"
    "sent (logged ?m INFO ?p) = sent p" "wr (logged ?m INFO ?p) = wr p" "answers (logged ?m INFO ?p) = ?as"
    using Put assms(5) by simp_all
  have ok: "order_inv s" "order_address s a" "length a \<le> 150" "billable s" "listed (view d) (os_entries s)"
    "in_int ts" "0 \<le> ts" "in_int (next_id (view d))"
    using Put assms(2) by simp_all
  have stream: "rd_avail (logged ?m INFO ?p) inFD = frame (order_bytes s) @ rest" using p(1) by simp
  have h: "healthy (wr (logged ?m INFO ?p) outFD)" using p(3) assms(7) by simp
  obtain p' d' where p': "place_order db inFD outFD d (logged ?m INFO ?p) = Inr (d', p')" "usable d'"
    "view d' = snd (serve (view d) r)"
    "answered inFD outFD rest (fst (serve (view d) r)) as (logged ?m INFO ?p) p'"
  proof (cases "satisfiable (view d) (os_entries s)")
    case True
    with place_order_ok [OF assms(1) ok(1-4) True _ ok(6-8) stream h, of as] p(4) Put that show thesis by auto
  next
    case False
    with place_order_short [OF assms(1) _ ok(5) False stream h] p(4) Put that ok(1) assms(1) show thesis
      by (auto simp: order_inv_def)
  qed
  have "CMD_PLACE_ORDER \<noteq> CMD_GET_PRODUCTS" by (simp add: message_codes)
  then have "db_round db inFD outFD d p = Inr (False, d', p')"
    using db_round_code [OF assms(3,4), of p ?as CMD_PLACE_ORDER "frame (order_bytes s) @ rest" db outFD d]
      Put assms(5,6) x p'(1)
    by (simp add: Let_def)
  with p'(2,3) answered_later [OF p(1-3) p'(4)] show ?thesis by blast
qed

lemma db_round_close:
  assumes "0 \<le> inFD" and "inFD < 1024" and "rd_avail p inFD = enc32 MESSAGE_CLOSE @ rest"
    and "answers p = 1 # as"
  shows "\<exists>p'. db_round db inFD outFD d p = Inr (True, d, p') \<and> answered inFD outFD rest [] as p p'"
proof -
  let ?m = "''Database received CLOSE command, shutting down.''" and ?p = "(consume inFD 4 p)\<lparr>answers := as\<rparr>"
  obtain x where x: "log_info ?m ?p = Inr (x, logged ?m INFO ?p)"
    using log_info_short [OF round_messages(5,6), of ?p] by blast
  have "MESSAGE_CLOSE \<noteq> CMD_GET_PRODUCTS" "MESSAGE_CLOSE \<noteq> CMD_PLACE_ORDER" by (simp_all add: message_codes)
  with db_round_code [OF assms(1,2,4,3), of db outFD d] x assms(3) show ?thesis
    by (auto simp: Let_def answered_def)
qed

lemma db_loop_requests:
  assumes "usable d" and "all_ok (view d) rs" and "0 \<le> inFD" and "inFD < 1024"
    and "rd_avail p inFD = concat (map request_bytes rs) @ enc32 MESSAGE_CLOSE @ rest"
    and "answers p = all_ticks (view d) rs @ 1 # as" and "healthy (wr p outFD)"
  shows "\<exists>p' d'. db_loop db inFD outFD d p = Some (Inr (d', p')) \<and> usable d' \<and>
    view d' = snd (serve_all (view d) rs) \<and> answered inFD outFD rest (fst (serve_all (view d) rs)) as p p'"
  using assms(1,2,5-)
proof (induction rs arbitrary: d p)
  case Nil
  then have stream: "rd_avail p inFD = enc32 MESSAGE_CLOSE @ rest" and ans: "answers p = 1 # as" by simp_all
  obtain p' where "db_round db inFD outFD d p = Inr (True, d, p')" "answered inFD outFD rest [] as p p'"
    using db_round_close [OF assms(3,4) stream ans] by blast
  with Nil.prems(1) show ?case by (subst db_loop.simps) auto
next
  case (Cons r rs)
  obtain p1 d1 where 1: "db_round db inFD outFD d p = Inr (False, d1, p1)" "usable d1"
    "view d1 = snd (serve (view d) r)"
    "answered inFD outFD (concat (map request_bytes rs) @ enc32 MESSAGE_CLOSE @ rest)
      (fst (serve (view d) r)) (all_ticks (snd (serve (view d) r)) rs @ 1 # as) p p1"
    using db_round_request [OF Cons.prems(1) _ assms(3,4), of r p
        "concat (map request_bytes rs) @ enc32 MESSAGE_CLOSE @ rest"
        "all_ticks (snd (serve (view d) r)) rs @ 1 # as" outFD] Cons.prems by auto
  obtain p2 d2 where 2: "db_loop db inFD outFD d1 p1 = Some (Inr (d2, p2))" "usable d2"
    "view d2 = snd (serve_all (view d1) rs)" "answered inFD outFD rest (fst (serve_all (view d1) rs)) as p1 p2"
    using Cons.IH [OF 1(2), of p1] Cons.prems(2,5) 1(3,4) by (auto simp: answered_def)
  have "answered inFD outFD rest (fst (serve_all (view d) (r # rs))) as p p2"
    using 1(3,4) 2(4) by (auto simp: answered_def split: prod.splits)
  with 1(1,3) 2 show ?case by (subst db_loop.simps) (auto split: prod.splits)
qed

end

end
