(* ===== verification/DatabaseProps.thy ===== *)
theory DatabaseProps
  imports DatabaseRuns
begin

text \<open>
  What the database server guarantees, for every database that keeps the contract of \<open>sql_store\<close>
  (\<open>sql_server\<close> for a whole run), each with a run over the reference engine.
\<close>

section \<open>Starting\<close>

text \<open>While the queue takes every message, a text of any length is logged.\<close>

lemma log_info_queued:
  assumes "c_text m" and "mq_full p = []"
  obtains r p' where "log_info m p = Inr (r, p')" and "same_io p p'" and "mq_full p' = []"
proof -
  obtain cs where cs: "message_cells m = Inr cs"
    using message_cells_short [OF assms(1)] message_cells_long [OF assms(1)]
    by (cases "length m < 255") (auto simp: not_less)
  show thesis
  proof (cases "log_info m p")
    case (Inl e)
    with cs assms(2) show thesis
      by (auto simp: log_info_def logMessage_def Let_def msgsnd_def connectToMsgQueue_def split: if_splits list.splits)
  next
    case (Inr y)
    obtain r p' where y: "y = (r, p')" by (cases y) auto
    have "logMessage m INFO p = Inr (r, p')" using Inr y by (simp add: log_info_def)
    from logMessage_frame [OF this] have "same_io p p'" by (simp add: same_io_def)
    moreover have "mq_full p' = []"
      using Inr y cs assms(2)
      by (auto simp: log_info_def logMessage_def Let_def msgsnd_def connectToMsgQueue_def print_def
          split: if_splits list.splits)
    ultimately show thesis using that Inr y by blast
  qed
qed

lemma init_queries_text: "\<forall>q \<in> set init_queries. c_text q"
  by (simp add: init_queries_def quoted_def c_text_def)

lemma init_loop_performs:
  assumes "all_perform db qs d" and "\<forall>q \<in> set qs. c_text q" and "mq_full p = []"
  shows "\<exists>p'. same_io p p' \<and> init_loop db qs r d p = Inr (r, after_queries db qs d, p')"
  using assms
proof (induction qs arbitrary: d p)
  case Nil
  then show ?case by (auto simp: after_queries_def intro!: exI [of _ p])
next
  case (Cons q qs)
  obtain x p1 where 1: "log_info q p = Inr (x, p1)" "same_io p p1" "mq_full p1 = []"
    using log_info_queued [of q p] Cons.prems by auto
  have "run_query db q no_callback () d p = Inr (SQLITE_OK, (), ex_errmsg (fst (sq_exec db q d)), snd (sq_exec db q d), p1)"
    using 1(1) Cons.prems(1) by (auto simp: run_query_def performs_def split: prod.splits)
  moreover obtain p2 where "same_io p1 p2"
    "init_loop db qs r (snd (sq_exec db q d)) p1 = Inr (r, after_queries db qs (snd (sq_exec db q d)), p2)"
    using Cons.IH [of "snd (sq_exec db q d)" p1] Cons.prems 1(3) by auto
  ultimately show ?case using same_io_trans [OF 1(2)] by (auto simp: after_queries_def)
qed

lemma db_shut_down_returns: "\<exists>p'. db_shut_down db outFD inFD d p = Inr p' \<and> sent p' = sent p"
proof -
  let ?m1 = "''Couldn't close database handle. Shutting down database server anyway.''"
    and ?m2 = "''Bye-bye from database server.''"
  have msgs: "c_text ?m1" "length ?m1 < 255" "c_text ?m2" "length ?m2 < 255" by (simp_all add: c_text_def)
  let ?p = "snd (sys_close inFD (snd (sys_close outFD p)))"
  have "\<exists>r p1. (if sq_close db d \<noteq> SQLITE_OK then log_warn ?m1 ?p else Inr (1, ?p)) = Inr (r, p1) \<and>
      sent p1 = sent ?p"
    using log_warn_short [OF msgs(1,2), of ?p] by (auto intro: exI [of _ "logged ?m1 WARNING ?p"])
  then obtain r p1 where 1: "(if sq_close db d \<noteq> SQLITE_OK then log_warn ?m1 ?p else Inr (1, ?p)) = Inr (r, p1)"
    "sent p1 = sent ?p" by blast
  obtain r2 where "log_info ?m2 p1 = Inr (r2, logged ?m2 INFO p1)"
    using log_info_short [OF msgs(3,4), of p1] by blast
  with 1 show ?thesis by (simp add: db_shut_down_def split_beta Let_def)
qed

lemma waiting_message: "c_text ''This is database server, waiting for requests...''"
  "length ''This is database server, waiting for requests...'' < 255"
  by (simp_all add: c_text_def)

context sql_server
begin

lemma db_main_run:
  assumes "0 \<le> inFD" and "inFD < 1024" and "in_int outFD" and "all_ok start_store rs" and "mq_full p = []"
    and "rd_avail p inFD = concat (map request_bytes rs) @ enc32 MESSAGE_CLOSE @ rest"
    and "answers p = all_ticks start_store rs @ 1 # as" and "healthy (wr p outFD)"
  shows "\<exists>p' d'. db_main db [dec_int inFD, dec_int outFD] p = Inr (0, Some d', p') \<and>
    view d' = snd (serve_all start_store rs) \<and>
    sent p' = (sent p)(outFD := sent p outFD @ fst (serve_all start_store rs))"
proof -
  let ?m = "''This is database server, waiting for requests...''"
  let ?d1 = "after_queries db init_queries (snd (sq_open db dbFileName))"
  obtain d0 where o: "sq_open db dbFileName = (0, d0)" and d0: "snd (sq_open db dbFileName) = d0"
    using opened by (cases "sq_open db dbFileName") auto
  have fds: "sint (atoi (dec_int inFD)) = inFD" "sint (atoi (dec_int outFD)) = outFD"
    using assms(1-3) atoi_int [of inFD] atoi_int [of outFD] by (simp_all add: in_int_def sint_word_of_int)
  have q: "mq_full (remove_file dbFileName p) = []" using assms(5) by (simp add: remove_file_def)
  obtain p1 where 1: "same_io (remove_file dbFileName p) p1"
    "init_db db d0 (remove_file dbFileName p) = Inr (1, ?d1, p1)"
    using init_loop_performs [OF init_performs init_queries_text q, of 1] by (auto simp: init_db_def d0)
  obtain r where r: "log_info ?m p1 = Inr (r, logged ?m INFO p1)"
    using log_info_short [OF waiting_message, of p1] by blast
  have p1: "rd_avail (logged ?m INFO p1) = rd_avail p" "answers (logged ?m INFO p1) = answers p"
    "wr (logged ?m INFO p1) = wr p" "sent (logged ?m INFO p1) = sent p"
    using same_ioD [OF 1(1)] by (simp_all add: remove_file_def rd_avail_def fun_eq_iff)
  obtain p2 d2 where 2: "db_loop db inFD outFD ?d1 (logged ?m INFO p1) = Some (Inr (d2, p2))"
    "view d2 = snd (serve_all start_store rs)"
    "answered inFD outFD rest (fst (serve_all start_store rs)) as (logged ?m INFO p1) p2"
    using db_loop_requests [OF init_usable, of rs inFD "logged ?m INFO p1" rest as outFD] assms p1
    by (auto simp: init_view)
  obtain p3 where 3: "db_shut_down db outFD inFD d2 p2 = Inr p3" "sent p3 = sent p2"
    using db_shut_down_returns [of db outFD inFD d2 p2] by blast
  have "db_main db [dec_int inFD, dec_int outFD] p = Inr (0, Some d2, p3)"
    unfolding db_main_def list.case Let_def fds o prod.case using 1(2) r 2(1) 3(1) by simp
  with 2(2,3) 3(2) p1(4) show ?thesis by (auto simp: answered_def)
qed

end

section \<open>The properties\<close>

text \<open>C5: A whole run of the database server. Started with its two descriptors, it fills the database,
  answers any list of product requests and well-formed orders in the order they come, and ends with
  status 0 at \<open>MESSAGE_CLOSE\<close>; the bytes it sends and the contents it leaves are those of the
  abstract machine \<open>serve_all\<close>, whatever database keeps the contract.\<close>

theorem db_main_serves:
  assumes "sql_server db view usable"
    and "0 \<le> inFD" and "inFD < 1024" and "in_int outFD" and "all_ok start_store rs" and "mq_full p = []"
    and "rd_avail p inFD = concat (map request_bytes rs) @ enc32 MESSAGE_CLOSE @ rest"
    and "answers p = all_ticks start_store rs @ 1 # as" and "healthy (wr p outFD)"
  shows "\<exists>p' d'. db_main db [dec_int inFD, dec_int outFD] p = Inr (0, Some d', p') \<and>
    view d' = snd (serve_all start_store rs) \<and>
    sent p' = (sent p)(outFD := sent p outFD @ fst (serve_all start_store rs))"
  by (rule sql_server.db_main_run [OF assms])


text \<open>C17: An order for more than the stock leaves the database as it was. It is answered with
  \<open>MESSAGE_UNSATISFIABLE_ORDER\<close> and the largest order that the stock satisfies: each entry of it is in
  stock and asks no more than the entry it came from, and so does every other order with these two
  properties ask no more than it.\<close>

theorem place_order_reduced:
  assumes "sql_store db view usable" and "usable d" and "order_ok s" and "listed (view d) (os_entries s)"
    and "\<not> satisfiable (view d) (os_entries s)"
    and "rd_avail p inFD = frame (order_bytes s) @ rest" and "healthy (wr p outFD)"
  shows "\<exists>p' red. place_order db inFD outFD d p = Inr (d, p') \<and>
    answered inFD outFD rest (enc32 MESSAGE_UNSATISFIABLE_ORDER @ frame (order_bytes red)) (answers p) p p' \<and>
    os_address red = os_address s \<and> satisfiable (view d) (os_entries red) \<and>
    list_all2 sub_entry (os_entries red) (os_entries s) \<and>
    (\<forall>es. list_all2 sub_entry es (os_entries s) \<and> satisfiable (view d) es \<longrightarrow>
       list_all2 sub_entry es (os_entries red))"
proof -
  note rows = sql_store.view_ok [OF assms(1,2)]
  let ?red = "reduced_order (view d) s"
  obtain p' where "place_order db inFD outFD d p = Inr (d, p')"
    "answered inFD outFD rest (enc32 MESSAGE_UNSATISFIABLE_ORDER @ frame (order_bytes ?red)) (answers p) p p'"
    using sql_store.place_order_short [OF assms] by blast
  moreover have "os_address ?red = os_address s" "satisfiable (view d) (os_entries ?red)"
    using assms(4) reduced_in_stock [OF rows] by (auto simp: reduced_order_def satisfiable_def listed_def)
  moreover have "list_all2 sub_entry (os_entries ?red) (os_entries s)"
    using reduced_sub [OF rows] by (simp add: reduced_order_def list_all2_map1 list.rel_refl)
  moreover have "list_all2 sub_entry es (os_entries ?red)"
    if "list_all2 sub_entry es (os_entries s)" "satisfiable (view d) es" for es
    using that reduced_largest [OF rows]
    by (auto simp: reduced_order_def list_all2_conv_all_nth satisfiable_def)
  ultimately show ?thesis by blast
qed

text \<open>A product request is answered with the number of products and each of them in the promised
  layout, in the order of the table, and changes nothing; but an empty table is answered like a
  database error.\<close>

theorem send_products_answers:
  assumes "sql_store db view usable" and "usable d" and "healthy (wr p outFD)"
  shows "\<exists>p'. send_products db outFD d p = Inr (d, p') \<and> rd_avail p' = rd_avail p \<and>
    sent p' = (sent p)(outFD := sent p outFD @
      (if st_products (view d) = [] then enc32 MESSAGE_ERROR
       else enc32 (word_of_nat (length (st_products (view d)))) @
         concat (map (\<lambda>r. frame (product_bytes (spec_of_row r))) (st_products (view d)))))"
proof -
  obtain p' where "send_products db outFD d p = Inr (d, p')"
    "answered 0 outFD (rd_avail p 0) (catalogue_bytes (view d)) (answers p) p p'"
    using sql_store.send_products_ok [OF assms, of 0] by blast
  then show ?thesis by (auto simp: answered_def catalogue_bytes_def catalogue_specs_def comp_def)
qed

text \<open>An order with a product that is not in the table makes the server compare with a stock that was
  never stored: the query gives no row, and \<open>get_stock\<close> returns its uninitialised variable.\<close>

theorem unknown_product_undefined:
  assumes "sql_store db view usable" and "usable d" and "order_ok s"
    and "e \<in> set (os_entries s)" and "stock_of (view d) (sint (oe_product_id e)) = None"
    and "rd_avail p inFD = frame (order_bytes s) @ rest"
  shows "place_order db inFD outFD d p = Inl Uninit"
proof (rule sql_store.place_order_unlisted [OF assms(1-3) _ assms(6)])
  show "\<not> listed (view d) (os_entries s)" using assms(4,5) by (auto simp: listed_def)
qed

text \<open>C28: A satisfiable order whose address has 964 characters or more overflows the query buffer of the
  server, although the client accepts addresses of up to 1022 characters.\<close>

theorem long_address_overflows:
  assumes "sql_store db view usable" and "usable d" and "order_ok s" and "order_address s a"
    and "exact_prices (os_entries s)" and "satisfiable (view d) (os_entries s)" and "964 \<le> length a"
    and "rd_avail p inFD = frame (order_bytes s) @ rest"
  shows "place_order db inFD outFD d p = Inl Out_of_bounds"
  by (rule sql_store.place_order_overflows [OF assms(1-4) exact_billable [OF assms(5)] assms(6-8)])


section \<open>Runs over the reference engine\<close>

definition shop_order :: "string \<Rightarrow> (c_int \<times> c_int) list \<Rightarrow> order_spec" where
  "shop_order a es = \<lparr>os_address = Some (bytes_of a @ [0]), os_entries =
     map (\<lambda>(i, q). \<lparr>oe_product_id = i, oe_quantity = q, oe_price = 0x41F40000\<rparr>) es\<rparr>"

definition asking :: "order_spec \<Rightarrow> proc" where
  "asking s = (fresh_proc (\<lambda>fd. [Rd_data (frame (order_bytes s))]))\<lparr>answers := [1000]\<rparr>"

lemma shop_order_simps [simp]:
  "os_address (shop_order a es) = Some (bytes_of a @ [0])"
  "os_entries (shop_order a es) = map (\<lambda>(i, q). \<lparr>oe_product_id = i, oe_quantity = q, oe_price = 0x41F40000\<rparr>) es"
  by (simp_all add: shop_order_def)

lemma asking_simps [simp]:
  "rd_avail (asking s) fd = frame (order_bytes s) @ []" "wr (asking s) fd = []" "answers (asking s) = [1000]"
  "sent (asking s) fd = []"
  by (simp_all add: asking_def rd_avail_def)

lemma shop_order_address: "plain a \<Longrightarrow> order_address (shop_order a es) a"
  by (simp add: order_address_def)

lemma shop_order_ok:
  assumes "plain a" and "length a < 1000" and "length es \<le> 16"
  shows "order_ok (shop_order a es)"
  using assms zero_notin_bytes_of [OF plain_c_text [OF assms(1)]]
  by (simp add: order_ok_def address_ok_def ORDER_MAX_SIZE_def)

lemma shop_order_exact:
  "\<forall>(i, q) \<in> set es. 0 \<le> sint q \<and> sint q < 1000 \<Longrightarrow> length es \<le> 16 \<Longrightarrow>
     exact_prices (os_entries (shop_order a es))"
proof -
  assume es: "\<forall>(i, q) \<in> set es. 0 \<le> sint q \<and> sint q < 1000" "length es \<le> 16"
  have "(\<Sum>(i, q) \<leftarrow> es. 61 * nat (sint q)) \<le> length es * 61000"
    using es(1) by (induction es) auto
  with es price_halves(1) show ?thesis
    by (auto simp: exact_prices_def comp_def split_def intro!: exI [of _ 1] exI [of _ "\<lambda>_. 61"])
qed

lemma start_stock:
  "stock_of start_store 1 = Some 60" "stock_of start_store 4 = Some 100" "stock_of start_store 9 = None"
  "st_orders start_store = []" "st_lines start_store = []" "next_id start_store = 1" "st_products start_store = catalogue"
  "catalogue \<noteq> []"
  by (simp_all add: stock_of_def start_store_def catalogue_def empty_store_def next_id_def)

lemma main_address: "plain ''Main 1''" "length ''Main 1'' = 6"
  by (simp_all add: plain_def is_digit_def char_code_def)


lemma place_order_reduced_witness:
  "\<exists>p' red. place_order ref_db 3 4 start_store (asking (shop_order ''Main 1'' [(1, 100), (4, 2)])) =
     Inr (start_store, p') \<and> sent p' 4 = enc32 MESSAGE_UNSATISFIABLE_ORDER @ frame (order_bytes red)"
proof -
  let ?s = "shop_order ''Main 1'' [(1, 100), (4, 2)]"
  have s: "order_ok ?s" by (rule shop_order_ok [OF main_address(1)]) simp_all
  have "listed start_store (os_entries ?s)" "\<not> satisfiable start_store (os_entries ?s)"
    by (simp_all add: listed_def satisfiable_def in_stock_def start_stock)
  from place_order_reduced [OF ref.sql_store_axioms catalogue_ok s this, of "asking ?s" 3 "[]" 4]
  show ?thesis by (auto simp: healthy_def answered_def)
qed

lemma send_products_answers_witness:
  "\<exists>p'. send_products ref_db 4 start_store (fresh_proc (\<lambda>_. [])) = Inr (start_store, p') \<and>
     take 4 (sent p' 4) = enc32 5"
  using send_products_answers [OF ref.sql_store_axioms catalogue_ok, of "fresh_proc (\<lambda>_. [])" 4]
  by (auto simp: healthy_def start_stock catalogue_def)

lemma unknown_product_undefined_witness:
  "place_order ref_db 3 4 start_store (asking (shop_order ''Main 1'' [(9, 1)])) = Inl Uninit"
proof (rule unknown_product_undefined [OF ref.sql_store_axioms catalogue_ok])
  show "order_ok (shop_order ''Main 1'' [(9, 1)])" by (rule shop_order_ok [OF main_address(1)]) simp_all
  show "\<lparr>oe_product_id = 9, oe_quantity = 1, oe_price = 0x41F40000\<rparr> \<in> set (os_entries (shop_order ''Main 1'' [(9, 1)]))"
    by simp
qed (simp_all add: start_stock)

lemma long_address_overflows_witness:
  "place_order ref_db 3 4 start_store (asking (shop_order (replicate 970 (CHR ''x'')) [(1, 3)])) = Inl Out_of_bounds"
proof (rule long_address_overflows [OF ref.sql_store_axioms catalogue_ok])
  have x: "plain (replicate 970 (CHR ''x''))" by (simp add: plain_def char_code_def)
  then show "order_ok (shop_order (replicate 970 (CHR ''x'')) [(1, 3)])" by (rule shop_order_ok) simp_all
  show "order_address (shop_order (replicate 970 (CHR ''x'')) [(1, 3)]) (replicate 970 (CHR ''x''))"
    using x by (rule shop_order_address)
  show "exact_prices (os_entries (shop_order (replicate 970 (CHR ''x'')) [(1, 3)]))"
    by (rule shop_order_exact) simp_all
qed (simp_all add: satisfiable_def in_stock_def start_stock)


lemma db_main_serves_witness:
  "\<exists>p p' d'. db_main ref_db [dec_int 3, dec_int 4] p = Inr (0, Some d', p') \<and> stock_of d' 1 = Some 57"
proof -
  let ?s = "shop_order ''Main 1'' [(1, 3), (4, 2)]"
  let ?rs = "[Ask, Put ?s ''Main 1'' 1000, Ask]"
  let ?p = "(fresh_proc (\<lambda>fd. [Rd_data (concat (map request_bytes ?rs) @ enc32 MESSAGE_CLOSE @ [])]))
    \<lparr>answers := all_ticks start_store ?rs @ 1 # []\<rparr>"
  have s: "order_inv ?s"
    using shop_order_ok [OF main_address(1)] by (simp add: order_inv_def product_ids_def)
  have sat: "satisfiable start_store (os_entries ?s)" by (simp add: satisfiable_def in_stock_def start_stock)
  have "billable ?s" by (intro exact_billable shop_order_exact) simp_all
  then have "all_ok start_store ?rs"
    using s shop_order_address [OF main_address(1)] satisfiable_listed [OF sat]
    by (simp add: main_address in_int_def start_stock)
  then have "\<exists>p' d'. db_main ref_db [dec_int 3, dec_int 4] ?p = Inr (0, Some d', p') \<and>
    d' = snd (serve_all start_store ?rs) \<and>
    sent p' = (sent ?p)(4 := sent ?p 4 @ fst (serve_all start_store ?rs))"
    by (intro db_main_serves [OF ref.sql_server_axioms]) (simp_all add: in_int_def rd_avail_def healthy_def)
  moreover have "stock_of (snd (serve_all start_store ?rs)) 1 = Some 57"
    using placed_effect [OF _ sat catalogue_ok, of "''Main 1''" 1000] sat
    by (simp add: product_ids_def start_stock asked_def split_beta)
  ultimately show ?thesis by auto
qed

end
