(* ===== verification/EndToEnd.thy ===== *)
theory EndToEnd
  imports ClientProps DatabaseProps
begin

text \<open>
  What fits the client, the forked server and the database server together: the orders a shopper puts
  together from the products the database offers are orders the database can meet, and the bytes of
  one side are the bytes of the other.
\<close>

section \<open>The products the database offers\<close>

lemma sint_word_inject: "in_int i \<Longrightarrow> in_int j \<Longrightarrow> (word_of_int i :: c_int) = word_of_int j \<longleftrightarrow> i = j"
  using sint_word_of_int by metis

lemma catalogue_offered:
  assumes "store_ok st"
  shows "offered (catalogue_specs st)"
proof -
  have rows: "\<forall>r \<in> set (st_products st). in_int (sr_id r)" "distinct (map sr_id (st_products st))"
    using assms by (auto simp: store_ok_def row_ok_def)
  have "distinct (map (\<lambda>r. word_of_int (sr_id r) :: c_int) (st_products st))"
    using rows by (auto simp: distinct_map inj_on_def sint_word_inject)
  moreover have "map ps_id (catalogue_specs st) = map (\<lambda>r. word_of_int (sr_id r)) (st_products st)"
    by (simp add: catalogue_specs_def spec_of_row_def)
  ultimately have "distinct (map ps_id (catalogue_specs st))" by (simp only:)
  moreover have "length (catalogue_specs st) < 2 ^ 31" using assms by (simp add: catalogue_specs_def store_ok_def)
  ultimately show ?thesis using catalogue_specs_ok [OF assms] by (simp only: offered_def simp_thms)
qed

lemma catalogue_stock:
  assumes "store_ok st" and "q \<in> set (catalogue_specs st)"
  shows "stock_of st (sint (ps_id q)) = Some (sint (ps_stock q))" and "0 \<le> sint (ps_stock q)"
proof -
  obtain r where r: "r \<in> set (st_products st)" "q = spec_of_row r" using assms(2) by (auto simp: catalogue_specs_def)
  have ok: "in_int (sr_id r)" "in_int (sr_quantity r)" "0 \<le> sr_quantity r"
    using assms(1) r(1) by (auto simp: store_ok_def row_ok_def)
  have "find (\<lambda>x. sr_id x = sr_id r) (st_products st) = Some r"
    using assms(1) r(1) by (auto simp: store_ok_def find_Some_iff distinct_conv_nth in_set_conv_nth)
  with ok r(2) show "stock_of st (sint (ps_id q)) = Some (sint (ps_stock q))" "0 \<le> sint (ps_stock q)"
    by (simp_all add: stock_of_def spec_of_row_def sint_word_of_int)
qed

lemma shop_satisfiable:
  assumes "store_ok st" and "shop_inv (catalogue_specs st) s"
  shows "satisfiable st (os_entries s)"
  unfolding satisfiable_def
proof
  fix e
  assume e: "e \<in> set (os_entries s)"
  then obtain q where q: "q \<in> set (catalogue_specs st)" "ps_id q = oe_product_id e"
    using assms(2) by (auto simp: shop_inv_def)
  have "distinct (product_ids (os_entries s))" using assms(2) by (simp add: shop_inv_def order_inv_def)
  from entry_quantity [OF this e] have "sint (oe_quantity e) = quantity_of s (ps_id q)"
    using q(2) by (simp add: quantity_of_def)
  also have "\<dots> \<le> sint (ps_stock q)"
    using assms(2) q(1) catalogue_stock(2) [OF assms(1) q(1)] by (fastforce simp: shop_inv_def)
  finally show "in_stock st e" using catalogue_stock(1) [OF assms(1) q(1)] q(2) by (simp add: in_stock_def)
qed

lemma address_text_plain: "address_text t \<longleftrightarrow> plain t"
  by (auto simp: address_text_def plain_def isalnum_def)

section \<open>The prices of the first catalogue\<close>

lemma catalogue_prices:
  "f_atof ''30.5'' = 0x41F40000" "f_atof ''40.0'' = 0x42200000" "f_atof ''90.0'' = 0x42B40000"
  "f_atof ''25.0'' = 0x41C80000" "f_atof ''20.0'' = 0x41A00000"
  by (simp_all add: f_atof_def atof_unsigned_def is_space_def is_digit_def char_code_def digits_val.simps
      digit_val_def float_eval)

definition half_units :: "f32 \<Rightarrow> nat" where
  "half_units x = (if x = 0x41F40000 then 61 else if x = 0x42200000 then 80 else if x = 0x42B40000 then 180
     else if x = 0x41C80000 then 50 else 40)"

lemma price_frac: "q \<in> set (catalogue_specs start_store) \<Longrightarrow> frac 1 (half_units (ps_price q)) (ps_price q) \<and> sint (ps_stock q) \<le> 200"
proof -
  have "61 * 2 ^ 18 = (15990784 :: nat)" "80 * 2 ^ 17 = (10485760 :: nat)" "180 * 2 ^ 16 = (11796480 :: nat)"
    "50 * 2 ^ 18 = (13107200 :: nat)" "40 * 2 ^ 18 = (10485760 :: nat)" by simp_all
  then have "frac 1 61 0x41F40000" "frac 1 80 0x42200000" "frac 1 180 0x42B40000" "frac 1 50 0x41C80000" "frac 1 40 0x41A00000"
    by (auto simp: frac_def decode_def Let_def intro!: exI [of _ "18 :: nat"] exI [of _ "17 :: nat"] exI [of _ "16 :: nat"])
  then show "q \<in> set (catalogue_specs start_store) \<Longrightarrow> ?thesis"
    by (auto simp: catalogue_specs_def start_stock catalogue_def spec_of_row_def catalogue_prices half_units_def)
qed

lemma shop_exact:
  assumes "shop_inv (catalogue_specs start_store) s"
  shows "exact_prices (os_entries s)"
proof -
  have e: "frac 1 (half_units (oe_price e)) (oe_price e) \<and> 0 \<le> sint (oe_quantity e) \<and> sint (oe_quantity e) \<le> 200"
    if el: "e \<in> set (os_entries s)" for e
  proof -
    obtain q where q: "q \<in> set (catalogue_specs start_store)" "ps_id q = oe_product_id e" "ps_price q = oe_price e"
      using assms el unfolding shop_inv_def by metis
    have "in_stock start_store e" using shop_satisfiable [OF catalogue_ok assms] el by (simp add: satisfiable_def)
    then have "sint (oe_quantity e) \<le> sint (ps_stock q)"
      using catalogue_stock(1) [OF catalogue_ok q(1)] q(2) by (simp add: in_stock_def)
    moreover have "0 \<le> sint (oe_quantity e)" using assms el by (auto simp: shop_inv_def order_inv_def order_le_less)
    ultimately show ?thesis using price_frac [OF q(1)] q(3) by simp
  qed
  have units: "half_units x \<le> 180" for x by (simp add: half_units_def)
  have "(\<Sum>e \<leftarrow> es. half_units (oe_price e) * nat (sint (oe_quantity e))) \<le> length es * 36000"
    if "set es \<subseteq> set (os_entries s)" for es
    using that
  proof (induction es)
    case (Cons x es)
    have "half_units (oe_price x) * nat (sint (oe_quantity x)) \<le> 180 * 200"
      using e [of x] Cons.prems units by (intro mult_le_mono) auto
    with Cons show ?case by simp
  qed simp
  from this [OF order_refl] have "(\<Sum>e \<leftarrow> os_entries s. half_units (oe_price e) * nat (sint (oe_quantity e))) < 2 ^ 24"
    using order_ok_bounds(1) [of s] assms by (simp add: shop_inv_def order_inv_def)
  with e show ?thesis
    unfolding exact_prices_def
    by (intro exI [of _ 1] exI [of _ "\<lambda>e. half_units (oe_price e)"]) fastforce
qed

section \<open>The bytes of both sides\<close>

lemma purchase_requests:
  "session_db_asked (purchase ps s) = concat (map request_bytes [Ask, Put s t ts])"
  by (simp add: session_db_asked_def purchase_def)

lemma purchase_answers:
  assumes "store_ok st" and "st_products st \<noteq> []" and "satisfiable st (os_entries s)"
  shows "session_db_answers (purchase (catalogue_specs st) s) = fst (serve_all st [Ask, Put s t ts])"
  using assms ok_codes
  by (simp add: session_db_answers_def purchase_def answer_tail_def catalogue_bytes_def product_frames_def
      catalogue_specs_def comp_def)

lemma with_address_simps [simp]:
  "os_entries (with_address t s) = os_entries s" "os_address (with_address t s) = Some (bytes_of t @ [0])"
  by (simp_all add: with_address_def)

lemma purchase_ok:
  assumes "shop_inv (catalogue_specs start_store) s0" and "s = with_address t s0" and "address_text t"
    and "length t \<le> 150" and "in_int ts" and "0 \<le> ts"
  shows "order_inv s" and "satisfiable start_store (os_entries s)" and "all_ok start_store [Ask, Put s t ts]"
proof -
  have s0: "order_inv s0" using assms(1) by (simp add: shop_inv_def)
  then show inv: "order_inv s"
    using with_address_ok [of s0 t] assms(2-4) by (simp add: order_inv_def)
  show sat: "satisfiable start_store (os_entries s)" using shop_satisfiable [OF catalogue_ok assms(1)] assms(2) by simp
  have "billable s" using exact_billable [of s] shop_exact [OF assms(1)] assms(2) by simp
  with inv sat assms(2-6) show "all_ok start_store [Ask, Put s t ts]"
    by (simp add: order_address_def address_text_plain satisfiable_listed in_int_def start_stock)
qed

end
