(* ===== verification/CommandLine.thy ===== *)
theory CommandLine
  imports Database ConfigFile
begin

text \<open>
  \<^verbatim>\<open>database/dbCommandLine.c\<close>: the tool that runs typed queries on the database file and prints their
  rows. SQLite is the same parameter as in the database server.
\<close>

section \<open>The program\<close>

fun printRow :: "row \<Rightarrow> proc \<Rightarrow> proc c_result" where
  "printRow [] p = Inr (print ''\<newline>'' p)"
| "printRow ((name, data) # cols) p =
     printRow cols (print (name @ '' = '' @ (case data of None \<Rightarrow> ''NULL'' | Some s \<Rightarrow> s) @ ''\<newline>'') p)"

definition cl_run_query ::
  "'d sqlite \<Rightarrow> string \<Rightarrow> 'd \<Rightarrow> proc \<Rightarrow> (int \<times> string option \<times> 'd \<times> proc) c_result" where
  "cl_run_query db query d p =
     (case sq_exec db query d of (r, d) \<Rightarrow>
      c_bind (each_row printRow (ex_rows r) p) (\<lambda>p. Inr (ex_code r, ex_errmsg r, d, p)))"

text \<open>
  The loop that fills \<open>query\<close>, an array of 1024 characters, from index \<open>i\<close>: what it stores, and the rest of
  the input. At the end of the input \<open>getchar\<close> gives \<open>EOF\<close>, which is stored as a character until the
  array is full.
\<close>

fun read_query :: "nat \<Rightarrow> string \<Rightarrow> string \<times> string" where
  "read_query i [] = (replicate (1023 - i) (CHR 0xFF), [])"
| "read_query i (c # cs) =
     (if i < 1023 then
        (if c = CHR 0x0A then ([], cs) else let (q, rest) = read_query (i + 1) cs in (c # q, rest))
      else ([], c # cs))"

text \<open>One round: whether the user left. The array is read as a string.\<close>

definition cl_round :: "'d sqlite \<Rightarrow> 'd \<Rightarrow> proc \<Rightarrow> (bool \<times> 'd \<times> proc) c_result" where
  "cl_round db d p =
     (let p = print ''Enter query or q to exit: '' p; (typed, rest) = read_query 0 (stdin p);
          query = until_nul typed; p = p\<lparr>stdin := rest\<rparr> in
      if query = ''q'' then Inr (True, d, p)
      else
        c_bind (cl_run_query db query d
          (print (''Executing '' @ [CHR 0x22] @ query @ [CHR 0x22] @ '':\<newline>'') p)) (\<lambda>(code, errorMsg, d, p).
        if code = SQLITE_OK then Inr (False, d, print ''Done.\<newline>'' p)
        else (case errorMsg of
            None \<Rightarrow> Inl Null_deref
          | Some e \<Rightarrow> Inr (False, d, print (''SQL error: '' @ e @ ''\<newline>'') p))))"

partial_function (option) cl_loop :: "'d sqlite \<Rightarrow> 'd \<Rightarrow> proc \<Rightarrow> ('d \<times> proc) c_result option" where
  "cl_loop db d p =
     (case cl_round db d p of
        Inl e \<Rightarrow> Some (Inl e)
      | Inr (done, d, p) \<Rightarrow> if done then Some (Inr (d, p)) else cl_loop db d p)"

definition cl_main :: "'d sqlite \<Rightarrow> proc \<Rightarrow> (int \<times> 'd \<times> proc) c_result" where
  "cl_main db p =
     (let (opened, d) = sq_open db dbFileName in
      if opened \<noteq> SQLITE_OK then Inr (-1, d, print ''Couldn't open database handle. Aborting.\<newline>'' p)
      else
        c_bind (case cl_loop db d p of None \<Rightarrow> Inl No_return | Some r \<Rightarrow> r) (\<lambda>(d, p).
        Inr (0, d, if sq_close db d \<noteq> SQLITE_OK
          then print ''Couldn't close database handle. Shutting down anyway.\<newline>'' p else p)))"

section \<open>What it prints\<close>

definition row_text :: "row \<Rightarrow> string" where
  "row_text r = concat (map (\<lambda>(name, data). name @ '' = '' @ (case data of None \<Rightarrow> ''NULL'' | Some s \<Rightarrow> s) @ ''\<newline>'') r) @ ''\<newline>''"

lemma printRow_text: "printRow r p = Inr (print (row_text r) p)"
  by (induction r p rule: printRow.induct) (simp_all add: row_text_def)

lemma each_row_text: "each_row printRow rs p = Inr (print (concat (map row_text rs)) p)"
  by (induction rs arbitrary: p) (simp_all add: printRow_text)

text \<open>The rows of a query and its outcome.\<close>

definition outcome_text :: "exec_result \<Rightarrow> string" where
  "outcome_text r = concat (map row_text (ex_rows r)) @
     (if ex_code r = SQLITE_OK then ''Done.\<newline>''
      else ''SQL error: '' @ (case ex_errmsg r of None \<Rightarrow> [] | Some e \<Rightarrow> e) @ ''\<newline>'')"

text \<open>A session: each query is shown, run once on the contents the previous one left, and its outcome is shown.\<close>

fun session_text :: "'d sqlite \<Rightarrow> string list \<Rightarrow> 'd \<Rightarrow> string" where
  "session_text db [] d = ''Enter query or q to exit: ''"
| "session_text db (q # qs) d =
     ''Enter query or q to exit: Executing '' @ [CHR 0x22] @ q @ [CHR 0x22] @ '':\<newline>'' @
     outcome_text (fst (sq_exec db q d)) @ session_text db qs (snd (sq_exec db q d))"

fun run_all :: "'d sqlite \<Rightarrow> string list \<Rightarrow> 'd \<Rightarrow> 'd" where
  "run_all db [] d = d"
| "run_all db (q # qs) d = run_all db qs (snd (sq_exec db q d))"

text \<open>Lines the array holds; SQLite reports every error with a message.\<close>

definition query_line :: "string \<Rightarrow> bool" where
  "query_line q \<longleftrightarrow> length q < 1023 \<and> CHR 0x0A \<notin> set q \<and> c_text q \<and> q \<noteq> ''q''"

definition reports_errors :: "'d sqlite \<Rightarrow> bool" where
  "reports_errors db \<longleftrightarrow> (\<forall>q d. ex_code (fst (sq_exec db q d)) \<noteq> SQLITE_OK \<longrightarrow> ex_errmsg (fst (sq_exec db q d)) \<noteq> None)"

lemma read_query_line:
  "CHR 0x0A \<notin> set q \<Longrightarrow> i + length q < 1023 \<Longrightarrow> read_query i (q @ CHR 0x0A # rest) = (q, rest)"
  by (induction q arbitrary: i) auto

lemma until_nul_text: "c_text q \<Longrightarrow> until_nul q = q"
  unfolding until_nul_def by (rule takeWhile_eq_all_conv [THEN iffD2]) (auto simp: c_text_def)

lemma cl_round_query:
  assumes "query_line q" and "reports_errors db" and "stdin p = q @ CHR 0x0A # rest"
  shows "cl_round db d p = Inr (False, snd (sq_exec db q d),
    print (''Enter query or q to exit: Executing '' @ [CHR 0x22] @ q @ [CHR 0x22] @ '':\<newline>'' @
      outcome_text (fst (sq_exec db q d))) (p\<lparr>stdin := rest\<rparr>))"
proof -
  obtain r d' where r: "sq_exec db q d = (r, d')" by (cases "sq_exec db q d") auto
  have "ex_code r \<noteq> SQLITE_OK \<longrightarrow> ex_errmsg r \<noteq> None" using assms(2) r by (metis fst_conv reports_errors_def)
  with assms r show ?thesis
    by (auto simp: cl_round_def cl_run_query_def Let_def read_query_line until_nul_text query_line_def each_row_text
        outcome_text_def print_def split: option.split)
qed

lemma cl_loop_session:
  assumes "\<forall>q \<in> set qs. query_line q" and "reports_errors db"
    and "stdin p = concat (map (\<lambda>q. q @ ''\<newline>'') qs) @ ''q\<newline>'' @ rest"
  shows "cl_loop db d p = Some (Inr (run_all db qs d, print (session_text db qs d) (p\<lparr>stdin := rest\<rparr>)))"
  using assms(1,3)
proof (induction qs arbitrary: d p)
  case Nil
  have "until_nul ''q'' = ''q''" by (simp add: until_nul_def)
  moreover have "read_query 0 (''q'' @ CHR 0x0A # rest) = (''q'', rest)" by (rule read_query_line) simp_all
  ultimately show ?case using Nil by (subst cl_loop.simps) (simp add: cl_round_def print_def)
next
  case (Cons q qs)
  have q: "query_line q" "stdin p = q @ CHR 0x0A # concat (map (\<lambda>q. q @ ''\<newline>'') qs) @ ''q\<newline>'' @ rest"
    using Cons.prems by simp_all
  show ?case
    using Cons.IH Cons.prems(1) cl_round_query [OF q(1) assms(2) q(2), of d]
    by (subst cl_loop.simps) (simp add: print_def)
qed

lemma cl_round_eof:
  assumes "stdin p = []" and "reports_errors db"
  shows "\<exists>d' p'. cl_round db d p = Inr (False, d', p') \<and> stdin p' = []"
proof -
  let ?q = "replicate 1023 (CHR 0xFF)"
  have q: "until_nul ?q = ?q" "?q \<noteq> ''q''" by (auto simp: until_nul_def dest: arg_cong [of _ _ length])
  obtain r d' where r: "sq_exec db ?q d = (r, d')" by (cases "sq_exec db ?q d") auto
  have "ex_code r \<noteq> SQLITE_OK \<longrightarrow> ex_errmsg r \<noteq> None" using assms(2) r by (metis fst_conv reports_errors_def)
  with assms(1) q r show ?thesis
    by (auto simp: cl_round_def cl_run_query_def Let_def each_row_text split: option.split)
qed

lemma cl_loop_eof:
  assumes "stdin p = []" and "reports_errors db"
  shows "cl_loop db d p = None"
proof (rule ccontr)
  assume "cl_loop db d p \<noteq> None"
  then obtain y where y: "cl_loop db d p = Some y" by blast
  have "db = db \<longrightarrow> stdin p \<noteq> []"
  proof (rule cl_loop.raw_induct [where P = "\<lambda>e d p y. e = db \<longrightarrow> stdin p \<noteq> []", OF _ y])
    fix f :: "'a sqlite \<Rightarrow> 'a \<Rightarrow> proc \<Rightarrow> ('a \<times> proc) c_result option" and e d p y
    assume IH: "\<And>e d p y. f e d p = Some y \<Longrightarrow> e = db \<longrightarrow> stdin p \<noteq> []"
      and eq: "(case cl_round e d p of Inl x \<Rightarrow> Some (Inl x)
        | Inr (done, d, p) \<Rightarrow> if done then Some (Inr (d, p)) else f e d p) = Some y"
    show "e = db \<longrightarrow> stdin p \<noteq> []"
    proof (intro impI notI)
      assume "e = db" and "stdin p = []"
      then obtain d' p' where "cl_round db d p = Inr (False, d', p')" "stdin p' = []"
        using cl_round_eof [OF _ assms(2)] by blast
      with IH [of db d' p'] eq \<open>e = db\<close> show False by auto
    qed
  qed
  with assms(1) show False by simp
qed

section \<open>The properties\<close>


text \<open>At the end of its input the tool does not stop: \<open>getchar\<close> keeps giving \<open>EOF\<close>, which fills the query
  array and is run as a query, over and over.\<close>

theorem cl_main_spins_at_eof:
  assumes "sq_open db dbFileName = (SQLITE_OK, d)" and "reports_errors db" and "stdin p = []"
  shows "cl_main db p = Inl No_return"
  using assms(1) cl_loop_eof [OF assms(3,2)] by (simp add: cl_main_def)

text \<open>A database that knows one query.\<close>

definition one_query_db :: "nat sqlite" where
  "one_query_db = \<lparr>sq_open = (\<lambda>_. (0, 0)), sq_errmsg = (\<lambda>_. []),
     sq_exec = (\<lambda>q n. if q = ''count'' then (\<lparr>ex_code = 0, ex_rows = [[(''n'', Some (dec_nat n))]], ex_errmsg = None\<rparr>, n + 1)
       else (\<lparr>ex_code = 1, ex_rows = [], ex_errmsg = Some ''unknown''\<rparr>, n)),
     sq_last_insert_rowid = (\<lambda>_. 0), sq_close = (\<lambda>_. 0)\<rparr>"

lemma one_query_reports: "reports_errors one_query_db"
  by (simp add: reports_errors_def one_query_db_def SQLITE_OK_def)


lemma cl_main_spins_at_eof_witness: "cl_main one_query_db (fresh_proc (\<lambda>_. [])) = Inl No_return"
  by (rule cl_main_spins_at_eof [OF _ one_query_reports, of 0]) (simp_all add: one_query_db_def SQLITE_OK_def)

end
