(* ===== verification/MainServer.thy ===== *)
theory MainServer
  imports ForkedServer Config
begin

text \<open>
  \<^verbatim>\<open>server/mainServer.c\<close>: the process that starts the database server, listens for clients and
  forks a server for each of them.

  \<open>fork\<close>, \<open>pipe\<close> and the calls that set up the shared memory answer from the state of the
  process; \<open>net\<close> is the linked communication interface. The global pointer \<open>dbConn\<close> is passed
  along. \<open>me\<close> is the identifier of the main server.
\<close>

section \<open>Starting the database server\<close>

text \<open>The two ends of a pipe, \<open>None\<close> when it could not be created.\<close>

definition sys_pipe :: "proc \<Rightarrow> (fd \<times> fd) option \<times> proc" where
  "sys_pipe p =
     (let (r, p) = next_answer p in
      if r = -1 then (None, p)
      else let (rfd, p) = next_open p; (wfd, p) = next_open p in (Some (rfd, wfd), p))"

text \<open>\<open>sh_conn_create\<close> drawing the results of \<open>shm_open\<close>, \<open>ftruncate\<close> and \<open>mmap\<close> as it calls them.\<close>

definition create_shared :: "fd \<Rightarrow> fd \<Rightarrow> proc \<Rightarrow> (shared_conn \<times> proc) c_result" where
  "create_shared outFD inFD p =
     (let (shm_fd, p) = next_answer p in
      if shm_fd < 0 then c_bind (sh_conn_create outFD inFD shm_fd 0 True) (\<lambda>c. Inr (c, p))
      else
        let (truncated, p) = next_answer p in
        if truncated < 0 then c_bind (sh_conn_create outFD inFD shm_fd truncated True) (\<lambda>c. Inr (c, p))
        else
          let (mapped, p) = next_answer p in
          c_bind (sh_conn_create outFD inFD shm_fd truncated (mapped \<noteq> -1)) (\<lambda>c. Inr (c, p)))"

text \<open>
  The main server goes on with a result and the shared connection; the forked child becomes
  the database server with two descriptors as its arguments, or, when \<open>execve\<close> fails, kills the
  main server and exits.
\<close>

datatype started = Main_goes_on int shared_conn | Database "string list" | Exec_failed

definition dbArgs :: "fd \<Rightarrow> fd \<Rightarrow> (string list) c_result" where
  "dbArgs readFD writeFD =
     c_bind (sprintf (nat (sint (countDigits (word_of_int readFD)) + 1)) (dec_int readFD)) (\<lambda>dbReadFD.
     c_bind (sprintf (nat (sint (countDigits (word_of_int writeFD)) + 1)) (dec_int writeFD)) (\<lambda>dbWriteFD.
     c_bind (c_chars dbReadFD) (\<lambda>r. c_bind (c_chars dbWriteFD) (\<lambda>w.
     Inr [''databaseServer.bin'', chars_of r, chars_of w]))))"

definition startDBServer :: "proc \<Rightarrow> (started \<times> proc) c_result" where
  "startDBServer p =
     (let (outpipe, p) = sys_pipe p;
          (inpipe, p) = (case outpipe of None \<Rightarrow> (None, p) | Some _ \<Rightarrow> sys_pipe p) in
      case (outpipe, inpipe) of
        (Some (outRead, outWrite), Some (inRead, inWrite)) \<Rightarrow>
          c_bind (create_shared outWrite inRead p) (\<lambda>(dbConn, p).
          if dbConn = None then
            c_bind (log_err ''Main server couldn't create shared connection.'' p) (\<lambda>(_, p).
            Inr (Main_goes_on (-1) dbConn, p))
          else
            let (dbPID, p) = next_answer p in
            if dbPID = 0 then
              c_bind (dbArgs outRead inWrite) (\<lambda>args.
              let (executed, p) = next_answer p in
              if executed = -1 then
                c_bind (log_err ''execve() failed when starting database server.'' p) (\<lambda>(_, p).
                Inr (Exec_failed, p))
              else Inr (Database args, p))
            else Inr (Main_goes_on 1 dbConn, p))
      | _ \<Rightarrow>
          c_bind (log_err ''Main server couln't create pipes for shared connection,'' p) (\<lambda>(_, p).
          Inr (Main_goes_on (-1) None, p)))"

section \<open>Shutting down\<close>

text \<open>
  After a successful write the global pointer is set to null and then destroyed. \<open>unlinked\<close> is
  drawn by \<open>sh_conn_destroy\<close>.
\<close>

definition stopDBServer :: "int \<Rightarrow> shared_conn \<Rightarrow> proc \<Rightarrow> (int \<times> shared_conn \<times> proc) c_result" where
  "stopDBServer me dbConn p =
     c_bind (sh_conn_open me dbConn) (\<lambda>(_, dbConn).
     c_bind (sh_conn_get_out_fd dbConn) (\<lambda>outFD.
     c_bind (ensureWrite (enc32 MESSAGE_CLOSE) outFD p) (\<lambda>(writeResult, p).
     let dbConn = (if writeResult \<noteq> 0 then None else dbConn); (unlinked, p) = next_answer p in
     c_bind (sh_conn_destroy dbConn unlinked p) (\<lambda>(_, p).
     Inr (if writeResult \<noteq> 0 then 1 else -1, dbConn, p)))))"

definition main_shut_down :: "int \<Rightarrow> shared_conn \<Rightarrow> proc \<Rightarrow> (shared_conn \<times> proc) c_result" where
  "main_shut_down me dbConn p =
     c_bind (stopDBServer me dbConn p) (\<lambda>(r, dbConn, p).
     c_bind (if r = -1 then
               log_warn ''Couldn't send shutdown command to database server. Main server shutting down anyway.'' p
             else Inr (1, p)) (\<lambda>(_, p).
     c_bind (log_info ''Bye-bye from main server.'' p) (\<lambda>(_, p). Inr (dbConn, p))))"

section \<open>Accepting clients\<close>

record ('l, 'c) net =
  net_listen :: "string \<Rightarrow> proc \<Rightarrow> ('l option \<times> proc) c_result"
  net_accept :: "'l \<Rightarrow> proc \<Rightarrow> ('c option \<times> proc) c_result"
  net_comm :: "'c comm"

text \<open>What \<open>fork\<close> makes of the caller: still the parent, with the result, or the child.\<close>

datatype 'c forked = In_parent int | In_child 'c

definition createForkedServer :: "'c \<Rightarrow> proc \<Rightarrow> ('c forked \<times> proc) c_result" where
  "createForkedServer c p =
     (let (pid, p) = next_answer p in
      if pid < 0 then
        c_bind (log_warn ''Couldn't create a forked server.'' p) (\<lambda>(_, p). Inr (In_parent (-1), p))
      else if pid > 0 then Inr (In_parent 0, p)
      else Inr (In_child c, p))"

text \<open>
  How a process that runs \<open>main\<close> ends, and the connections that were accepted before: the main
  server with its exit status, a forked server with what it returned, the database server.
\<close>

datatype 'c ending = Main_exits int "'c list" | Server_ends 'c | Is_database "string list" | Killed_main

partial_function (option) accept_loop ::
  "('l, 'c) net \<Rightarrow> int \<Rightarrow> int \<Rightarrow> 'l \<Rightarrow> shared_conn \<Rightarrow> 'c list \<Rightarrow> proc \<Rightarrow> ('c ending \<times> proc) c_result option" where
  "accept_loop net me childPID params dbConn served p =
     (case net_accept net params p of
        Inl e \<Rightarrow> Some (Inl e)
      | Inr (None, p) \<Rightarrow>
          Some (c_bind (log_err ''Error accepting connection. Aborting.'' p) (\<lambda>(_, p).
            c_bind (main_shut_down me dbConn p) (\<lambda>(_, p). Inr (Main_exits 1 served, p))))
      | Inr (Some c, p) \<Rightarrow>
          (case createForkedServer c p of
             Inl e \<Rightarrow> Some (Inl e)
           | Inr (In_child c, p) \<Rightarrow>
               Some (c_bind (forkedServer (net_comm net) c childPID dbConn p) (\<lambda>(_, p).
                 Inr (Server_ends c, p)))
           | Inr (In_parent pid, p) \<Rightarrow>
               accept_loop net me childPID params dbConn (served @ [c]) p))"

definition main_server ::
  "('l, 'c) net \<Rightarrow> (nat \<Rightarrow> cell list) \<Rightarrow> string option \<Rightarrow> int \<Rightarrow> int \<Rightarrow> proc \<Rightarrow> ('c ending \<times> proc) c_result" where
  "main_server net beyond configFile me childPID p =
     c_bind (setup_config beyond configFile) (\<lambda>config.
     c_bind (startDBServer p) (\<lambda>(started, p).
     case started of
       Database args \<Rightarrow> Inr (Is_database args, p)
     | Exec_failed \<Rightarrow> Inr (Killed_main, p)
     | Main_goes_on r dbConn \<Rightarrow>
         if r = -1 then
           c_bind (log_err ''Main server aborting.'' p) (\<lambda>(_, p). Inr (Main_exits (-1) [], p))
         else
           c_bind (getListeningPort config) (\<lambda>address.
           c_bind (c_chars address) (\<lambda>path.
           let p = remove_file (chars_of path) p in
           c_bind (net_listen net (chars_of path) p) (\<lambda>(connParams, p).
           case connParams of
             None \<Rightarrow>
               c_bind (log_err ''Main server couldn't start listening to connections. Aborting.'' p) (\<lambda>(_, p).
               c_bind (main_shut_down me dbConn p) (\<lambda>(_, p). Inr (Main_exits (-1) [], p)))
           | Some params \<Rightarrow>
               c_bind (log_info ''Main server started. Listening to connnection requests...'' p) (\<lambda>(_, p).
               case accept_loop net me childPID params dbConn [] p of
                 None \<Rightarrow> Inl No_return | Some r \<Rightarrow> r))))))"

definition sock_net :: "(sock_params, sock_connection) net" where
  "sock_net = \<lparr>net_listen = (\<lambda>address p. Inr (sock_conn_listen address p)),
     net_accept = (\<lambda>params p. Inr (sock_conn_accept params p)), net_comm = sock_comm\<rparr>"

definition fifo_net :: "(fifo_params, fifo_connection) net" where
  "fifo_net = \<lparr>net_listen = (\<lambda>address p. Inr (fifo_conn_listen address p)),
     net_accept = fifo_conn_accept, net_comm = fifo_comm\<rparr>"

section \<open>Starting\<close>

lemma countDigits_buffer:
  "in_int k \<Longrightarrow> sprintf (nat (sint (countDigits (word_of_int k)) + 1)) (dec_int k) = Inr (c_str (dec_int k))"
  using length_dec_int_le [of k]
  by (simp add: countDigits_of_int sprintf_fits nat_add_distrib c_str_def)

text \<open>The two buffers for the descriptors the database server gets as arguments are exactly long
  enough for every \<open>int\<close>, and \<open>atoi\<close> of the arguments gives the descriptors back.\<close>

theorem dbArgs_roundtrip:
  assumes "in_int readFD" and "in_int writeFD"
  shows "\<exists>r w. dbArgs readFD writeFD = Inr [''databaseServer.bin'', r, w] \<and>
    sint (atoi r) = readFD \<and> sint (atoi w) = writeFD"
proof -
  have atoi: "sint (atoi (dec_int k)) = k" if "in_int k" for k
    using that atoi_dec_int [of k "[]"] by (simp add: in_int_def sint_word_of_int)
  show ?thesis
    using assms by (simp add: dbArgs_def countDigits_buffer atoi)
qed

lemma dbArgs_roundtrip_witness:
  "\<exists>r w. dbArgs 3 12 = Inr [''databaseServer.bin'', r, w] \<and> sint (atoi r) = 3 \<and> sint (atoi w) = 12"
  by (rule dbArgs_roundtrip) (simp_all add: in_int_def)

text \<open>A start that goes well for the main server: both pipes, the shared memory, the fork.\<close>

lemma startDBServer_parent:
  assumes "answers p = a # b # shm # t # m # pid # as" and "a \<noteq> -1" "b \<noteq> -1" "0 \<le> shm" "0 \<le> t" "m \<noteq> -1"
    and "pid \<noteq> 0" and "opens p = outRead # outWrite # inRead # inWrite # os"
  shows "startDBServer p = Inr (Main_goes_on 1 (shared_free outWrite inRead), p\<lparr>opens := os, answers := as\<rparr>)"
  using assms
  by (simp add: startDBServer_def sys_pipe_def next_answer_def next_open_def create_shared_def
      sh_conn_create_def shared_free_def)

section \<open>Serving and stopping\<close>

lemma main_texts [simp]:
  "c_text ''Error accepting connection. Aborting.''" "c_text ''Couldn't create a forked server.''"
  by (simp_all add: c_text_def)

lemma stop_crashes:
  "healthy (wr p outFD) \<Longrightarrow> stopDBServer me (shared_free outFD inFD) p = Inl Null_deref"
  by (simp add: stopDBServer_def ensureWrite_healthy sh_conn_destroy_def deref_conn_def Let_def split_beta)

lemma accept_sock:
  "opens p = f # fs \<Longrightarrow> 0 \<le> f \<Longrightarrow> net_accept sock_net params p =
     Inr (Some \<lparr>sk_ip = Null_ptr, sk_port = sp_port params, sk_socketfd = f\<rparr>, p\<lparr>opens := fs\<rparr>)"
  by (simp add: sock_net_def sock_conn_accept_def next_open_def)

lemma accept_sock_failed: "opens p = -1 # fs \<Longrightarrow> net_accept sock_net params p = Inr (None, p\<lparr>opens := fs\<rparr>)"
  by (simp add: sock_net_def sock_conn_accept_def next_open_def)

lemma createForkedServer_parent:
  "answers p = pid # as \<Longrightarrow> 0 < pid \<Longrightarrow> createForkedServer c p = Inr (In_parent 0, p\<lparr>answers := as\<rparr>)"
  by (simp add: createForkedServer_def next_answer_def)

text \<open>The parent goes through all the clients that are accepted; nothing of what it had is lost.\<close>

lemma accept_loop_parent:
  assumes "\<forall>f \<in> set fds. 0 \<le> f" and "\<forall>i \<in> set pids. 0 < i" and "length pids = length fds"
    and "opens p = fds @ os" and "answers p = pids @ as"
  shows "accept_loop sock_net me childPID params dbConn served p =
    accept_loop sock_net me childPID params dbConn
      (served @ map (\<lambda>f. \<lparr>sk_ip = Null_ptr, sk_port = sp_port params, sk_socketfd = f\<rparr>) fds)
      (p\<lparr>opens := os, answers := as\<rparr>)"
  using assms
proof (induction fds arbitrary: pids served p)
  case Nil
  then have "p\<lparr>opens := os, answers := as\<rparr> = p" by (cases p) auto
  then show ?case by simp
next
  case (Cons f fds)
  then obtain i pids' where pids: "pids = i # pids'" by (cases pids) auto
  let ?p = "p\<lparr>opens := fds @ os, answers := pids' @ as\<rparr>"
  have "accept_loop sock_net me childPID params dbConn served p =
      accept_loop sock_net me childPID params dbConn
        (served @ [\<lparr>sk_ip = Null_ptr, sk_port = sp_port params, sk_socketfd = f\<rparr>]) ?p"
    using Cons.prems pids
    by (subst accept_loop.simps) (simp add: accept_sock createForkedServer_parent)
  with Cons.IH [of pids' ?p] Cons.prems pids show ?case by simp
qed

text \<open>Whatever clients were accepted before, when \<open>accept\<close> fails the main server does not exit with
  its status: having told the database server to close, its shutdown destroys the connection
  through the pointer it has just set to null.\<close>

theorem accept_failure_crashes:
  assumes "\<forall>f \<in> set fds. 0 \<le> f" and "\<forall>i \<in> set pids. 0 < i" and "length pids = length fds"
    and "opens p = fds @ -1 # os" and "answers p = pids @ as" and "healthy (wr p outFD)"
  shows "accept_loop sock_net me childPID params (shared_free outFD inFD) [] p = Some (Inl Null_deref)"
proof -
  let ?p = "p\<lparr>answers := as, opens := os\<rparr>"
  obtain r where "log_err ''Error accepting connection. Aborting.'' ?p =
      Inr (r, logged ''Error accepting connection. Aborting.'' ERROR ?p)"
    using log_err_short [OF main_texts(1), of ?p] by auto
  moreover have "stopDBServer me (shared_free outFD inFD)
      (logged ''Error accepting connection. Aborting.'' ERROR ?p) = Inl Null_deref"
    using assms(6) by (intro stop_crashes) simp
  then have "main_shut_down me (shared_free outFD inFD)
      (logged ''Error accepting connection. Aborting.'' ERROR ?p) = Inl Null_deref"
    by (simp add: main_shut_down_def)
  ultimately show ?thesis
    unfolding accept_loop_parent [OF assms(1-5)]
    by (subst accept_loop.simps) (simp add: accept_sock_failed)
qed

text \<open>C30: The process forked for a client runs the forked server on exactly that client's socket, over
  the shared connection, however many clients were accepted before; and then what it says to its
  client and to the database is what its session says.\<close>

theorem forked_child_serves:
  assumes "\<forall>f \<in> set fds. 0 \<le> f" and "\<forall>i \<in> set pids. 0 < i" and "length pids = length fds"
    and "opens p = fds @ client # os" and "0 \<le> client" and "answers p = pids @ 0 # as"
    and "\<forall>e \<in> set es. exchange_ok e" and "healthy (wr p outFD)" and "healthy (wr p client)"
    and "outFD \<noteq> client" and "inFD \<noteq> client"
    and "rd_avail p client = session_asks es @ crest" and "rd_avail p inFD = session_db_answers es @ rest"
  shows "\<exists>c p'. accept_loop sock_net me childPID params (shared_free outFD inFD) [] p =
      Some (Inr (Server_ends c, p')) \<and> sk_socketfd c = client \<and>
    sent p' = (sent p)(outFD := sent p outFD @ session_db_asked es,
      client := sent p client @ session_answered es @ frame (enc32 MESSAGE_CLOSE))"
proof -
  let ?c = "\<lparr>sk_ip = Null_ptr, sk_port = sp_port params, sk_socketfd = client\<rparr>"
  let ?p = "p\<lparr>opens := os, answers := as\<rparr>"
  have "\<exists>p'. forkedServer sock_comm ?c childPID (shared_free outFD inFD) ?p =
      Inr (shared_free outFD inFD, p') \<and>
    sent p' = (sent ?p)(outFD := sent ?p outFD @ session_db_asked es,
      sk_socketfd ?c := sent ?p (sk_socketfd ?c) @ session_answered es @ frame (enc32 MESSAGE_CLOSE))"
    by (rule sockets_close.serves_session)
      (use assms in \<open>auto simp: sock_closable_def rd_avail_def\<close>)
  then obtain p' where run: "forkedServer sock_comm ?c childPID (shared_free outFD inFD) ?p =
      Inr (shared_free outFD inFD, p')"
    "sent p' = (sent p)(outFD := sent p outFD @ session_db_asked es,
      client := sent p client @ session_answered es @ frame (enc32 MESSAGE_CLOSE))" by auto
  have "net_comm sock_net = sock_comm" by (simp add: sock_net_def)
  with run assms(5) have "accept_loop sock_net me childPID params (shared_free outFD inFD) [] p =
      Some (Inr (Server_ends ?c, p'))"
    unfolding accept_loop_parent [OF assms(1-4) assms(6)]
    by (subst accept_loop.simps) (simp add: accept_sock createForkedServer_def next_answer_def)
  with run(2) show ?thesis by (intro exI [of _ ?c] exI [of _ p']) simp
qed

text \<open>Without a configuration file the main server still starts the database server and then reads
  its port through a null pointer.\<close>

theorem main_without_config:
  assumes "answers p = a # b # shm # t # m # pid # as" and "a \<noteq> -1" "b \<noteq> -1" "0 \<le> shm" "0 \<le> t" "m \<noteq> -1"
    and "pid \<noteq> 0" and "opens p = outRead # outWrite # inRead # inWrite # os"
  shows "main_server net beyond None me childPID p = Inl Null_deref"
  by (simp add: main_server_def setup_config_def startDBServer_parent [OF assms] getListeningPort_def
      deref_config_def)

definition server_proc :: "(fd \<Rightarrow> rd_event list) \<Rightarrow> fd list \<Rightarrow> int list \<Rightarrow> proc" where
  "server_proc streams fds ans = (fresh_proc streams)\<lparr>opens := fds, answers := ans\<rparr>"

lemma server_proc_simps [simp]:
  "opens (server_proc streams fds ans) = fds" "answers (server_proc streams fds ans) = ans"
  "wr (server_proc streams fds ans) fd = []" "sent (server_proc streams fds ans) fd = []"
  "rd_avail (server_proc streams fds ans) fd = avail (streams fd)"
  by (simp_all add: server_proc_def rd_avail_def)

lemma accept_failure_crashes_witness:
  "accept_loop sock_net 1 0 \<lparr>sp_port = 8000, sp_socketfd = 4\<rparr> (shared_free 6 5) []
     (server_proc (\<lambda>_. []) [7, 8, -1] [20, 21]) = Some (Inl Null_deref)"
  by (rule accept_failure_crashes [of "[7, 8]" "[20, 21]" _ "[]" "[]"]) simp_all

lemma forked_child_serves_witness:
  "\<exists>c p'. accept_loop sock_net 1 0 \<lparr>sp_port = 8000, sp_socketfd = 4\<rparr> (shared_free 6 5) []
     (server_proc ((\<lambda>_. [])(8 := [Rd_data (session_asks sample_session)],
        5 := [Rd_data (session_db_answers sample_session)])) [7, 8] [20, 0]) =
     Some (Inr (Server_ends c, p')) \<and> sk_socketfd c = 8"
  using forked_child_serves [of "[7]" "[20]" "server_proc ((\<lambda>_. [])(8 := [Rd_data (session_asks sample_session)],
        5 := [Rd_data (session_db_answers sample_session)])) [7, 8] [20, 0]" 8 "[]" "[]" sample_session 6 5
        "[]" "[]" 1 0 "\<lparr>sp_port = 8000, sp_socketfd = 4\<rparr>"] sample_session_ok
  by fastforce

lemma main_without_config_witness:
  "main_server sock_net (\<lambda>_. []) None 1 0 (server_proc (\<lambda>_. []) [3, 4, 5, 6] [0, 0, 7, 0, 0, 9]) =
     Inl Null_deref"
  by (rule main_without_config [of _ 0 0 7 0 0 9 "[]" 3 4 5 6 "[]"]) simp_all

end
