(* ===== verification/ShellText.thy ===== *)
theory ShellText
  imports Decimal
begin

text \<open>
  The text routines of \<^verbatim>\<open>database/SQLite/shell.c\<close>, the SQLite shell that comes with the
  repository: quoting for SQL, C, HTML and CSV, the escapes of the input, and the numbers of its commands.

  A C string is the list of its characters before the terminator. An output routine is the text it
  writes. Reading \<open>z[i]\<close> at the terminator gives NUL, which no case of these routines matches.
\<close>

section \<open>Length\<close>

definition strlen30 :: "string \<Rightarrow> nat" where
  "strlen30 z = length z mod 2 ^ 30"

lemma strlen30_small: "length z < 2 ^ 30 \<Longrightarrow> strlen30 z = length z"
  by (simp add: strlen30_def)

section \<open>Numbers\<close>

text \<open>\<open>isNumber\<close> with what \<open>*realnum\<close> holds before and after, from the exponent and the fraction on.\<close>

definition starts_digit :: "string \<Rightarrow> bool" where
  "starts_digit z \<longleftrightarrow> (case z of c # cs \<Rightarrow> is_digit c | [] \<Rightarrow> False)"

definition skip_sign :: "string \<Rightarrow> string" where
  "skip_sign z = (case z of c # cs \<Rightarrow> if c = CHR ''-'' \<or> c = CHR ''+'' then cs else z | [] \<Rightarrow> [])"

definition number_exponent :: "string \<Rightarrow> bool \<Rightarrow> bool \<times> bool" where
  "number_exponent z realnum = (case z of
     [] \<Rightarrow> (True, realnum)
   | c # cs \<Rightarrow>
       if c = CHR ''e'' \<or> c = CHR ''E'' then
         (let z = skip_sign cs in
          if \<not> starts_digit z then (False, realnum) else (dropWhile is_digit z = [], True))
       else (False, realnum))"

definition number_fraction :: "string \<Rightarrow> bool \<Rightarrow> bool \<times> bool" where
  "number_fraction z realnum = (case z of
     c # cs \<Rightarrow>
       if c = CHR ''.'' then
         (if \<not> starts_digit cs then (False, realnum) else number_exponent (dropWhile is_digit cs) True)
       else number_exponent z realnum
   | [] \<Rightarrow> number_exponent z realnum)"

definition isNumber :: "string \<Rightarrow> bool \<Rightarrow> bool \<times> bool" where
  "isNumber z realnum =
     (let z = skip_sign z in
      if \<not> starts_digit z then (False, realnum) else number_fraction (dropWhile is_digit z) False)"

section \<open>Quoting\<close>

text \<open>\<open>%02x\<close> of a byte.\<close>

definition hex_digit :: "nat \<Rightarrow> char" where
  "hex_digit n = char_of (if n < 10 then 48 + n else 87 + n)"

definition output_hex_blob :: "string \<Rightarrow> string" where
  "output_hex_blob pBlob =
     ''X'' @ [CHR 0x27] @ concat (map (\<lambda>c. [hex_digit (char_code c div 16), hex_digit (char_code c mod 16)]) pBlob) @ [CHR 0x27]"

text \<open>The loop of \<open>output_quoted_string\<close>, which writes the text up to the next quote in one piece.\<close>

definition quote2 :: string where "quote2 = [CHR 0x27, CHR 0x27]"

function quoted_loop :: "string \<Rightarrow> string" where
  "quoted_loop z =
     (if z = [] then []
      else
        let i = length (takeWhile (\<lambda>c. c \<noteq> CHR 0x27) z) in
        if i = 0 then quote2 @ quoted_loop (tl z)
        else if i < length z then take i z @ quote2 @ quoted_loop (drop (i + 1) z)
        else z)"
  by pat_completeness auto
termination by (relation "measure length") auto

declare quoted_loop.simps [simp del]

definition output_quoted_string :: "string \<Rightarrow> string" where
  "output_quoted_string z =
     (let nSingle = length (filter (\<lambda>c. c = CHR 0x27) z) in
      if nSingle = 0 then [CHR 0x27] @ z @ [CHR 0x27] else [CHR 0x27] @ quoted_loop z @ [CHR 0x27])"

text \<open>\<open>isprint\<close> in the C locale.\<close>

definition isprint :: "char \<Rightarrow> bool" where
  "isprint c \<longleftrightarrow> 32 \<le> char_code c \<and> char_code c \<le> 126"

definition octal3 :: "nat \<Rightarrow> string" where
  "octal3 n = [digit (n div 64), digit (n div 8 mod 8), digit (n mod 8)]"

definition c_escape :: "char \<Rightarrow> string" where
  "c_escape c =
     (if c = CHR 0x5C then [CHR 0x5C, CHR 0x5C]
      else if c = CHR 0x22 then [CHR 0x5C, CHR 0x22]
      else if c = CHR 0x09 then [CHR 0x5C, CHR ''t'']
      else if c = CHR 0x0A then [CHR 0x5C, CHR ''n'']
      else if c = CHR 0x0D then [CHR 0x5C, CHR ''r'']
      else if \<not> isprint c then CHR 0x5C # octal3 (char_code c)
      else [c])"

definition output_c_string :: "string \<Rightarrow> string" where
  "output_c_string z = [CHR 0x22] @ concat (map c_escape z) @ [CHR 0x22]"

text \<open>The loop of \<open>output_html_string\<close> writes the text up to the next special character in one piece.\<close>

definition html_special :: "char \<Rightarrow> bool" where
  "html_special c \<longleftrightarrow> c \<in> {CHR ''<'', CHR ''&'', CHR ''>'', CHR 0x22, CHR 0x27}"

definition html_entity :: "char \<Rightarrow> string" where
  "html_entity c =
     (if c = CHR ''<'' then ''&lt;'' else if c = CHR ''&'' then ''&amp;'' else if c = CHR ''>'' then ''&gt;''
      else if c = CHR 0x22 then ''&quot;'' else ''&#39;'')"

function html_loop :: "string \<Rightarrow> string" where
  "html_loop z =
     (let i = length (takeWhile (\<lambda>c. \<not> html_special c) z) in
      if i < length z then take i z @ html_entity (z ! i) @ html_loop (drop (i + 1) z)
      else z)"
  by pat_completeness auto
termination by (relation "measure length") auto

declare html_loop.simps [simp del]

definition output_html_string :: "string option \<Rightarrow> string" where
  "output_html_string z = html_loop (case z of None \<Rightarrow> [] | Some z \<Rightarrow> z)"

section \<open>CSV\<close>

definition needCsvQuote :: "nat list" where
  "needCsvQuote = replicate 32 1 @ [1, 0, 1, 0, 0, 0, 0, 1] @ replicate 87 0 @ replicate 129 1"

text \<open>\<open>memcmp(z, colSeparator, nSep) == 0\<close> compares the start of the field.\<close>

definition csv_quoted :: "string \<Rightarrow> string \<Rightarrow> bool" where
  "csv_quoted colSeparator z \<longleftrightarrow>
     z = [] \<or> (\<exists>c \<in> set z. needCsvQuote ! char_code c \<noteq> 0 \<or>
       (case colSeparator of
          [] \<Rightarrow> False
        | s # _ \<Rightarrow> c = s \<and> (strlen30 colSeparator = 1 \<or> take (strlen30 colSeparator) z = colSeparator)))"

definition output_csv :: "string \<Rightarrow> string \<Rightarrow> string option \<Rightarrow> bool \<Rightarrow> string" where
  "output_csv colSeparator nullValue z bSep =
     (case z of
        None \<Rightarrow> nullValue
      | Some z \<Rightarrow>
          if csv_quoted colSeparator z then
            [CHR 0x22] @ concat (map (\<lambda>c. if c = CHR 0x22 then [CHR 0x22, CHR 0x22] else [c]) z) @ [CHR 0x22]
          else z) @
     (if bSep then colSeparator else [])"

section \<open>Escapes in the input\<close>

definition octal_char :: "char \<Rightarrow> bool" where
  "octal_char c \<longleftrightarrow> 48 \<le> char_code c \<and> char_code c \<le> 55"

text \<open>\<open>(c << 3) + z[i] - '0'\<close>, stored into a \<open>char\<close>.\<close>

definition add_octal :: "nat \<Rightarrow> char \<Rightarrow> nat" where
  "add_octal v c = (v * 8 + (char_code c - 48)) mod 256"

fun octal_value :: "nat \<Rightarrow> nat \<Rightarrow> string \<Rightarrow> nat \<times> string" where
  "octal_value v (Suc k) (c # cs) = (if octal_char c then octal_value (add_octal v c) k cs else (v, c # cs))"
| "octal_value v k cs = (v, cs)"

definition simple_escape :: "char \<Rightarrow> char" where
  "simple_escape c =
     (if c = CHR ''a'' then CHR 0x07 else if c = CHR ''b'' then CHR 0x08 else if c = CHR ''t'' then CHR 0x09
      else if c = CHR ''n'' then CHR 0x0A else if c = CHR ''v'' then CHR 0x0B else if c = CHR ''f'' then CHR 0x0C
      else if c = CHR ''r'' then CHR 0x0D else c)"

text \<open>
  The loop of \<open>resolve_backslashes\<close> reads \<open>z[i]\<close> and stores \<open>z[j]\<close> with \<open>j \<le> i\<close>: what it reads was never
  overwritten. The model gives the characters stored; a character 0 that an escape stores ends the string.
\<close>

lemma length_octal_value: "length (snd (octal_value v k cs)) \<le> length cs"
  by (induction v k cs rule: octal_value.induct) auto

function resolve_loop :: "string \<Rightarrow> string" where
  "resolve_loop [] = []"
| "resolve_loop [c] = [c]"
| "resolve_loop (c # d # cs) =
     (if c \<noteq> CHR 0x5C then c # resolve_loop (d # cs)
      else if octal_char d then
        (let (v, rest) = octal_value (char_code d - 48) 2 cs in char_of v # resolve_loop rest)
      else simple_escape d # resolve_loop cs)"
  by pat_completeness auto
termination
proof (relation "measure length", goal_cases)
  case (3 c d cs x v rest)
  then show ?case using length_octal_value [of "char_code d - 48" 2 cs] by (metis le_imp_less_Suc length_Cons less_SucI measure_def in_measure snd_conv)
qed auto

definition resolve_backslashes :: "string \<Rightarrow> string" where
  "resolve_backslashes z =
     takeWhile (\<lambda>c. c \<noteq> CHR 0x5C) z @
     takeWhile (\<lambda>c. c \<noteq> CHR 0x00) (resolve_loop (dropWhile (\<lambda>c. c \<noteq> CHR 0x5C) z))"

section \<open>The values of arguments\<close>

definition hexDigitValue :: "char \<Rightarrow> int" where
  "hexDigitValue c =
     (let n = int (char_code c) in
      if 48 \<le> n \<and> n \<le> 57 then n - 48
      else if 97 \<le> n \<and> n \<le> 102 then n - 97 + 10
      else if 65 \<le> n \<and> n \<le> 70 then n - 65 + 10
      else -1)"

text \<open>A result of 64-bit arithmetic; beyond the range it is undefined.\<close>

definition ll :: "int \<Rightarrow> int c_result" where
  "ll v = (if - (2 ^ 63) \<le> v \<and> v < 2 ^ 63 then Inr v else Inl Int_overflow)"

fun hex_value :: "int \<Rightarrow> string \<Rightarrow> (int \<times> string) c_result" where
  "hex_value v [] = Inr (v, [])"
| "hex_value v (c # cs) =
     (if hexDigitValue c \<ge> 0 then
        c_bind (ll (v * 16)) (\<lambda>v. c_bind (ll (v + hexDigitValue c)) (\<lambda>v. hex_value v cs))
      else Inr (v, c # cs))"

text \<open>\<open>v*10 + zArg[0] - '0'\<close>, from left to right.\<close>

fun decimal_value :: "int \<Rightarrow> string \<Rightarrow> (int \<times> string) c_result" where
  "decimal_value v [] = Inr (v, [])"
| "decimal_value v (c # cs) =
     (if is_digit c then
        c_bind (ll (v * 10)) (\<lambda>v. c_bind (ll (v + int (char_code c))) (\<lambda>v. decimal_value (v - 48) cs))
      else Inr (v, c # cs))"

definition suffixes :: "(string \<times> int) list" where
  "suffixes = [(''KiB'', 1024), (''MiB'', 1048576), (''GiB'', 1073741824), (''KB'', 1000), (''MB'', 1000000),
     (''GB'', 1000000000), (''K'', 1000), (''M'', 1000000), (''G'', 1000000000)]"

text \<open>\<open>same s t\<close> is \<open>sqlite3_stricmp(s, t) == 0\<close>.\<close>

definition integerValue :: "(string \<Rightarrow> string \<Rightarrow> bool) \<Rightarrow> string \<Rightarrow> int c_result" where
  "integerValue same zArg =
     (let isNeg = (case zArg of c # _ \<Rightarrow> c = CHR ''-'' | [] \<Rightarrow> False); zArg = skip_sign zArg in
      c_bind (if take 2 zArg = ''0x'' then hex_value 0 (drop 2 zArg) else decimal_value 0 zArg) (\<lambda>(v, zArg).
      c_bind (case find (\<lambda>(zSuffix, _). same zSuffix zArg) suffixes of
                Some (_, iMult) \<Rightarrow> ll (v * iMult)
              | None \<Rightarrow> Inr v) (\<lambda>v.
      if isNeg then ll (- v) else Inr v)))"

text \<open>The result, and what goes to the error stream.\<close>

definition booleanValue :: "(string \<Rightarrow> string \<Rightarrow> bool) \<Rightarrow> string \<Rightarrow> (int \<times> string) c_result" where
  "booleanValue same zArg =
     (let i = (if take 2 zArg = ''0x'' then 2 + length (takeWhile (\<lambda>c. hexDigitValue c \<ge> 0) (drop 2 zArg))
               else length (takeWhile is_digit zArg)) in
      if 0 < i \<and> i = length zArg then
        c_bind (integerValue same zArg) (\<lambda>v. Inr (to_int (v mod 2 ^ 32), []))
      else if same zArg ''on'' \<or> same zArg ''yes'' then Inr (1, [])
      else if same zArg ''off'' \<or> same zArg ''no'' then Inr (0, [])
      else Inr (0, ''ERROR: Not a boolean value: '' @ [CHR 0x22] @ zArg @ [CHR 0x22] @ ''. Assuming '' @
        [CHR 0x22] @ ''no'' @ [CHR 0x22] @ ''.\<newline>''))"

end
