(* ===== verification/ShellImport.thy ===== *)
theory ShellImport
  imports ShellText
begin

text \<open>
  Reading files for \<open>.import\<close>: the readers of one field of \<^verbatim>\<open>database/SQLite/shell.c\<close>.

  \<open>stream_in\<close> is what the stream still delivers and \<open>field\<close> the first \<open>n\<close> bytes of \<open>z\<close>; \<open>z\<close> is not null
  exactly when \<open>nAlloc\<close> is positive. A character is an \<open>int\<close> as \<open>fgetc\<close> gives it, \<open>EOF\<close> is -1. Every store
  is checked against \<open>nAlloc\<close>. Files have fewer than \<open>2 ^ 31\<close> bytes, so that the counters do not overflow,
  and \<open>sqlite3_realloc64\<close> is taken to succeed. Whether an interrupt was seen is an argument.
\<close>

record import_ctx =
  zFile :: string
  stream_in :: string
  field :: string
  nAlloc :: nat
  nLine :: int
  cTerm :: int
  cColSep :: int
  cRowSep :: int
  complaints :: "string list"

definition c_EOF :: int where "c_EOF = -1"

definition fgetc :: "import_ctx \<Rightarrow> int \<times> import_ctx" where
  "fgetc p = (case stream_in p of
     [] \<Rightarrow> (c_EOF, p)
   | c # cs \<Rightarrow> (int (char_code c), p\<lparr>stream_in := cs\<rparr>))"

definition import_append_char :: "import_ctx \<Rightarrow> int \<Rightarrow> import_ctx c_result" where
  "import_append_char p c =
     (let p = (if length (field p) + 1 \<ge> nAlloc p then p\<lparr>nAlloc := nAlloc p + (nAlloc p + 100)\<rparr> else p) in
      if length (field p) < nAlloc p then Inr (p\<lparr>field := field p @ [char_of (nat (c mod 256))]\<rparr>)
      else Inl Out_of_bounds)"

text \<open>\<open>if( p->z ) p->z[p->n] = 0; return p->z\<close>\<close>

definition end_field :: "import_ctx \<Rightarrow> (string option \<times> import_ctx) c_result" where
  "end_field p =
     (if nAlloc p = 0 then Inr (None, p)
      else if length (field p) < nAlloc p then Inr (Some (field p), p)
      else Inl Out_of_bounds)"

text \<open>\<open>do{ p->n--; }while( p->z[p->n]!=cQuote )\<close>\<close>

definition back_to_quote :: "import_ctx \<Rightarrow> import_ctx c_result" where
  "back_to_quote p = (case dropWhile (\<lambda>c. c \<noteq> CHR 0x22) (rev (field p)) of
     [] \<Rightarrow> Inl Out_of_bounds
   | _ # r \<Rightarrow> Inr (p\<lparr>field := rev r\<rparr>))"

definition cQuote :: int where "cQuote = 34"

definition complain :: "import_ctx \<Rightarrow> int \<Rightarrow> string \<Rightarrow> import_ctx" where
  "complain p line msg = p\<lparr>complaints := complaints p @ [zFile p @ '':'' @ dec_int line @ msg]\<rparr>"

section \<open>A quoted field\<close>

definition ends_quoted :: "import_ctx \<Rightarrow> int \<Rightarrow> int \<Rightarrow> int \<Rightarrow> bool" where
  "ends_quoted p c pc ppc \<longleftrightarrow>
     (c = cColSep p \<and> pc = cQuote) \<or> (c = cRowSep p \<and> pc = cQuote) \<or>
     (c = cRowSep p \<and> pc = 13 \<and> ppc = cQuote) \<or> (c = c_EOF \<and> pc = cQuote)"

lemma fgetc_shorter: "fgetc p = (c, q) \<Longrightarrow> c \<noteq> c_EOF \<Longrightarrow> length (stream_in q) < length (stream_in p)"
  by (auto simp: fgetc_def split: list.splits)

lemma append_char_stream: "import_append_char p c = Inr q \<Longrightarrow> stream_in q = stream_in p"
  by (auto simp: import_append_char_def Let_def split: if_splits)

lemma complain_stream [simp]: "stream_in (complain p l m) = stream_in p"
  by (simp add: complain_def)

function csv_quoted_field :: "int \<Rightarrow> import_ctx \<Rightarrow> int \<Rightarrow> int \<Rightarrow> import_ctx c_result" where
  "csv_quoted_field startLine p pc ppc =
     (let (c, p) = fgetc p;
          p = (if c = cRowSep p then p\<lparr>nLine := nLine p + 1\<rparr> else p) in
      if c = cQuote \<and> pc = cQuote then csv_quoted_field startLine p 0 ppc
      else if ends_quoted p c pc ppc then
        c_bind (back_to_quote p) (\<lambda>p. Inr (p\<lparr>cTerm := c\<rparr>))
      else
        let p = (if pc = cQuote \<and> c \<noteq> 13
                 then complain p (nLine p) ('': unescaped '' @ [CHR 0x22] @ '' character\<newline>'') else p) in
        if c = c_EOF then
          Inr ((complain p startLine ('': unterminated '' @ [CHR 0x22] @ ''-quoted field\<newline>''))\<lparr>cTerm := c\<rparr>)
        else c_bind (import_append_char p c) (\<lambda>p. csv_quoted_field startLine p c pc))"
  by pat_completeness auto
termination
  apply (relation "measure (\<lambda>(_, p, _, _). length (stream_in p))")
    apply simp
   apply (auto simp: cQuote_def c_EOF_def dest!: sym [of _ "fgetc _"] fgetc_shorter)[1]
  apply (auto dest!: append_char_stream sym [of _ "fgetc _"] fgetc_shorter split: if_splits)
  done

declare csv_quoted_field.simps [simp del]

section \<open>Plain fields\<close>

function plain_field :: "int \<Rightarrow> import_ctx \<Rightarrow> (int \<times> import_ctx) c_result" where
  "plain_field c p =
     (if c \<noteq> c_EOF \<and> c \<noteq> cColSep p \<and> c \<noteq> cRowSep p then
        c_bind (import_append_char p c) (\<lambda>p. let (c, p) = fgetc p in plain_field c p)
      else Inr (c, p))"
  by pat_completeness auto
termination
  apply (relation "measure (\<lambda>(c, p). (if c = c_EOF then 0 else 1) + length (stream_in p))")
   apply simp
  apply (auto simp: fgetc_def dest!: append_char_stream split: list.splits)
  done

declare plain_field.simps [simp del]

definition csv_read_one_field :: "bool \<Rightarrow> import_ctx \<Rightarrow> (string option \<times> import_ctx) c_result" where
  "csv_read_one_field seenInterrupt p =
     (let (c, p) = fgetc (p\<lparr>field := []\<rparr>) in
      if c = c_EOF \<or> seenInterrupt then Inr (None, p\<lparr>cTerm := c_EOF\<rparr>)
      else if c = cQuote then c_bind (csv_quoted_field (nLine p) p 0 0) end_field
      else
        c_bind (plain_field c p) (\<lambda>(c, p).
          let p = (if c = cRowSep p then
                     let p = p\<lparr>nLine := nLine p + 1\<rparr> in
                     if field p \<noteq> [] \<and> last (field p) = CHR 0x0D then p\<lparr>field := butlast (field p)\<rparr> else p
                   else p) in
          end_field (p\<lparr>cTerm := c\<rparr>)))"

definition ascii_read_one_field :: "bool \<Rightarrow> import_ctx \<Rightarrow> (string option \<times> import_ctx) c_result" where
  "ascii_read_one_field seenInterrupt p =
     (let (c, p) = fgetc (p\<lparr>field := []\<rparr>) in
      if c = c_EOF \<or> seenInterrupt then Inr (None, p\<lparr>cTerm := c_EOF\<rparr>)
      else
        c_bind (plain_field c p) (\<lambda>(c, p).
          let p = (if c = cRowSep p then p\<lparr>nLine := nLine p + 1\<rparr> else p) in
          end_field (p\<lparr>cTerm := c\<rparr>)))"

section \<open>The rows of a table\<close>

text \<open>
  The loop of \<open>.import\<close> over the rows. \<open>insert_row\<close> is the prepared INSERT: given the values bound to it, the
  database after \<open>sqlite3_step\<close> and what \<open>sqlite3_errmsg\<close> says when \<open>sqlite3_reset\<close> reports an error. A text
  is bound up to its first NUL. Running out of fuel stands for a loop that goes on.
\<close>

type_synonym reader = "import_ctx \<Rightarrow> (string option \<times> import_ctx) c_result"

definition up_to_nul :: "string \<Rightarrow> string" where
  "up_to_nul z = takeWhile (\<lambda>c. c \<noteq> CHR 0x00) z"

definition expected :: "nat \<Rightarrow> nat \<Rightarrow> string \<Rightarrow> string" where
  "expected nCol found what = '': expected '' @ dec_nat nCol @ '' columns but found '' @ dec_nat found @ '' - '' @ what @ ''\<newline>''"

fun bind_columns :: "reader \<Rightarrow> bool \<Rightarrow> int \<Rightarrow> nat \<Rightarrow> nat \<Rightarrow> nat \<Rightarrow> string option list \<Rightarrow> import_ctx
    \<Rightarrow> (nat \<times> string option list \<times> import_ctx) c_result" where
  "bind_columns xRead ascii startLine nCol 0 i bound p = Inr (i, bound, p)"
| "bind_columns xRead ascii startLine nCol (Suc k) i bound p =
     c_bind (xRead p) (\<lambda>(z, p).
       if z = None \<and> i = 0 then Inr (i, bound, p)
       else if ascii \<and> (case z of None \<Rightarrow> True | Some z \<Rightarrow> up_to_nul z = []) \<and> i = 0 then Inr (i, bound, p)
       else
         let bound = bound @ [map_option up_to_nul z] in
         if k \<noteq> 0 \<and> cTerm p \<noteq> cColSep p then
           Inr (nCol + 2, bound @ replicate k None,
             complain p startLine (expected nCol (i + 1) ''filling the rest with NULL''))
         else bind_columns xRead ascii startLine nCol k (i + 1) bound p)"

fun skip_extras :: "nat \<Rightarrow> reader \<Rightarrow> nat \<Rightarrow> import_ctx \<Rightarrow> (nat \<times> import_ctx) c_result" where
  "skip_extras 0 xRead i p = Inl No_return"
| "skip_extras (Suc fuel) xRead i p =
     c_bind (xRead p) (\<lambda>(_, p).
       if cTerm p = cColSep p then skip_extras fuel xRead (i + 1) p else Inr (i + 1, p))"

fun import_rows :: "nat \<Rightarrow> reader \<Rightarrow> bool \<Rightarrow> nat \<Rightarrow> ('db \<Rightarrow> string option list \<Rightarrow> 'db \<times> string option)
    \<Rightarrow> 'db \<Rightarrow> import_ctx \<Rightarrow> ('db \<times> import_ctx) c_result" where
  "import_rows 0 xRead ascii nCol insert_row db p = Inl No_return"
| "import_rows (Suc fuel) xRead ascii nCol insert_row db p =
     (let startLine = nLine p in
      c_bind (bind_columns xRead ascii startLine nCol nCol 0 [] p) (\<lambda>(i, bound, p).
      c_bind (if cTerm p = cColSep p then
                c_bind (skip_extras fuel xRead i p) (\<lambda>(i, p).
                  Inr (i, complain p startLine (expected nCol i ''extras ignored'')))
              else Inr (i, p)) (\<lambda>(i, p).
      let (db, failed) = (if i \<ge> nCol then insert_row db bound else (db, None));
          p = (case failed of
                 None \<Rightarrow> p
               | Some m \<Rightarrow> complain p startLine ('': INSERT failed: '' @ m @ ''\<newline>'')) in
      if cTerm p \<noteq> c_EOF then import_rows fuel xRead ascii nCol insert_row db p else Inr (db, p))))"

end
