(* ===== verification/ShellImportProps.thy ===== *)
theory ShellImportProps
  imports ShellImport
begin

text \<open>
  The readers of \<open>.import\<close>: they stay inside their buffer on every file, every field consumes input, and what
  \<open>output_csv\<close> writes is read back.
\<close>

section \<open>The buffer\<close>

definition room_left :: "import_ctx \<Rightarrow> bool" where
  "room_left p \<longleftrightarrow> length (field p) < nAlloc p \<or> (field p = [] \<and> nAlloc p = 0)"

definition grown :: "import_ctx \<Rightarrow> nat" where
  "grown p = (if length (field p) + 1 \<ge> nAlloc p then nAlloc p + (nAlloc p + 100) else nAlloc p)"

definition appended :: "import_ctx \<Rightarrow> char \<Rightarrow> import_ctx" where
  "appended p c = p\<lparr>nAlloc := grown p, field := field p @ [c]\<rparr>"

lemma append_char_ok:
  "room_left p \<Longrightarrow> import_append_char p (int (char_code c)) = Inr (appended p c)"
  by (auto simp: import_append_char_def appended_def grown_def room_left_def Let_def char_code_def)

lemma appended_sel [simp]:
  "field (appended p c) = field p @ [c]" "stream_in (appended p c) = stream_in p"
  "cColSep (appended p c) = cColSep p" "cRowSep (appended p c) = cRowSep p" "nLine (appended p c) = nLine p"
  "complaints (appended p c) = complaints p" "zFile (appended p c) = zFile p" "cTerm (appended p c) = cTerm p"
  by (simp_all add: appended_def)

lemma appended_room: "room_left p \<Longrightarrow> length (field (appended p c)) < nAlloc (appended p c)"
  by (auto simp: appended_def grown_def room_left_def)

lemma room_appended [simp]: "room_left p \<Longrightarrow> room_left (appended p c)"
  using appended_room by (simp add: room_left_def)

lemma room_updates [simp]:
  "room_left (p\<lparr>stream_in := s\<rparr>) = room_left p" "room_left (p\<lparr>nLine := l\<rparr>) = room_left p"
  "room_left (p\<lparr>cTerm := t\<rparr>) = room_left p" "room_left (complain p l m) = room_left p"
  by (simp_all add: room_left_def complain_def)

lemma room_empty [simp]: "room_left (p\<lparr>field := []\<rparr>)"
  by (auto simp: room_left_def)

text \<open>Every character \<open>fgetc\<close> delivers is one of the stream.\<close>

lemma fgetc_cases:
  obtains (end_of_file) "stream_in p = []" "fgetc p = (c_EOF, p)"
  | (delivers) c cs where "stream_in p = c # cs" "fgetc p = (int (char_code c), p\<lparr>stream_in := cs\<rparr>)"
  by (cases "stream_in p") (auto simp: fgetc_def)

lemma char_code_not_EOF [simp]: "int (char_code c) \<noteq> c_EOF"
  by (simp add: c_EOF_def)

section \<open>Plain fields\<close>

lemma plain_field_total:
  assumes "room_left p" and "c = c_EOF \<and> stream_in p = [] \<or> (\<exists>d. c = int (char_code d))"
  shows "\<exists>c' q. plain_field c p = Inr (c', q) \<and> room_left q \<and> cColSep q = cColSep p \<and> cRowSep q = cRowSep p \<and>
    length (stream_in q) \<le> length (stream_in p) \<and> (c' = c_EOF \<longrightarrow> stream_in q = [])"
  using assms
proof (induction c p rule: plain_field.induct)
  case (1 c p)
  show ?case
  proof (cases "c \<noteq> c_EOF \<and> c \<noteq> cColSep p \<and> c \<noteq> cRowSep p")
    case False
    with 1(2,3) show ?thesis by (subst plain_field.simps) (auto simp: plain_field.simps)
  next
    case True
    with 1(3) obtain d where d: "c = int (char_code d)" by auto
    note a = append_char_ok [OF 1(2), of d]
    show ?thesis
    proof (cases rule: fgetc_cases [of "appended p d"])
      case end_of_file
      have "\<exists>c' q. plain_field c_EOF (appended p d) = Inr (c', q) \<and> room_left q \<and> cColSep q = cColSep p \<and>
          cRowSep q = cRowSep p \<and> length (stream_in q) \<le> length (stream_in p) \<and> (c' = c_EOF \<longrightarrow> stream_in q = [])"
        using 1(2) end_of_file by (subst plain_field.simps) simp
      with True a end_of_file d show ?thesis by (subst plain_field.simps) simp
    next
      case (delivers e es)
      from "1.IH" [OF True a [folded d] delivers(2) [symmetric]] 1(2) delivers True a d show ?thesis
        by (subst plain_field.simps) (fastforce simp: le_Suc_eq)
    qed
  qed
qed

section \<open>Quoted fields\<close>

text \<open>Where the loop may go back to a quote, the field holds one.\<close>

definition quote_seen :: "import_ctx \<Rightarrow> int \<Rightarrow> int \<Rightarrow> bool" where
  "quote_seen p pc ppc \<longleftrightarrow> (pc = cQuote \<or> pc = 13 \<and> ppc = cQuote \<longrightarrow> CHR 0x22 \<in> set (field p))"

lemma char_code_quote: "int (char_code c) = cQuote \<longleftrightarrow> c = CHR 0x22"
  using char_code_eq [of "CHR 0x22" 34 c] by (simp add: cQuote_def char_code_def)

lemma quote_seen_appended:
  "quote_seen p pc ppc \<Longrightarrow> quote_seen (appended p d) (int (char_code d)) pc"
  by (auto simp: quote_seen_def char_code_quote)

lemma quote_seen_zero [simp]: "quote_seen p 0 0"
  by (simp add: quote_seen_def cQuote_def)

lemma quote_seen_updates [simp]:
  "quote_seen (p\<lparr>stream_in := s\<rparr>) pc ppc = quote_seen p pc ppc" "quote_seen (p\<lparr>nLine := l\<rparr>) pc ppc = quote_seen p pc ppc"
  "quote_seen (complain p l m) pc ppc = quote_seen p pc ppc"
  by (simp_all add: quote_seen_def complain_def)

lemma back_to_quote_ok:
  "CHR 0x22 \<in> set (field p) \<Longrightarrow> \<exists>w. back_to_quote p = Inr (p\<lparr>field := w\<rparr>) \<and> length w < length (field p)"
proof -
  assume "CHR 0x22 \<in> set (field p)"
  then have "dropWhile (\<lambda>c. c \<noteq> CHR 0x22) (rev (field p)) \<noteq> []" by (simp add: dropWhile_eq_Nil_conv)
  then obtain c r where c: "dropWhile (\<lambda>c. c \<noteq> CHR 0x22) (rev (field p)) = c # r" by (cases "dropWhile (\<lambda>c. c \<noteq> CHR 0x22) (rev (field p))") auto
  then have "length (c # r) \<le> length (rev (field p))" by (metis length_dropWhile_le)
  with c show ?thesis by (auto simp: back_to_quote_def)
qed

lemma complain_sel [simp]:
  "field (complain p l m) = field p" "nAlloc (complain p l m) = nAlloc p" "cColSep (complain p l m) = cColSep p"
  "cRowSep (complain p l m) = cRowSep p" "nLine (complain p l m) = nLine p" "cTerm (complain p l m) = cTerm p"
  "zFile (complain p l m) = zFile p"
  by (simp_all add: complain_def)

text \<open>What every step of a reader keeps: the buffer, the separators, and that input is only consumed.\<close>

definition reads_on :: "import_ctx \<Rightarrow> import_ctx \<Rightarrow> bool" where
  "reads_on p q \<longleftrightarrow> room_left q \<and> cColSep q = cColSep p \<and> cRowSep q = cRowSep p \<and> length (stream_in q) \<le> length (stream_in p)"

text \<open>One character and the end of the file.\<close>

definition past :: "import_ctx \<Rightarrow> char \<Rightarrow> string \<Rightarrow> import_ctx" where
  "past p d s = p\<lparr>stream_in := s, nLine := nLine p + (if int (char_code d) = cRowSep p then 1 else 0)\<rparr>"

lemma past_sel [simp]:
  "field (past p d s) = field p" "stream_in (past p d s) = s" "nAlloc (past p d s) = nAlloc p"
  "cColSep (past p d s) = cColSep p" "cRowSep (past p d s) = cRowSep p" "cTerm (past p d s) = cTerm p"
  "zFile (past p d s) = zFile p" "complaints (past p d s) = complaints p"
  "room_left (past p d s) = room_left p" "quote_seen (past p d s) pc ppc = quote_seen p pc ppc"
  by (simp_all add: past_def room_left_def quote_seen_def)

definition unescaped :: "import_ctx \<Rightarrow> int \<Rightarrow> int \<Rightarrow> import_ctx" where
  "unescaped p c pc = (if pc = cQuote \<and> c \<noteq> 13
     then complain p (nLine p) ('': unescaped '' @ [CHR 0x22] @ '' character\<newline>'') else p)"

lemma unescaped_sel [simp]:
  "field (unescaped p c pc) = field p" "stream_in (unescaped p c pc) = stream_in p"
  "cColSep (unescaped p c pc) = cColSep p" "cRowSep (unescaped p c pc) = cRowSep p"
  "room_left (unescaped p c pc) = room_left p" "quote_seen (unescaped p c pc) x y = quote_seen p x y"
  by (simp_all add: unescaped_def)

lemma past_eq: "(if int (char_code d) = cRowSep (p\<lparr>stream_in := s\<rparr>)
    then p\<lparr>stream_in := s, nLine := nLine (p\<lparr>stream_in := s\<rparr>) + 1\<rparr> else p\<lparr>stream_in := s\<rparr>) = past p d s"
  by (simp add: past_def)

lemma csv_quoted_char:
  assumes "room_left p" and "stream_in p = d # s"
  shows "csv_quoted_field l p pc ppc =
    (if d = CHR 0x22 \<and> pc = cQuote then csv_quoted_field l (past p d s) 0 ppc
     else if ends_quoted (past p d s) (int (char_code d)) pc ppc then
       c_bind (back_to_quote (past p d s)) (\<lambda>p. Inr (p\<lparr>cTerm := int (char_code d)\<rparr>))
     else csv_quoted_field l (appended (unescaped (past p d s) (int (char_code d)) pc) d) (int (char_code d)) pc)"
proof -
  have f: "fgetc p = (int (char_code d), p\<lparr>stream_in := s\<rparr>)" using assms(2) by (simp add: fgetc_def)
  have a: "import_append_char (unescaped (past p d s) (int (char_code d)) pc) (int (char_code d)) =
      Inr (appended (unescaped (past p d s) (int (char_code d)) pc) d)"
    using assms(1) by (intro append_char_ok) simp
  show ?thesis
    by (subst csv_quoted_field.simps) (simp only: f Let_def prod.case past_eq unescaped_def [symmetric]
        char_code_quote char_code_not_EOF if_False a c_bind_Inr)
qed

lemma csv_quoted_eof:
  assumes "stream_in p = []"
  shows "\<exists>n. csv_quoted_field l p pc ppc =
    (let p = p\<lparr>nLine := n\<rparr> in
     if ends_quoted p c_EOF pc ppc then c_bind (back_to_quote p) (\<lambda>p. Inr (p\<lparr>cTerm := c_EOF\<rparr>))
     else Inr ((complain (unescaped p c_EOF pc) l ('': unterminated '' @ [CHR 0x22] @ ''-quoted field\<newline>''))\<lparr>cTerm := c_EOF\<rparr>))"
proof -
  have f: "fgetc p = (c_EOF, p)" using assms by (simp add: fgetc_def)
  have q: "c_EOF \<noteq> cQuote" by (simp add: c_EOF_def cQuote_def)
  have n: "(if c_EOF = cRowSep p then p\<lparr>nLine := nLine p + 1\<rparr> else p) =
      p\<lparr>nLine := (if c_EOF = cRowSep p then nLine p + 1 else nLine p)\<rparr>" by simp
  show ?thesis
    by (rule exI, subst csv_quoted_field.simps)
      (simp only: f Let_def prod.case n unescaped_def [symmetric] q simp_thms if_True if_False)
qed

lemma quote_seen_ends:
  "quote_seen p pc ppc \<Longrightarrow> ends_quoted p c pc ppc \<Longrightarrow> CHR 0x22 \<in> set (field p)"
  by (auto simp: quote_seen_def ends_quoted_def)

lemma back_reads_on:
  assumes "room_left p" and "CHR 0x22 \<in> set (field p)"
  shows "\<exists>q. c_bind (back_to_quote p) (\<lambda>p. Inr (p\<lparr>cTerm := c\<rparr>)) = Inr q \<and> reads_on p q"
  using back_to_quote_ok [OF assms(2)] assms(1) by (auto simp: reads_on_def room_left_def)

lemma reads_on_trans: "reads_on p q \<Longrightarrow> reads_on q r \<Longrightarrow> reads_on p r"
  by (simp add: reads_on_def)

lemma csv_quoted_field_total:
  assumes "room_left p" and "quote_seen p pc ppc"
  shows "\<exists>q. csv_quoted_field l p pc ppc = Inr q \<and> reads_on p q"
  using assms
proof (induction "stream_in p" arbitrary: p pc ppc)
  case Nil
  from csv_quoted_eof [OF Nil(1) [symmetric], of l pc ppc] obtain n where
    n: "csv_quoted_field l p pc ppc =
    (let p = p\<lparr>nLine := n\<rparr> in
     if ends_quoted p c_EOF pc ppc then c_bind (back_to_quote p) (\<lambda>p. Inr (p\<lparr>cTerm := c_EOF\<rparr>))
     else Inr ((complain (unescaped p c_EOF pc) l ('': unterminated '' @ [CHR 0x22] @ ''-quoted field\<newline>''))\<lparr>cTerm := c_EOF\<rparr>))" ..
  show ?case
  proof (cases "ends_quoted (p\<lparr>nLine := n\<rparr>) c_EOF pc ppc")
    case True
    with Nil quote_seen_ends [of "p\<lparr>nLine := n\<rparr>" pc ppc] back_reads_on [of "p\<lparr>nLine := n\<rparr>" c_EOF] n
    show ?thesis by (simp add: reads_on_def Let_def)
  next
    case False
    with n Nil show ?thesis by (simp add: reads_on_def Let_def)
  qed
next
  case (Cons d s)
  note step = csv_quoted_char [OF Cons(3) Cons(2) [symmetric], of l pc ppc]
  let ?c = "int (char_code d)" and ?p = "past p d s"
  have on: "reads_on p ?p" using Cons(2,3) by (simp add: reads_on_def flip: Cons(2))
  consider "d = CHR 0x22 \<and> pc = cQuote" | "\<not> (d = CHR 0x22 \<and> pc = cQuote)" "ends_quoted ?p ?c pc ppc"
    | "\<not> (d = CHR 0x22 \<and> pc = cQuote)" "\<not> ends_quoted ?p ?c pc ppc" by blast
  then show ?case
  proof cases
    case 1
    with step Cons(1) [of ?p 0 ppc] Cons(3) on reads_on_trans show ?thesis
      by (simp add: quote_seen_def cQuote_def) blast
  next
    case 2
    with step back_reads_on [of ?p ?c] quote_seen_ends [OF _ 2(2)] Cons(3,4) on reads_on_trans
    show ?thesis by (simp only: if_False if_True) (metis past_sel(9,10))
  next
    case 3
    let ?q = "appended (unescaped ?p ?c pc) d"
    have "quote_seen ?q ?c pc" by (rule quote_seen_appended [where ppc = ppc]) (use Cons(4) in simp)
    moreover have "reads_on p ?q" using on Cons(3) by (simp add: reads_on_def)
    ultimately show ?thesis
      using step 3 Cons(1) [of ?q ?c pc] Cons(3) reads_on_trans by (simp only: if_False appended_sel unescaped_sel past_sel room_appended) blast
  qed
qed

section \<open>Reading back\<close>

text \<open>
  What a reader has done when it has read the text \<open>w\<close> into the field and stopped at \<open>t\<close>, and the ends of a
  field in a file whose rows end with a newline.
\<close>

definition has_read :: "import_ctx \<Rightarrow> import_ctx \<Rightarrow> string \<Rightarrow> string \<Rightarrow> int \<Rightarrow> bool" where
  "has_read p q w rest t \<longleftrightarrow>
     field q = field p @ w \<and> stream_in q = rest \<and> cTerm q = t \<and> length (field q) < nAlloc q \<and>
     cColSep q = cColSep p \<and> cRowSep q = cRowSep p \<and> complaints q = complaints p \<and> zFile q = zFile p"

definition field_end :: "import_ctx \<Rightarrow> string \<Rightarrow> string \<Rightarrow> int \<Rightarrow> bool" where
  "field_end p s rest t \<longleftrightarrow>
     s = [] \<and> rest = [] \<and> t = c_EOF \<or>
     (\<exists>c. s = c # rest \<and> t = int (char_code c) \<and> (t = cColSep p \<or> t = cRowSep p)) \<or>
     s = CHR 0x0D # CHR 0x0A # rest \<and> t = cRowSep p"

text \<open>A column separator that is no quote, no carriage return and no newline; rows end with a newline.\<close>

definition csv_seps :: "import_ctx \<Rightarrow> bool" where
  "csv_seps p \<longleftrightarrow> cRowSep p = 10 \<and> cColSep p \<noteq> cQuote \<and> cColSep p \<noteq> 13 \<and> cColSep p \<noteq> 10 \<and> cColSep p \<noteq> c_EOF"

lemma code_values [simp]:
  "char_code (CHR 0x22) = 34" "char_code (CHR 0x0D) = 13" "char_code (CHR 0x0A) = 10"
  by (simp_all add: char_code_def)

lemma back_to_quote_last:
  "CHR 0x22 \<notin> set w \<Longrightarrow> field p = u @ CHR 0x22 # w \<Longrightarrow> back_to_quote p = Inr (p\<lparr>field := u\<rparr>)"
proof -
  assume w: "CHR 0x22 \<notin> set w" and f: "field p = u @ CHR 0x22 # w"
  have "dropWhile (\<lambda>c. c \<noteq> CHR 0x22) (rev w @ CHR 0x22 # rev u) = CHR 0x22 # rev u"
    by (subst dropWhile_append2) (use w in auto)
  then have "dropWhile (\<lambda>c. c \<noteq> CHR 0x22) (rev (field p)) = CHR 0x22 # rev u" using f by simp
  then show ?thesis by (simp add: back_to_quote_def)
qed

lemma quote_no_end: "csv_seps p \<Longrightarrow> \<not> ends_quoted p 34 pc ppc"
  by (simp add: ends_quoted_def csv_seps_def cQuote_def c_EOF_def)

text \<open>Behind the closing quote.\<close>

lemma csv_after_quote:
  assumes "csv_seps p" and "length (field p) < nAlloc p" and "field p = u @ [CHR 0x22]"
    and "field_end p s rest t" and "stream_in p = s" and "pc \<noteq> cQuote"
  shows "\<exists>q. csv_quoted_field l p 34 pc = Inr q \<and> has_read (p\<lparr>field := u\<rparr>) q [] rest t"
proof -
  have room: "room_left p" using assms(2) by (simp add: room_left_def)
  have goes_back: "back_to_quote q = Inr (q\<lparr>field := u\<rparr>)" if "field q = u @ [CHR 0x22]" for q
    using back_to_quote_last [of "[]" q u] that by simp
  consider "s = []" "rest = []" "t = c_EOF"
    | c where "s = c # rest" "t = int (char_code c)" "t = cColSep p \<or> t = cRowSep p"
    | "s = CHR 0x0D # CHR 0x0A # rest" "t = cRowSep p"
    using assms(4) by (auto simp: field_end_def)
  then show ?thesis
  proof cases
    case 1
    with csv_quoted_eof [of p l 34 pc] assms(5) goes_back show ?thesis
      using assms(2,3) by (force simp: Let_def ends_quoted_def cQuote_def has_read_def)
  next
    case 2
    have "c \<noteq> CHR 0x22" using 2 assms(1) by (auto simp: csv_seps_def cQuote_def)
    moreover have "ends_quoted (past p c rest) (int (char_code c)) 34 pc"
      using 2 by (auto simp: ends_quoted_def cQuote_def)
    ultimately show ?thesis
      using csv_quoted_char [OF room, of c rest l 34 pc] 2 assms(2,3,5) goes_back [of "past p c rest"]
      by (simp add: has_read_def)
  next
    case 3
    let ?p = "appended (past p (CHR 0x0D) (CHR 0x0A # rest)) (CHR 0x0D)"
    have "\<not> ends_quoted (past p (CHR 0x0D) (CHR 0x0A # rest)) 13 34 pc"
      using assms(1) by (auto simp: ends_quoted_def csv_seps_def c_EOF_def)
    then have one: "csv_quoted_field l p 34 pc = csv_quoted_field l ?p 13 34"
      using csv_quoted_char [OF room, of "CHR 0x0D" "CHR 0x0A # rest" l 34 pc] 3 assms(5)
      by (simp add: unescaped_def)
    have two: "csv_quoted_field l ?p 13 34 =
        c_bind (back_to_quote (past ?p (CHR 0x0A) rest)) (\<lambda>p. Inr (p\<lparr>cTerm := 10\<rparr>))"
      using csv_quoted_char [of ?p "CHR 0x0A" rest l 13 34] room assms(1)
      by (simp add: ends_quoted_def csv_seps_def cQuote_def)
    have "back_to_quote (past ?p (CHR 0x0A) rest) = Inr ((past ?p (CHR 0x0A) rest)\<lparr>field := u\<rparr>)"
      using back_to_quote_last [of "[CHR 0x0D]" "past ?p (CHR 0x0A) rest" u] assms(3) by simp
    with one two show ?thesis
      using assms(1-3) 3 appended_room [of "past p (CHR 0x0D) (CHR 0x0A # rest)" "CHR 0x0D"] room
      by (simp add: has_read_def csv_seps_def)
  qed
qed

definition doubled :: "string \<Rightarrow> string" where
  "doubled z = concat (map (\<lambda>c. if c = CHR 0x22 then [CHR 0x22, CHR 0x22] else [c]) z)"

lemma doubled_simps [simp]: "doubled [] = []"
  "doubled (c # z) = (if c = CHR 0x22 then [CHR 0x22, CHR 0x22] else [c]) @ doubled z"
  by (simp_all add: doubled_def)

lemma has_read_step:
  "has_read p' q w rest t \<Longrightarrow> field p' = field p @ v \<Longrightarrow> cColSep p' = cColSep p \<Longrightarrow> cRowSep p' = cRowSep p \<Longrightarrow>
     complaints p' = complaints p \<Longrightarrow> zFile p' = zFile p \<Longrightarrow> has_read p q (v @ w) rest t"
  unfolding has_read_def by (metis append.assoc)

lemma csv_quoted_reads:
  assumes "csv_seps p" and "room_left p" and "field_end p s rest t"
    and "stream_in p = doubled z @ CHR 0x22 # s" and "pc \<noteq> cQuote" and "ppc \<noteq> cQuote"
  shows "\<exists>q. csv_quoted_field l p pc ppc = Inr q \<and> has_read p q z rest t"
  using assms
proof (induction z arbitrary: p pc ppc)
  case Nil
  let ?p = "appended (past p (CHR 0x22) s) (CHR 0x22)"
  have "csv_seps (past p (CHR 0x22) s)" "csv_seps ?p" "field_end ?p s rest t" using Nil(1,3) by (simp_all add: csv_seps_def field_end_def)
  moreover have "csv_quoted_field l p pc ppc = csv_quoted_field l ?p 34 pc"
    using csv_quoted_char [of p "CHR 0x22" s l pc ppc] Nil calculation(1) quote_no_end by (simp add: unescaped_def)
  moreover have "length (field ?p) < nAlloc ?p" by (rule appended_room) (use Nil(2) in simp)
  ultimately show ?case
    using csv_after_quote [of ?p "field p" s rest t pc l] Nil(5) by (auto simp: has_read_def)
next
  case (Cons d z)
  show ?case
  proof (cases "d = CHR 0x22")
    case True
    let ?s = "doubled z @ CHR 0x22 # s"
    let ?p = "appended (past p (CHR 0x22) (CHR 0x22 # ?s)) (CHR 0x22)" and ?r = "past (appended (past p (CHR 0x22) (CHR 0x22 # ?s)) (CHR 0x22)) (CHR 0x22) ?s"
    have seps: "csv_seps (past p (CHR 0x22) (CHR 0x22 # ?s))" "csv_seps ?r" "field_end ?r s rest t"
      using Cons.prems(1,3) by (simp_all add: csv_seps_def field_end_def)
    have "csv_quoted_field l p pc ppc = csv_quoted_field l ?p 34 pc"
      using csv_quoted_char [of p "CHR 0x22" "CHR 0x22 # ?s" l pc ppc] Cons.prems True seps(1) quote_no_end
      by (simp add: unescaped_def)
    also have "\<dots> = csv_quoted_field l ?r 0 pc"
      using csv_quoted_char [of ?p "CHR 0x22" ?s l 34 pc] Cons.prems(2) by (simp add: cQuote_def)
    finally have run: "csv_quoted_field l p pc ppc = csv_quoted_field l ?r 0 pc" .
    obtain q where "csv_quoted_field l ?r 0 pc = Inr q" "has_read ?r q z rest t"
      using Cons.IH [OF seps(2) _ seps(3), of 0 pc] Cons.prems(2,5) by (auto simp: cQuote_def)
    with run True has_read_step [of ?r q z rest t p "[d]"] show ?thesis by simp
  next
    case False
    let ?s = "doubled z @ CHR 0x22 # s" and ?c = "int (char_code d)"
    let ?p = "appended (past p d ?s) d"
    have c: "?c \<noteq> cQuote" using False by (simp add: char_code_quote)
    have seps: "csv_seps ?p" "field_end ?p s rest t" using Cons.prems(1,3) by (simp_all add: csv_seps_def field_end_def)
    have "\<not> ends_quoted (past p d ?s) ?c pc ppc" using Cons.prems(5,6) by (auto simp: ends_quoted_def)
    then have run: "csv_quoted_field l p pc ppc = csv_quoted_field l ?p ?c pc"
      using csv_quoted_char [of p d ?s l pc ppc] Cons.prems False by (simp add: unescaped_def)
    obtain q where "csv_quoted_field l ?p ?c pc = Inr q" "has_read ?p q z rest t"
      using Cons.IH [OF seps(1) _ seps(2), of ?c pc] Cons.prems(2,5) c by auto
    with run has_read_step [of ?p q z rest t p "[d]"] show ?thesis by simp
  qed
qed

text \<open>A plain field up to a separator or the end of the file.\<close>

definition plain_end :: "import_ctx \<Rightarrow> string \<Rightarrow> string \<Rightarrow> int \<Rightarrow> bool" where
  "plain_end p s rest t \<longleftrightarrow>
     s = [] \<and> rest = [] \<and> t = c_EOF \<or>
     (\<exists>c. s = c # rest \<and> t = int (char_code c) \<and> (t = cColSep p \<or> t = cRowSep p))"

definition plain_char :: "import_ctx \<Rightarrow> char \<Rightarrow> bool" where
  "plain_char p c \<longleftrightarrow> int (char_code c) \<noteq> cColSep p \<and> int (char_code c) \<noteq> cRowSep p"

lemma plain_field_end:
  assumes "plain_end p s rest t" and "stream_in p = s"
  shows "(let (c, p) = fgetc p in plain_field c p) = Inr (t, p\<lparr>stream_in := rest\<rparr>)"
proof -
  have "fgetc p = (t, p\<lparr>stream_in := rest\<rparr>)"
    using assms by (auto simp: plain_end_def fgetc_def)
  moreover have "plain_field t (p\<lparr>stream_in := rest\<rparr>) = Inr (t, p\<lparr>stream_in := rest\<rparr>)"
    using assms(1) by (subst plain_field.simps) (auto simp: plain_end_def)
  ultimately show ?thesis by auto
qed

lemma plain_reads:
  assumes "room_left p" and "\<forall>x \<in> set (c # w). plain_char p x"
    and "stream_in p = w @ s" and "plain_end p s rest t"
  shows "\<exists>q. plain_field (int (char_code c)) p = Inr (t, q) \<and> has_read p (q\<lparr>cTerm := t\<rparr>) (c # w) rest t"
  using assms
proof (induction w arbitrary: c p)
  case Nil
  let ?p = "appended p c"
  have one: "plain_field (int (char_code c)) p = (let (c, p) = fgetc ?p in plain_field c p)"
    using Nil(1,2) append_char_ok [OF Nil(1), of c] by (subst plain_field.simps) (simp add: plain_char_def)
  have e: "plain_end ?p s rest t" "stream_in ?p = s" using Nil(3,4) by (simp_all add: plain_end_def)
  from plain_field_end [OF e] one appended_room [OF Nil(1), of c] show ?case
    by (auto simp: has_read_def)
next
  case (Cons d w)
  let ?p = "(appended p c)\<lparr>stream_in := w @ s\<rparr>"
  have one: "plain_field (int (char_code c)) p = plain_field (int (char_code d)) ?p"
    using Cons.prems(1,2,3) append_char_ok [OF Cons.prems(1), of c]
    by (subst plain_field.simps) (simp add: plain_char_def fgetc_def)
  obtain q where "plain_field (int (char_code d)) ?p = Inr (t, q)" "has_read ?p (q\<lparr>cTerm := t\<rparr>) (d # w) rest t"
    using Cons.IH [of ?p d] Cons.prems by (auto simp: plain_char_def plain_end_def)
  with one has_read_step [of ?p "q\<lparr>cTerm := t\<rparr>" "d # w" rest t p "[c]"] show ?case by simp
qed

section \<open>Fields of a CSV file\<close>

lemma end_field_read: "has_read p q w rest t \<Longrightarrow> field p = [] \<Longrightarrow> end_field q = Inr (Some w, q)"
  by (auto simp: end_field_def has_read_def)

text \<open>A field in quotes.\<close>

lemma csv_reads_quoted:
  assumes "csv_seps p" and "field_end p s rest t" and "stream_in p = CHR 0x22 # doubled z @ CHR 0x22 # s"
  shows "\<exists>q. csv_read_one_field False p = Inr (Some z, q) \<and> has_read (p\<lparr>field := []\<rparr>) q z rest t"
proof -
  let ?p = "p\<lparr>field := [], stream_in := doubled z @ CHR 0x22 # s\<rparr>"
  have f: "fgetc (p\<lparr>field := []\<rparr>) = (34, ?p)" using assms(3) by (simp add: fgetc_def)
  have "csv_seps ?p" "field_end ?p s rest t" using assms(1,2) by (simp_all add: csv_seps_def field_end_def)
  moreover have "room_left ?p" by (auto simp: room_left_def)
  ultimately obtain q where q: "csv_quoted_field (nLine ?p) ?p 0 0 = Inr q" "has_read ?p q z rest t"
    using csv_quoted_reads [of ?p s rest t z 0 0 "nLine ?p"] by (auto simp: cQuote_def)
  then have "end_field q = Inr (Some z, q)" using end_field_read by simp
  with f q(1) have "csv_read_one_field False p = Inr (Some z, q)"
    by (simp add: csv_read_one_field_def c_EOF_def cQuote_def)
  with q(2) show ?thesis by (auto simp: has_read_def)
qed

text \<open>A field without quotes: no separator, no quote and no carriage return.\<close>

definition bare :: "import_ctx \<Rightarrow> string \<Rightarrow> bool" where
  "bare p z \<longleftrightarrow> z \<noteq> [] \<and> (\<forall>c \<in> set z. plain_char p c \<and> c \<noteq> CHR 0x22 \<and> c \<noteq> CHR 0x0D)"

lemma bare_last: "bare p z \<Longrightarrow> last z \<noteq> CHR 0x0D"
  by (auto simp: bare_def)

lemma csv_reads_bare:
  assumes "csv_seps p" and "field_end p s rest t" and "stream_in p = z @ s" and "bare p z"
  shows "\<exists>q. csv_read_one_field False p = Inr (Some z, q) \<and> has_read (p\<lparr>field := []\<rparr>) q z rest t"
proof -
  obtain c w where z: "z = c # w" using assms(4) by (cases z) (auto simp: bare_def)
  have c: "int (char_code c) \<noteq> cQuote" using assms(4) z by (simp add: bare_def char_code_quote)
  have room: "room_left (p\<lparr>field := [], stream_in := u\<rparr>)" for u by (auto simp: room_left_def)
  have plain: "\<forall>x \<in> set (c # w). plain_char (p\<lparr>field := [], stream_in := u\<rparr>) x" for u
    using assms(4) z by (simp add: bare_def plain_char_def)
  have f: "fgetc (p\<lparr>field := []\<rparr>) = (int (char_code c), p\<lparr>field := [], stream_in := w @ s\<rparr>)"
    using assms(3) z by (simp add: fgetc_def)
  consider "plain_end p s rest t" | "s = CHR 0x0D # CHR 0x0A # rest" "t = cRowSep p"
    using assms(2) by (auto simp: field_end_def plain_end_def)
  then show ?thesis
  proof cases
    case 1
    let ?p = "p\<lparr>field := [], stream_in := w @ s\<rparr>"
    have "plain_end ?p s rest t" using 1 by (simp add: plain_end_def)
    with plain_reads [OF room plain, of "w @ s" s rest t] obtain q where
      q: "plain_field (int (char_code c)) ?p = Inr (t, q)" "has_read ?p (q\<lparr>cTerm := t\<rparr>) (c # w) rest t"
      by auto
    let ?n = "if t = cRowSep q then nLine q + 1 else nLine q"
    have "csv_read_one_field False p = end_field (q\<lparr>nLine := ?n, cTerm := t\<rparr>)"
      using f c q bare_last [OF assms(4)] z
      by (cases "t = cRowSep p") (simp_all add: csv_read_one_field_def has_read_def)
    with q(2) z show ?thesis by (auto simp: has_read_def end_field_def)
  next
    case 2
    let ?p = "p\<lparr>field := [], stream_in := (w @ [CHR 0x0D]) @ CHR 0x0A # rest\<rparr>"
    have "plain_end ?p (CHR 0x0A # rest) rest 10" using assms(1) by (simp add: plain_end_def csv_seps_def)
    moreover have "\<forall>x \<in> set (c # w @ [CHR 0x0D]). plain_char ?p x"
      using plain assms(1) by (auto simp: plain_char_def csv_seps_def)
    ultimately obtain q where
      q: "plain_field (int (char_code c)) ?p = Inr (10, q)" "has_read ?p (q\<lparr>cTerm := 10\<rparr>) (c # w @ [CHR 0x0D]) rest 10"
      using plain_reads [OF room, of c "w @ [CHR 0x0D]" "(w @ [CHR 0x0D]) @ CHR 0x0A # rest" "CHR 0x0A # rest" rest 10]
      by auto
    let ?q = "q\<lparr>nLine := nLine q + 1, field := butlast (field q), cTerm := 10\<rparr>"
    have "csv_read_one_field False p = end_field ?q"
      using f c q 2 z assms(1) by (simp add: csv_read_one_field_def has_read_def csv_seps_def)
    moreover have "has_read (p\<lparr>field := []\<rparr>) ?q z rest 10" using q(2) z by (auto simp: has_read_def butlast_append)
    moreover have "t = 10" using 2 assms(1) by (simp add: csv_seps_def)
    moreover have "end_field ?q = Inr (Some z, ?q)" using calculation(2) by (rule end_field_read) simp
    ultimately show ?thesis by auto
  qed
qed

end
