(* ===== verification/ShellOutput.thy ===== *)
theory ShellOutput
  imports ShellText SQLite_Codes
begin

text \<open>
  The output of query results by \<^verbatim>\<open>database/SQLite/shell.c\<close>: one row in each of the ten modes, and the
  strings \<open>set_table_name\<close> and \<open>appendText\<close> build in exactly sized blocks.

  \<open>shell_out\<close> has the fields of \<open>ShellState\<close> these routines use. \<open>sent_out\<close> is what was printed to \<open>out\<close>. A
  statement is given by the blobs \<open>sqlite3_column_blob\<close> returns for its columns. Arrays are lists, read with a
  check of the index; the arrays of a row have \<open>nArg\<close> elements. Printing the null pointer with \<open>%s\<close> is a fault.
  The count of records stays below \<open>2 ^ 31\<close>.
\<close>

record shell_out =
  cnt :: int
  sent_out :: string
  mode :: int
  cMode :: int
  showHeader :: bool
  zDestTable :: "string option"
  colSeparator :: string
  rowSeparator :: string
  colWidth :: "int list"
  actualWidth :: "int list"
  nullValue :: string
  pStmt :: "(nat \<Rightarrow> string) option"
  aiIndent :: "int list option"
  nIndent :: int
  iIndent :: int

definition MODE_Line :: int where "MODE_Line = 0"
definition MODE_Column :: int where "MODE_Column = 1"
definition MODE_List :: int where "MODE_List = 2"
definition MODE_Semi :: int where "MODE_Semi = 3"
definition MODE_Html :: int where "MODE_Html = 4"
definition MODE_Insert :: int where "MODE_Insert = 5"
definition MODE_Tcl :: int where "MODE_Tcl = 6"
definition MODE_Csv :: int where "MODE_Csv = 7"
definition MODE_Explain :: int where "MODE_Explain = 8"
definition MODE_Ascii :: int where "MODE_Ascii = 9"

lemmas mode_defs = MODE_Line_def MODE_Column_def MODE_List_def MODE_Semi_def MODE_Html_def MODE_Insert_def
  MODE_Tcl_def MODE_Csv_def MODE_Explain_def MODE_Ascii_def

definition SEP_Row :: string where "SEP_Row = ''\<newline>''"

definition print_out :: "shell_out \<Rightarrow> string \<Rightarrow> shell_out" where
  "print_out p s = p\<lparr>sent_out := sent_out p @ s\<rparr>"

definition elem_at :: "'a list \<Rightarrow> nat \<Rightarrow> 'a c_result" where
  "elem_at xs i = (if i < length xs then Inr (xs ! i) else Inl Out_of_bounds)"

fun c_map :: "('a \<Rightarrow> 'b c_result) \<Rightarrow> 'a list \<Rightarrow> 'b list c_result" where
  "c_map f [] = Inr []"
| "c_map f (x # xs) = c_bind (f x) (\<lambda>y. c_bind (c_map f xs) (\<lambda>ys. Inr (y # ys)))"

text \<open>A loop over the columns that prints a text for each.\<close>

definition each_column :: "nat \<Rightarrow> (nat \<Rightarrow> string c_result) \<Rightarrow> string c_result" where
  "each_column nArg f = c_bind (c_map f [0..<nArg]) (\<lambda>ts. Inr (concat ts))"

definition or_else :: "string option \<Rightarrow> string \<Rightarrow> string" where
  "or_else z d = (case z of None \<Rightarrow> d | Some z \<Rightarrow> z)"

text \<open>\<open>%s\<close>\<close>

definition str_arg :: "string option \<Rightarrow> string c_result" where
  "str_arg z = (case z of None \<Rightarrow> Inl Null_deref | Some z \<Rightarrow> Inr z)"

definition pad_left :: "nat \<Rightarrow> string \<Rightarrow> string" where
  "pad_left w z = replicate (w - length z) (CHR '' '') @ z"

definition pad_right :: "nat \<Rightarrow> string \<Rightarrow> string" where
  "pad_right w z = z @ replicate (w - length z) (CHR '' '')"

section \<open>Lines\<close>

definition line_width :: "nat \<Rightarrow> string option list \<Rightarrow> nat c_result" where
  "line_width nArg azCol =
     c_bind (c_map (\<lambda>i. c_bind (elem_at azCol i) (\<lambda>z. Inr (strlen30 (or_else z [])))) [0..<nArg]) (\<lambda>lens.
     Inr (foldl (\<lambda>w len. if len > w then len else w) 5 lens))"

definition show_line :: "nat \<Rightarrow> string option list option \<Rightarrow> string option list \<Rightarrow> shell_out \<Rightarrow> shell_out c_result" where
  "show_line nArg azArg azCol p = (case azArg of
     None \<Rightarrow> Inr p
   | Some azArg \<Rightarrow>
       c_bind (line_width nArg azCol) (\<lambda>w.
       let p = (if cnt p > 0 then print_out p (rowSeparator p) else p)\<lparr>cnt := cnt p + 1\<rparr> in
       c_bind (each_column nArg (\<lambda>i.
         c_bind (elem_at azCol i) (\<lambda>c. c_bind (str_arg c) (\<lambda>c. c_bind (elem_at azArg i) (\<lambda>a.
         Inr (pad_left w c @ '' = '' @ or_else a (nullValue p) @ rowSeparator p)))))) (\<lambda>t.
       Inr (print_out p t))))"

section \<open>Columns\<close>

definition aExplainWidths :: "int list" where
  "aExplainWidths = [4, 13, 4, 4, 4, 13, 2, 13]"

text \<open>\<open>%*.*s\<close> or \<open>%-*.*s\<close> with the width and the precision \<open>w\<close>.\<close>

definition fixed :: "int \<Rightarrow> string \<Rightarrow> string c_result" where
  "fixed w z =
     (if w < 0 then c_bind (int_add 0 (- w)) (\<lambda>v. Inr (pad_left (nat v) (take (nat v) z)))
      else Inr (pad_right (nat w) (take (nat w) z)))"

definition column_gap :: "nat \<Rightarrow> nat \<Rightarrow> string \<Rightarrow> string" where
  "column_gap nArg i rowSep = (if i + 1 = nArg then rowSep else ''  '')"

definition column_width :: "int list \<Rightarrow> string option list option \<Rightarrow> string option list \<Rightarrow> shell_out \<Rightarrow> nat \<Rightarrow> int c_result" where
  "column_width widths azArg azCol p i =
     c_bind (if i < length (colWidth p) then elem_at widths i else Inr 0) (\<lambda>w.
     if w = 0 then
       c_bind (elem_at azCol i) (\<lambda>c.
       c_bind (case azArg of None \<Rightarrow> Inr None | Some azArg \<Rightarrow> elem_at azArg i) (\<lambda>a.
       let w = strlen30 (or_else c []); w = (if w < 10 then 10 else w); n = strlen30 (or_else a (nullValue p)) in
       Inr (int (if w < n then n else w))))
     else Inr w)"

fun column_heads :: "int list \<Rightarrow> bool \<Rightarrow> string \<Rightarrow> nat \<Rightarrow> string option list option \<Rightarrow> string option list \<Rightarrow> nat list
    \<Rightarrow> shell_out \<Rightarrow> shell_out c_result" where
  "column_heads widths showHdr rowSep nArg azArg azCol [] p = Inr p"
| "column_heads widths showHdr rowSep nArg azArg azCol (i # is) p =
     c_bind (column_width widths azArg azCol p i) (\<lambda>w.
     let p = (if i < length (actualWidth p) then p\<lparr>actualWidth := (actualWidth p)[i := w]\<rparr> else p) in
     c_bind (if showHdr then
               c_bind (elem_at azCol i) (\<lambda>c. c_bind (str_arg c) (\<lambda>c. c_bind (fixed w c) (\<lambda>t.
               Inr (print_out p (t @ column_gap nArg i rowSep)))))
             else Inr p) (\<lambda>p.
     column_heads widths showHdr rowSep nArg azArg azCol is p))"

definition column_dashes :: "nat \<Rightarrow> string \<Rightarrow> shell_out \<Rightarrow> shell_out c_result" where
  "column_dashes nArg rowSep p =
     c_bind (each_column nArg (\<lambda>i.
       c_bind (if i < length (actualWidth p) then
                 let w = actualWidth p ! i in if w < 0 then int_add 0 (- w) else Inr w
               else Inr 10) (\<lambda>w.
       c_bind (fixed w (replicate 116 (CHR ''-''))) (\<lambda>t. Inr (t @ column_gap nArg i rowSep))))) (\<lambda>t.
     Inr (print_out p t))"

fun column_data :: "string \<Rightarrow> nat \<Rightarrow> string option list \<Rightarrow> nat list \<Rightarrow> shell_out \<Rightarrow> shell_out c_result" where
  "column_data rowSep nArg azArg [] p = Inr p"
| "column_data rowSep nArg azArg (i # is) p =
     (let w = (if i < length (actualWidth p) then actualWidth p ! i else 10) in
      c_bind (elem_at azArg i) (\<lambda>a.
      let w = (case a of
                 Some z \<Rightarrow> if cMode p = MODE_Explain \<and> int (strlen30 z) > w then int (strlen30 z) else w
               | None \<Rightarrow> w) in
      c_bind (if i = 1 \<and> pStmt p \<noteq> None then
                (case aiIndent p of
                   None \<Rightarrow> Inr p
                 | Some ind \<Rightarrow>
                     c_bind (if iIndent p < nIndent p then
                               c_bind (elem_at ind (nat (iIndent p))) (\<lambda>k.
                               Inr (print_out p (replicate (nat \<bar>k\<bar>) (CHR '' ''))))
                             else Inr p) (\<lambda>p.
                     Inr (p\<lparr>iIndent := iIndent p + 1\<rparr>)))
              else Inr p) (\<lambda>p.
      c_bind (fixed w (or_else a (nullValue p))) (\<lambda>t.
      column_data rowSep nArg azArg is (print_out p (t @ column_gap nArg i rowSep))))))"

definition show_columns :: "nat \<Rightarrow> string option list option \<Rightarrow> string option list \<Rightarrow> shell_out \<Rightarrow> shell_out c_result" where
  "show_columns nArg azArg azCol p =
     (let (widths, showHdr, rowSep) =
        (if cMode p = MODE_Column then (colWidth p, showHeader p, rowSeparator p) else (aExplainWidths, True, SEP_Row));
          first = (cnt p = 0); p = p\<lparr>cnt := cnt p + 1\<rparr> in
      c_bind (if first then
                c_bind (column_heads widths showHdr rowSep nArg azArg azCol [0..<nArg] p) (\<lambda>p.
                if showHdr then column_dashes nArg rowSep p else Inr p)
              else Inr p) (\<lambda>p.
      case azArg of None \<Rightarrow> Inr p | Some azArg \<Rightarrow> column_data rowSep nArg azArg [0..<nArg] p))"

section \<open>Separated values\<close>

text \<open>\<open>p->cnt++==0 && p->showHeader\<close> and what the header loop prints then.\<close>

definition head_row :: "(shell_out \<Rightarrow> string c_result) \<Rightarrow> shell_out \<Rightarrow> shell_out c_result" where
  "head_row head p =
     (let first = (cnt p = 0); p = p\<lparr>cnt := cnt p + 1\<rparr> in
      if first \<and> showHeader p then c_bind (head p) (\<lambda>t. Inr (print_out p t)) else Inr p)"

definition list_head :: "nat \<Rightarrow> string option list \<Rightarrow> shell_out \<Rightarrow> string c_result" where
  "list_head nArg azCol p =
     each_column nArg (\<lambda>i. c_bind (elem_at azCol i) (\<lambda>c. c_bind (str_arg c) (\<lambda>c.
       Inr (c @ (if i + 1 = nArg then rowSeparator p else colSeparator p)))))"

definition list_data :: "nat \<Rightarrow> string option list \<Rightarrow> shell_out \<Rightarrow> string c_result" where
  "list_data nArg azArg p =
     each_column nArg (\<lambda>i. c_bind (elem_at azArg i) (\<lambda>a.
       Inr (or_else a (nullValue p) @
         (if i + 1 < nArg then colSeparator p
          else if cMode p = MODE_Semi then '';'' @ rowSeparator p
          else rowSeparator p))))"

definition show_list :: "nat \<Rightarrow> string option list option \<Rightarrow> string option list \<Rightarrow> shell_out \<Rightarrow> shell_out c_result" where
  "show_list nArg azArg azCol p =
     c_bind (head_row (list_head nArg azCol) p) (\<lambda>p.
     case azArg of None \<Rightarrow> Inr p | Some azArg \<Rightarrow> c_bind (list_data nArg azArg p) (\<lambda>t. Inr (print_out p t)))"

section \<open>HTML\<close>

definition html_row :: "string \<Rightarrow> nat \<Rightarrow> (nat \<Rightarrow> string option c_result) \<Rightarrow> string c_result" where
  "html_row cell nArg f =
     c_bind (each_column nArg (\<lambda>i. c_bind (f i) (\<lambda>z.
       Inr (''<'' @ cell @ ''>'' @ output_html_string z @ ''</'' @ cell @ ''>\<newline>'')))) (\<lambda>t.
     Inr (''<TR>'' @ t @ ''</TR>\<newline>''))"

definition show_html :: "nat \<Rightarrow> string option list option \<Rightarrow> string option list \<Rightarrow> shell_out \<Rightarrow> shell_out c_result" where
  "show_html nArg azArg azCol p =
     c_bind (head_row (\<lambda>p. html_row ''TH'' nArg (elem_at azCol)) p) (\<lambda>p.
     case azArg of None \<Rightarrow> Inr p
     | Some azArg \<Rightarrow>
         c_bind (html_row ''TD'' nArg (\<lambda>i. c_bind (elem_at azArg i) (\<lambda>a. Inr (Some (or_else a (nullValue p)))))) (\<lambda>t.
         Inr (print_out p t)))"

section \<open>Tcl\<close>

definition tcl_row :: "nat \<Rightarrow> string option list \<Rightarrow> string \<Rightarrow> shell_out \<Rightarrow> string c_result" where
  "tcl_row nArg az null p =
     c_bind (each_column nArg (\<lambda>i. c_bind (elem_at az i) (\<lambda>a.
       Inr (output_c_string (or_else a null) @ (if i + 1 < nArg then colSeparator p else []))))) (\<lambda>t.
     Inr (t @ rowSeparator p))"

definition show_tcl :: "nat \<Rightarrow> string option list option \<Rightarrow> string option list \<Rightarrow> shell_out \<Rightarrow> shell_out c_result" where
  "show_tcl nArg azArg azCol p =
     c_bind (head_row (tcl_row nArg azCol []) p) (\<lambda>p.
     case azArg of None \<Rightarrow> Inr p | Some azArg \<Rightarrow> c_bind (tcl_row nArg azArg (nullValue p) p) (\<lambda>t. Inr (print_out p t)))"

section \<open>CSV\<close>

definition csv_head :: "nat \<Rightarrow> string option list \<Rightarrow> shell_out \<Rightarrow> string c_result" where
  "csv_head nArg azCol p =
     c_bind (each_column nArg (\<lambda>i. c_bind (elem_at azCol i) (\<lambda>c.
       Inr (output_csv (colSeparator p) (nullValue p) (Some (or_else c [])) (i + 1 < nArg))))) (\<lambda>t.
     Inr (t @ rowSeparator p))"

definition csv_data :: "nat \<Rightarrow> string option list option \<Rightarrow> shell_out \<Rightarrow> string c_result" where
  "csv_data nArg azArg p =
     c_bind (each_column nArg (\<lambda>i.
       c_bind (case azArg of None \<Rightarrow> Inl Null_deref | Some azArg \<Rightarrow> elem_at azArg i) (\<lambda>a.
       Inr (output_csv (colSeparator p) (nullValue p) a (i + 1 < nArg))))) (\<lambda>t.
     Inr (t @ rowSeparator p))"

definition show_csv :: "nat \<Rightarrow> string option list option \<Rightarrow> string option list \<Rightarrow> shell_out \<Rightarrow> shell_out c_result" where
  "show_csv nArg azArg azCol p =
     c_bind (head_row (csv_head nArg azCol) p) (\<lambda>p.
     if nArg > 0 then c_bind (csv_data nArg azArg p) (\<lambda>t. Inr (print_out p t)) else Inr p)"

section \<open>INSERT statements\<close>

definition insert_value :: "(nat \<Rightarrow> string) option \<Rightarrow> int list option \<Rightarrow> nat \<Rightarrow> string option \<Rightarrow> string c_result" where
  "insert_value stmt aiType i a = (case a of
     None \<Rightarrow> Inr ''NULL''
   | Some z \<Rightarrow>
       c_bind (case aiType of None \<Rightarrow> Inr None | Some ts \<Rightarrow> c_bind (elem_at ts i) (\<lambda>t. Inr (Some t))) (\<lambda>t.
       Inr (if t = Some SQLITE_NULL then ''NULL''
            else if t = Some SQLITE_TEXT then output_quoted_string z
            else if t = Some SQLITE_INTEGER \<or> t = Some SQLITE_FLOAT then z
            else if t = Some SQLITE_BLOB \<and> stmt \<noteq> None then output_hex_blob ((the stmt) i)
            else if fst (isNumber z False) then z
            else output_quoted_string z)))"

definition show_insert :: "nat \<Rightarrow> string option list option \<Rightarrow> string option list \<Rightarrow> int list option \<Rightarrow> shell_out
    \<Rightarrow> shell_out c_result" where
  "show_insert nArg azArg azCol aiType p =
     (let p = p\<lparr>cnt := cnt p + 1\<rparr>; sep = (\<lambda>i. if i > (0::nat) then '','' else []) in
      case azArg of None \<Rightarrow> Inr p
      | Some azArg \<Rightarrow>
          c_bind (str_arg (zDestTable p)) (\<lambda>table.
          c_bind (if showHeader p then
                    c_bind (each_column nArg (\<lambda>i. c_bind (elem_at azCol i) (\<lambda>c. c_bind (str_arg c) (\<lambda>c.
                      Inr (sep i @ c))))) (\<lambda>t.
                    Inr (''('' @ t @ '')''))
                  else Inr []) (\<lambda>names.
          c_bind (each_column nArg (\<lambda>i. c_bind (elem_at azArg i) (\<lambda>a. c_bind (insert_value (pStmt p) aiType i a) (\<lambda>v.
            Inr (sep i @ v))))) (\<lambda>vals.
          Inr (print_out p (''INSERT INTO '' @ table @ names @ '' VALUES('' @ vals @ '');\<newline>''))))))"

section \<open>ASCII\<close>

definition ascii_row :: "nat \<Rightarrow> string option list \<Rightarrow> string \<Rightarrow> shell_out \<Rightarrow> string c_result" where
  "ascii_row nArg az null p =
     c_bind (each_column nArg (\<lambda>i. c_bind (elem_at az i) (\<lambda>a.
       Inr ((if i > 0 then colSeparator p else []) @ or_else a null)))) (\<lambda>t.
     Inr (t @ rowSeparator p))"

definition show_ascii :: "nat \<Rightarrow> string option list option \<Rightarrow> string option list \<Rightarrow> shell_out \<Rightarrow> shell_out c_result" where
  "show_ascii nArg azArg azCol p =
     c_bind (head_row (ascii_row nArg azCol []) p) (\<lambda>p.
     case azArg of None \<Rightarrow> Inr p | Some azArg \<Rightarrow> c_bind (ascii_row nArg azArg (nullValue p) p) (\<lambda>t. Inr (print_out p t)))"

section \<open>The callback\<close>

text \<open>The state after a row; the result is always 0.\<close>

definition shell_callback :: "shell_out \<Rightarrow> nat \<Rightarrow> string option list option \<Rightarrow> string option list \<Rightarrow> int list option
    \<Rightarrow> shell_out c_result" where
  "shell_callback p nArg azArg azCol aiType =
     (if cMode p = MODE_Line then show_line nArg azArg azCol p
      else if cMode p = MODE_Explain \<or> cMode p = MODE_Column then show_columns nArg azArg azCol p
      else if cMode p = MODE_Semi \<or> cMode p = MODE_List then show_list nArg azArg azCol p
      else if cMode p = MODE_Html then show_html nArg azArg azCol p
      else if cMode p = MODE_Tcl then show_tcl nArg azArg azCol p
      else if cMode p = MODE_Csv then show_csv nArg azArg azCol p
      else if cMode p = MODE_Insert then show_insert nArg azArg azCol aiType p
      else if cMode p = MODE_Ascii then show_ascii nArg azArg azCol p
      else Inr p)"

definition callback :: "shell_out \<Rightarrow> nat \<Rightarrow> string option list option \<Rightarrow> string option list \<Rightarrow> shell_out c_result" where
  "callback p nArg azArg azCol = shell_callback p nArg azArg azCol None"

section \<open>Strings in exactly sized blocks\<close>

text \<open>Storing the characters of a text and a terminator, from the start of a block of \<open>room\<close> bytes.\<close>

definition store_string :: "nat \<Rightarrow> string \<Rightarrow> string c_result" where
  "store_string room z = (if length z + 1 \<le> room then Inr z else Inl Out_of_bounds)"

definition is_alpha :: "char \<Rightarrow> bool" where
  "is_alpha c \<longleftrightarrow> 65 \<le> char_code c \<and> char_code c \<le> 90 \<or> 97 \<le> char_code c \<and> char_code c \<le> 122"

definition name_char :: "char \<Rightarrow> bool" where
  "name_char c \<longleftrightarrow> is_alpha c \<or> is_digit c \<or> c = CHR ''_''"

text \<open>The loop that counts: whether quotes are needed, and the bytes so far.\<close>

fun count_name :: "string \<Rightarrow> bool \<Rightarrow> nat \<Rightarrow> bool \<times> nat" where
  "count_name [] needQuote n = (needQuote, n)"
| "count_name (c # cs) needQuote n =
     (if \<not> name_char c then count_name cs True (if c = CHR 0x27 then n + 2 else n + 1)
      else count_name cs needQuote (n + 1))"

definition set_table_name :: "shell_out \<Rightarrow> string option \<Rightarrow> shell_out c_result" where
  "set_table_name p zName = (case zName of
     None \<Rightarrow> Inr (p\<lparr>zDestTable := None\<rparr>)
   | Some zName \<Rightarrow>
       let needQuote = (case zName of [] \<Rightarrow> True | c # _ \<Rightarrow> \<not> is_alpha c \<and> c \<noteq> CHR ''_'');
           (needQuote, n) = count_name zName needQuote 0;
           n = (if needQuote then n + 2 else n);
           quote = (if needQuote then [CHR 0x27] else []) in
       c_bind (store_string (n + 1)
         (quote @ concat (map (\<lambda>c. if c = CHR 0x27 then [c, CHR 0x27] else [c]) zName) @ quote)) (\<lambda>z.
       Inr (p\<lparr>zDestTable := Some z\<rparr>)))"

text \<open>\<open>realloc\<close> is taken to succeed. The \<open>assert\<close> on the number of bytes stored is the fault \<open>Out_of_bounds\<close>.\<close>

definition appendText :: "string option \<Rightarrow> string \<Rightarrow> char \<Rightarrow> string c_result" where
  "appendText zIn zAppend quote =
     (let nAppend = strlen30 zAppend; nIn = (case zIn of None \<Rightarrow> 0 | Some z \<Rightarrow> strlen30 z); len = nAppend + nIn + 1;
          len = (if quote \<noteq> CHR 0x00
                 then len + 2 + length (filter (\<lambda>c. c = quote) (take nAppend zAppend)) else len);
          kept = take nIn (or_else zIn []) in
      c_bind (int_add 0 (int len)) (\<lambda>_.
      if quote \<noteq> CHR 0x00 then
        let stored = kept @ [quote] @ concat (map (\<lambda>c. if c = quote then [c, quote] else [c]) (take nAppend zAppend)) @ [quote] in
        if length stored + 1 = len then store_string len stored else Inl Out_of_bounds
      else store_string len (kept @ take nAppend zAppend)))"

end
