(* ===== verification/ShellTable.thy ===== *)
theory ShellTable
  imports ShellImportProps ShellOutput
begin

text \<open>
  \<open>.import\<close> as a whole: it returns on every file, whatever reader is chosen, and it reads back the tables that
  CSV mode writes.
\<close>

section \<open>The readers\<close>

text \<open>What the loop over the rows relies on: a field is read without a fault, and reading one consumes input.\<close>

locale field_reader =
  fixes xRead :: reader
  assumes reads: "\<exists>z q. xRead p = Inr (z, q) \<and> reads_on p q \<and>
    (cTerm q = c_EOF \<or> length (stream_in q) < length (stream_in p))"
begin

lemma bind_columns_total:
  "\<exists>i' bound' q. bind_columns xRead ascii l nCol (Suc k) i bound p = Inr (i', bound', q) \<and> reads_on p q \<and>
    (cTerm q = c_EOF \<or> length (stream_in q) < length (stream_in p))"
proof (induction k arbitrary: i bound p)
  case 0
  from reads [of p] show ?case by (auto simp: Let_def)
next
  case (Suc k)
  from reads [of p] obtain z q where q: "xRead p = Inr (z, q)" "reads_on p q"
    "cTerm q = c_EOF \<or> length (stream_in q) < length (stream_in p)" by blast
  have on: "reads_on q r \<Longrightarrow> reads_on p r" for r using reads_on_trans q(2) by blast
  from Suc.IH [of "i + 1" "bound @ [map_option up_to_nul z]" q] obtain i' bound' r where
    r: "bind_columns xRead ascii l nCol (Suc k) (i + 1) (bound @ [map_option up_to_nul z]) q = Inr (i', bound', r)"
      "reads_on q r" "cTerm r = c_EOF \<or> length (stream_in r) < length (stream_in q)" by blast
  have "length (stream_in q) \<le> length (stream_in p)" using q(2) by (simp add: reads_on_def)
  with r(3) have less: "cTerm r = c_EOF \<or> length (stream_in r) < length (stream_in p)" by auto
  have c: "reads_on p (complain q l m)" for m using q(2) by (simp add: reads_on_def)
  show ?case
    by (subst bind_columns.simps) (use q r less on [OF r(2)] c in \<open>auto simp: Let_def simp del: bind_columns.simps\<close>)
qed

lemma skip_extras_total:
  "cColSep p \<noteq> c_EOF \<Longrightarrow> length (stream_in p) < fuel \<Longrightarrow>
     \<exists>i' q. skip_extras fuel xRead i p = Inr (i', q) \<and> reads_on p q \<and>
       (cTerm q = c_EOF \<or> length (stream_in q) < length (stream_in p))"
proof (induction fuel arbitrary: i p)
  case 0
  then show ?case by simp
next
  case (Suc fuel)
  from reads [of p] obtain z q where q: "xRead p = Inr (z, q)" "reads_on p q"
    "cTerm q = c_EOF \<or> length (stream_in q) < length (stream_in p)" by blast
  show ?case
  proof (cases "cTerm q = cColSep q")
    case False
    with q show ?thesis by auto
  next
    case True
    with q Suc.prems have "cColSep q \<noteq> c_EOF" "length (stream_in q) < length (stream_in p)" by (auto simp: reads_on_def)
    with Suc.IH [of q "i + 1"] Suc.prems True q reads_on_trans [OF q(2)] show ?thesis by fastforce
  qed
qed

lemma import_rows_total:
  "cColSep p \<noteq> c_EOF \<Longrightarrow> length (stream_in p) < fuel \<Longrightarrow> 0 < nCol \<Longrightarrow>
     \<exists>db' q. import_rows fuel xRead ascii nCol insert_row db p = Inr (db', q) \<and> cTerm q = c_EOF"
proof (induction fuel arbitrary: db p)
  case 0
  then show ?case by simp
next
  case (Suc fuel)
  obtain k where k: "nCol = Suc k" using Suc.prems(3) by (cases nCol) auto
  from bind_columns_total [of ascii "nLine p" nCol k 0 "[]" p] k obtain i bound q where
    q: "bind_columns xRead ascii (nLine p) nCol nCol 0 [] p = Inr (i, bound, q)" "reads_on p q"
      "cTerm q = c_EOF \<or> length (stream_in q) < length (stream_in p)" by blast
  have "\<exists>j r. (if cTerm q = cColSep q then
        c_bind (skip_extras fuel xRead i q) (\<lambda>(i, q).
          Inr (i, complain q (nLine p) (expected nCol i ''extras ignored'')))
      else Inr (i, q)) = Inr (j, r) \<and> cColSep r = cColSep p \<and> (cTerm r = c_EOF \<or> length (stream_in r) < length (stream_in p))"
  proof (cases "cTerm q = cColSep q")
    case False
    with q show ?thesis by (auto simp: reads_on_def)
  next
    case True
    with q Suc.prems(1) have "cColSep q \<noteq> c_EOF" "length (stream_in q) < length (stream_in p)" by (auto simp: reads_on_def)
    with skip_extras_total [of q fuel i] Suc.prems(2) q True show ?thesis by (fastforce simp: reads_on_def)
  qed
  then obtain j r where r: "(if cTerm q = cColSep q then
        c_bind (skip_extras fuel xRead i q) (\<lambda>(i, q).
          Inr (i, complain q (nLine p) (expected nCol i ''extras ignored'')))
      else Inr (i, q)) = Inr (j, r)" "cColSep r = cColSep p" "cTerm r = c_EOF \<or> length (stream_in r) < length (stream_in p)"
    by blast
  show ?case
    using Suc.IH Suc.prems q(1) r by (simp add: Let_def split: option.split prod.split) (auto; metis less_SucE less_trans complain_sel complain_stream)
qed

end

section \<open>Both readers\<close>

lemma end_field_total: "room_left q \<Longrightarrow> \<exists>z. end_field q = Inr (z, q)"
  by (auto simp: end_field_def room_left_def)

lemma reads_on_updates [simp]:
  "reads_on p (q\<lparr>cTerm := t\<rparr>) = reads_on p q" "reads_on p (q\<lparr>nLine := l\<rparr>) = reads_on p q"
  by (simp_all add: reads_on_def)

lemma first_char:
  obtains (at_end) "stream_in p = []" "fgetc (p\<lparr>field := []\<rparr>) = (c_EOF, p\<lparr>field := []\<rparr>)"
  | (some) d s where "stream_in p = d # s" "fgetc (p\<lparr>field := []\<rparr>) = (int (char_code d), p\<lparr>field := [], stream_in := s\<rparr>)"
  by (cases "stream_in p") (auto simp: fgetc_def)

text \<open>The plain part of both readers.\<close>

lemma plain_part:
  assumes "stream_in p = d # s"
  shows "\<exists>c q. plain_field (int (char_code d)) (p\<lparr>field := [], stream_in := s\<rparr>) = Inr (c, q) \<and>
    reads_on p q \<and> length (stream_in q) < length (stream_in p)"
proof -
  have "room_left (p\<lparr>field := [], stream_in := s\<rparr>)" by (auto simp: room_left_def)
  from plain_field_total [OF this, of "int (char_code d)"] assms show ?thesis
    by (fastforce simp: reads_on_def)
qed

interpretation csv: field_reader "csv_read_one_field False"
proof (unfold_locales, goal_cases)
  case (1 p)
  show ?case
  proof (cases rule: first_char [of p])
    case at_end
    then show ?thesis
      by (simp add: csv_read_one_field_def reads_on_def)
  next
    case (some d s)
    show ?thesis
    proof (cases "int (char_code d) = cQuote")
      case True
      have "room_left (p\<lparr>field := [], stream_in := s\<rparr>)" by (auto simp: room_left_def)
      from csv_quoted_field_total [OF this quote_seen_zero, of "nLine p"] obtain q where
        q: "csv_quoted_field (nLine p) (p\<lparr>field := [], stream_in := s\<rparr>) 0 0 = Inr q"
          "reads_on (p\<lparr>field := [], stream_in := s\<rparr>) q" by blast
      moreover obtain z where "end_field q = Inr (z, q)" using end_field_total q(2) by (auto simp: reads_on_def)
      ultimately show ?thesis using some True by (auto simp: csv_read_one_field_def reads_on_def)
    next
      case False
      obtain c q where q: "plain_field (int (char_code d)) (p\<lparr>field := [], stream_in := s\<rparr>) = Inr (c, q)"
        "reads_on p q" "length (stream_in q) < length (stream_in p)"
        using plain_part [OF some(1)] by blast
      let ?q = "if c = cRowSep q then
          (if field q \<noteq> [] \<and> last (field q) = CHR 0x0D then q\<lparr>nLine := nLine q + 1, field := butlast (field q)\<rparr>
           else q\<lparr>nLine := nLine q + 1\<rparr>) else q"
      have on: "reads_on p (?q\<lparr>cTerm := c\<rparr>)" "length (stream_in ?q) < length (stream_in p)"
        using q(2,3) by (auto simp: reads_on_def room_left_def)
      then obtain z where "end_field (?q\<lparr>cTerm := c\<rparr>) = Inr (z, ?q\<lparr>cTerm := c\<rparr>)"
        using end_field_total [of "?q\<lparr>cTerm := c\<rparr>"] by (auto simp: reads_on_def)
      with some False q(1) on show ?thesis by (force simp: csv_read_one_field_def Let_def)
    qed
  qed
qed

interpretation ascii: field_reader "ascii_read_one_field False"
proof (unfold_locales, goal_cases)
  case (1 p)
  show ?case
  proof (cases rule: first_char [of p])
    case at_end
    then show ?thesis
      by (simp add: ascii_read_one_field_def reads_on_def)
  next
    case (some d s)
    obtain c q where q: "plain_field (int (char_code d)) (p\<lparr>field := [], stream_in := s\<rparr>) = Inr (c, q)"
      "reads_on p q" "length (stream_in q) < length (stream_in p)"
      using plain_part [OF some(1)] by blast
    let ?q = "if c = cRowSep q then q\<lparr>nLine := nLine q + 1\<rparr> else q"
    have on: "reads_on p (?q\<lparr>cTerm := c\<rparr>)" "length (stream_in ?q) < length (stream_in p)" using q(2,3) by auto
    then obtain z where "end_field (?q\<lparr>cTerm := c\<rparr>) = Inr (z, ?q\<lparr>cTerm := c\<rparr>)"
      using end_field_total [of "?q\<lparr>cTerm := c\<rparr>"] by (auto simp: reads_on_def)
    with some q(1) on show ?thesis by (force simp: ascii_read_one_field_def Let_def)
  qed
qed

section \<open>Writing a table\<close>

text \<open>The callback called for one row after another.\<close>

fun show_rows :: "shell_out \<Rightarrow> nat \<Rightarrow> string option list \<Rightarrow> string list list \<Rightarrow> shell_out c_result" where
  "show_rows p nArg azCol [] = Inr p"
| "show_rows p nArg azCol (r # rs) =
     c_bind (callback p nArg (Some (map Some r)) azCol) (\<lambda>p. show_rows p nArg azCol rs)"

fun csv_line :: "string \<Rightarrow> string \<Rightarrow> string \<Rightarrow> string list \<Rightarrow> string" where
  "csv_line sep null eol [] = eol"
| "csv_line sep null eol (z # zs) = output_csv sep null (Some z) (zs \<noteq> []) @ csv_line sep null eol zs"

lemma c_map_Inr [simp]: "c_map (\<lambda>x. Inr (f x)) xs = Inr (map f xs)"
  by (induction xs) auto

lemma c_map_cong: "(\<And>x. x \<in> set xs \<Longrightarrow> f x = g x) \<Longrightarrow> c_map f xs = c_map g xs"
  by (induction xs) auto

lemma each_column_Inr:
  "(\<And>i. i < n \<Longrightarrow> f i = Inr (g i)) \<Longrightarrow> each_column n f = Inr (concat (map g [0..<n]))"
  using c_map_cong [of "[0..<n]" f "\<lambda>i. Inr (g i)"] by (simp add: each_column_def)

lemma csv_line_concat:
  "csv_line sep null eol zs =
     concat (map (\<lambda>i. output_csv sep null (Some (zs ! i)) (i + 1 < length zs)) [0..<length zs]) @ eol"
proof (induction zs)
  case Nil
  then show ?case by simp
next
  case (Cons z zs)
  have "[0..<length (z # zs)] = 0 # map Suc [0..<length zs]" by (simp add: upt_conv_Cons map_Suc_upt del: upt_Suc)
  with Cons show ?case by (simp add: comp_def del: upt_Suc)
qed

lemma csv_data_line:
  "csv_data (length r) (Some (map Some r)) p = Inr (csv_line (colSeparator p) (nullValue p) (rowSeparator p) r)"
proof -
  have "each_column (length r) (\<lambda>i. c_bind (elem_at (map Some r) i) (\<lambda>a.
      Inr (output_csv (colSeparator p) (nullValue p) a (i + 1 < length r)))) =
    Inr (concat (map (\<lambda>i. output_csv (colSeparator p) (nullValue p) (Some (r ! i)) (i + 1 < length r)) [0..<length r]))"
    by (rule each_column_Inr) (simp add: elem_at_def)
  then show ?thesis by (simp add: csv_data_def csv_line_concat)
qed

lemma show_csv_rows:
  assumes "cMode p = MODE_Csv" and "\<not> showHeader p" and "0 < nCol" and "\<forall>r \<in> set rows. length r = nCol"
  shows "\<exists>n. show_rows p nCol azCol rows = Inr (p\<lparr>cnt := n,
    sent_out := sent_out p @ concat (map (csv_line (colSeparator p) (nullValue p) (rowSeparator p)) rows)\<rparr>)"
  using assms
proof (induction rows arbitrary: p)
  case Nil
  have "p = p\<lparr>cnt := cnt p, sent_out := sent_out p @ []\<rparr>" by simp
  then show ?case by (metis concat.simps(1) list.map(1) show_rows.simps(1))
next
  case (Cons r rows)
  let ?p = "p\<lparr>cnt := cnt p + 1, sent_out := sent_out p @ csv_line (colSeparator p) (nullValue p) (rowSeparator p) r\<rparr>"
  have "callback p nCol (Some (map Some r)) azCol = Inr ?p"
    using Cons.prems csv_data_line [of r "p\<lparr>cnt := cnt p + 1\<rparr>"]
    by (simp add: callback_def shell_callback_def mode_defs show_csv_def head_row_def print_out_def)
  with Cons.IH [of ?p] Cons.prems show ?case by auto
qed

section \<open>Reading a table\<close>

text \<open>The shell writes with the one-character separator the reader looks for.\<close>

definition csv_agree :: "char \<Rightarrow> import_ctx \<Rightarrow> bool" where
  "csv_agree s p \<longleftrightarrow> csv_seps p \<and> cColSep p = int (char_code s)"

lemma csv_agree_kept: "csv_agree s p \<Longrightarrow> has_read q r w rest t \<Longrightarrow> cColSep q = cColSep p \<Longrightarrow> cRowSep q = cRowSep p \<Longrightarrow> csv_agree s r"
  by (simp add: csv_agree_def csv_seps_def has_read_def)

lemma needs_quote [simp]: "needCsvQuote ! 34 = 1" "needCsvQuote ! 13 = 1" "needCsvQuote ! 10 = 1"
  by (simp_all add: needCsvQuote_def nth_append)

lemma unquoted_bare:
  assumes "csv_agree s p" and "\<not> csv_quoted [s] z"
  shows "bare p z"
proof -
  have one: "strlen30 [s] = 1" by (simp add: strlen30_def)
  have c: "needCsvQuote ! char_code c = 0 \<and> c \<noteq> s" if "c \<in> set z" for c
    using assms(2) that one by (auto simp: csv_quoted_def)
  then have "c \<noteq> CHR 0x22 \<and> c \<noteq> CHR 0x0D \<and> char_code c \<noteq> 10 \<and> c \<noteq> s" if "c \<in> set z" for c
    using that needs_quote by fastforce
  with assms show ?thesis
    by (auto simp: bare_def plain_char_def csv_agree_def csv_seps_def char_code_inject csv_quoted_def)
qed

lemma csv_field_read:
  assumes "csv_agree s p" and "field_end p e rest t" and "stream_in p = output_csv [s] null (Some z) False @ e"
  shows "\<exists>q. csv_read_one_field False p = Inr (Some z, q) \<and> has_read (p\<lparr>field := []\<rparr>) q z rest t"
proof (cases "csv_quoted [s] z")
  case True
  with assms csv_reads_quoted [of p e rest t z] show ?thesis
    by (simp add: output_csv_def doubled_def csv_agree_def)
next
  case False
  with assms csv_reads_bare [of p e rest t z] unquoted_bare show ?thesis by (simp add: output_csv_def csv_agree_def)
qed

definition csv_eol :: "string \<Rightarrow> bool" where
  "csv_eol e \<longleftrightarrow> e = [CHR 0x0A] \<or> e = [CHR 0x0D, CHR 0x0A]"

lemma eol_ends: "csv_seps p \<Longrightarrow> csv_eol e \<Longrightarrow> field_end p (e @ rest) rest 10"
  unfolding csv_eol_def by (erule disjE) (simp_all add: field_end_def csv_seps_def)

text \<open>One row fills the columns.\<close>

lemma bind_columns_row:
  assumes "csv_agree s p" and "csv_eol e" and "\<forall>z \<in> set zs. c_text z" and "zs \<noteq> []"
    and "stream_in p = csv_line [s] null e zs @ rest"
  shows "\<exists>q. bind_columns (csv_read_one_field False) False l nCol (length zs) i bound p =
      Inr (i + length zs, bound @ map Some zs, q) \<and>
    csv_agree s q \<and> stream_in q = rest \<and> cTerm q = 10 \<and> complaints q = complaints p"
  using assms
proof (induction zs arbitrary: p i bound)
  case Nil
  then show ?case by simp
next
  case (Cons z zs)
  have z: "up_to_nul z = z" using Cons.prems(3) by (auto simp: up_to_nul_def c_text_def takeWhile_eq_all_conv)
  have sep: "csv_seps p" "cColSep p = int (char_code s)" using Cons.prems(1) by (simp_all add: csv_agree_def)
  show ?case
  proof (cases "zs = []")
    case True
    with csv_field_read [where null = null and z = z, OF Cons.prems(1) eol_ends [OF sep(1) Cons.prems(2)]] Cons.prems(5)
    obtain q where q: "csv_read_one_field False p = Inr (Some z, q)" "has_read (p\<lparr>field := []\<rparr>) q z rest 10" by auto
    with True z csv_agree_kept [OF Cons.prems(1) q(2)] show ?thesis by (simp add: Let_def has_read_def)
  next
    case False
    let ?rest = "csv_line [s] null e zs @ rest"
    have "field_end p (s # ?rest) ?rest (int (char_code s))" using sep by (auto simp: field_end_def)
    from csv_field_read [where null = null and z = z, OF Cons.prems(1) this] Cons.prems(5) False
    obtain q where q: "csv_read_one_field False p = Inr (Some z, q)" "has_read (p\<lparr>field := []\<rparr>) q z ?rest (int (char_code s))"
      by (auto simp: output_csv_def)
    have agree: "csv_agree s q" by (rule csv_agree_kept [OF Cons.prems(1) q(2)]) simp_all
    obtain r where r: "bind_columns (csv_read_one_field False) False l nCol (length zs) (i + 1) (bound @ [Some z]) q =
        Inr (i + 1 + length zs, (bound @ [Some z]) @ map Some zs, r)"
      "csv_agree s r" "stream_in r = rest" "cTerm r = 10" "complaints r = complaints q"
      using Cons.IH [OF agree Cons.prems(2) _ False, of "i + 1" "bound @ [Some z]"] Cons.prems(3) q(2)
      by (auto simp: has_read_def)
    have "cTerm q = cColSep q" "complaints q = complaints p" using q(2) sep by (simp_all add: has_read_def)
    with q(1) r z show ?thesis by (auto simp: Let_def)
  qed
qed

text \<open>The whole file.\<close>

lemma import_rows_end:
  assumes "stream_in p = []" and "0 < nCol" and "cColSep p \<noteq> c_EOF"
  shows "import_rows (Suc n) (csv_read_one_field False) False nCol ins db p =
    Inr (db, p\<lparr>field := [], cTerm := c_EOF\<rparr>)"
proof -
  obtain k where "nCol = Suc k" using assms(2) by (cases nCol) auto
  moreover have "csv_read_one_field False p = Inr (None, p\<lparr>field := [], cTerm := c_EOF\<rparr>)"
    using assms(1) by (simp add: csv_read_one_field_def fgetc_def)
  ultimately show ?thesis using assms(3) by (simp add: Let_def)
qed

lemma import_csv_rows:
  assumes "csv_agree s p" and "csv_eol e" and "0 < nCol"
    and "\<forall>r \<in> set rows. length r = nCol \<and> (\<forall>z \<in> set r. c_text z)"
    and "stream_in p = concat (map (csv_line [s] null e) rows)" and "length rows < fuel"
  shows "\<exists>q. import_rows fuel (csv_read_one_field False) False nCol (\<lambda>db r. (ins db r, None)) db p =
      Inr (foldl ins db (map (map Some) rows), q) \<and> complaints q = complaints p"
  using assms
proof (induction rows arbitrary: p db fuel)
  case Nil
  then obtain n where "fuel = Suc n" by (cases fuel) auto
  with Nil import_rows_end [of p nCol n "\<lambda>db r. (ins db r, None)" db] show ?case
    by (simp add: csv_agree_def csv_seps_def)
next
  case (Cons r rows)
  then obtain n where n: "fuel = Suc n" "length rows < n" by (cases fuel) auto
  have r: "length r = nCol" "\<forall>z \<in> set r. c_text z" "r \<noteq> []" using Cons.prems(3,4) by auto
  obtain q where q: "bind_columns (csv_read_one_field False) False (nLine p) nCol (length r) 0 [] p =
      Inr (nCol, map Some r, q)"
    "csv_agree s q" "stream_in q = concat (map (csv_line [s] null e) rows)" "cTerm q = 10" "complaints q = complaints p"
    using bind_columns_row [OF Cons.prems(1,2) r(2,3), of null "concat (map (csv_line [s] null e) rows)" "nLine p" nCol 0 "[]"]
      Cons.prems(5) r(1) by auto
  have t: "cTerm q \<noteq> cColSep q" "cTerm q \<noteq> c_EOF" using q(2,4) by (auto simp: csv_agree_def csv_seps_def c_EOF_def)
  have "import_rows fuel (csv_read_one_field False) False nCol (\<lambda>db r. (ins db r, None)) db p =
      import_rows n (csv_read_one_field False) False nCol (\<lambda>db r. (ins db r, None)) (ins db (map Some r)) q"
    using n(1) q(1) r(1) t by (simp add: Let_def)
  with Cons.IH [OF q(2) Cons.prems(2,3) _ q(3) n(2), of "ins db (map Some r)"] Cons.prems(4) q(5) show ?case by simp
qed

section \<open>The properties\<close>

text \<open>A table exported in CSV mode and imported again is the same table. For every table whose values hold no NUL
  character, every one-character column separator that is no quote and no line end, and rows ended by a
  newline or by a carriage return and a newline, the callback prints every row without a fault, and
  \<open>.import\<close> on what it printed inserts exactly these rows in this order and reports nothing. The values may
  hold the separator, quotes and line ends.\<close>

theorem csv_export_import:
  assumes out: "cMode out = MODE_Csv" "\<not> showHeader out" "sent_out out = []" "colSeparator out = [s]"
      "csv_eol (rowSeparator out)"
    and table: "0 < nCol" "\<forall>r \<in> set rows. length r = nCol \<and> (\<forall>z \<in> set r. c_text z)"
    and reader: "csv_agree s p" "length rows < fuel"
  shows "\<exists>out' q. show_rows out nCol azCol rows = Inr out' \<and>
    import_rows fuel (csv_read_one_field False) False nCol (\<lambda>db r. (ins db r, None)) db (p\<lparr>stream_in := sent_out out'\<rparr>) =
      Inr (foldl ins db (map (map Some) rows), q) \<and> complaints q = complaints p"
proof -
  let ?text = "concat (map (csv_line [s] (nullValue out) (rowSeparator out)) rows)"
  obtain n where n: "show_rows out nCol azCol rows = Inr (out\<lparr>cnt := n, sent_out := ?text\<rparr>)"
    using show_csv_rows [OF out(1,2) table(1), of rows azCol] table(2) out(3,4) by auto
  have "csv_agree s (p\<lparr>stream_in := ?text\<rparr>)" using reader(1) by (simp add: csv_agree_def csv_seps_def)
  from import_csv_rows [OF this out(5) table _ reader(2), of "nullValue out" ins db] n show ?thesis by fastforce
qed

text \<open>\<open>.import\<close> returns on every file, in CSV and in ASCII mode: whatever bytes the file holds, no reader leaves
  its buffer, and the loop over the rows ends at the end of the file after at most one row more than the
  file has characters. The one separator this does not hold for is the byte 255, which as a \<open>char\<close> equals \<open>EOF\<close>.\<close>

theorem import_returns:
  assumes "cColSep p \<noteq> c_EOF" and "0 < nCol" and "length (stream_in p) < fuel"
  shows "\<exists>db' q db'' r.
    import_rows fuel (csv_read_one_field False) False nCol insert_row db p = Inr (db', q) \<and> cTerm q = c_EOF \<and>
    import_rows fuel (ascii_read_one_field False) True nCol insert_row db p = Inr (db'', r) \<and> cTerm r = c_EOF"
  using csv.import_rows_total [OF assms(1,3,2), of False insert_row db]
    ascii.import_rows_total [OF assms(1,3,2), of True insert_row db] by blast

definition sample_out :: shell_out where
  "sample_out = \<lparr>cnt = 0, sent_out = [], mode = MODE_Csv, cMode = MODE_Csv, showHeader = False, zDestTable = None,
     colSeparator = '','', rowSeparator = [CHR 0x0D, CHR 0x0A], colWidth = replicate 100 0,
     actualWidth = replicate 100 0, nullValue = [], pStmt = None, aiIndent = None, nIndent = 0, iIndent = 0\<rparr>"

definition sample_ctx :: "string \<Rightarrow> import_ctx" where
  "sample_ctx s = \<lparr>zFile = ''f'', stream_in = s, field = [], nAlloc = 0, nLine = 1, cTerm = 0, cColSep = 44, cRowSep = 10,
     complaints = []\<rparr>"

lemma csv_export_import_witness:
  "\<exists>out' q. show_rows sample_out 2 [] [[''a,b'', []], [''x'' @ [CHR 0x22], ''y'' @ [CHR 0x0A]]] = Inr out' \<and>
    import_rows 9 (csv_read_one_field False) False 2 (\<lambda>db r. (db @ [r], None)) [] ((sample_ctx [])\<lparr>stream_in := sent_out out'\<rparr>) =
      Inr ([[Some ''a,b'', Some []], [Some (''x'' @ [CHR 0x22]), Some (''y'' @ [CHR 0x0A])]], q) \<and>
    complaints q = complaints (sample_ctx [])"
  using csv_export_import [of sample_out "CHR '',''" 2 "[[''a,b'', []], [''x'' @ [CHR 0x22], ''y'' @ [CHR 0x0A]]]"
      "sample_ctx []" 9 "[]" "\<lambda>db r. db @ [r]" "[]"]
  by (simp add: sample_out_def sample_ctx_def csv_eol_def c_text_def csv_agree_def csv_seps_def cQuote_def c_EOF_def
      char_code_def)

lemma import_returns_witness:
  "\<exists>db' q db'' r.
    import_rows 9 (csv_read_one_field False) False 2 (\<lambda>db r. (db @ [r], None)) [] (sample_ctx ''a,b'') = Inr (db', q) \<and>
      cTerm q = c_EOF \<and>
    import_rows 9 (ascii_read_one_field False) True 2 (\<lambda>db r. (db @ [r], None)) [] (sample_ctx ''a,b'') = Inr (db'', r) \<and>
      cTerm r = c_EOF"
  using import_returns [of "sample_ctx ''a,b''" 2 9] by (simp add: sample_ctx_def c_EOF_def)

end
