(* ===== verification/ShellInput.thy ===== *)
theory ShellInput
  imports ShellText
begin

text \<open>
  How \<^verbatim>\<open>database/SQLite/shell.c\<close> reads its input: lines from a stream, and what a line is.

  A stream is the characters it still delivers. The model is the build without a line-editing library, where
  \<open>one_input_line\<close> prints its prompt and reads standard input itself. Lines are shorter than \<open>2 ^ 30\<close> bytes and
  \<open>realloc\<close> is taken to succeed.
\<close>

section \<open>Lines\<close>

text \<open>\<open>fgets\<close> into a block of \<open>Suc k\<close> bytes: at most \<open>k\<close> characters, up to a newline. What is left comes second.\<close>

fun fgets :: "nat \<Rightarrow> string \<Rightarrow> string \<times> string" where
  "fgets 0 s = ([], s)"
| "fgets (Suc k) [] = ([], [])"
| "fgets (Suc k) (c # s) =
     (if c = CHR 0x0A then ([c], s) else (c # fst (fgets k s), snd (fgets k s)))"

definition strip_cr :: "string \<Rightarrow> string" where
  "strip_cr l = (if l \<noteq> [] \<and> last l = CHR 0x0D then butlast l else l)"

text \<open>
  The loop of \<open>local_getline\<close>, with \<open>nLine\<close> bytes in the block and the text \<open>buf\<close> in its first \<open>n\<close> bytes. A store
  behind the block is a fault. The result is the line, null at the end of the input, and the rest of the stream;
  \<open>None\<close> is a loop that never ends.
\<close>

partial_function (option) getline_loop :: "nat \<Rightarrow> string \<Rightarrow> string \<Rightarrow> (string option \<times> string) c_result option" where
  "getline_loop nLine buf s =
     (let nLine = (if length buf + 100 > nLine then nLine * 2 + 100 else nLine) in
      if length buf \<ge> nLine then Some (Inl Out_of_bounds)
      else if s = [] then Some (Inr (if buf = [] then None else Some buf, []))
      else
        let (chunk, s') = fgets (nLine - length buf - 1) s; buf' = buf @ takeWhile (\<lambda>c. c \<noteq> CHR 0x00) chunk in
        if buf' \<noteq> [] \<and> last buf' = CHR 0x0A then Some (Inr (Some (strip_cr (butlast buf')), s'))
        else getline_loop nLine buf' s')"

text \<open>Whether the caller passes a block to reuse, which has at least 100 bytes.\<close>

definition local_getline :: "bool \<Rightarrow> string \<Rightarrow> (string option \<times> string) c_result option" where
  "local_getline reused s = getline_loop (if reused then 100 else 0) [] s"

text \<open>\<open>from_file\<close> is \<open>in != 0\<close>. What it prints to standard output, and the result of \<open>local_getline\<close>.\<close>

definition one_input_line :: "string \<Rightarrow> string \<Rightarrow> bool \<Rightarrow> bool \<Rightarrow> bool \<Rightarrow> string
    \<Rightarrow> string \<times> (string option \<times> string) c_result option" where
  "one_input_line mainPrompt continuePrompt from_file reused isContinuation s =
     (if from_file then ([], local_getline reused s)
      else (if isContinuation then continuePrompt else mainPrompt, local_getline reused s))"

section \<open>What a line is\<close>

fun line_contains_semicolon :: "string \<Rightarrow> nat \<Rightarrow> bool" where
  "line_contains_semicolon z 0 = False"
| "line_contains_semicolon [] (Suc N) = False"
| "line_contains_semicolon (c # z) (Suc N) = (c = CHR '';'' \<or> line_contains_semicolon z N)"

text \<open>The text behind the end of a comment, \<open>None\<close> when it does not end.\<close>

fun end_of_comment :: "string \<Rightarrow> string option" where
  "end_of_comment (c # d # z) = (if c = CHR ''*'' \<and> d = CHR ''/'' then Some z else end_of_comment (d # z))"
| "end_of_comment z = None"

lemma end_of_comment_shorter: "end_of_comment z = Some r \<Longrightarrow> length r < length z"
  by (induction z rule: end_of_comment.induct) (auto split: if_splits)

function all_whitespace :: "string \<Rightarrow> bool" where
  "all_whitespace [] = True"
| "all_whitespace (c # z) =
     (if is_space c then all_whitespace z
      else if c = CHR ''/'' \<and> take 1 z = ''*'' then
        (case end_of_comment (drop 1 z) of None \<Rightarrow> False | Some r \<Rightarrow> all_whitespace r)
      else if c = CHR ''-'' \<and> take 1 z = ''-'' then
        (case dropWhile (\<lambda>c. c \<noteq> CHR 0x0A) (drop 1 z) of [] \<Rightarrow> True | _ # r \<Rightarrow> all_whitespace r)
      else False)"
  by pat_completeness auto
termination
proof (relation "measure length", goal_cases)
  case (3 c z r)
  from end_of_comment_shorter [OF 3(3)] show ?case by simp
next
  case (4 c z d r)
  then have "length (d # r) \<le> length (drop 1 z)" by (metis length_dropWhile_le)
  then show ?case by simp
qed auto

definition to_lower :: "char \<Rightarrow> char" where
  "to_lower c = (if 65 \<le> char_code c \<and> char_code c \<le> 90 then char_of (char_code c + 32) else c)"

definition line_is_command_terminator :: "string \<Rightarrow> bool" where
  "line_is_command_terminator zLine = (case dropWhile is_space zLine of
     [] \<Rightarrow> False
   | c # z \<Rightarrow>
       c = CHR ''/'' \<and> all_whitespace z \<or>
       to_lower c = CHR ''g'' \<and> (case z of [] \<Rightarrow> False | d # z \<Rightarrow> to_lower d = CHR ''o'' \<and> all_whitespace z))"

text \<open>
  \<open>line_is_complete\<close> stores a semicolon and a terminator behind the \<open>nSql\<close> characters of \<open>zSql\<close>, in a block of
  \<open>nAlloc\<close> bytes; \<open>complete\<close> is \<open>sqlite3_complete\<close>. The second store is taken back by the third.
\<close>

definition line_is_complete :: "(string \<Rightarrow> bool) \<Rightarrow> nat \<Rightarrow> string option \<Rightarrow> nat \<Rightarrow> bool c_result" where
  "line_is_complete complete nAlloc zSql nSql = (case zSql of
     None \<Rightarrow> Inr True
   | Some zSql \<Rightarrow>
       if nSql + 1 < nAlloc then Inr (complete (take nSql zSql @ '';''))
       else Inl Out_of_bounds)"

text \<open>\<open>argv[i]\<close>, or the message and the exit of the program.\<close>

definition cmdline_option_value :: "string list \<Rightarrow> nat \<Rightarrow> string + string" where
  "cmdline_option_value argv i =
     (if i = length argv then
        Inl (hd argv @ '': Error: missing argument to '' @ last argv @ ''\<newline>'')
      else Inr (argv ! i))"

end
