(* ===== verification/ShellExec.thy ===== *)
theory ShellExec
  imports ShellOutput ShellInput
begin

text \<open>
  Running SQL in \<^verbatim>\<open>database/SQLite/shell.c\<close>: \<open>explain_data_prepare\<close>, \<open>shell_exec\<close> and what they ask of the
  SQLite library. The library is the argument \<open>eng\<close>, one field per function called. A statement that never
  stops delivering rows makes the fuel run out.
\<close>

section \<open>The library and the state\<close>

record ('db, 'st) sqlite_api =
  prepare :: "'db \<Rightarrow> string \<Rightarrow> int \<times> 'db \<times> 'st option \<times> string"
  step :: "'db \<Rightarrow> 'st \<Rightarrow> int \<times> 'db \<times> 'st"
  reset :: "'st \<Rightarrow> 'st"
  finalize :: "'db \<Rightarrow> 'st option \<Rightarrow> int \<times> 'db"
  column_count :: "'st \<Rightarrow> nat"
  column_name :: "'st \<Rightarrow> nat \<Rightarrow> string option"
  column_text :: "'st \<Rightarrow> nat \<Rightarrow> string option"
  column_type :: "'st \<Rightarrow> nat \<Rightarrow> int"
  column_int :: "'st \<Rightarrow> nat \<Rightarrow> int"
  column_blob :: "'st \<Rightarrow> nat \<Rightarrow> string"
  stmt_sql :: "'st \<Rightarrow> string option"
  errmsg :: "'db \<Rightarrow> string"
  changes :: "'db \<Rightarrow> int"
  total_changes :: "'db \<Rightarrow> int"
  complete :: "string \<Rightarrow> bool"
  strlike :: "string \<Rightarrow> string option \<Rightarrow> bool"
  strnieq :: "string \<Rightarrow> string \<Rightarrow> nat \<Rightarrow> bool"

text \<open>The fields of \<open>ShellState\<close> beside those of the output; \<open>conn\<close> is the database connection.\<close>

record 'db shell_state =
  conn :: 'db
  so :: shell_out
  echoOn :: bool
  autoExplain :: bool
  autoEQP :: bool
  statsOn :: bool
  scanstatsOn :: bool
  countChanges :: bool
  backslashOn :: bool
  outCount :: int

section \<open>Indents of an EXPLAIN\<close>

definition str_in_array :: "string \<Rightarrow> string list \<Rightarrow> bool" where
  "str_in_array zStr azArray \<longleftrightarrow> zStr \<in> set azArray"

definition azNext :: "string list" where
  "azNext = [''Next'', ''Prev'', ''VPrev'', ''VNext'', ''SorterNext'', ''NextIfOpen'', ''PrevIfOpen'']"

definition azYield :: "string list" where
  "azYield = [''Yield'', ''SeekLT'', ''SeekGT'', ''RowSetRead'', ''Rewind'']"

definition azGoto :: "string list" where "azGoto = [''Goto'']"

definition explainCols :: "string list" where
  "explainCols = [''addr'', ''opcode'', ''p1'', ''p2'', ''p3'', ''p4'', ''p5'', ''comment'']"

text \<open>\<open>for(i=first; i<iOp; i++) p->aiIndent[i] += 2\<close>\<close>

definition indent_from :: "int \<Rightarrow> nat \<Rightarrow> int list \<Rightarrow> int list c_result" where
  "indent_from first iOp ind =
     (if first < 0 \<and> first < int iOp then Inl Out_of_bounds
      else Inr (map (\<lambda>i. if first \<le> int i \<and> i < iOp then ind ! i + 2 else ind ! i) [0..<length ind]))"

text \<open>The names of the first eight columns against \<open>explainCols\<close>, up to the first that differs.\<close>

fun same_names :: "(nat \<Rightarrow> string option) \<Rightarrow> nat \<Rightarrow> string list \<Rightarrow> bool c_result" where
  "same_names name jj [] = Inr True"
| "same_names name jj (c # cs) =
     c_bind (str_arg (name jj)) (\<lambda>n. if n = c then same_names name (Suc jj) cs else Inr False)"

text \<open>One row of the program, with the index \<open>p2op\<close> of its jump: the indents and \<open>abYield\<close> after it.\<close>

definition explain_op :: "('db, 'st) sqlite_api \<Rightarrow> 'st \<Rightarrow> nat \<Rightarrow> int \<Rightarrow> int list \<Rightarrow> bool list \<Rightarrow> (int list \<times> bool list) c_result" where
  "explain_op eng st iOp p2op ind abYield =
     c_bind (str_arg (column_text eng st 1)) (\<lambda>zOp.
     let abYield = abYield @ [str_in_array zOp azYield]; ind = ind @ [0] in
     c_bind (if str_in_array zOp azNext then indent_from p2op iOp ind else Inr ind) (\<lambda>ind.
     if str_in_array zOp azGoto \<and> p2op < int (iOp + 1) then
       c_bind (if p2op < 0 then Inl Out_of_bounds else elem_at abYield (nat p2op)) (\<lambda>y.
       if y \<or> column_int eng st 2 \<noteq> 0 then c_bind (indent_from (p2op + 1) iOp ind) (\<lambda>ind. Inr (ind, abYield))
       else Inr (ind, abYield))
     else Inr (ind, abYield)))"

text \<open>The loop over the rows. \<open>None\<close> stands for the early return when the columns are not those of an EXPLAIN.\<close>

fun explain_loop :: "nat \<Rightarrow> ('db, 'st) sqlite_api \<Rightarrow> 'db \<Rightarrow> 'st \<Rightarrow> nat \<Rightarrow> int list \<Rightarrow> bool list
    \<Rightarrow> (int list option \<times> 'db \<times> 'st) c_result" where
  "explain_loop 0 eng db st iOp ind abYield = Inl No_return"
| "explain_loop (Suc fuel) eng db st iOp ind abYield =
     (let (rc, db, st) = step eng db st in
      if rc \<noteq> SQLITE_ROW then Inr (Some ind, db, reset eng st)
      else
        c_bind (int_add (int iOp) (- column_int eng st 0)) (\<lambda>d.
        c_bind (int_add (column_int eng st 3) d) (\<lambda>p2op.
        c_bind (if iOp = 0 then same_names (column_name eng st) 0 explainCols else Inr True) (\<lambda>ok.
        if \<not> ok then Inr (None, db, reset eng st)
        else
          c_bind (explain_op eng st iOp p2op ind abYield) (\<lambda>(ind, abYield).
          explain_loop fuel eng db st (iOp + 1) ind abYield)))))"

definition explain_space :: "char \<Rightarrow> bool" where
  "explain_space c \<longleftrightarrow> char_code c \<in> {32, 9, 10, 12, 13}"

definition explain_data_prepare :: "nat \<Rightarrow> ('db, 'st) sqlite_api \<Rightarrow> 'db shell_state \<Rightarrow> 'st \<Rightarrow> ('db shell_state \<times> 'st) c_result" where
  "explain_data_prepare fuel eng p pSql =
     (let to_mode = (\<lambda>p. p\<lparr>so := (so p)\<lparr>cMode := mode (so p)\<rparr>\<rparr>) in
      if column_count eng pSql \<noteq> 8 then Inr (to_mode p, pSql)
      else
        (case stmt_sql eng pSql of
           None \<Rightarrow> Inr (p, pSql)
         | Some zSql \<Rightarrow>
             if \<not> strnieq eng (dropWhile explain_space zSql) ''explain'' 7 then Inr (to_mode p, pSql)
             else
               c_bind (explain_loop fuel eng (conn p) pSql 0 [] []) (\<lambda>(ind, d, st).
               let p = p\<lparr>conn := d\<rparr> in
               case ind of
                 None \<Rightarrow> Inr (to_mode p, st)
               | Some ind \<Rightarrow>
                   let o1 = (if ind = [] then so p else (so p)\<lparr>aiIndent := Some ind, nIndent := int (length ind)\<rparr>) in
                   Inr (p\<lparr>so := o1\<lparr>iIndent := 0\<rparr>\<rparr>, st))))"

definition explain_data_delete :: "'db shell_state \<Rightarrow> 'db shell_state" where
  "explain_data_delete p = p\<lparr>so := (so p)\<lparr>aiIndent := None, nIndent := 0, iIndent := 0\<rparr>\<rparr>"

section \<open>Executing statements\<close>

text \<open>
  \<open>sqlite3_malloc64\<close> is taken to succeed. The callback is \<open>shell_callback\<close>, as in every call of
  \<open>shell_exec\<close>. The two printers of statistics are arguments.
\<close>

definition save_err_msg :: "('db, 'st) sqlite_api \<Rightarrow> 'db \<Rightarrow> string" where
  "save_err_msg eng db = (let nErrMsg = 1 + strlen30 (errmsg eng db) in take (nErrMsg - 1) (errmsg eng db))"

text \<open>The values and types of the columns, \<open>None\<close> when a value that is not NULL has no text.\<close>

fun fetch_row :: "('db, 'st) sqlite_api \<Rightarrow> bool \<Rightarrow> 'st \<Rightarrow> nat list \<Rightarrow> (string option list \<times> int list) option" where
  "fetch_row eng inserting st [] = Some ([], [])"
| "fetch_row eng inserting st (i # is) =
     (let x = column_type eng st i;
          v = (if x = SQLITE_BLOB \<and> inserting then Some [] else column_text eng st i) in
      if v = None \<and> x \<noteq> SQLITE_NULL then None
      else (case fetch_row eng inserting st is of None \<Rightarrow> None | Some (vs, xs) \<Rightarrow> Some (v # vs, x # xs)))"

fun exec_rows :: "nat \<Rightarrow> ('db, 'st) sqlite_api \<Rightarrow> nat \<Rightarrow> string option list \<Rightarrow> shell_out \<Rightarrow> 'db \<Rightarrow> 'st
    \<Rightarrow> (int \<times> shell_out \<times> 'db \<times> 'st) c_result" where
  "exec_rows 0 eng nCol azCols o1 db st = Inl No_return"
| "exec_rows (Suc fuel) eng nCol azCols o1 db st =
     (case fetch_row eng (cMode o1 = MODE_Insert) st [0..<nCol] of
        None \<Rightarrow> Inr (SQLITE_NOMEM, o1, db, st)
      | Some (azVals, aiTypes) \<Rightarrow>
          c_bind (shell_callback (o1\<lparr>pStmt := Some (column_blob eng st)\<rparr>) nCol (Some azVals) azCols (Some aiTypes)) (\<lambda>o1.
          let (rc, db, st) = step eng db st in
          if rc = SQLITE_ROW then exec_rows fuel eng nCol azCols o1 db st else Inr (rc, o1, db, st)))"

text \<open>The rows of EXPLAIN QUERY PLAN.\<close>

fun eqp_rows :: "nat \<Rightarrow> ('db, 'st) sqlite_api \<Rightarrow> shell_out \<Rightarrow> 'db \<Rightarrow> 'st \<Rightarrow> (shell_out \<times> 'db \<times> 'st) c_result" where
  "eqp_rows 0 eng o1 db st = Inl No_return"
| "eqp_rows (Suc fuel) eng o1 db st =
     (let (rc, db, st) = step eng db st in
      if rc = SQLITE_ROW then
        c_bind (str_arg (column_text eng st 3)) (\<lambda>t.
        eqp_rows fuel eng
          (print_out o1 (''--EQP-- '' @ dec_int (column_int eng st 0) @ '','' @ dec_int (column_int eng st 1) @ '','' @
             dec_int (column_int eng st 2) @ '','' @ t @ ''\<newline>'')) db st)
      else Inr (o1, db, st))"

text \<open>\<open>sqlite3_step\<close> of the null statement delivers no row and \<open>sqlite3_finalize\<close> of it does nothing.\<close>

definition show_plan :: "nat \<Rightarrow> ('db, 'st) sqlite_api \<Rightarrow> 'st \<Rightarrow> 'db shell_state \<Rightarrow> 'db shell_state c_result" where
  "show_plan fuel eng stmt p =
     (let zEQP = ''EXPLAIN QUERY PLAN '' @ or_else (stmt_sql eng stmt) [];
          (rc, d, pExplain, _) = prepare eng (conn p) zEQP in
      case pExplain of
        None \<Rightarrow> Inr (p\<lparr>conn := d\<rparr>)
      | Some st \<Rightarrow>
          c_bind (if rc = SQLITE_OK then eqp_rows fuel eng (so p) d st else Inr (so p, d, st)) (\<lambda>(o1, d, st).
          Inr (p\<lparr>conn := snd (finalize eng d (Some st)), so := o1\<rparr>)))"

text \<open>From the prepared statement to the end of the round.\<close>

definition start_stmt :: "('db, 'st) sqlite_api \<Rightarrow> string \<Rightarrow> 'st \<Rightarrow> 'db shell_state \<Rightarrow> 'db shell_state" where
  "start_stmt eng zSql st p =
     (let o1 = (so p)\<lparr>pStmt := Some (column_blob eng st), cnt := 0\<rparr> in
      p\<lparr>so := (if echoOn p then print_out o1 (or_else (stmt_sql eng st) zSql @ ''\<newline>'') else o1)\<rparr>)"

definition choose_mode :: "('db, 'st) sqlite_api \<Rightarrow> 'st \<Rightarrow> 'db shell_state \<Rightarrow> 'db shell_state" where
  "choose_mode eng st p =
     p\<lparr>so := (so p)\<lparr>cMode :=
       (if autoExplain p \<and> column_count eng st = 8 \<and> strlike eng ''%EXPLAIN%'' (stmt_sql eng st)
        then MODE_Explain else mode (so p))\<rparr>\<rparr>"

definition show_result :: "nat \<Rightarrow> ('db, 'st) sqlite_api \<Rightarrow> 'st \<Rightarrow> 'db shell_state \<Rightarrow> (int \<times> 'st \<times> 'db shell_state) c_result" where
  "show_result fuel eng st p =
     (let (rc, d, st) = step eng (conn p) st in
      if rc = SQLITE_ROW then
        let nCol = column_count eng st in
        c_bind (exec_rows fuel eng nCol (map (column_name eng st) [0..<nCol]) (so p) d st) (\<lambda>(rc, o1, d, st).
        Inr (rc, st, p\<lparr>conn := d, so := o1\<rparr>))
      else Inr (rc, st, p\<lparr>conn := d\<rparr>))"

definition exec_stmt :: "nat \<Rightarrow> ('db, 'st) sqlite_api \<Rightarrow> ('db \<Rightarrow> shell_out \<Rightarrow> shell_out) \<Rightarrow> ('db \<Rightarrow> shell_out \<Rightarrow> shell_out)
    \<Rightarrow> string \<Rightarrow> 'st \<Rightarrow> 'db shell_state \<Rightarrow> (int \<times> 'db shell_state) c_result" where
  "exec_stmt fuel eng stats scanstats zSql st p =
     (let p = start_stmt eng zSql st p in
      c_bind (if autoEQP p then show_plan fuel eng st p else Inr p) (\<lambda>p.
      let p = choose_mode eng st p in
      c_bind (if cMode (so p) = MODE_Explain then explain_data_prepare fuel eng p st else Inr (p, st)) (\<lambda>(p, st).
      c_bind (show_result fuel eng st p) (\<lambda>(rc, st, p).
      let p = explain_data_delete p;
          p = (if statsOn p then p\<lparr>so := stats (conn p) (so p)\<rparr> else p);
          p = (if scanstatsOn p then p\<lparr>so := scanstats (conn p) (so p)\<rparr> else p);
          (rc2, d) = finalize eng (conn p) (Some st) in
      Inr (if rc \<noteq> SQLITE_NOMEM then rc2 else rc, p\<lparr>conn := d, so := (so p)\<lparr>pStmt := None\<rparr>\<rparr>)))))"

text \<open>The result code, the error message and the state.\<close>

fun shell_exec :: "nat \<Rightarrow> ('db, 'st) sqlite_api \<Rightarrow> ('db \<Rightarrow> shell_out \<Rightarrow> shell_out) \<Rightarrow> ('db \<Rightarrow> shell_out \<Rightarrow> shell_out)
    \<Rightarrow> string \<Rightarrow> 'db shell_state \<Rightarrow> (int \<times> string option \<times> 'db shell_state) c_result" where
  "shell_exec 0 eng stats scanstats zSql p = Inl No_return"
| "shell_exec (Suc fuel) eng stats scanstats zSql p =
     (if zSql = [] then Inr (SQLITE_OK, None, p)
      else
        let (rc, d, stmt, zLeftover) = prepare eng (conn p) zSql; p = p\<lparr>conn := d\<rparr> in
        if rc \<noteq> SQLITE_OK then Inr (rc, Some (save_err_msg eng (conn p)), p)
        else
          (case stmt of
             None \<Rightarrow> shell_exec fuel eng stats scanstats (dropWhile is_space zLeftover) p
           | Some st \<Rightarrow>
               c_bind (exec_stmt fuel eng stats scanstats zSql st p) (\<lambda>(rc, p).
               if rc = SQLITE_OK then shell_exec fuel eng stats scanstats (dropWhile is_space zLeftover) p
               else Inr (rc, Some (save_err_msg eng (conn p)), p))))"

end
