(* ===== verification/ShellQuery.thy ===== *)
theory ShellQuery
  imports ShellTable ShellExec
begin

text \<open>
  A query from the prepared statement to the file: what \<open>shell_exec\<close> prints for the rows the library delivers,
  and the table that \<open>.import\<close> makes of it.
\<close>

section \<open>Rows of the library\<close>

text \<open>The statement is at a row of texts; and it delivers these rows and then is done.\<close>

definition at_row :: "('db, 'st) sqlite_api \<Rightarrow> string list \<Rightarrow> 'st \<Rightarrow> bool" where
  "at_row eng r st \<longleftrightarrow> column_count eng st = length r \<and>
     (\<forall>i < length r. column_text eng st i = Some (r ! i) \<and> column_type eng st i = SQLITE_TEXT)"

fun delivers :: "('db, 'st) sqlite_api \<Rightarrow> string list list \<Rightarrow> 'db \<Rightarrow> 'st \<Rightarrow> 'db \<Rightarrow> 'st \<Rightarrow> bool" where
  "delivers eng [] d st d' st' \<longleftrightarrow> step eng d st = (SQLITE_DONE, d', st')"
| "delivers eng (r # rs) d st d' st' \<longleftrightarrow>
     (case step eng d st of (rc, d1, st1) \<Rightarrow> rc = SQLITE_ROW \<and> at_row eng r st1 \<and> delivers eng rs d1 st1 d' st')"

lemma fetch_texts:
  "(\<forall>i \<in> set is. i < length r) \<Longrightarrow> at_row eng r st \<Longrightarrow>
     fetch_row eng b st is = Some (map (\<lambda>i. Some (r ! i)) is, map (\<lambda>i. SQLITE_TEXT) is)"
  by (induction "is") (auto simp: at_row_def Let_def sqlite_type_defs)

lemma fetch_row_text:
  "at_row eng r st \<Longrightarrow> fetch_row eng b st [0..<length r] = Some (map Some r, map (\<lambda>i. SQLITE_TEXT) [0..<length r])"
proof -
  assume a: "at_row eng r st"
  have "map (\<lambda>i. Some (r ! i)) [0..<length r] = map Some r"
    by (intro nth_equalityI) auto
  with fetch_texts [OF _ a, of "[0..<length r]" b] show ?thesis by simp
qed

section \<open>CSV of a query\<close>

text \<open>The state of the output in CSV mode, and the line of the names that comes before the first row.\<close>

definition csv_out :: "string \<Rightarrow> string \<Rightarrow> string \<Rightarrow> shell_out \<Rightarrow> bool" where
  "csv_out sep null eol p \<longleftrightarrow> cMode p = MODE_Csv \<and> mode p = MODE_Csv \<and> 0 \<le> cnt p \<and> colSeparator p = sep \<and>
     nullValue p = null \<and> rowSeparator p = eol"

definition csv_names :: "string \<Rightarrow> string \<Rightarrow> string \<Rightarrow> string list \<Rightarrow> shell_out \<Rightarrow> string" where
  "csv_names sep null eol names p = (if showHeader p \<and> cnt p = 0 then csv_line sep null eol names else [])"

lemma csv_head_line:
  "csv_head (length names) (map Some names) p = Inr (csv_line (colSeparator p) (nullValue p) (rowSeparator p) names)"
proof -
  have "each_column (length names) (\<lambda>i. c_bind (elem_at (map Some names) i) (\<lambda>c.
      Inr (output_csv (colSeparator p) (nullValue p) (Some (or_else c [])) (i + 1 < length names)))) =
    Inr (concat (map (\<lambda>i. output_csv (colSeparator p) (nullValue p) (Some (names ! i)) (i + 1 < length names)) [0..<length names]))"
    by (rule each_column_Inr) (simp add: elem_at_def or_else_def)
  then show ?thesis by (simp add: csv_head_def csv_line_concat)
qed

lemma csv_row:
  assumes "csv_out sep null eol p" and "r \<noteq> []" and "showHeader p \<longrightarrow> length names = length r \<and> cols = map Some names"
  shows "\<exists>p'. shell_callback (p\<lparr>pStmt := b\<rparr>) (length r) (Some (map Some r)) cols ts = Inr p' \<and>
    csv_out sep null eol p' \<and> 0 < cnt p' \<and> showHeader p' = showHeader p \<and>
    sent_out p' = sent_out p @ csv_names sep null eol names p @ csv_line sep null eol r"
proof -
  let ?p = "p\<lparr>pStmt := b, cnt := cnt p + 1\<rparr>"
  let ?q = "print_out ?p (csv_names sep null eol names p)"
  have s: "colSeparator p = sep" "nullValue p = null" "rowSeparator p = eol" using assms(1) by (simp_all add: csv_out_def)
  have "head_row (csv_head (length r) cols) (p\<lparr>pStmt := b\<rparr>) = Inr ?q"
    using assms(3) csv_head_line [of names ?p] s by (auto simp: head_row_def csv_names_def print_out_def)
  moreover have "csv_data (length r) (Some (map Some r)) ?q = Inr (csv_line sep null eol r)"
    using csv_data_line [of r ?q] s by (simp add: print_out_def)
  ultimately show ?thesis using assms(1,2)
    by (auto simp: csv_out_def shell_callback_def mode_defs show_csv_def print_out_def)
qed

lemma csv_rows:
  assumes "csv_out sep null eol p" and "at_row eng r st" and "delivers eng rs d st d' st'"
    and "\<forall>q \<in> set (r # rs). length q = n" and "0 < n" and "length rs < fuel"
    and "showHeader p \<longrightarrow> length names = n \<and> cols = map Some names"
  shows "\<exists>p'. exec_rows fuel eng n cols p d st = Inr (SQLITE_DONE, p', d', st') \<and> csv_out sep null eol p' \<and>
    sent_out p' = sent_out p @ csv_names sep null eol names p @ concat (map (csv_line sep null eol) (r # rs))"
  using assms
proof (induction rs arbitrary: p r d st fuel)
  case Nil
  then obtain k where k: "fuel = Suc k" by (cases fuel) auto
  have n: "n = length r" "r \<noteq> []" using Nil.prems(4,5) by auto
  obtain p1 where p1: "shell_callback (p\<lparr>pStmt := Some (column_blob eng st)\<rparr>) (length r) (Some (map Some r)) cols
      (Some (map (\<lambda>i. SQLITE_TEXT) [0..<length r])) = Inr p1" "csv_out sep null eol p1"
    "sent_out p1 = sent_out p @ csv_names sep null eol names p @ csv_line sep null eol r"
    using csv_row [OF Nil.prems(1) n(2) Nil.prems(7) [unfolded n(1)]] by blast
  have "SQLITE_DONE \<noteq> SQLITE_ROW" by (simp add: SQLITE_DONE_def SQLITE_ROW_def)
  with k n fetch_row_text [OF Nil.prems(2)] p1 Nil.prems(3) show ?case by simp
next
  case (Cons r' rs)
  then obtain k where k: "fuel = Suc k" "length rs < k" by (cases fuel) auto
  have n: "n = length r" "r \<noteq> []" using Cons.prems(4,5) by auto
  obtain p1 where p1: "shell_callback (p\<lparr>pStmt := Some (column_blob eng st)\<rparr>) (length r) (Some (map Some r)) cols
      (Some (map (\<lambda>i. SQLITE_TEXT) [0..<length r])) = Inr p1" "csv_out sep null eol p1" "0 < cnt p1" "showHeader p1 = showHeader p"
    "sent_out p1 = sent_out p @ csv_names sep null eol names p @ csv_line sep null eol r"
    using csv_row [OF Cons.prems(1) n(2) Cons.prems(7) [unfolded n(1)]] by blast
  obtain d1 st1 where s: "step eng d st = (SQLITE_ROW, d1, st1)" "at_row eng r' st1" "delivers eng rs d1 st1 d' st'"
    using Cons.prems(3) by auto
  have r': "\<forall>q \<in> set (r' # rs). length q = n" using Cons.prems(4) by simp
  have head: "showHeader p1 \<longrightarrow> length names = n \<and> cols = map Some names" using p1(4) Cons.prems(7) by simp
  obtain p2 where "exec_rows k eng n cols p1 d1 st1 = Inr (SQLITE_DONE, p2, d', st')" "csv_out sep null eol p2"
    "sent_out p2 = sent_out p1 @ csv_names sep null eol names p1 @ concat (map (csv_line sep null eol) (r' # rs))"
    using Cons.IH [OF p1(2) s(2,3) r' Cons.prems(5) k(2) head] by blast
  with k(1) n fetch_row_text [OF Cons.prems(2)] p1 s(1) show ?case by (simp add: csv_names_def)
qed

text \<open>A shell that only prints the result.\<close>

definition prints_only :: "'db shell_state \<Rightarrow> bool" where
  "prints_only p \<longleftrightarrow> \<not> echoOn p \<and> \<not> autoEQP p \<and> \<not> autoExplain p \<and> \<not> statsOn p \<and> \<not> scanstatsOn p"

text \<open>The columns of the rows to come have these names.\<close>

definition columns_named :: "('db, 'st) sqlite_api \<Rightarrow> 'db \<Rightarrow> 'st \<Rightarrow> string list \<Rightarrow> bool" where
  "columns_named eng d st names \<longleftrightarrow> (case step eng d st of (_, _, st1) \<Rightarrow>
     map (column_name eng st1) [0..<column_count eng st1] = map Some names)"

text \<open>What a result is printed as.\<close>

definition csv_text :: "string \<Rightarrow> string \<Rightarrow> string \<Rightarrow> bool \<Rightarrow> string list \<Rightarrow> string list list \<Rightarrow> string" where
  "csv_text sep null eol header names rows =
     (if rows = [] then [] else (if header then csv_line sep null eol names else []) @ concat (map (csv_line sep null eol) rows))"

lemma show_result_csv:
  assumes "csv_out sep null eol (so p)" and "delivers eng rows (conn p) st d' st'"
    and "\<forall>q \<in> set rows. length q = n" and "0 < n" and "length rows < fuel"
    and "showHeader (so p) \<longrightarrow> columns_named eng (conn p) st names" and "cnt (so p) = 0"
  shows "\<exists>o1. show_result fuel eng st p = Inr (SQLITE_DONE, st', p\<lparr>conn := d', so := o1\<rparr>) \<and>
    sent_out o1 = sent_out (so p) @ csv_text sep null eol (showHeader (so p)) names rows"
proof (cases rows)
  case Nil
  have "SQLITE_DONE \<noteq> SQLITE_ROW" by (simp add: SQLITE_DONE_def SQLITE_ROW_def)
  with Nil assms(2) show ?thesis by (intro exI [of _ "so p"]) (simp add: show_result_def csv_text_def)
next
  case (Cons r rs)
  then obtain d1 st1 where s: "step eng (conn p) st = (SQLITE_ROW, d1, st1)" "at_row eng r st1" "delivers eng rs d1 st1 d' st'"
    using assms(2) by auto
  have c: "column_count eng st1 = n" using s(2) assms(3) Cons by (simp add: at_row_def)
  have rs: "\<forall>q \<in> set (r # rs). length q = n" "length rs < fuel" using assms(3,5) Cons by auto
  have head: "showHeader (so p) \<longrightarrow> length names = n \<and> map (column_name eng st1) [0..<n] = map Some names"
  proof
    assume "showHeader (so p)"
    then have eq: "map (column_name eng st1) [0..<n] = map Some names" using assms(6) s(1) c by (simp add: columns_named_def)
    from arg_cong [OF this, of length] have "length names = n" by simp
    with eq show "length names = n \<and> map (column_name eng st1) [0..<n] = map Some names" by simp
  qed
  obtain o1 where "exec_rows fuel eng n (map (column_name eng st1) [0..<n]) (so p) d1 st1 = Inr (SQLITE_DONE, o1, d', st')"
    "sent_out o1 = sent_out (so p) @ csv_names sep null eol names (so p) @ concat (map (csv_line sep null eol) (r # rs))"
    using csv_rows [OF assms(1) s(2,3) rs(1) assms(4) rs(2) head] by blast
  with s(1) c Cons assms(7) show ?thesis by (intro exI [of _ o1]) (simp add: show_result_def csv_text_def csv_names_def)
qed

lemma shell_exec_csv:
  assumes "z \<noteq> []" and "prepare eng (conn p) z = (SQLITE_OK, d, Some st, left)" and "dropWhile is_space left = []"
    and "delivers eng rows d st d' st'" and "fst (finalize eng d' (Some st')) = SQLITE_OK"
    and "prints_only p" and "csv_out sep null eol ((so p)\<lparr>cMode := MODE_Csv, cnt := 0\<rparr>)"
    and "\<forall>q \<in> set rows. length q = n" and "0 < n" and "length rows + 1 < fuel"
    and "showHeader (so p) \<longrightarrow> columns_named eng d st names"
  shows "\<exists>p'. shell_exec fuel eng f g z p = Inr (SQLITE_OK, None, p') \<and>
    sent_out (so p') = sent_out (so p) @ csv_text sep null eol (showHeader (so p)) names rows"
proof -
  obtain k where k: "fuel = Suc (Suc k)" "length rows < Suc k" using assms(10) by (cases fuel; cases "fuel - 1") auto
  let ?p = "choose_mode eng st (start_stmt eng z st (p\<lparr>conn := d\<rparr>))"
  have m: "csv_out sep null eol (so ?p)" "conn ?p = d" "sent_out (so ?p) = sent_out (so p)" "prints_only ?p" "cnt (so ?p) = 0"
    "showHeader (so ?p) = showHeader (so p)"
    using assms(6,7) by (simp_all add: choose_mode_def start_stmt_def csv_out_def prints_only_def Let_def)
  have del: "delivers eng rows (conn ?p) st d' st'" using assms(4) m(2) by simp
  have head: "showHeader (so ?p) \<longrightarrow> columns_named eng (conn ?p) st names" using assms(11) m(2,6) by simp
  obtain o1 where o1: "show_result (Suc k) eng st ?p = Inr (SQLITE_DONE, st', ?p\<lparr>conn := d', so := o1\<rparr>)"
    "sent_out o1 = sent_out (so p) @ csv_text sep null eol (showHeader (so p)) names rows"
    using show_result_csv [OF m(1) del assms(8,9) k(2) head m(5)] m(3,6) by auto
  have eqp: "\<not> autoEQP (start_stmt eng z st (p\<lparr>conn := d\<rparr>))" using assms(6) by (simp add: start_stmt_def prints_only_def Let_def)
  have noex: "cMode (so ?p) \<noteq> MODE_Explain" using m(1) by (simp add: csv_out_def mode_defs)
  obtain d'' where fin: "finalize eng d' (Some st') = (SQLITE_OK, d'')" using assms(5) by (cases "finalize eng d' (Some st')") auto
  have nm: "SQLITE_DONE \<noteq> SQLITE_NOMEM" by (simp add: SQLITE_DONE_def SQLITE_NOMEM_def)
  have "\<exists>p'. exec_stmt (Suc k) eng f g z st (p\<lparr>conn := d\<rparr>) = Inr (SQLITE_OK, p') \<and> sent_out (so p') = sent_out o1"
    using eqp noex o1(1) fin nm m(4)
    by (simp add: exec_stmt_def Let_def explain_data_delete_def prints_only_def)
  then obtain p' where "exec_stmt (Suc k) eng f g z st (p\<lparr>conn := d\<rparr>) = Inr (SQLITE_OK, p')" "sent_out (so p') = sent_out o1"
    by blast
  with k(1) assms(1-3) o1(2) show ?thesis by simp
qed

section \<open>The property\<close>

text \<open>C9: A query result survives the way through a CSV file. For every statement whose rows the library delivers as
  texts, \<open>shell_exec\<close> in CSV mode prints them without a fault and returns success, and \<open>.import\<close> on what was
  printed inserts exactly these rows, in this order, and reports nothing. This holds for every one-character
  separator that is no quote and no line end, for rows ended by a newline or by a carriage return and a
  newline, and for all values without NUL, with separators, quotes and line ends in them.\<close>

theorem query_export_import:
  assumes query: "z \<noteq> []" "prepare eng (conn p) z = (SQLITE_OK, d, Some st, left)" "dropWhile is_space left = []"
      "delivers eng rows d st d' st'" "fst (finalize eng d' (Some st')) = SQLITE_OK" "length rows + 1 < fuel"
    and shell: "prints_only p" "mode (so p) = MODE_Csv" "\<not> showHeader (so p)" "sent_out (so p) = []"
      "colSeparator (so p) = [s]" "csv_eol (rowSeparator (so p))"
    and table: "0 < nCol" "\<forall>r \<in> set rows. length r = nCol \<and> (\<forall>v \<in> set r. c_text v)"
    and reader: "csv_agree s ctx"
  shows "\<exists>p' q. shell_exec fuel eng f g z p = Inr (SQLITE_OK, None, p') \<and>
    import_rows fuel (csv_read_one_field False) False nCol (\<lambda>db r. (ins db r, None)) db
      (ctx\<lparr>stream_in := sent_out (so p')\<rparr>) = Inr (foldl ins db (map (map Some) rows), q) \<and>
    complaints q = complaints ctx"
proof -
  let ?text = "concat (map (csv_line [s] (nullValue (so p)) (rowSeparator (so p))) rows)"
  have "csv_out [s] (nullValue (so p)) (rowSeparator (so p)) ((so p)\<lparr>cMode := MODE_Csv, cnt := 0\<rparr>)"
    using shell by (simp add: csv_out_def)
  from shell_exec_csv [OF query(1-5) shell(1) this _ table(1) query(6), of "[]" f g] table(2) shell(3,4) obtain p' where
    p': "shell_exec fuel eng f g z p = Inr (SQLITE_OK, None, p')" "sent_out (so p') = ?text"
    by (auto simp: csv_text_def split: if_splits)
  have "csv_agree s (ctx\<lparr>stream_in := ?text\<rparr>)" using reader by (simp add: csv_agree_def csv_seps_def)
  from import_csv_rows [OF this shell(6) table, of "nullValue (so p)" fuel ins db] query(6) p' show ?thesis by fastforce
qed

text \<open>A library whose statements deliver the rows of a fixed table; a statement is the number of rows delivered.\<close>

definition table_engine :: "string list list \<Rightarrow> (unit, nat) sqlite_api" where
  "table_engine rows = \<lparr>prepare = (\<lambda>d z. (0, d, Some 0, [])),
     step = (\<lambda>d k. if k < length rows then (100, d, Suc k) else (101, d, k)), reset = (\<lambda>k. 0), finalize = (\<lambda>d k. (0, d)),
     column_count = (\<lambda>k. length (rows ! (k - 1))), column_name = (\<lambda>k i. Some ''c''),
     column_text = (\<lambda>k i. Some (rows ! (k - 1) ! i)), column_type = (\<lambda>k i. 3), column_int = (\<lambda>k i. 0),
     column_blob = (\<lambda>k i. []), stmt_sql = (\<lambda>k. None), errmsg = (\<lambda>d. []), changes = (\<lambda>d. 0), total_changes = (\<lambda>d. 0),
     complete = (\<lambda>z. True), strlike = (\<lambda>a b. False), strnieq = (\<lambda>a b n. False)\<rparr>"

definition csv_shell :: "unit shell_state" where
  "csv_shell = \<lparr>conn = (), so = sample_out, echoOn = False, autoExplain = False, autoEQP = False, statsOn = False,
     scanstatsOn = False, countChanges = False, backslashOn = False, outCount = 0\<rparr>"

lemma query_export_import_witness:
  "\<exists>p' q. shell_exec 9 (table_engine [[''a,b'', []], [''x'' @ [CHR 0x22], ''y'' @ [CHR 0x0A]]]) (\<lambda>d o1. o1) (\<lambda>d o1. o1)
      ''SELECT'' csv_shell = Inr (SQLITE_OK, None, p') \<and>
    import_rows 9 (csv_read_one_field False) False 2 (\<lambda>db r. (db @ [r], None)) [] ((sample_ctx [])\<lparr>stream_in := sent_out (so p')\<rparr>) =
      Inr ([[Some ''a,b'', Some []], [Some (''x'' @ [CHR 0x22]), Some (''y'' @ [CHR 0x0A])]], q) \<and>
    complaints q = complaints (sample_ctx [])"
  using query_export_import [of "''SELECT''" "table_engine [[''a,b'', []], [''x'' @ [CHR 0x22], ''y'' @ [CHR 0x0A]]]"
      csv_shell "()" 0 "[]" "[[''a,b'', []], [''x'' @ [CHR 0x22], ''y'' @ [CHR 0x0A]]]" "()" 2 9 "CHR '',''" 2
      "sample_ctx []" "\<lambda>d o1. o1" "\<lambda>d o1. o1" "\<lambda>db r. db @ [r]" "[]"]
  by (simp add: table_engine_def csv_shell_def sample_out_def sample_ctx_def csv_eol_def c_text_def csv_agree_def
      csv_seps_def cQuote_def c_EOF_def char_code_def prints_only_def at_row_def SQLITE_OK_def SQLITE_ROW_def
      SQLITE_DONE_def SQLITE_TEXT_def All_less_Suc)

end
