(* ===== verification/ShellTextProps.thy ===== *)
theory ShellTextProps
  imports ShellText
begin

text \<open>
  The quoting loops against their one-character-at-a-time definitions, and the routines that read back what
  others write.
\<close>

section \<open>Quoting in pieces\<close>

definition double_quotes :: "char \<Rightarrow> string \<Rightarrow> string" where
  "double_quotes q z = concat (map (\<lambda>c. if c = q then [q, q] else [c]) z)"

lemma double_quotes_append [simp]: "double_quotes q (xs @ ys) = double_quotes q xs @ double_quotes q ys"
  by (simp add: double_quotes_def)

lemma double_quotes_plain: "q \<notin> set z \<Longrightarrow> double_quotes q z = z"
  by (induction z) (auto simp: double_quotes_def)

text \<open>The pieces up to the first character with a property.\<close>

lemma first_piece:
  assumes "\<not> length (takeWhile P z) < length z \<Longrightarrow> Q z"
    and "\<And>pre c post. z = pre @ c # post \<Longrightarrow> \<forall>x \<in> set pre. P x \<Longrightarrow> \<not> P c \<Longrightarrow> Q z"
  shows "Q z"
proof (cases "dropWhile P z")
  case Nil
  then have "takeWhile P z = z" by (metis append_Nil2 takeWhile_dropWhile_id)
  with assms(1) show ?thesis by simp
next
  case (Cons c post)
  then have "z = takeWhile P z @ c # post" by (metis takeWhile_dropWhile_id)
  moreover have "\<not> P c" using Cons by (metis dropWhile_eq_Cons_conv)
  ultimately show ?thesis using assms(2) set_takeWhileD by metis
qed

lemma quoted_loop_doubles: "quoted_loop z = double_quotes (CHR 0x27) z"
proof (induction z rule: quoted_loop.induct)
  case (1 z)
  show ?case
  proof (rule first_piece [where P = "\<lambda>c. c \<noteq> CHR 0x27" and z = z])
    assume all: "\<not> length (takeWhile (\<lambda>c. c \<noteq> CHR 0x27) z) < length z"
    then have "takeWhile (\<lambda>c. c \<noteq> CHR 0x27) z = z" by (metis append_eq_conv_conj le_neq_implies_less length_takeWhile_le takeWhile_dropWhile_id take_all order_refl)
    then have "CHR 0x27 \<notin> set z" by (metis set_takeWhileD)
    then have "double_quotes (CHR 0x27) z = z" by (rule double_quotes_plain)
    with all show "quoted_loop z = double_quotes (CHR 0x27) z"
      by (subst quoted_loop.simps) (auto simp: Let_def)
  next
    fix pre c post
    assume z: "z = pre @ c # post" "\<forall>x \<in> set pre. x \<noteq> CHR 0x27" "\<not> c \<noteq> CHR 0x27"
    then have t: "takeWhile (\<lambda>c. c \<noteq> CHR 0x27) z = pre" by (simp add: takeWhile_append2)
    have pre: "double_quotes (CHR 0x27) pre = pre" using z(2) by (intro double_quotes_plain) auto
    show "quoted_loop z = double_quotes (CHR 0x27) z"
    proof (cases "pre = []")
      case True
      with z t "1.IH"(1) [OF _ refl] show ?thesis
        by (subst quoted_loop.simps) (simp add: quote2_def double_quotes_def)
    next
      case False
      with z t pre "1.IH"(2) [OF _ refl] show ?thesis
        by (subst quoted_loop.simps) (simp add: quote2_def double_quotes_def)
    qed
  qed
qed

definition html_escape :: "char \<Rightarrow> string" where
  "html_escape c = (if html_special c then html_entity c else [c])"

lemma html_plain: "\<forall>c \<in> set z. \<not> html_special c \<Longrightarrow> concat (map html_escape z) = z"
  by (induction z) (auto simp: html_escape_def)

lemma html_loop_escapes: "html_loop z = concat (map html_escape z)"
proof (induction z rule: html_loop.induct)
  case (1 z)
  show ?case
  proof (rule first_piece [where P = "\<lambda>c. \<not> html_special c" and z = z])
    assume all: "\<not> length (takeWhile (\<lambda>c. \<not> html_special c) z) < length z"
    then have "takeWhile (\<lambda>c. \<not> html_special c) z = z" by (metis append_eq_conv_conj le_neq_implies_less length_takeWhile_le takeWhile_dropWhile_id take_all order_refl)
    then have "\<forall>c \<in> set z. \<not> html_special c" by (metis set_takeWhileD)
    with all show "html_loop z = concat (map html_escape z)"
      by (subst html_loop.simps) (simp add: html_plain Let_def)
  next
    fix pre c post
    assume z: "z = pre @ c # post" "\<forall>x \<in> set pre. \<not> html_special x" "\<not> \<not> html_special c"
    then have t: "takeWhile (\<lambda>c. \<not> html_special c) z = pre" by (simp add: takeWhile_append2)
    with z "1.IH" [OF refl] html_plain [OF z(2)] show "html_loop z = concat (map html_escape z)"
      by (subst html_loop.simps) (simp add: html_escape_def [of c])
  qed
qed

section \<open>C strings\<close>

lemma resolve_plain: "c \<noteq> CHR 0x5C \<Longrightarrow> resolve_loop (c # s) = c # resolve_loop s"
  by (cases s) auto

lemma resolve_prefix: "\<forall>c \<in> set pre. c \<noteq> CHR 0x5C \<Longrightarrow> resolve_loop (pre @ s) = pre @ resolve_loop s"
  by (induction pre) (auto simp: resolve_plain)

lemma char_code_less: "char_code c < 256"
  by (simp add: char_code_def)

lemma octal_digit: "d < 8 \<Longrightarrow> octal_char (digit d) \<and> char_code (digit d) = 48 + d"
  by (simp add: octal_char_def char_code_digit)

lemma resolve_octal: "n < 256 \<Longrightarrow> resolve_loop (CHR 0x5C # octal3 n @ s) = char_of n # resolve_loop s"
proof -
  assume n: "n < 256"
  then have d: "n div 64 < 8" "n div 8 mod 8 < 8" "n mod 8 < 8" by auto
  have v: "((n div 64 * 8 + n div 8 mod 8) mod 256 * 8 + n mod 8) mod 256 = n"
  proof -
    have "n div 64 = n div 8 div 8" by (simp add: div_mult2_eq [symmetric])
    then have "n div 64 * 8 + n div 8 mod 8 = n div 8" by (metis div_mult_mod_eq)
    with n show ?thesis by (simp add: less_mult_imp_div_less)
  qed
  have "octal_value (char_code (digit (n div 64)) - 48) 2 (digit (n div 8 mod 8) # digit (n mod 8) # s) = (n, s)"
    using d v by (simp add: octal_digit add_octal_def numeral_2_eq_2)
  then show ?thesis using octal_digit [OF d(1)] by (simp add: octal3_def)
qed

lemma resolve_escape: "resolve_loop (c_escape c @ s) = c # resolve_loop s"
proof (cases "c \<in> {CHR 0x5C, CHR 0x22, CHR 0x09, CHR 0x0A, CHR 0x0D}")
  case True
  then show ?thesis by (auto simp: c_escape_def simple_escape_def octal_char_def char_code_def)
next
  case False
  show ?thesis
  proof (cases "isprint c")
    case True
    with False show ?thesis by (simp add: c_escape_def resolve_plain)
  next
    case np: False
    with False resolve_octal [OF char_code_less, of c s] show ?thesis by (simp add: c_escape_def char_code_def)
  qed
qed

lemma resolve_all: "resolve_loop (concat (map c_escape z)) = z"
  by (induction z) (simp_all add: resolve_escape)

lemma resolve_backslashes_loop:
  "c_text z \<Longrightarrow> resolve_backslashes z = takeWhile (\<lambda>c. c \<noteq> CHR 0x00) (resolve_loop z)"
proof -
  assume z: "c_text z"
  let ?P = "\<lambda>c. c \<noteq> CHR 0x5C"
  have pre: "\<forall>c \<in> set (takeWhile ?P z). c \<noteq> CHR 0x5C" by (auto dest: set_takeWhileD)
  have nul: "\<forall>c \<in> set (takeWhile ?P z). c \<noteq> CHR 0x00" using z by (auto simp: c_text_def dest: set_takeWhileD)
  have "resolve_loop z = takeWhile ?P z @ resolve_loop (dropWhile ?P z)"
    using resolve_prefix [OF pre, of "dropWhile ?P z"] by simp
  with nul show ?thesis by (simp add: resolve_backslashes_def takeWhile_append2)
qed

lemma c_text_escape: "c_text (concat (map c_escape z))"
proof -
  have d: "CHR 0x00 \<noteq> digit d" if "d < 10" for d
  proof
    assume "CHR 0x00 = digit d"
    then show False using char_code_digit [OF that] by (simp add: char_code_def flip: \<open>CHR 0x00 = digit d\<close>)
  qed
  have "CHR 0x00 \<notin> set (octal3 (char_code c))" for c
  proof -
    have "char_code c div 64 < 10" "char_code c div 8 mod 8 < 10" "char_code c mod 8 < 10"
      using char_code_less [of c] by auto
    from this [THEN d] show ?thesis by (simp add: octal3_def)
  qed
  moreover have "isprint c \<Longrightarrow> c \<noteq> CHR 0x00" for c by (auto simp: isprint_def char_code_def)
  ultimately have "CHR 0x00 \<notin> set (c_escape c)" for c by (auto simp: c_escape_def)
  then show ?thesis by (auto simp: c_text_def)
qed

section \<open>Integers\<close>

lemma decimal_value_append:
  "\<forall>c \<in> set xs. is_digit c \<Longrightarrow>
     decimal_value v (xs @ ys) = c_bind (decimal_value v xs) (\<lambda>(v, _). decimal_value v ys)"
  by (induction xs arbitrary: v) (auto simp: c_bind_assoc)

lemma decimal_value_dec_nat:
  "decimal_value 0 (dec_nat n) = (if n + 48 < 2 ^ 63 then Inr (int n, []) else Inl Int_overflow)"
proof (induction n rule: dec_nat.induct)
  case (1 n)
  show ?case
  proof (cases "n < 10")
    case True
    then show ?thesis by (simp add: dec_nat_small ll_def char_code_digit)
  next
    case False
    let ?m = "n div 10" and ?d = "n mod 10"
    have n: "n = 10 * ?m + ?d" "?d < 10" by simp_all
    have last: "decimal_value v [digit ?d] =
        (if 0 \<le> v \<and> v * 10 + 48 + int ?d < 2 ^ 63 then Inr (v * 10 + int ?d, []) else Inl Int_overflow)" if "0 \<le> v" for v
      using that by (simp add: ll_def char_code_digit)
    have parts: "decimal_value 0 (dec_nat n) = c_bind (decimal_value 0 (dec_nat ?m)) (\<lambda>(v, _). decimal_value v [digit ?d])"
      using False decimal_value_append [OF dec_nat_digits, of 0 ?m] by (simp add: dec_nat_step)
    have "n = ?m * 10 + ?d" by simp
    then have sum: "int ?m * 10 + int ?d = int n" by (metis of_nat_add of_nat_mult of_nat_numeral)
    moreover have "int ?m * 10 + 48 + int ?d < 2 ^ 63 \<longleftrightarrow> n + 48 < 2 ^ 63"
    proof -
      have "int ?m * 10 + 48 + int ?d = int (n + 48)" using sum by simp
      then show ?thesis by (simp only: of_nat_less_numeral_power_cancel_iff)
    qed
    ultimately have end': "decimal_value (int ?m) [digit ?d] = (if n + 48 < 2 ^ 63 then Inr (int n, []) else Inl Int_overflow)"
      using last [of "int ?m"] by simp
    show "decimal_value 0 (dec_nat n) = (if n + 48 < 2 ^ 63 then Inr (int n, []) else Inl Int_overflow)"
    proof (cases "?m + 48 < 2 ^ 63")
      case True
      with parts "1.IH" [OF False] end' show ?thesis by simp
    next
      case False': False
      then have "\<not> n + 48 < 2 ^ 63" using n by linarith
      with parts "1.IH" [OF False] False' show ?thesis by simp
    qed
  qed
qed

text \<open>A comparison that tells no suffix from itself in another case, and every suffix from nothing.\<close>

definition compares :: "(string \<Rightarrow> string \<Rightarrow> bool) \<Rightarrow> bool" where
  "compares same \<longleftrightarrow> (\<forall>s t. same s t \<longrightarrow> length s = length t) \<and> (\<forall>s. same s s)"

lemma no_suffix: "compares same \<Longrightarrow> find (\<lambda>(s, _). same s []) suffixes = None"
proof -
  assume "compares same"
  then have "\<not> same s []" if "s \<noteq> []" for s using that by (metis compares_def length_0_conv)
  then show ?thesis by (simp add: suffixes_def)
qed

lemma dec_nat_not_hex: "take 2 (dec_nat n) \<noteq> ''0x''"
proof
  assume "take 2 (dec_nat n) = ''0x''"
  then have "CHR ''x'' \<in> set (dec_nat n)" by (metis in_set_takeD list.set_intros(1) list.set_intros(2))
  with dec_nat_digits [of n] show False by (auto simp: is_digit_def char_code_def)
qed

lemma skip_sign_dec_nat: "skip_sign (dec_nat n) = dec_nat n"
proof -
  obtain c cs where c: "dec_nat n = c # cs" by (cases "dec_nat n") auto
  with dec_nat_digits [of n] have "is_digit c" by simp
  with c digit_not_sign show ?thesis by (auto simp: skip_sign_def)
qed

lemma integerValue_dec_nat:
  assumes "compares same"
  shows "integerValue same (dec_nat n) = (if n + 48 < 2 ^ 63 then Inr (int n) else Inl Int_overflow)"
    and "integerValue same (CHR ''-'' # dec_nat n) = (if n + 48 < 2 ^ 63 then Inr (- int n) else Inl Int_overflow)"
proof -
  have "\<not> (case dec_nat n of c # _ \<Rightarrow> c = CHR ''-'' | [] \<Rightarrow> False)"
    using dec_nat_digits [of n] digit_not_sign by (auto split: list.split)
  then show "integerValue same (dec_nat n) = (if n + 48 < 2 ^ 63 then Inr (int n) else Inl Int_overflow)"
    using no_suffix [OF assms]
    by (simp add: integerValue_def Let_def skip_sign_dec_nat dec_nat_not_hex decimal_value_dec_nat)
  show "integerValue same (CHR ''-'' # dec_nat n) = (if n + 48 < 2 ^ 63 then Inr (- int n) else Inl Int_overflow)"
    using no_suffix [OF assms]
    by (simp add: integerValue_def Let_def skip_sign_def dec_nat_not_hex decimal_value_dec_nat ll_def)
qed

section \<open>The properties\<close>

text \<open>C34: What the shell writes in C quotes, \<open>resolve_backslashes\<close> turns back into the text, for every string of bytes;
  the SQL and HTML routines, which copy whole pieces between special characters, write what replacing each
  character on its own would write.\<close>

theorem quoting_is_exact:
  "resolve_backslashes (concat (map c_escape z)) = takeWhile (\<lambda>c. c \<noteq> CHR 0x00) z \<and>
   output_quoted_string z = [CHR 0x27] @ double_quotes (CHR 0x27) z @ [CHR 0x27] \<and>
   output_html_string (Some z) = concat (map html_escape z)"
proof (intro conjI)
  show "resolve_backslashes (concat (map c_escape z)) = takeWhile (\<lambda>c. c \<noteq> CHR 0x00) z"
    by (simp only: resolve_backslashes_loop [OF c_text_escape] resolve_all)
  show "output_quoted_string z = [CHR 0x27] @ double_quotes (CHR 0x27) z @ [CHR 0x27]"
  proof (cases "CHR 0x27 \<in> set z")
    case True
    then have "filter (\<lambda>c. c = CHR 0x27) z \<noteq> []" by (auto simp: filter_empty_conv)
    then show ?thesis by (simp add: output_quoted_string_def quoted_loop_doubles)
  next
    case False
    then have "filter (\<lambda>c. c = CHR 0x27) z = []" by (auto simp: filter_empty_conv)
    with False show ?thesis by (simp add: output_quoted_string_def double_quotes_plain)
  qed
  show "output_html_string (Some z) = concat (map html_escape z)"
    by (simp add: output_html_string_def html_loop_escapes)
qed

text \<open>\<open>integerValue\<close> reads every printed integer whose magnitude is more than 48 below \<open>2 ^ 63\<close>. The 48 largest
  magnitudes that fit, and all beyond, make the sum with the character code overflow.\<close>

theorem integerValue_printed:
  assumes "compares same"
  shows "integerValue same (dec_int k) = (if \<bar>k\<bar> + 48 < 2 ^ 63 then Inr k else Inl Int_overflow)"
proof (cases "k < 0")
  case True
  then show ?thesis using integerValue_dec_nat(2) [OF assms, of "nat (- k)"] by (auto simp: dec_int_def)
next
  case False
  then show ?thesis using integerValue_dec_nat(1) [OF assms, of "nat k"] by (auto simp: dec_int_def)
qed

lemma integerValue_printed_witness: "integerValue (=) (dec_int 9223372036854775807) = Inl Int_overflow"
  using integerValue_printed [of "(=)" 9223372036854775807] by (simp add: compares_def)

end
