(* ===== verification/ShellOutputProps.thy ===== *)
theory ShellOutputProps
  imports ShellOutput ShellTextProps
begin

text \<open>
  The blocks \<open>set_table_name\<close> and \<open>appendText\<close> size before they fill them, and the columns of MODE_Explain.
\<close>

section \<open>Counting\<close>

lemma length_double_quotes:
  "length (double_quotes q z) = length z + length (filter (\<lambda>c. c = q) z)"
  by (induction z) (simp_all add: double_quotes_def)

lemma count_name_eq:
  "count_name z b n =
    (b \<or> (\<exists>c \<in> set z. \<not> name_char c), n + length (double_quotes (CHR 0x27) z))"
proof (induction z arbitrary: b n)
  case Nil
  then show ?case by (simp add: double_quotes_def)
next
  case (Cons c z)
  have "\<not> name_char (CHR 0x27)" by (simp add: name_char_def is_alpha_def is_digit_def char_code_def)
  then show ?case using Cons by (auto simp: double_quotes_def)
qed

text \<open>A name that needs no quotes.\<close>

definition plain_name :: "string \<Rightarrow> bool" where
  "plain_name z \<longleftrightarrow> (case z of [] \<Rightarrow> False | c # _ \<Rightarrow> is_alpha c \<or> c = CHR ''_'') \<and> (\<forall>c \<in> set z. name_char c)"

definition table_name :: "string \<Rightarrow> string" where
  "table_name z = (if plain_name z then z else [CHR 0x27] @ double_quotes (CHR 0x27) z @ [CHR 0x27])"

lemma plain_name_doubled: "plain_name z \<Longrightarrow> double_quotes (CHR 0x27) z = z"
proof (rule double_quotes_plain)
  assume "plain_name z"
  moreover have "\<not> name_char (CHR 0x27)" by (simp add: name_char_def is_alpha_def is_digit_def char_code_def)
  ultimately show "CHR 0x27 \<notin> set z" by (auto simp: plain_name_def)
qed

lemma set_table_name_eq: "set_table_name p (Some z) = Inr (p\<lparr>zDestTable := Some (table_name z)\<rparr>)"
proof -
  let ?b = "(case z of [] \<Rightarrow> True | c # _ \<Rightarrow> \<not> is_alpha c \<and> c \<noteq> CHR ''_'')"
  have q: "(?b \<or> (\<exists>c \<in> set z. \<not> name_char c)) \<longleftrightarrow> \<not> plain_name z"
    by (cases z) (auto simp: plain_name_def)
  have d: "concat (map (\<lambda>c. if c = CHR 0x27 then [c, CHR 0x27] else [c]) z) = double_quotes (CHR 0x27) z"
    by (simp add: double_quotes_def cong: if_cong)
  show ?thesis
    by (cases "plain_name z")
      (simp_all add: set_table_name_def count_name_eq q d Let_def store_string_def table_name_def plain_name_doubled)
qed

text \<open>The text \<open>appendText\<close> leaves.\<close>

definition appended_text :: "string option \<Rightarrow> string \<Rightarrow> char \<Rightarrow> string" where
  "appended_text zIn z q =
     or_else zIn [] @ (if q = CHR 0x00 then z else [q] @ double_quotes q z @ [q])"

lemma appendText_eq:
  assumes "length (or_else zIn []) + 2 * length z + 3 < 2 ^ 30"
  shows "appendText zIn z q = Inr (appended_text zIn z q)"
proof -
  have s: "strlen30 z = length z" "(case zIn of None \<Rightarrow> 0 | Some z \<Rightarrow> strlen30 z) = length (or_else zIn [])"
    using assms by (auto simp: strlen30_small or_else_def split: option.splits)
  have f: "length (filter (\<lambda>c. c = q) z) \<le> length z" by simp
  have d: "concat (map (\<lambda>c. if c = q then [c, q] else [c]) z) = double_quotes q z"
    by (simp add: double_quotes_def cong: if_cong)
  show ?thesis
  proof (cases "q = CHR 0x00")
    case True
    with assms show ?thesis
      by (simp add: appendText_def s Let_def int_add_def in_int_def store_string_def appended_text_def)
  next
    case False
    have "length z + length (or_else zIn []) + length (filter (\<lambda>c. c = q) z) < 2147483645"
      using assms le_trans [OF f, of "2 * length z"] by simp
    with False show ?thesis
      by (simp add: appendText_def s Let_def int_add_def in_int_def store_string_def appended_text_def d length_double_quotes)
  qed
qed

section \<open>The properties\<close>

text \<open>C33: The two routines that size a block before they fill it never store outside it, and fill it exactly: the
  table name is stored as it is or in quotes with its quotes doubled, and \<open>appendText\<close> gives the old text followed by the
  new one, quoted with any quote character. The texts of \<open>appendText\<close> together stay below \<open>2 ^ 30\<close> bytes.\<close>

theorem blocks_fit:
  assumes "length (or_else zIn []) + 2 * length z + 3 < 2 ^ 30"
  shows "set_table_name p (Some z) = Inr (p\<lparr>zDestTable := Some (table_name z)\<rparr>) \<and>
    appendText zIn z q = Inr (appended_text zIn z q)"
  using set_table_name_eq appendText_eq [OF assms] by simp

definition blank_out :: shell_out where
  "blank_out = \<lparr>cnt = 0, sent_out = [], mode = MODE_Insert, cMode = MODE_Insert, showHeader = False, zDestTable = None,
     colSeparator = ''|'', rowSeparator = SEP_Row, colWidth = replicate 100 0, actualWidth = replicate 100 0,
     nullValue = [], pStmt = None, aiIndent = None, nIndent = 0, iIndent = 0\<rparr>"

lemma blocks_fit_witness:
  "set_table_name blank_out (Some [CHR ''a'', CHR 0x27]) =
      Inr (blank_out\<lparr>zDestTable := Some (table_name [CHR ''a'', CHR 0x27])\<rparr>) \<and>
    appendText (Some ''x'') [CHR ''a'', CHR 0x27] (CHR 0x27) = Inr [CHR ''x'', CHR 0x27, CHR ''a'', CHR 0x27, CHR 0x27, CHR 0x27]"
  using blocks_fit [of "Some ''x''" "[CHR ''a'', CHR 0x27]" blank_out "CHR 0x27"]
  by (simp add: or_else_def appended_text_def double_quotes_def)

text \<open>MODE_Explain takes its widths from a table of eight: a row of nine columns reads past it.\<close>

lemma explain_head:
  assumes "i < 8" and "i < length azCol" and "azCol ! i \<noteq> None" and "i < length (colWidth p)"
  shows "\<exists>q. column_heads aExplainWidths True r n azArg azCol (i # is) p = column_heads aExplainWidths True r n azArg azCol is q \<and>
    colWidth q = colWidth p"
proof -
  have "i \<in> {0, 1, 2, 3, 4, 5, 6, 7}" using assms(1) by auto
  then have w: "0 < aExplainWidths ! i" "i < length aExplainWidths" by (auto simp: aExplainWidths_def)
  obtain c where "azCol ! i = Some c" using assms(3) by auto
  have width: "column_width aExplainWidths azArg azCol p i = Inr (aExplainWidths ! i)"
    using w assms(4) by (simp add: column_width_def elem_at_def)
  let ?q = "print_out (if i < length (actualWidth p) then p\<lparr>actualWidth := (actualWidth p)[i := aExplainWidths ! i]\<rparr> else p)
    (pad_right (nat (aExplainWidths ! i)) (take (nat (aExplainWidths ! i)) c) @ column_gap n i r)"
  have "column_heads aExplainWidths True r n azArg azCol (i # is) p =
      column_heads aExplainWidths True r n azArg azCol is ?q"
    using w assms(2) \<open>azCol ! i = Some c\<close> width by (simp add: elem_at_def Let_def str_arg_def fixed_def)
  moreover have "colWidth ?q = colWidth p" by (simp add: print_out_def)
  ultimately show ?thesis by blast
qed

lemma explain_heads:
  assumes "length azCol = 9" and "\<forall>c \<in> set azCol. c \<noteq> None"
  shows "k \<le> 8 \<Longrightarrow> length (colWidth p) = 100 \<Longrightarrow>
    column_heads aExplainWidths True r n azArg azCol [8 - k..<9] p = Inl Out_of_bounds"
proof (induction k arbitrary: p)
  case 0
  then show ?case by (simp add: upt_rec column_width_def elem_at_def aExplainWidths_def)
next
  case (Suc k)
  have u: "[8 - Suc k..<9] = (8 - Suc k) # [8 - k..<9]" 
    using Suc.prems(1) Suc_diff_le [of k 7] by (subst upt_conv_Cons) simp_all
  have "8 - Suc k < 8" using Suc.prems(1) by simp
  then obtain q where "column_heads aExplainWidths True r n azArg azCol ((8 - Suc k) # [8 - k..<9]) p =
      column_heads aExplainWidths True r n azArg azCol [8 - k..<9] q" "colWidth q = colWidth p"
    using explain_head [of "8 - Suc k" azCol p r n azArg "[8 - k..<9]"] assms Suc.prems(2) by auto
  with Suc show ?case by (simp only: u)
qed

lemma explain_reads_past:
  assumes "cMode p = MODE_Explain" and "cnt p = 0" and "length (colWidth p) = 100" and "length azCol = 9"
    and "\<forall>c \<in> set azCol. c \<noteq> None"
  shows "callback p 9 azArg azCol = Inl Out_of_bounds"
  using explain_heads [OF assms(4,5), of 8 "p\<lparr>cnt := 1\<rparr>" SEP_Row 9 azArg] assms(1-3)
  by (simp add: callback_def shell_callback_def show_columns_def mode_defs)

end
