(* ===== verification/ShellSettings.thy ===== *)
theory ShellSettings
  imports ShellExec ShellOutputProps
begin

text \<open>
  The dot commands of \<^verbatim>\<open>database/SQLite/shell.c\<close> that set and show how results look: one definition per branch of
  \<open>do_meta_command\<close>, given its arguments with the name of the command first. Each gives the result code, what is
  printed to standard error and the state. \<open>same\<close> is \<open>sqlite3_stricmp(...) == 0\<close>. The mode in which results are
  shown is followed through every sequence of these commands.
\<close>

section \<open>The state\<close>

record 'db shell_settings = "'db shell_state" +
  normalMode :: int
  outName :: string
  bailOnError :: bool
  firstPrompt :: string
  nextPrompt :: string

type_synonym 'db setting_result = "(int \<times> string \<times> 'db shell_settings) c_result"

definition SEP_Column :: string where "SEP_Column = ''|''"
definition SEP_Tab :: string where "SEP_Tab = [CHR 0x09]"
definition SEP_Space :: string where "SEP_Space = '' ''"
definition SEP_Comma :: string where "SEP_Comma = '',''"
definition SEP_CrLf :: string where "SEP_CrLf = [CHR 0x0D, CHR 0x0A]"
definition SEP_Unit :: string where "SEP_Unit = [CHR 0x1F]"
definition SEP_Record :: string where "SEP_Record = [CHR 0x1E]"

text \<open>\<open>main_init\<close>, for the connection \<open>d\<close>.\<close>

definition main_init :: "'db \<Rightarrow> 'db shell_settings" where
  "main_init d = \<lparr>conn = d,
     so = \<lparr>cnt = 0, sent_out = [], mode = MODE_List, cMode = MODE_List, showHeader = False, zDestTable = None,
       colSeparator = SEP_Column, rowSeparator = SEP_Row, colWidth = replicate 100 0, actualWidth = replicate 100 0,
       nullValue = [], pStmt = None, aiIndent = None, nIndent = 0, iIndent = 0\<rparr>,
     echoOn = False, autoExplain = True, autoEQP = False, statsOn = False, scanstatsOn = False, countChanges = False,
     backslashOn = False, outCount = 0, normalMode = MODE_List, outName = [], bailOnError = False,
     firstPrompt = ''sqlite> '', nextPrompt = ''   ...> ''\<rparr>"

section \<open>Switches\<close>

text \<open>The branches that set a flag from their one argument.\<close>

definition set_switch :: "(string \<Rightarrow> string \<Rightarrow> bool) \<Rightarrow> string \<Rightarrow> (bool \<Rightarrow> 'db shell_settings \<Rightarrow> 'db shell_settings) \<Rightarrow> string list
    \<Rightarrow> 'db shell_settings \<Rightarrow> 'db setting_result" where
  "set_switch same usage upd azArg p =
     (if length azArg = 2 then c_bind (booleanValue same (azArg ! 1)) (\<lambda>(v, err). Inr (0, err, upd (v \<noteq> 0) p))
      else Inr (1, ''Usage: '' @ usage @ ''\<newline>'', p))"

definition bail_command where
  "bail_command same = set_switch same ''.bail on|off'' (\<lambda>b p. p\<lparr>bailOnError := b\<rparr>)"

definition changes_command where
  "changes_command same = set_switch same ''.changes on|off'' (\<lambda>b p. p\<lparr>countChanges := b\<rparr>)"

definition echo_command where
  "echo_command same = set_switch same ''.echo on|off'' (\<lambda>b p. p\<lparr>echoOn := b\<rparr>)"

definition eqp_command where
  "eqp_command same = set_switch same ''.eqp on|off'' (\<lambda>b p. p\<lparr>autoEQP := b\<rparr>)"

definition headers_command where
  "headers_command same = set_switch same ''.headers on|off'' (\<lambda>b p. p\<lparr>so := (so p)\<lparr>showHeader := b\<rparr>\<rparr>)"

text \<open>The build has no scan status, so a warning follows.\<close>

definition scanstats_command :: "(string \<Rightarrow> string \<Rightarrow> bool) \<Rightarrow> string list \<Rightarrow> 'db shell_settings \<Rightarrow> 'db setting_result" where
  "scanstats_command same azArg p =
     c_bind (set_switch same ''.scanstats on|off'' (\<lambda>b p. p\<lparr>scanstatsOn := b\<rparr>) azArg p) (\<lambda>(rc, err, p).
     Inr (rc, if rc = 0 then err @ ''Warning: .scanstats not available in this build.\<newline>'' else err, p))"

definition stats_command :: "(string \<Rightarrow> string \<Rightarrow> bool) \<Rightarrow> ('db \<Rightarrow> shell_out \<Rightarrow> shell_out) \<Rightarrow> string list \<Rightarrow> 'db shell_settings
    \<Rightarrow> 'db setting_result" where
  "stats_command same stats azArg p =
     (if length azArg = 1 then Inr (0, [], p\<lparr>so := stats (conn p) (so p)\<rparr>)
      else set_switch same ''.stats ?on|off?'' (\<lambda>b p. p\<lparr>statsOn := b\<rparr>) azArg p)"

section \<open>Modes\<close>

definition explain_value :: "(string \<Rightarrow> string \<Rightarrow> bool) \<Rightarrow> string list \<Rightarrow> (int \<times> string) c_result" where
  "explain_value same azArg =
     (if length azArg \<ge> 2 then if azArg ! 1 = ''auto'' then Inr (99, []) else booleanValue same (azArg ! 1)
      else Inr (1, []))"

definition explain_command :: "(string \<Rightarrow> string \<Rightarrow> bool) \<Rightarrow> string list \<Rightarrow> 'db shell_settings \<Rightarrow> 'db setting_result" where
  "explain_command same azArg p =
     c_bind (explain_value same azArg) (\<lambda>(val, err).
     let back_to_normal = (\<lambda>p. if mode (so p) = MODE_Explain then p\<lparr>so := (so p)\<lparr>mode := normalMode p\<rparr>\<rparr> else p) in
     Inr (0, err,
       if val = 1 \<and> mode (so p) \<noteq> MODE_Explain then
         p\<lparr>normalMode := mode (so p), so := (so p)\<lparr>mode := MODE_Explain\<rparr>, autoExplain := False\<rparr>
       else if val = 0 then (back_to_normal p)\<lparr>autoExplain := False\<rparr>
       else if val = 99 then (back_to_normal p)\<lparr>autoExplain := True\<rparr>
       else p))"

definition mode_command :: "string list \<Rightarrow> 'db shell_settings \<Rightarrow> 'db setting_result" where
  "mode_command azArg p =
     (let zMode = (if length azArg \<ge> 2 then azArg ! 1 else []); n2 = length zMode; o1 = so p;
          starts = (\<lambda>c2 z. take 1 zMode = [c2] \<and> take n2 z = zMode) in
      c_bind
        (if starts (CHR ''l'') ''lines'' \<and> n2 > 2 then Inr (0, [], o1\<lparr>mode := MODE_Line\<rparr>)
         else if starts (CHR ''c'') ''columns'' then Inr (0, [], o1\<lparr>mode := MODE_Column\<rparr>)
         else if starts (CHR ''l'') ''list'' \<and> n2 > 2 then Inr (0, [], o1\<lparr>mode := MODE_List\<rparr>)
         else if starts (CHR ''h'') ''html'' then Inr (0, [], o1\<lparr>mode := MODE_Html\<rparr>)
         else if starts (CHR ''t'') ''tcl'' then Inr (0, [], o1\<lparr>mode := MODE_Tcl, colSeparator := SEP_Space\<rparr>)
         else if starts (CHR ''c'') ''csv'' then
           Inr (0, [], o1\<lparr>mode := MODE_Csv, colSeparator := SEP_Comma, rowSeparator := SEP_CrLf\<rparr>)
         else if starts (CHR ''t'') ''tabs'' then Inr (0, [], o1\<lparr>mode := MODE_List, colSeparator := SEP_Tab\<rparr>)
         else if starts (CHR ''i'') ''insert'' then
           c_bind (set_table_name (o1\<lparr>mode := MODE_Insert\<rparr>) (Some (if length azArg \<ge> 3 then azArg ! 2 else ''table''))) (\<lambda>o1.
           Inr (0, [], o1))
         else if starts (CHR ''a'') ''ascii'' then
           Inr (0, [], o1\<lparr>mode := MODE_Ascii, colSeparator := SEP_Unit, rowSeparator := SEP_Record\<rparr>)
         else Inr (1, ''Error: mode should be one of: ascii column csv html insert line list tabs tcl\<newline>'', o1))
        (\<lambda>(rc, err, o1). Inr (rc, err, p\<lparr>so := o1\<lparr>cMode := mode o1\<rparr>\<rparr>)))"

section \<open>Texts and widths\<close>

text \<open>The arrays have 20 bytes.\<close>

definition nullvalue_command :: "string list \<Rightarrow> 'db shell_settings \<Rightarrow> 'db setting_result" where
  "nullvalue_command azArg p =
     (if length azArg = 2 then Inr (0, [], p\<lparr>so := (so p)\<lparr>nullValue := take 19 (azArg ! 1)\<rparr>\<rparr>)
      else Inr (1, ''Usage: .nullvalue STRING\<newline>'', p))"

definition separator_command :: "string list \<Rightarrow> 'db shell_settings \<Rightarrow> 'db setting_result" where
  "separator_command azArg p =
     (let nArg = length azArg; bad = nArg < 2 \<or> nArg > 3;
          o1 = (if nArg \<ge> 2 then (so p)\<lparr>colSeparator := take 19 (azArg ! 1)\<rparr> else so p);
          o1 = (if nArg \<ge> 3 then o1\<lparr>rowSeparator := take 19 (azArg ! 2)\<rparr> else o1) in
      Inr (if bad then 1 else 0, if bad then ''Usage: .separator COL ?ROW?\<newline>'' else [], p\<lparr>so := o1\<rparr>))"

definition prompt_command :: "string list \<Rightarrow> 'db shell_settings \<Rightarrow> 'db setting_result" where
  "prompt_command azArg p =
     (let p = (if length azArg \<ge> 2 then p\<lparr>firstPrompt := take 19 (azArg ! 1)\<rparr> else p) in
      Inr (0, [], if length azArg \<ge> 3 then p\<lparr>nextPrompt := take 19 (azArg ! 2)\<rparr> else p))"

text \<open>\<open>for(j=1; j<nArg && j<ArraySize(p->colWidth); j++)\<close>, over the arguments left; the values are cut to \<open>int\<close>.\<close>

fun width_loop :: "(string \<Rightarrow> string \<Rightarrow> bool) \<Rightarrow> nat \<Rightarrow> string list \<Rightarrow> int list \<Rightarrow> int list c_result" where
  "width_loop same j [] w = Inr w"
| "width_loop same j (a # as) w =
     (if j < length w then
        c_bind (integerValue same a) (\<lambda>v. width_loop same (j + 1) as (w[j - 1 := to_int (v mod 2 ^ 32)]))
      else Inr w)"

definition width_command :: "(string \<Rightarrow> string \<Rightarrow> bool) \<Rightarrow> string list \<Rightarrow> 'db shell_settings \<Rightarrow> 'db setting_result" where
  "width_command same azArg p =
     c_bind (width_loop same 1 (tl azArg) (colWidth (so p))) (\<lambda>w. Inr (0, [], p\<lparr>so := (so p)\<lparr>colWidth := w\<rparr>\<rparr>))"

definition print_command :: "string list \<Rightarrow> 'db shell_settings \<Rightarrow> 'db setting_result" where
  "print_command azArg p =
     Inr (0, [], p\<lparr>so := print_out (so p) (concat (map (\<lambda>i. (if i > 1 then '' '' else []) @ azArg ! i) [1..<length azArg]) @ ''\<newline>'')\<rparr>)"

section \<open>Showing the settings\<close>

definition modeDescr :: "string list" where
  "modeDescr = [''line'', ''column'', ''list'', ''semi'', ''html'', ''insert'', ''tcl'', ''csv'', ''explain'', ''ascii'']"

text \<open>\<open>"%12.12s: "\<close>\<close>

definition show_label :: "string \<Rightarrow> string" where
  "show_label z = replicate (12 - length z) (CHR '' '') @ take 12 z @ '': ''"

definition on_off :: "bool \<Rightarrow> string" where
  "on_off b = (if b then ''on'' else ''off'')"

definition show_command :: "string list \<Rightarrow> 'db shell_settings \<Rightarrow> 'db setting_result" where
  "show_command azArg p =
     (if length azArg \<noteq> 1 then Inr (1, ''Usage: .show\<newline>'', p)
      else
        let o1 = so p; line = (\<lambda>l z. show_label l @ z @ ''\<newline>'') in
        c_bind (if mode o1 < 0 then Inl Out_of_bounds else elem_at modeDescr (nat (mode o1))) (\<lambda>descr.
        Inr (0, [], p\<lparr>so := print_out o1
          (line ''echo'' (on_off (echoOn p)) @ line ''eqp'' (on_off (autoEQP p)) @
           line ''explain'' (if mode o1 = MODE_Explain then ''on'' else if autoExplain p then ''auto'' else ''off'') @
           line ''headers'' (on_off (showHeader o1)) @ line ''mode'' descr @
           line ''nullvalue'' (output_c_string (nullValue o1)) @
           line ''output'' (if strlen30 (outName p) \<noteq> 0 then outName p else ''stdout'') @
           line ''colseparator'' (output_c_string (colSeparator o1)) @
           line ''rowseparator'' (output_c_string (rowSeparator o1)) @ line ''stats'' (on_off (statsOn p)) @
           line ''width'' (concat (map (\<lambda>w. dec_int w @ '' '') (takeWhile (\<lambda>w. w \<noteq> 0) (colWidth o1)))))\<rparr>)))"

section \<open>Sequences of commands\<close>

datatype setting = Bail | Changes | Echo | Eqp | Explain | Headers | Mode | Nullvalue | Print | Prompt | Scanstats
  | Separator | Show | Stats | Width

fun setting_command :: "(string \<Rightarrow> string \<Rightarrow> bool) \<Rightarrow> ('db \<Rightarrow> shell_out \<Rightarrow> shell_out) \<Rightarrow> setting \<Rightarrow> string list
    \<Rightarrow> 'db shell_settings \<Rightarrow> 'db setting_result" where
  "setting_command same stats Bail = bail_command same"
| "setting_command same stats Changes = changes_command same"
| "setting_command same stats Echo = echo_command same"
| "setting_command same stats Eqp = eqp_command same"
| "setting_command same stats Explain = explain_command same"
| "setting_command same stats Headers = headers_command same"
| "setting_command same stats Mode = mode_command"
| "setting_command same stats Nullvalue = nullvalue_command"
| "setting_command same stats Print = print_command"
| "setting_command same stats Prompt = prompt_command"
| "setting_command same stats Scanstats = scanstats_command same"
| "setting_command same stats Separator = separator_command"
| "setting_command same stats Show = show_command"
| "setting_command same stats Stats = stats_command same stats"
| "setting_command same stats Width = width_command same"

fun run_settings :: "(string \<Rightarrow> string \<Rightarrow> bool) \<Rightarrow> ('db \<Rightarrow> shell_out \<Rightarrow> shell_out) \<Rightarrow> (setting \<times> string list) list
    \<Rightarrow> 'db shell_settings \<Rightarrow> 'db shell_settings c_result" where
  "run_settings same stats [] p = Inr p"
| "run_settings same stats ((s, azArg) # cs) p =
     c_bind (setting_command same stats s azArg p) (\<lambda>(_, _, p). run_settings same stats cs p)"

end
