(* ===== verification/ShellImportCmd.thy ===== *)
theory ShellImportCmd
  imports ShellQuery ShellSettings
begin

text \<open>
  The whole of \<open>.import FILE TABLE\<close>, from the checks of the separators to the end of the transaction, around the
  readers and the row loop of \<open>ShellImport\<close>. What it asks of the library and of the system beyond
  \<open>sqlite_api\<close> is in a record of its own: \<open>insert_row\<close> binds, steps and resets the prepared INSERT, \<open>no_such_table\<close> is the
  pattern \<open>sqlite3_strglob\<close> looks for. Interrupts are left out.
\<close>

section \<open>Environment\<close>

record ('db, 'st) import_env =
  exec :: "'db \<Rightarrow> string \<Rightarrow> int \<times> 'db"
  autocommit :: "'db \<Rightarrow> bool"
  no_such_table :: "string \<Rightarrow> bool"
  insert_row :: "'st option \<Rightarrow> 'db \<Rightarrow> string option list \<Rightarrow> 'db \<times> int"
  fopen_rb :: "string \<Rightarrow> string option"
  popen_r :: "string \<Rightarrow> string option"
  opened :: "'db \<Rightarrow> 'db"

text \<open>A \<open>char\<close> as a number; it is signed.\<close>

definition schar :: "char \<Rightarrow> int" where
  "schar c = (if char_code c < 128 then int (char_code c) else int (char_code c) - 256)"

text \<open>The format \<open>%w\<close>\<close>

definition in_quotes :: "string \<Rightarrow> string" where
  "in_quotes z = concat (map (\<lambda>c. if c = CHR 0x22 then [c, c] else [c]) z)"

section \<open>The separators\<close>

text \<open>The message, or the output with the row separator as it is used from then on.\<close>

definition import_separators :: "shell_out \<Rightarrow> string + shell_out" where
  "import_separators p =
     (if colSeparator p = [] then Inl ''Error: non-null column separator required for import\<newline>''
      else if length (colSeparator p) > 1 then Inl ''Error: multi-character column separators not allowed for import\<newline>''
      else if rowSeparator p = [] then Inl ''Error: non-null row separator required for import\<newline>''
      else
        let p = (if length (rowSeparator p) = 2 \<and> mode p = MODE_Csv \<and> rowSeparator p = SEP_CrLf
                 then p\<lparr>rowSeparator := SEP_Row\<rparr> else p) in
        if length (rowSeparator p) > 1 then Inl ''Error: multi-character row separators not allowed for import\<newline>''
        else Inr p)"

text \<open>The name the messages use and what the file or the pipe holds.\<close>

definition import_file :: "('db, 'st) import_env \<Rightarrow> string \<Rightarrow> (string \<times> string) option" where
  "import_file env f =
     (if take 1 f = ''|'' then map_option (\<lambda>s. (''<pipe>'', s)) (popen_r env (drop 1 f))
      else map_option (\<lambda>s. (f, s)) (fopen_rb env f))"

section \<open>The table\<close>

text \<open>\<open>while( xRead(&sCtx) )\<close>: the columns of the first line. Running out of fuel stands for going on.\<close>

fun header_loop :: "nat \<Rightarrow> reader \<Rightarrow> string \<Rightarrow> char \<Rightarrow> import_ctx \<Rightarrow> (string \<times> char \<times> import_ctx) c_result" where
  "header_loop 0 xRead zCreate cSep p = Inl No_return"
| "header_loop (Suc fuel) xRead zCreate cSep p =
     c_bind (xRead p) (\<lambda>(z, p).
       case z of
         None \<Rightarrow> Inr (zCreate, cSep, p)
       | Some z \<Rightarrow>
           let zCreate = zCreate @ [cSep] @ ''\<newline>  '' @ [CHR 0x22] @ in_quotes (up_to_nul z) @ [CHR 0x22] @ '' TEXT'' in
           if cTerm p \<noteq> cColSep p then Inr (zCreate, CHR '','', p) else header_loop fuel xRead zCreate (CHR '','') p)"

text \<open>
  The statement \<open>SELECT * FROM\<close> is prepared, and a table made for it if there is none. A result is a message, or
  the connection, the statement and the reader.
\<close>

definition import_table :: "nat \<Rightarrow> ('db, 'st) sqlite_api \<Rightarrow> ('db, 'st) import_env \<Rightarrow> reader \<Rightarrow> string \<Rightarrow> 'db \<Rightarrow> import_ctx
    \<Rightarrow> ('db \<times> import_ctx \<times> (string + 'st option)) c_result" where
  "import_table fuel eng env xRead zTable d p =
     (let zSql = ''SELECT * FROM '' @ zTable;
          check = (\<lambda>(rc, d, st, _) p.
            if rc \<noteq> 0 then
              let d = (if st = None then d else snd (finalize eng d st)) in
              Inr (d, p, Inl (''Error: '' @ errmsg eng d @ ''\<newline>''))
            else Inr (d, p, Inr st));
          (rc, d, st, r) = prepare eng d zSql in
      c_bind (import_append_char p 0) (\<lambda>p.
      if rc \<noteq> 0 \<and> no_such_table env (errmsg eng d) then
        c_bind (header_loop fuel xRead (''CREATE TABLE '' @ zTable) (CHR ''('') p) (\<lambda>(zCreate, cSep, p).
        if cSep = CHR ''('' then Inr (d, p, Inl (zFile p @ '': empty file\<newline>''))
        else
          let (rc, d) = exec env d (zCreate @ ''\<newline>)'') in
          if rc \<noteq> 0 then Inr (d, p, Inl (''CREATE TABLE '' @ zTable @ ''(...) failed: '' @ errmsg eng d @ ''\<newline>''))
          else check (prepare eng d zSql) p)
      else check (rc, d, st, r) p))"

text \<open>The text of the INSERT, in the block it is allotted.\<close>

definition insert_text :: "string \<Rightarrow> nat \<Rightarrow> string c_result" where
  "insert_text zTable nCol =
     (let nByte = strlen30 (''SELECT * FROM '' @ zTable);
          z = take (nByte + 19) (''INSERT INTO '' @ [CHR 0x22] @ in_quotes zTable @ [CHR 0x22] @ '' VALUES(?'') in
      store_string (nByte * 2 + 20 + nCol * 2) (z @ concat (replicate (nCol - 1) '',?'') @ '')''))"

section \<open>The command\<close>

text \<open>The rows; the result code is that of the last INSERT.\<close>

definition import_insert :: "('db, 'st) sqlite_api \<Rightarrow> ('db, 'st) import_env \<Rightarrow> 'st option \<Rightarrow> 'db \<times> int \<Rightarrow> string option list
    \<Rightarrow> ('db \<times> int) \<times> string option" where
  "import_insert eng env st = (\<lambda>(d, rc) bound.
     let (d, rc) = insert_row env st d bound in ((d, rc), if rc \<noteq> SQLITE_OK then Some (errmsg eng d) else None))"

definition import_data :: "nat \<Rightarrow> ('db, 'st) sqlite_api \<Rightarrow> ('db, 'st) import_env \<Rightarrow> reader \<Rightarrow> bool \<Rightarrow> string \<Rightarrow> nat \<Rightarrow> 'db \<Rightarrow> import_ctx
    \<Rightarrow> (int \<times> string \<times> 'db) c_result" where
  "import_data fuel eng env xRead ascii zTable nCol d p =
     c_bind (insert_text zTable nCol) (\<lambda>zSql.
     let (rc, d, st, _) = prepare eng d zSql in
     if rc \<noteq> 0 then
       Inr (1, concat (complaints p) @ ''Error: '' @ errmsg eng d @ ''\<newline>'', if st = None then d else snd (finalize eng d st))
     else
       let needCommit = autocommit env d; d = (if needCommit then snd (exec env d ''BEGIN'') else d) in
       c_bind (import_rows fuel xRead ascii nCol (import_insert eng env st) (d, rc) p) (\<lambda>((d, rc), p).
       let d = snd (finalize eng d st) in
       Inr (rc, concat (complaints p), if needCommit then snd (exec env d ''COMMIT'') else d)))"

text \<open>From the open file on; what is wrong with the table ends the command with the result 1.\<close>

definition import_into :: "nat \<Rightarrow> ('db, 'st) sqlite_api \<Rightarrow> ('db, 'st) import_env \<Rightarrow> reader \<Rightarrow> bool \<Rightarrow> string \<Rightarrow> 'db \<Rightarrow> import_ctx
    \<Rightarrow> (int \<times> string \<times> 'db) c_result" where
  "import_into fuel eng env xRead ascii zTable d p =
     c_bind (import_table fuel eng env xRead zTable d p) (\<lambda>(d, p, r).
     case r of
       Inl e \<Rightarrow> Inr (1, concat (complaints p) @ e, d)
     | Inr st \<Rightarrow>
         let nCol = (case st of None \<Rightarrow> 0 | Some st \<Rightarrow> column_count eng st); d = snd (finalize eng d st) in
         if nCol = 0 then Inr (0, concat (complaints p), d)
         else import_data fuel eng env xRead ascii zTable nCol d p)"

definition import_command :: "nat \<Rightarrow> ('db, 'st) sqlite_api \<Rightarrow> ('db, 'st) import_env \<Rightarrow> string list \<Rightarrow> 'db shell_state
    \<Rightarrow> (int \<times> string \<times> 'db shell_state) c_result" where
  "import_command fuel eng env azArg p =
     (if length azArg \<noteq> 3 then Inr (0, ''Usage: .import FILE TABLE\<newline>'', p)
      else
        let p = p\<lparr>conn := opened env (conn p)\<rparr> in
        case import_separators (so p) of
          Inl e \<Rightarrow> Inr (1, e, p)
        | Inr o1 \<Rightarrow>
            let p = p\<lparr>so := o1\<rparr>; ascii = (mode o1 = MODE_Ascii);
                xRead = (if ascii then ascii_read_one_field False else csv_read_one_field False) in
            (case import_file env (azArg ! 1) of
               None \<Rightarrow> Inr (1, ''Error: cannot open '' @ [CHR 0x22] @ azArg ! 1 @ [CHR 0x22] @ ''\<newline>'', p)
             | Some (name, content) \<Rightarrow>
                 c_bind (import_into fuel eng env xRead ascii (azArg ! 2) (conn p)
                   \<lparr>zFile = name, stream_in = content, field = [], nAlloc = 0, nLine = 1, cTerm = 0,
                     cColSep = schar (colSeparator o1 ! 0), cRowSep = schar (rowSeparator o1 ! 0), complaints = []\<rparr>)
                   (\<lambda>(rc, err, d). Inr (rc, err, p\<lparr>conn := d\<rparr>))))"

end
