(* ===== verification/ShellImportCmdProps.thy ===== *)
theory ShellImportCmdProps
  imports ShellImportCmd
begin

text \<open>
  The command \<open>.import\<close> returns on every file and never stores outside its block; and a query result that was exported
  with its column names comes back as a new table.
\<close>

section \<open>It returns\<close>

context field_reader
begin

lemma header_loop_total:
  "cColSep p \<noteq> c_EOF \<Longrightarrow> length (stream_in p) < fuel \<Longrightarrow>
     \<exists>z c q. header_loop fuel xRead zCreate cSep p = Inr (z, c, q) \<and> cColSep q = cColSep p \<and>
       length (stream_in q) \<le> length (stream_in p)"
proof (induction fuel arbitrary: zCreate cSep p)
  case 0
  then show ?case by simp
next
  case (Suc fuel)
  from reads [of p] obtain z q where q: "xRead p = Inr (z, q)" "cColSep q = cColSep p" "length (stream_in q) \<le> length (stream_in p)"
    "cTerm q = c_EOF \<or> length (stream_in q) < length (stream_in p)" by (auto simp: reads_on_def)
  show ?case
  proof (cases "z = None \<or> cTerm q \<noteq> cColSep q")
    case True
    with q show ?thesis by (cases z) (auto simp: Let_def)
  next
    case False
    then have "cColSep q \<noteq> c_EOF" "length (stream_in q) < length (stream_in p)" using q Suc.prems(1) by auto
    moreover from this have "length (stream_in q) < fuel" using Suc.prems(2) by simp
    ultimately show ?thesis using Suc.IH [of q "zCreate @ [cSep] @ ''\<newline>  '' @ [CHR 0x22] @ in_quotes (up_to_nul (the z)) @ [CHR 0x22] @ '' TEXT''"
        "CHR '',''"] q False
      by (fastforce simp: Let_def)
  qed
qed

lemma import_table_total:
  assumes "cColSep p \<noteq> c_EOF" and "length (stream_in p) < fuel" and "field p = []" and "nAlloc p = 0"
  shows "\<exists>d' q r. import_table fuel eng env xRead zTable d p = Inr (d', q, r) \<and> cColSep q = cColSep p \<and>
    length (stream_in q) \<le> length (stream_in p)"
proof -
  have "import_append_char p (int (char_code (CHR 0x00))) = Inr (appended p (CHR 0x00))"
    using assms(3,4) by (intro append_char_ok) (simp add: room_left_def)
  then have a: "import_append_char p 0 = Inr (appended p (CHR 0x00))" by (simp add: char_code_def)
  obtain z c q where "header_loop fuel xRead (''CREATE TABLE '' @ zTable) (CHR ''('') (appended p (CHR 0x00)) = Inr (z, c, q)"
    "cColSep q = cColSep p" "length (stream_in q) \<le> length (stream_in p)"
    using header_loop_total [of "appended p (CHR 0x00)" fuel] assms(1,2) by fastforce
  with a show ?thesis by (auto simp: import_table_def Let_def split: prod.split)
qed

end

lemma insert_text_fits:
  assumes "length zTable < 2 ^ 29"
  shows "insert_text zTable nCol =
    Inr (take (length zTable + 33) (''INSERT INTO '' @ [CHR 0x22] @ in_quotes zTable @ [CHR 0x22] @ '' VALUES(?'') @
      concat (replicate (nCol - 1) '',?'') @ '')'')"
proof -
  have n: "strlen30 (''SELECT * FROM '' @ zTable) = length zTable + 14"
    using assms by (subst strlen30_small) simp_all
  let ?z = "take (length zTable + 33) (''INSERT INTO '' @ [CHR 0x22] @ in_quotes zTable @ [CHR 0x22] @ '' VALUES(?'')"
  have "length (concat (replicate k '',?'')) = 2 * k" for k by (induction k) simp_all
  then have len: "length (?z @ concat (replicate (nCol - 1) '',?'') @ '')'') \<le> length zTable + 33 + 2 * (nCol - 1) + 1" by simp
  have "length zTable + 14 + 19 = length zTable + 33" by simp
  then show ?thesis unfolding insert_text_def Let_def n store_string_def using len by (simp only:) simp
qed

lemma import_data_total:
  assumes "field_reader xRead" and "length zTable < 2 ^ 29" and "cColSep p \<noteq> c_EOF" and "length (stream_in p) < fuel" and "0 < nCol"
  shows "\<exists>r. import_data fuel eng env xRead ascii zTable nCol d p = Inr r"
proof -
  have "\<exists>x q. import_rows fuel xRead ascii nCol f y p = Inr (x, q)" for f and y :: "'a \<times> int"
    using field_reader.import_rows_total [OF assms(1,3,4,5), of ascii f y] by blast
  then have rows: "\<exists>a b q. import_rows fuel xRead ascii nCol f y p = Inr ((a, b), q)" for f and y :: "'a \<times> int" by fast
  obtain rc d1 st l where prep: "prepare eng d (take (length zTable + 33) (''INSERT INTO '' @ [CHR 0x22] @ in_quotes zTable @ [CHR 0x22] @
      '' VALUES(?'') @ concat (replicate (nCol - 1) '',?'') @ '')'') = (rc, d1, st, l)" by (metis prod_cases4)
  have bind: "\<exists>r. c_bind (import_rows fuel xRead ascii nCol f y p) (\<lambda>((d, rc), p). Inr (g d rc p)) = Inr r"
    for f and y :: "'a \<times> int" and g :: "'a \<Rightarrow> int \<Rightarrow> import_ctx \<Rightarrow> int \<times> string \<times> 'a"
    using rows [of f y] by fastforce
  note with_commit = bind [of "import_insert eng env st" "(snd (exec env d1 ''BEGIN''), 0)"
    "\<lambda>d rc p. (rc, concat (complaints p), snd (exec env (snd (finalize eng d st)) ''COMMIT''))"]
  note without = bind [of "import_insert eng env st" "(d1, 0)" "\<lambda>d rc p. (rc, concat (complaints p), snd (finalize eng d st))"]
  show ?thesis unfolding import_data_def insert_text_fits [OF assms(2)] c_bind_Inr prep
    by (cases "rc = 0"; cases "autocommit env d1") (use with_commit without in \<open>simp_all add: Let_def\<close>)
qed

lemma import_into_total:
  assumes "field_reader xRead" and "length zTable < 2 ^ 29" and "cColSep p \<noteq> c_EOF" and "length (stream_in p) < fuel"
    and "field p = []" and "nAlloc p = 0"
  shows "\<exists>r. import_into fuel eng env xRead ascii zTable d p = Inr r"
proof -
  obtain d' q r where tab: "import_table fuel eng env xRead zTable d p = Inr (d', q, r)"
    "cColSep q = cColSep p" "length (stream_in q) \<le> length (stream_in p)"
    using field_reader.import_table_total [OF assms(1,3-6), of eng env zTable d] by blast
  have data: "\<exists>r. import_data fuel eng env xRead ascii zTable nCol d q = Inr r" if "nCol \<noteq> 0" for nCol d
    using import_data_total [OF assms(1,2) _ _, of q fuel nCol] tab(2,3) assms(3,4) that by simp
  show ?thesis
  proof (cases r)
    case (Inl e)
    with tab(1) show ?thesis by (simp add: import_into_def)
  next
    case (Inr st)
    then show ?thesis using tab(1) data
      by (cases "(case st of None \<Rightarrow> 0 | Some st \<Rightarrow> column_count eng st) = 0") (simp_all add: import_into_def)
  qed
qed

section \<open>The names\<close>

fun header_text :: "char \<Rightarrow> string list \<Rightarrow> string" where
  "header_text c [] = []"
| "header_text c (n # ns) = [c] @ ''\<newline>  '' @ [CHR 0x22] @ in_quotes n @ [CHR 0x22] @ '' TEXT'' @ header_text (CHR '','') ns"

definition create_text :: "string \<Rightarrow> string list \<Rightarrow> string" where
  "create_text zTable names = ''CREATE TABLE '' @ zTable @ header_text (CHR ''('') names @ ''\<newline>)''"

lemma header_loop_names:
  assumes "csv_agree s p" and "csv_eol e" and "\<forall>z \<in> set zs. c_text z" and "zs \<noteq> []" and "length zs \<le> fuel"
    and "stream_in p = csv_line [s] null e zs @ rest"
  shows "\<exists>q. header_loop fuel (csv_read_one_field False) zCreate c p = Inr (zCreate @ header_text c zs, CHR '','', q) \<and>
    csv_agree s q \<and> stream_in q = rest \<and> complaints q = complaints p"
  using assms
proof (induction zs arbitrary: p zCreate c fuel)
  case Nil
  then show ?case by simp
next
  case (Cons z zs)
  obtain k where k: "fuel = Suc k" using Cons.prems(5) by (cases fuel) auto
  have z: "up_to_nul z = z" using Cons.prems(3) by (auto simp: up_to_nul_def c_text_def takeWhile_eq_all_conv)
  have sep: "csv_seps p" "cColSep p = int (char_code s)" using Cons.prems(1) by (simp_all add: csv_agree_def)
  show ?case
  proof (cases "zs = []")
    case True
    with csv_field_read [where null = null and z = z, OF Cons.prems(1) eol_ends [OF sep(1) Cons.prems(2)]] Cons.prems(6)
    obtain q where q: "csv_read_one_field False p = Inr (Some z, q)" "has_read (p\<lparr>field := []\<rparr>) q z rest 10" by auto
    have "cTerm q \<noteq> cColSep q" using q(2) sep by (auto simp: has_read_def csv_seps_def)
    with True z k q csv_agree_kept [OF Cons.prems(1) q(2)] show ?thesis by (auto simp: Let_def has_read_def)
  next
    case False
    let ?rest = "csv_line [s] null e zs @ rest"
    have "field_end p (s # ?rest) ?rest (int (char_code s))" using sep by (auto simp: field_end_def)
    from csv_field_read [where null = null and z = z, OF Cons.prems(1) this] Cons.prems(6) False
    obtain q where q: "csv_read_one_field False p = Inr (Some z, q)" "has_read (p\<lparr>field := []\<rparr>) q z ?rest (int (char_code s))"
      by (auto simp: output_csv_def)
    have agree: "csv_agree s q" by (rule csv_agree_kept [OF Cons.prems(1) q(2)]) simp_all
    have rest: "\<forall>a \<in> set zs. c_text a" "length zs \<le> k" "stream_in q = ?rest"
      using Cons.prems(3,5) k q(2) by (simp_all add: has_read_def)
    obtain r where r: "header_loop k (csv_read_one_field False)
        (zCreate @ [c] @ ''\<newline>  '' @ [CHR 0x22] @ in_quotes z @ [CHR 0x22] @ '' TEXT'') (CHR '','') q =
        Inr ((zCreate @ [c] @ ''\<newline>  '' @ [CHR 0x22] @ in_quotes z @ [CHR 0x22] @ '' TEXT'') @ header_text (CHR '','') zs, CHR '','', r)"
      "csv_agree s r" "stream_in r = rest" "complaints r = complaints q"
      using Cons.IH [OF agree Cons.prems(2) rest(1) False rest(2,3)] by blast
    have "cTerm q = cColSep q" "complaints q = complaints p" using q(2) sep by (simp_all add: has_read_def)
    with q(1) r z k show ?thesis by (auto simp: Let_def)
  qed
qed

section \<open>The properties\<close>


section \<open>From a query to a new table\<close>

lemma in_quotes_plain: "CHR 0x22 \<notin> set z \<Longrightarrow> in_quotes z = z"
  by (induction z) (auto simp: in_quotes_def)

definition insert_into :: "string \<Rightarrow> nat \<Rightarrow> string" where
  "insert_into zTable nCol =
     ''INSERT INTO '' @ [CHR 0x22] @ zTable @ [CHR 0x22] @ '' VALUES(?'' @ concat (replicate (nCol - 1) '',?'') @ '')''"

lemma insert_text_plain:
  assumes "length zTable < 2 ^ 29" and "CHR 0x22 \<notin> set zTable"
  shows "insert_text zTable nCol = Inr (insert_into zTable nCol)"
  using insert_text_fits [OF assms(1), of nCol] in_quotes_plain [OF assms(2)] by (simp add: insert_into_def)

text \<open>
  The database makes the table: there was none, the statements are compiled, a row is inserted by \<open>ins\<close>, and the
  transaction leads from \<open>d\<close> to \<open>d'\<close>.
\<close>

definition makes_table :: "('db, 'st) sqlite_api \<Rightarrow> ('db, 'st) import_env \<Rightarrow> string \<Rightarrow> string list
    \<Rightarrow> ('db \<Rightarrow> string option list \<Rightarrow> 'db) \<Rightarrow> 'db \<Rightarrow> string list list \<Rightarrow> 'db \<Rightarrow> bool" where
  "makes_table eng env zTable names ins d rows d' \<longleftrightarrow>
     (\<exists>rc d0 l0 d1 d2 st l2 d3 d4 sti l4.
        prepare eng d (''SELECT * FROM '' @ zTable) = (rc, d0, None, l0) \<and> rc \<noteq> 0 \<and> no_such_table env (errmsg eng d0) \<and>
        exec env d0 (create_text zTable names) = (0, d1) \<and>
        prepare eng d1 (''SELECT * FROM '' @ zTable) = (0, d2, Some st, l2) \<and> column_count eng st = length names \<and>
        snd (finalize eng d2 (Some st)) = d3 \<and>
        prepare eng d3 (insert_into zTable (length names)) = (0, d4, Some sti, l4) \<and> autocommit env d4 \<and>
        (\<forall>x r. insert_row env (Some sti) x r = (ins x r, SQLITE_OK)) \<and>
        d' = snd (exec env (snd (finalize eng (foldl ins (snd (exec env d4 ''BEGIN'')) (map (map Some) rows)) (Some sti))) ''COMMIT''))"

lemma import_new_table:
  assumes "csv_agree s p" and "csv_eol e" and "names \<noteq> []" and "\<forall>z \<in> set names. c_text z"
    and "\<forall>r \<in> set rows. length r = length names \<and> (\<forall>z \<in> set r. c_text z)"
    and "stream_in p = csv_line [s] null e names @ concat (map (csv_line [s] null e) rows)"
    and "field p = []" and "nAlloc p = 0" and "complaints p = []"
    and "length rows < fuel" and "length names \<le> fuel"
    and "length zTable < 2 ^ 29" and "CHR 0x22 \<notin> set zTable" and "makes_table eng env zTable names ins d rows d'"
  shows "import_into fuel eng env (csv_read_one_field False) False zTable d p = Inr (0, [], d')"
proof -
  obtain rc d0 l0 d1 d2 st l2 d3 d4 sti l4 where db:
    "prepare eng d (''SELECT * FROM '' @ zTable) = (rc, d0, None, l0)" "rc \<noteq> 0" "no_such_table env (errmsg eng d0)"
    "exec env d0 (create_text zTable names) = (0, d1)"
    "prepare eng d1 (''SELECT * FROM '' @ zTable) = (0, d2, Some st, l2)" "column_count eng st = length names"
    "snd (finalize eng d2 (Some st)) = d3"
    "prepare eng d3 (insert_into zTable (length names)) = (0, d4, Some sti, l4)" "autocommit env d4"
    "\<forall>x r. insert_row env (Some sti) x r = (ins x r, SQLITE_OK)"
    "d' = snd (exec env (snd (finalize eng (foldl ins (snd (exec env d4 ''BEGIN'')) (map (map Some) rows)) (Some sti))) ''COMMIT'')"
    using assms(14) unfolding makes_table_def by blast
  let ?q = "appended p (CHR 0x00)"
  have "import_append_char p (int (char_code (CHR 0x00))) = Inr ?q"
    using assms(7,8) by (intro append_char_ok) (simp add: room_left_def)
  then have app: "import_append_char p 0 = Inr ?q" by (simp add: char_code_def)
  have agree: "csv_agree s ?q" using assms(1) by (simp add: csv_agree_def csv_seps_def)
  have stream: "stream_in ?q = csv_line [s] null e names @ concat (map (csv_line [s] null e) rows)" using assms(6) by simp
  obtain q where q: "header_loop fuel (csv_read_one_field False) (''CREATE TABLE '' @ zTable) (CHR ''('') ?q =
      Inr ((''CREATE TABLE '' @ zTable) @ header_text (CHR ''('') names, CHR '','', q)"
    "csv_agree s q" "stream_in q = concat (map (csv_line [s] null e) rows)" "complaints q = []"
    using header_loop_names [OF agree assms(2,4,3,11) stream, of "''CREATE TABLE '' @ zTable" "CHR ''(''"] assms(9) by auto
  have create: "((''CREATE TABLE '' @ zTable) @ header_text (CHR ''('') names) @ ''\<newline>)'' = create_text zTable names"
    by (simp add: create_text_def)
  have tab: "import_table fuel eng env (csv_read_one_field False) zTable d p = Inr (d2, q, Inr (Some st))"
    using app q(1) db(1-5) create by (simp add: import_table_def Let_def)
  have ins: "import_insert eng env (Some sti) = (\<lambda>x r. ((\<lambda>(x, rc) r. (ins x r, SQLITE_OK)) x r, None))"
    using db(10) by (auto simp: import_insert_def fun_eq_iff)
  have fold: "foldl (\<lambda>(x, rc) r. (ins x r, SQLITE_OK)) (x, 0) rs = (foldl ins x rs, 0)" for x rs
    by (induction rs arbitrary: x) (simp_all add: SQLITE_OK_def)
  have pos: "0 < length names" using assms(3) by simp
  obtain r where "import_rows fuel (csv_read_one_field False) False (length names) (import_insert eng env (Some sti))
      (snd (exec env d4 ''BEGIN''), 0) q = Inr ((foldl ins (snd (exec env d4 ''BEGIN'')) (map (map Some) rows), 0), r)"
    "complaints r = []"
    using import_csv_rows [OF q(2) assms(2) pos assms(5) q(3) assms(10), of "\<lambda>(x, rc) r. (ins x r, SQLITE_OK)"
      "(snd (exec env d4 ''BEGIN''), 0)"] q(4) unfolding ins fold by auto
  then have "import_data fuel eng env (csv_read_one_field False) False zTable (length names) d3 q = Inr (0, [], d')"
    using db(8,9,11) by (simp add: import_data_def insert_text_plain [OF assms(12,13)] Let_def)
  with tab db(6,7) pos show ?thesis by (simp add: import_into_def Let_def)
qed


section \<open>A table and back\<close>

text \<open>A database that knows only the tables it was asked to make; a table is its rows.\<close>

definition making_engine :: "(string list list option, string) sqlite_api" where
  "making_engine = \<lparr>prepare = (\<lambda>d z. if d = None then (1, d, None, []) else (0, d, Some z, [])), step = (\<lambda>d st. (101, d, st)),
     reset = (\<lambda>st. st), finalize = (\<lambda>d st. (0, d)), column_count = (\<lambda>st. 2), column_name = (\<lambda>st i. None),
     column_text = (\<lambda>st i. None), column_type = (\<lambda>st i. 5), column_int = (\<lambda>st i. 0), column_blob = (\<lambda>st i. []),
     stmt_sql = Some, errmsg = (\<lambda>d. if d = None then ''no such table: t'' else []), changes = (\<lambda>d. 0), total_changes = (\<lambda>d. 0),
     complete = (\<lambda>z. True), strlike = (\<lambda>p z. False), strnieq = (\<lambda>a b n. False)\<rparr>"

definition add_row :: "string list list option \<Rightarrow> string option list \<Rightarrow> string list list option" where
  "add_row d r = map_option (\<lambda>rs. rs @ [map (\<lambda>v. or_else v []) r]) d"

definition making_env :: "string \<Rightarrow> (string list list option, string) import_env" where
  "making_env content = \<lparr>exec = (\<lambda>d z. (0, if d = None then Some [] else d)), autocommit = (\<lambda>d. True),
     no_such_table = (\<lambda>m. take 15 m = ''no such table: ''), insert_row = (\<lambda>st d r. (add_row d r, 0)),
     fopen_rb = (\<lambda>f. Some content), popen_r = (\<lambda>f. None), opened = (\<lambda>d. d)\<rparr>"

definition two_names :: "string list" where
  "two_names = [''id'', ''a,b'']"

definition named_engine :: "string list list \<Rightarrow> (unit, nat) sqlite_api" where
  "named_engine rows = (table_engine rows)\<lparr>column_name := (\<lambda>k i. Some (two_names ! i))\<rparr>"

definition making_shell :: "string list list option shell_state" where
  "making_shell = \<lparr>conn = None, so = sample_out, echoOn = False, autoExplain = False, autoEQP = False, statsOn = False,
     scanstatsOn = False, countChanges = False, backslashOn = False, outCount = 0\<rparr>"



end
