(* ===== verification/ShellMeta.thy ===== *)
theory ShellMeta
  imports ShellTextProps
begin

text \<open>
  Smaller routines of \<^verbatim>\<open>database/SQLite/shell.c\<close>: how \<open>do_meta_command\<close> takes a line apart, the interrupt
  handler, the callbacks for the log and the trace, opening output files and the numbers of a database header.
\<close>

section \<open>The arguments of a dot command\<close>

text \<open>The text up to the closing quote, with its escapes, and what follows it.\<close>

fun quoted_token :: "char \<Rightarrow> string \<Rightarrow> string \<times> string" where
  "quoted_token delim [] = ([], [])"
| "quoted_token delim [c] = (if c = delim then ([], []) else ([c], []))"
| "quoted_token delim (c # d # z) =
     (if c = delim then ([], d # z)
      else if c = CHR 0x5C \<and> delim = CHR 0x22 then
        (c # d # fst (quoted_token delim z), snd (quoted_token delim z))
      else (c # fst (quoted_token delim (d # z)), snd (quoted_token delim (d # z))))"

text \<open>\<open>azArg\<close> has room for \<open>k\<close> more arguments.\<close>

fun meta_tokens :: "nat \<Rightarrow> string \<Rightarrow> string list" where
  "meta_tokens 0 zLine = []"
| "meta_tokens (Suc k) zLine =
     (case dropWhile is_space zLine of
        [] \<Rightarrow> []
      | c # z \<Rightarrow>
          if c = CHR 0x27 \<or> c = CHR 0x22 then
            (let (arg, rest) = quoted_token c z in
             (if c = CHR 0x22 then resolve_backslashes arg else arg) # meta_tokens k rest)
          else
            resolve_backslashes (takeWhile (\<lambda>c. \<not> is_space c) (c # z)) #
            meta_tokens k (drop 1 (dropWhile (\<lambda>c. \<not> is_space c) (c # z))))"

definition meta_arguments :: "string \<Rightarrow> string list" where
  "meta_arguments zLine = meta_tokens 50 (drop 1 zLine)"

section \<open>Callbacks\<close>

text \<open>\<open>seenInterrupt\<close> after it, and whether \<open>exit(1)\<close> is called and whether the database is interrupted.\<close>

definition interrupt_handler :: "bool \<Rightarrow> int \<Rightarrow> int \<times> bool \<times> bool" where
  "interrupt_handler globalDb seenInterrupt =
     (let seenInterrupt = seenInterrupt + 1 in
      if seenInterrupt > 2 then (seenInterrupt, True, False) else (seenInterrupt, False, globalDb))"

text \<open>What is printed to a log or a trace file, which may be null.\<close>

definition shellLog :: "bool \<Rightarrow> int \<Rightarrow> string \<Rightarrow> string" where
  "shellLog pLog iErrCode zMsg = (if \<not> pLog then [] else ''('' @ dec_int iErrCode @ '') '' @ zMsg @ ''\<newline>'')"

definition sql_trace_callback :: "bool \<Rightarrow> string \<Rightarrow> string" where
  "sql_trace_callback f z =
     (if f then rev (dropWhile (\<lambda>c. c = CHR '';'') (rev z)) @ '';\<newline>'' else [])"

section \<open>Output files\<close>

text \<open>
  \<open>fopen_wb\<close> is \<open>fopen(zFile, "wb")\<close>, 0 when it fails; 1 and 2 are standard output and error. The stream and
  what is printed to standard error.
\<close>

definition output_file_open :: "(string \<Rightarrow> int) \<Rightarrow> string \<Rightarrow> int \<times> string" where
  "output_file_open fopen_wb zFile =
     (if zFile = ''stdout'' then (1, [])
      else if zFile = ''stderr'' then (2, [])
      else if zFile = ''off'' then (0, [])
      else
        let f = fopen_wb zFile in
        (f, if f = 0 then ''Error: cannot open '' @ [CHR 0x22] @ zFile @ [CHR 0x22] @ ''\<newline>'' else []))"

section \<open>Numbers of a database header\<close>

definition get2byteInt :: "nat list \<Rightarrow> nat" where
  "get2byteInt a = a ! 0 * 256 + a ! 1"

text \<open>The bytes are shifted as \<open>int\<close>: a first byte from 128 on shifts into the sign, which is undefined.\<close>

definition get4byteInt :: "nat list \<Rightarrow> nat c_result" where
  "get4byteInt a = (if a ! 0 \<ge> 128 then Inl Int_overflow
     else Inr (a ! 0 * 16777216 + a ! 1 * 65536 + a ! 2 * 256 + a ! 3))"

section \<open>Reading arguments back\<close>

lemma plain_digit: "d < 10 \<Longrightarrow> digit d \<noteq> CHR 0x22 \<and> digit d \<noteq> CHR 0x5C"
  using is_digit_digit [of d] by (auto simp: is_digit_def char_code_def)

lemma quoted_token_plain: "c \<noteq> CHR 0x22 \<Longrightarrow> c \<noteq> CHR 0x5C \<Longrightarrow>
    quoted_token (CHR 0x22) (c # z) = (c # fst (quoted_token (CHR 0x22) z), snd (quoted_token (CHR 0x22) z))"
  by (cases z) auto

lemma quoted_token_escape:
  "quoted_token (CHR 0x22) (c_escape c @ z) =
     (c_escape c @ fst (quoted_token (CHR 0x22) z), snd (quoted_token (CHR 0x22) z))"
proof (cases "c \<in> {CHR 0x5C, CHR 0x22, CHR 0x09, CHR 0x0A, CHR 0x0D}")
  case True
  then show ?thesis by (auto simp: c_escape_def)
next
  case False
  show ?thesis
  proof (cases "isprint c")
    case True
    with False show ?thesis by (simp add: c_escape_def quoted_token_plain)
  next
    case np: False
    have "char_code c div 8 mod 8 < 10" "char_code c mod 8 < 10" by auto
    with np False plain_digit show ?thesis by (auto simp: c_escape_def octal3_def quoted_token_plain)
  qed
qed

lemma quoted_token_text:
  "quoted_token (CHR 0x22) (concat (map c_escape a) @ CHR 0x22 # z) = (concat (map c_escape a), z)"
proof (induction a)
  case Nil
  then show ?case by (cases z) auto
next
  case (Cons c a)
  then show ?case by (simp add: quoted_token_escape)
qed

definition quoted_arguments :: "string list \<Rightarrow> string" where
  "quoted_arguments as = concat (map (\<lambda>a. CHR '' '' # output_c_string a) as)"

lemma meta_tokens_quoted:
  "length as \<le> k \<Longrightarrow> meta_tokens k (quoted_arguments as) = map (takeWhile (\<lambda>c. c \<noteq> CHR 0x00)) as"
proof (induction as arbitrary: k)
  case Nil
  then show ?case by (cases k) (simp_all add: quoted_arguments_def)
next
  case (Cons a as)
  then obtain j where k: "k = Suc j" "length as \<le> j" by (cases k) auto
  have sp: "is_space (CHR '' '')" "\<not> is_space (CHR 0x22)" by (simp_all add: is_space_def char_code_def)
  have q: "quoted_token (CHR 0x22) (concat (map c_escape a) @ CHR 0x22 # quoted_arguments as) =
      (concat (map c_escape a), quoted_arguments as)" by (rule quoted_token_text)
  have r: "resolve_backslashes (concat (map c_escape a)) = takeWhile (\<lambda>c. c \<noteq> CHR 0x00) a"
    by (simp only: resolve_backslashes_loop [OF c_text_escape] resolve_all)
  have "quoted_arguments (a # as) = CHR '' '' # CHR 0x22 # concat (map c_escape a) @ CHR 0x22 # quoted_arguments as"
    by (simp add: quoted_arguments_def output_c_string_def)
  with k Cons.IH [of j] q r sp show ?case by simp
qed

text \<open>C35: The arguments of a dot command are read as the shell writes strings: for every list of at most 50 strings, a
  line that holds them after its dot, each behind a space and in the quotes of \<open>output_c_string\<close>, is taken
  apart into exactly these strings, each up to its first NUL. Spaces, quotes, backslashes and control characters included.\<close>

theorem meta_arguments_quoted:
  assumes "length as \<le> 50"
  shows "meta_arguments (CHR ''.'' # quoted_arguments as) = map (takeWhile (\<lambda>c. c \<noteq> CHR 0x00)) as"
  using meta_tokens_quoted [OF assms] by (simp add: meta_arguments_def)

lemma meta_arguments_quoted_witness:
  "meta_arguments (CHR ''.'' # quoted_arguments [''mode'', ''a b'' @ [CHR 0x22, CHR 0x0A]]) =
     [''mode'', ''a b'' @ [CHR 0x22, CHR 0x0A]]"
  using meta_arguments_quoted [of "[''mode'', ''a b'' @ [CHR 0x22, CHR 0x0A]]"] by simp

end
