(* ===== verification/ShellInfo.thy ===== *)
theory ShellInfo
  imports ShellImportCmd ShellMeta
begin

text \<open>
  The dot commands of \<^verbatim>\<open>database/SQLite/shell.c\<close> that tell what is in a database: \<open>.tables\<close>, \<open>.indexes\<close>, \<open>.schema\<close>,
  \<open>.databases\<close>, \<open>.limit\<close> and \<open>.dbinfo\<close>, one definition per branch of \<open>do_meta_command\<close>. Each gives the result code, what goes
  to standard error and the state. What they ask of the library beyond \<open>sqlite_api\<close> is in a record of its own: \<open>ensure_open\<close> is
  \<open>open_db\<close>; \<open>query\<close> is \<open>sqlite3_exec\<close>, given the text that \<open>shellstatic()\<close> stands for: the names and the rows it hands to the
  callback, its result, its message and the connection; \<open>limit_of\<close> is \<open>sqlite3_limit\<close>; \<open>read_header\<close> is the \<open>xRead\<close> of the first
  100 bytes of a database file, with its result, if there is such a file. Allocation does not fail here.
\<close>

record ('db, 'st) info_env =
  ensure_open :: "'db \<Rightarrow> 'db"
  bind_text :: "'st \<Rightarrow> string \<Rightarrow> 'st"
  query :: "'db \<Rightarrow> string option \<Rightarrow> string \<Rightarrow> string option list \<times> string option list list \<times> int \<times> string option \<times> 'db"
  limit_of :: "'db \<Rightarrow> int \<Rightarrow> int \<Rightarrow> int \<times> 'db"
  same_word :: "string \<Rightarrow> string \<Rightarrow> bool"
  read_header :: "'db \<Rightarrow> string \<Rightarrow> (int \<times> (nat \<Rightarrow> 8 word)) option"

definition shellDatabaseError :: "('db, 'st) sqlite_api \<Rightarrow> 'db \<Rightarrow> string" where
  "shellDatabaseError eng d = ''Error: '' @ errmsg eng d @ ''\<newline>''"

section \<open>The tables\<close>

text \<open>The format \<open>%q\<close>\<close>

definition in_apostrophes :: "string \<Rightarrow> string" where
  "in_apostrophes z = concat (map (\<lambda>c. if c = CHR 0x27 then [c, c] else [c]) z)"

definition names_where :: string where
  "names_where = '' WHERE type IN ('table','view')   AND name NOT LIKE 'sqlite_%'   AND name LIKE ?1''"

definition names_of :: "string \<Rightarrow> string" where
  "names_of zDbName =
     (if zDbName = ''temp'' then '' UNION ALL SELECT 'temp.' || name FROM sqlite_temp_master'' @ names_where
      else '' UNION ALL SELECT '' @ [CHR 0x27] @ in_apostrophes zDbName @ [CHR ''.'', CHR 0x27] @ '' || name FROM '' @
        [CHR 0x22] @ in_quotes zDbName @ [CHR 0x22] @ ''.sqlite_master'' @ names_where)"

text \<open>The statement for all attached databases, and the array of the names.\<close>

fun tables_query :: "nat \<Rightarrow> ('db, 'st) sqlite_api \<Rightarrow> string \<Rightarrow> 'db \<Rightarrow> 'st option \<Rightarrow> (string \<times> 'db \<times> 'st option) c_result" where
  "tables_query 0 eng zSql d st = Inl No_return"
| "tables_query (Suc fuel) eng zSql d None = Inr (zSql, d, None)"
| "tables_query (Suc fuel) eng zSql d (Some st) =
     (let (rc, d, st) = step eng d st in
      if rc = SQLITE_ROW then
        tables_query fuel eng (case column_text eng st 1 of
            None \<Rightarrow> zSql
          | Some zDbName \<Rightarrow> if zDbName = ''main'' then zSql else zSql @ names_of zDbName) d (Some st)
      else Inr (zSql, d, Some st))"

text \<open>The array grows when \<open>nRow >= nAlloc\<close>; every store is checked.\<close>

fun tables_rows :: "nat \<Rightarrow> ('db, 'st) sqlite_api \<Rightarrow> nat \<Rightarrow> string list \<Rightarrow> 'db \<Rightarrow> 'st option
    \<Rightarrow> (string list \<times> 'db \<times> 'st option) c_result" where
  "tables_rows 0 eng na azResult d st = Inl No_return"
| "tables_rows (Suc fuel) eng na azResult d None = Inr (azResult, d, None)"
| "tables_rows (Suc fuel) eng na azResult d (Some st) =
     (let (rc, d, st) = step eng d st in
      if rc = SQLITE_ROW then
        let na = (if length azResult \<ge> na then na * 2 + 10 else na) in
        if length azResult < na
        then tables_rows fuel eng na (azResult @ [or_else (column_text eng st 0) []]) d (Some st)
        else Inl Out_of_bounds
      else Inr (azResult, d, Some st))"

text \<open>The printing in columns: \<open>for(j=i; j<nRow; j+=nPrintRow)\<close>, and then the rows.\<close>

function tables_line :: "string list \<Rightarrow> nat \<Rightarrow> nat \<Rightarrow> nat \<Rightarrow> string" where
  "tables_line azResult maxlen nPrintRow j =
     (if j < length azResult \<and> 0 < nPrintRow then
        (if j < nPrintRow then [] else ''  '') @ pad_right maxlen (azResult ! j) @
        tables_line azResult maxlen nPrintRow (j + nPrintRow)
      else [])"
  by pat_completeness auto
termination
  by (relation "measure (\<lambda>(az, m, r, j). length az - j)") auto

declare tables_line.simps [simp del]

definition max_length :: "string list \<Rightarrow> nat" where
  "max_length azResult = fold (\<lambda>z m. if strlen30 z > m then strlen30 z else m) azResult 0"

definition print_columns :: "string list \<Rightarrow> nat" where
  "print_columns azResult = (let n = 80 div (max_length azResult + 2) in if n < 1 then 1 else n)"

definition print_rows :: "string list \<Rightarrow> nat" where
  "print_rows azResult = (length azResult + print_columns azResult - 1) div print_columns azResult"

definition tables_text :: "string list \<Rightarrow> string" where
  "tables_text azResult =
     concat (map (\<lambda>i. tables_line azResult (max_length azResult) (print_rows azResult) i @ ''\<newline>'') [0..<print_rows azResult])"

definition tables_command :: "nat \<Rightarrow> ('db, 'st) sqlite_api \<Rightarrow> ('db, 'st) info_env \<Rightarrow> string list \<Rightarrow> 'db shell_state
    \<Rightarrow> (int \<times> string \<times> 'db shell_state) c_result" where
  "tables_command fuel eng env azArg p =
     (let (rc, d, st, _) = prepare eng (ensure_open env (conn p)) ''PRAGMA database_list'' in
      if rc \<noteq> 0 then Inr (1, shellDatabaseError eng d, p\<lparr>conn := d\<rparr>)
      else
        c_bind (tables_query fuel eng (''SELECT name FROM sqlite_master'' @ names_where) d st) (\<lambda>(zSql, d, st).
        let (rc, d) = finalize eng d st;
            (rc, d, st) = (if rc = SQLITE_OK then (let (rc, d, st, _) = prepare eng d (zSql @ '' ORDER BY 1'') in (rc, d, st))
                           else (rc, d, None)) in
        if rc \<noteq> 0 then Inr (1, shellDatabaseError eng d, p\<lparr>conn := d\<rparr>)
        else
          c_bind (tables_rows fuel eng 0 [] d
            (map_option (\<lambda>st. bind_text env st (if length azArg > 1 then azArg ! 1 else ''%'')) st)) (\<lambda>(azResult, d, st).
          let (rc, d) = finalize eng d st in
          Inr (if rc \<noteq> SQLITE_OK then (1, shellDatabaseError eng d, p\<lparr>conn := d\<rparr>)
               else (0, [], p\<lparr>conn := d, so := print_out (so p) (if azResult = [] then [] else tables_text azResult)\<rparr>)))))"

section \<open>Indexes and the schema\<close>

text \<open>The callback on each row, with a copy of the state: what is printed is all that stays.\<close>

fun callback_rows :: "string option list \<Rightarrow> string option list list \<Rightarrow> shell_out \<Rightarrow> shell_out c_result" where
  "callback_rows azCol [] data = Inr data"
| "callback_rows azCol (r # rs) data =
     c_bind (callback data (length r) (Some r) azCol) (\<lambda>data. callback_rows azCol rs data)"

definition printed_by :: "'db shell_state \<Rightarrow> shell_out \<Rightarrow> 'db shell_state" where
  "printed_by p data = p\<lparr>so := (so p)\<lparr>sent_out := sent_out data\<rparr>\<rparr>"

definition plain_copy :: "int \<Rightarrow> shell_out \<Rightarrow> shell_out" where
  "plain_copy m data = data\<lparr>showHeader := False, cMode := m, mode := m\<rparr>"

text \<open>The query and the messages that follow it\<close>

definition show_query :: "('db, 'st) info_env \<Rightarrow> shell_out \<Rightarrow> string option \<Rightarrow> string \<Rightarrow> string option \<Rightarrow> 'db shell_state
    \<Rightarrow> (int \<times> string \<times> 'db shell_state) c_result" where
  "show_query env data static zSql failed p =
     (let (azCol, rows, rc, zErrMsg, d) = query env (conn p) static zSql in
      c_bind (callback_rows azCol rows data) (\<lambda>data.
      let p = printed_by (p\<lparr>conn := d\<rparr>) data in
      Inr (case (zErrMsg, failed) of
             (Some e, _) \<Rightarrow> (1, ''Error: '' @ e @ ''\<newline>'', p)
           | (None, Some msg) \<Rightarrow> if rc \<noteq> SQLITE_OK then (1, msg, p) else (0, [], p)
           | (None, None) \<Rightarrow> (0, [], p))))"

definition databases_command :: "('db, 'st) info_env \<Rightarrow> 'db shell_state \<Rightarrow> (int \<times> string \<times> 'db shell_state) c_result" where
  "databases_command env p =
     (let p = p\<lparr>conn := ensure_open env (conn p)\<rparr> in
      show_query env ((so p)\<lparr>showHeader := True, cMode := MODE_Column, mode := MODE_Column,
          colWidth := (colWidth (so p))[0 := 3, 1 := 15, 2 := 58], cnt := 0\<rparr>)
        None ''PRAGMA database_list; '' None p)"

definition indexes_command :: "('db, 'st) info_env \<Rightarrow> string list \<Rightarrow> 'db shell_state \<Rightarrow> (int \<times> string \<times> 'db shell_state) c_result" where
  "indexes_command env azArg p =
     (let p = p\<lparr>conn := ensure_open env (conn p)\<rparr>;
          failed = Some ''Error: querying sqlite_master and sqlite_temp_master\<newline>'';
          data = plain_copy MODE_List (so p) in
      if length azArg = 1 then
        show_query env data None
          (''SELECT name FROM sqlite_master WHERE type='index' AND name NOT LIKE 'sqlite_%' UNION ALL '' @
           ''SELECT name FROM sqlite_temp_master WHERE type='index' ORDER BY 1'') failed p
      else if length azArg = 2 then
        show_query env data (Some (azArg ! 1))
          (''SELECT name FROM sqlite_master WHERE type='index' AND tbl_name LIKE shellstatic() UNION ALL '' @
           ''SELECT name FROM sqlite_temp_master WHERE type='index' AND tbl_name LIKE shellstatic() ORDER BY 1'') failed p
      else Inr (1, ''Usage: .indexes ?LIKE-PATTERN?\<newline>'', p))"

definition master_schema :: "string \<Rightarrow> string" where
  "master_schema create = create @ '' (\<newline>  type text,\<newline>  name text,\<newline>  tbl_name text,\<newline>  rootpage integer,\<newline>  sql text\<newline>)''"

definition schema_from :: string where
  "schema_from =
     ''SELECT sql FROM   (SELECT sql sql, type type, tbl_name tbl_name, name name, rowid x'' @
     ''     FROM sqlite_master UNION ALL   SELECT sql, type, tbl_name, name, rowid FROM sqlite_temp_master) ''"

text \<open>The argument is put into lower case where it stands.\<close>

definition schema_command :: "('db, 'st) info_env \<Rightarrow> string list \<Rightarrow> 'db shell_state \<Rightarrow> (int \<times> string \<times> 'db shell_state) c_result" where
  "schema_command env azArg p =
     (let p = p\<lparr>conn := ensure_open env (conn p)\<rparr>; failed = Some ''Error: querying schema information\<newline>'';
          data = plain_copy MODE_Semi (so p);
          fixed_schema = (\<lambda>create. c_bind (callback data 1 (Some [Some (master_schema create)]) [Some ''sql''])
            (\<lambda>data. Inr (0, [], printed_by p data))) in
      if length azArg = 2 then
        let z = map to_lower (azArg ! 1) in
        if z = ''sqlite_master'' then fixed_schema ''CREATE TABLE sqlite_master''
        else if z = ''sqlite_temp_master'' then fixed_schema ''CREATE TEMP TABLE sqlite_temp_master''
        else
          show_query env data (Some z)
            (schema_from @ ''WHERE lower(tbl_name) LIKE shellstatic()  AND type!='meta' AND sql NOTNULL ORDER BY rowid'') failed p
      else if length azArg = 1 then
        show_query env data None
          (schema_from @ ''WHERE type!='meta' AND sql NOTNULL AND name NOT LIKE 'sqlite_%' ORDER BY rowid'') failed p
      else Inr (1, ''Usage: .schema ?LIKE-PATTERN?\<newline>'', p))"

section \<open>Limits\<close>

definition aLimit :: "(string \<times> int) list" where
  "aLimit = [(''length'', 0), (''sql_length'', 1), (''column'', 2), (''expr_depth'', 3), (''compound_select'', 4), (''vdbe_op'', 5),
     (''function_arg'', 6), (''attached'', 7), (''like_pattern_length'', 8), (''variable_number'', 9), (''trigger_depth'', 10),
     (''worker_threads'', 11)]"

definition limit_line :: "('db, 'st) info_env \<Rightarrow> 'db \<Rightarrow> string \<times> int \<Rightarrow> string" where
  "limit_line env d l = pad_left 20 (fst l) @ '' '' @ dec_int (fst (limit_of env d (snd l) (-1))) @ ''\<newline>''"

text \<open>
  What goes to standard output comes second. A limit is found by the first letters of its name; a second one that fits ends the
  search.
\<close>

definition limit_command :: "('db, 'st) sqlite_api \<Rightarrow> ('db, 'st) info_env \<Rightarrow> string list \<Rightarrow> 'db shell_state \<Rightarrow> (int \<times> string \<times> string \<times> 'db shell_state) c_result" where
  "limit_command eng env azArg p =
     (let d = ensure_open env (conn p); p = p\<lparr>conn := d\<rparr> in
      if length azArg = 1 then Inr (0, concat (map (limit_line env d) aLimit), [], p)
      else if length azArg > 3 then Inr (1, [], ''Usage: .limit NAME ?NEW-VALUE?\<newline>'', p)
      else
        (case filter (\<lambda>l. strnieq eng (fst l) (azArg ! 1) (strlen30 (azArg ! 1))) aLimit of
           [] \<Rightarrow> Inr (1, [], ''unknown limit: '' @ [CHR 0x22] @ azArg ! 1 @ [CHR 0x22] @ ''\<newline>enter '' @ [CHR 0x22] @
              ''.limits'' @ [CHR 0x22] @ '' with no arguments for a list.\<newline>'', p)
         | [l] \<Rightarrow>
             c_bind (if length azArg = 3 then
                 c_bind (integerValue (same_word env) (azArg ! 2)) (\<lambda>v. Inr (snd (limit_of env d (snd l) (to_int (v mod 2 ^ 32)))))
               else Inr d) (\<lambda>d.
             Inr (0, limit_line env d l, [], p\<lparr>conn := d\<rparr>))
         | _ \<Rightarrow> Inr (1, [], ''ambiguous limit: '' @ [CHR 0x22] @ azArg ! 1 @ [CHR 0x22] @ ''\<newline>'', p)))"

section \<open>The header of a database\<close>

definition aField :: "(string \<times> nat) list" where
  "aField = [(''file change counter:'', 24), (''database page count:'', 28), (''freelist page count:'', 36), (''schema cookie:'', 40),
     (''schema format:'', 44), (''default cache size:'', 48), (''autovacuum top root:'', 52), (''incremental vacuum:'', 64),
     (''text encoding:'', 56), (''user version:'', 60), (''application id:'', 68), (''software version:'', 96)]"

text \<open>The tail of each query, that comes after the name of the schema table\<close>

definition aQuery :: "(string \<times> string \<times> string) list" where
  "aQuery = [(''number of tables:'', ''count(*)'', '' WHERE type='table'' @ [CHR 0x27]),
     (''number of indexes:'', ''count(*)'', '' WHERE type='index'' @ [CHR 0x27]),
     (''number of triggers:'', ''count(*)'', '' WHERE type='trigger'' @ [CHR 0x27]),
     (''number of views:'', ''count(*)'', '' WHERE type='view'' @ [CHR 0x27]),
     (''schema size:'', ''total(length(sql))'', [])]"

definition db_int :: "('db, 'st) sqlite_api \<Rightarrow> 'db \<Rightarrow> string \<Rightarrow> int \<times> 'db" where
  "db_int eng d zSql =
     (case prepare eng d zSql of
        (_, d, None, _) \<Rightarrow> (0, snd (finalize eng d None))
      | (_, d, Some st, _) \<Rightarrow>
          (let (rc, d, st) = step eng d st in
           (if rc = SQLITE_ROW then column_int eng st 0 else 0, snd (finalize eng d (Some st)))))"

definition info_line :: "string \<Rightarrow> string \<Rightarrow> string" where
  "info_line name v = pad_right 20 name @ '' '' @ v @ ''\<newline>''"

definition field_line :: "nat list \<Rightarrow> string \<times> nat \<Rightarrow> string c_result" where
  "field_line aHdr f =
     c_bind (get4byteInt (drop (snd f) aHdr)) (\<lambda>val.
     Inr (info_line (fst f) (dec_nat val @
       (if snd f = 56 then if val = 1 then '' (utf8)'' else if val = 2 then '' (utf16le)'' else if val = 3 then '' (utf16be)'' else []
        else []))))"

fun query_lines :: "('db, 'st) sqlite_api \<Rightarrow> string \<Rightarrow> (string \<times> string \<times> string) list \<Rightarrow> 'db \<Rightarrow> string \<times> 'db" where
  "query_lines eng tab [] d = ([], d)"
| "query_lines eng tab ((name, what, cond) # qs) d =
     (let (val, d) = db_int eng d (''SELECT '' @ what @ '' FROM '' @ tab @ cond);
          (t, d) = query_lines eng tab qs d in
      (info_line name (dec_int val) @ t, d))"

definition schema_table :: "string \<Rightarrow> string" where
  "schema_table zDb =
     (if zDb = ''temp'' then ''sqlite_temp_master'' else [CHR 0x22] @ in_quotes zDb @ [CHR 0x22] @ ''.sqlite_master'')"

definition shell_dbinfo_command :: "('db, 'st) sqlite_api \<Rightarrow> ('db, 'st) info_env \<Rightarrow> string list \<Rightarrow> 'db shell_state
    \<Rightarrow> (int \<times> string \<times> 'db shell_state) c_result" where
  "shell_dbinfo_command eng env azArg p =
     (let zDb = (if length azArg \<ge> 2 then azArg ! 1 else ''main''); p = p\<lparr>conn := ensure_open env (conn p)\<rparr> in
      case read_header env (conn p) zDb of
        None \<Rightarrow> Inr (1, [], p)
      | Some (i, bytes) \<Rightarrow>
          if i \<noteq> SQLITE_OK then Inr (1, ''unable to read database header\<newline>'', p)
          else
            let aHdr = map (\<lambda>j. unat (bytes j)) [0..<100]; i = get2byteInt (drop 16 aHdr); i = (if i = 1 then 65536 else i) in
            c_bind (c_map (field_line aHdr) aField) (\<lambda>fields.
            let (t, d) = query_lines eng (schema_table zDb) aQuery (conn p) in
            Inr (0, [], p\<lparr>conn := d, so := print_out (so p)
              (info_line ''database page size:'' (dec_nat i) @ info_line ''write format:'' (dec_nat (aHdr ! 18)) @
               info_line ''read format:'' (dec_nat (aHdr ! 19)) @ info_line ''reserved bytes:'' (dec_nat (aHdr ! 20)) @
               concat fields @ t)\<rparr>)))"

end
