(* ===== verification/ShellInfoProps.thy ===== *)
theory ShellInfoProps
  imports ShellInfo "HOL-Library.Multiset"
begin

text \<open>
  What \<open>.tables\<close> prints: the names the library delivers, each once, in columns of the width of the longest name that are filled
  from top to bottom, on lines that fit a terminal.
\<close>

section \<open>Filling columns\<close>

text \<open>The rows of a grid whose columns hold \<open>n\<close> names each, and a row with its cells side by side.\<close>

definition column_major :: "nat \<Rightarrow> 'a list \<Rightarrow> 'a list list" where
  "column_major n xs = map (\<lambda>i. map ((!) xs) (filter (\<lambda>j. j mod n = i) [0..<length xs])) [0..<n]"

fun side_by_side :: "nat \<Rightarrow> string list \<Rightarrow> string" where
  "side_by_side m [] = []"
| "side_by_side m [z] = pad_right m z"
| "side_by_side m (z # zs) = pad_right m z @ ''  '' @ side_by_side m zs"

lemma same_remainder:
  assumes "j < k" and "k < j + (n :: nat)"
  shows "k mod n \<noteq> j mod n"
  using assms mod_eq_dvd_iff_nat [of j k n] by (auto dest: dvd_imp_le)

lemma every_nth:
  assumes "0 < n" and "j < len"
  shows "filter (\<lambda>k. k mod n = j mod n) [j..<len] = j # filter (\<lambda>k. k mod n = j mod n) [j + n..<len]"
proof -
  have "filter (\<lambda>k. k mod n = j mod n) [Suc j..<min len (j + n)] = []"
    using same_remainder [of j _ n] by (auto simp: filter_empty_conv)
  moreover have "[j..<len] = j # [Suc j..<min len (j + n)] @ [j + n..<len]"
    using assms upt_add_eq_append [of "Suc j" "j + n" "len - (j + n)"] by (cases "j + n \<le> len") (auto simp: upt_conv_Cons min_def)
  ultimately show ?thesis by simp
qed

lemma tables_line_cells:
  "0 < n \<Longrightarrow> tables_line az m n j =
     concat (map (\<lambda>k. (if k < n then [] else ''  '') @ pad_right m (az ! k)) (filter (\<lambda>k. k mod n = j mod n) [j..<length az]))"
proof (induction az m n j rule: tables_line.induct)
  case (1 az m n j)
  show ?case
  proof (cases "j < length az")
    case True
    then show ?thesis using 1 every_nth [of n j "length az"] by (simp add: tables_line.simps [of az m n j])
  qed (simp add: tables_line.simps [of az m n j])
qed

lemma gaps_side_by_side:
  "zs \<noteq> [] \<Longrightarrow> side_by_side m zs = pad_right m (hd zs) @ concat (map (\<lambda>z. ''  '' @ pad_right m z) (tl zs))"
  by (induction m zs rule: side_by_side.induct) auto

lemma tables_line_row:
  assumes "i < n" and "n \<le> length az"
  shows "tables_line az m n i = side_by_side m (map ((!) az) (filter (\<lambda>j. j mod n = i) [0..<length az]))"
proof -
  have less: "\<And>k. k < i \<Longrightarrow> k mod n \<noteq> i" using assms(1) by simp
  have "[0..<length az] = [0..<i] @ [i..<length az]" using assms upt_add_eq_append [of 0 i "length az - i"] by simp
  with less have idx: "filter (\<lambda>j. j mod n = i) [0..<length az] = i # filter (\<lambda>j. j mod n = i) [i + n..<length az]"
    using every_nth [of n i "length az"] assms by (simp add: filter_empty_conv)
  have "tables_line az m n i = pad_right m (az ! i) @
      concat (map (\<lambda>k. ''  '' @ pad_right m (az ! k)) (filter (\<lambda>j. j mod n = i) [i + n..<length az]))"
    using tables_line_cells [of n az m i] every_nth [of n i "length az"] assms
    by (simp cong: map_cong) (rule arg_cong [of _ _ concat], auto intro!: map_cong)
  with idx show ?thesis by (simp add: gaps_side_by_side comp_def)
qed

lemma mset_classes:
  "\<forall>x \<in> set xs. f x < n \<Longrightarrow> mset (concat (map (\<lambda>i. filter (\<lambda>x. f x = i) xs) [0..<n])) = mset xs"
proof (induction xs)
  case (Cons x xs)
  have "mset (concat (map (\<lambda>i. filter (\<lambda>y. f y = i) (x # xs)) [0..<n])) =
      (\<Sum>i \<in> {0..<n}. (if f x = i then {#x#} else {#}) + mset (filter (\<lambda>y. f y = i) xs))"
    by (auto simp: mset_concat comp_def interv_sum_list_conv_sum_set_nat intro!: sum.cong)
  also have "\<dots> = {#x#} + (\<Sum>i \<in> {0..<n}. mset (filter (\<lambda>y. f y = i) xs))"
    using Cons.prems by (simp add: sum.distrib)
  also have "\<dots> = {#x#} + mset (concat (map (\<lambda>i. filter (\<lambda>y. f y = i) xs) [0..<n]))"
    by (simp add: mset_concat comp_def interv_sum_list_conv_sum_set_nat)
  finally show ?case using Cons by simp
qed (induction n, auto)

lemma mset_column_major:
  assumes "0 < n"
  shows "mset (concat (column_major n xs)) = mset xs"
proof -
  have "concat (column_major n xs) = map ((!) xs) (concat (map (\<lambda>i. filter (\<lambda>j. j mod n = i) [0..<length xs]) [0..<n]))"
    by (simp add: column_major_def map_concat comp_def)
  then have "mset (concat (column_major n xs)) = image_mset ((!) xs) (mset [0..<length xs])"
    using mset_classes [of "[0..<length xs]" "\<lambda>j. j mod n" n] assms by simp
  also have "\<dots> = mset xs" by (metis map_nth mset_map)
  finally show ?thesis .
qed

lemma row_cells:
  assumes "len \<le> n * c"
  shows "length (filter (\<lambda>j. j mod n = i) [0..<len]) \<le> c"
proof -
  have "set (filter (\<lambda>j. j mod n = i) [0..<len]) \<subseteq> (\<lambda>k. k * n + i) ` {0..<c}"
  proof
    fix j assume "j \<in> set (filter (\<lambda>j. j mod n = i) [0..<len])"
    then have j: "j mod n = i" "j < n * c" using assms by auto
    then have "j div n < c" by (simp add: less_mult_imp_div_less mult.commute)
    moreover have "j = j div n * n + i" using j(1) div_mult_mod_eq [of j n] by simp
    ultimately show "j \<in> (\<lambda>k. k * n + i) ` {0..<c}" by (auto intro!: image_eqI)
  qed
  from card_mono [OF _ this] have "card (set (filter (\<lambda>j. j mod n = i) [0..<len])) \<le> card ((\<lambda>k. k * n + i) ` {0..<c})"
    by simp
  also have "\<dots> \<le> c" using card_image_le [of "{0..<c}" "\<lambda>k. k * n + i"] by simp
  finally show ?thesis using distinct_card [of "filter (\<lambda>j. j mod n = i) [0..<len]"] by simp
qed

section \<open>The width of a line\<close>

lemma max_length_ge:
  assumes "\<forall>z \<in> set zs. length z < 2 ^ 30" and "z \<in> set zs"
  shows "length z \<le> max_length zs"
proof -
  have "\<forall>z \<in> set zs. length z < 2 ^ 30 \<Longrightarrow>
      fold (\<lambda>z m. if strlen30 z > m then strlen30 z else m) zs m = foldl max m (map length zs)" for m
    by (induction zs arbitrary: m) (auto simp: strlen30_small max_def)
  moreover have "m \<le> foldl max m ns \<and> (\<forall>n \<in> set ns. n \<le> foldl max m ns)" for m :: nat and ns
  proof (induction ns arbitrary: m)
    case (Cons n ns)
    from Cons [of "max m n"] show ?case by auto
  qed simp
  ultimately show ?thesis using assms by (auto simp: max_length_def)
qed

lemma length_side_by_side:
  "\<forall>z \<in> set zs. length z \<le> m \<Longrightarrow> length (side_by_side m zs) + 2 = length zs * (m + 2) + (if zs = [] then 2 else 0)"
  by (induction m zs rule: side_by_side.induct) (auto simp: pad_right_def)

lemma print_rows_cover: "length zs \<le> print_rows zs * print_columns zs"
proof -
  let ?c = "print_columns zs" and ?n = "length zs + print_columns zs - 1"
  have "0 < ?c" by (simp add: print_columns_def Let_def)
  then have "?n mod ?c < ?c" and "?n + 1 = length zs + ?c" by simp_all
  moreover have "?n div ?c * ?c + ?n mod ?c = ?n" by (rule div_mult_mod_eq)
  ultimately show ?thesis unfolding print_rows_def by linarith
qed

lemma print_rows_bounds:
  assumes "zs \<noteq> []"
  shows "0 < print_rows zs" and "print_rows zs \<le> length zs"
proof -
  let ?c = "print_columns zs"
  have c: "0 < ?c" by (simp add: print_columns_def Let_def)
  show "0 < print_rows zs" using print_rows_cover [of zs] assms by (cases "print_rows zs") auto
  have "length zs + ?c - 1 \<le> length zs * ?c" using assms c by (cases zs; cases ?c) auto
  then have "print_rows zs \<le> length zs * ?c div ?c" unfolding print_rows_def by (rule div_le_mono)
  with c show "print_rows zs \<le> length zs" by simp
qed

lemma line_fits:
  assumes "\<forall>z \<in> set zs. length z < 2 ^ 30" and "r \<in> set (column_major (print_rows zs) zs)"
  shows "length (side_by_side (max_length zs) r) \<le> max 78 (max_length zs)"
proof -
  let ?m = "max_length zs" and ?c = "print_columns zs"
  obtain i where r: "r = map ((!) zs) (filter (\<lambda>j. j mod print_rows zs = i) [0..<length zs])"
    using assms(2) by (auto simp: column_major_def)
  have "length r \<le> ?c" unfolding r using row_cells [OF print_rows_cover, of zs i] by simp
  then have "length r * (?m + 2) \<le> ?c * (?m + 2)" by (rule mult_le_mono1)
  also have "\<dots> \<le> max 80 (?m + 2)"
    using div_times_less_eq_dividend [of 80 "?m + 2"] by (auto simp: print_columns_def Let_def)
  moreover have "\<forall>z \<in> set r. length z \<le> ?m" using max_length_ge [OF assms(1)] by (auto simp: r)
  ultimately show ?thesis using length_side_by_side [of r ?m] by (auto split: if_splits)
qed

lemma tables_text_grid:
  assumes "zs \<noteq> []"
  shows "tables_text zs = concat (map (\<lambda>r. side_by_side (max_length zs) r @ ''\<newline>'') (column_major (print_rows zs) zs))"
  using print_rows_bounds [OF assms] unfolding tables_text_def column_major_def
  by (auto simp: comp_def tables_line_row intro!: arg_cong [where f = concat] map_cong)

section \<open>What the library is asked\<close>

definition attached :: "string \<Rightarrow> string" where
  "attached z = (if z = ''main'' then [] else names_of z)"

definition tables_sql :: "string list \<Rightarrow> string" where
  "tables_sql zs = ''SELECT name FROM sqlite_master'' @ names_where @ concat (map attached zs) @ '' ORDER BY 1''"

lemma tables_query_reads:
  assumes "delivers eng rows d st d' st'" and "\<forall>r \<in> set rows. 2 \<le> length r" and "length rows < fuel"
  shows "tables_query fuel eng zSql d (Some st) = Inr (zSql @ concat (map (\<lambda>r. attached (r ! 1)) rows), d', Some st')"
  using assms
proof (induction rows arbitrary: fuel zSql d st)
  case Nil
  then show ?case by (cases fuel) (auto simp: SQLITE_DONE_def SQLITE_ROW_def)
next
  case (Cons r rows)
  then obtain k where k: "fuel = Suc k" by (cases fuel) auto
  obtain d1 st1 where s: "step eng d st = (SQLITE_ROW, d1, st1)" "at_row eng r st1" "delivers eng rows d1 st1 d' st'"
    using Cons.prems(1) by auto
  have "column_text eng st1 1 = Some (r ! 1)" using s(2) Cons.prems(2) by (auto simp: at_row_def)
  with k s Cons.IH [OF s(3), of k "zSql @ attached (r ! 1)"] Cons.prems show ?case
    by (auto simp: attached_def Let_def)
qed

lemma tables_rows_reads:
  assumes "delivers eng (map (\<lambda>n. [n]) names) d st d' st'" and "length names < fuel" and "length az \<le> na"
  shows "tables_rows fuel eng na az d (Some st) = Inr (az @ names, d', Some st')"
  using assms
proof (induction names arbitrary: fuel na az d st)
  case Nil
  then show ?case by (cases fuel) (auto simp: SQLITE_DONE_def SQLITE_ROW_def)
next
  case (Cons n names)
  then obtain k where k: "fuel = Suc k" by (cases fuel) auto
  obtain d1 st1 where s: "step eng d st = (SQLITE_ROW, d1, st1)" "at_row eng [n] st1"
    "delivers eng (map (\<lambda>n. [n]) names) d1 st1 d' st'"
    using Cons.prems(1) by auto
  have "column_text eng st1 0 = Some n" using s(2) by (auto simp: at_row_def)
  with k s Cons.IH [OF s(3)] Cons.prems(2,3) show ?case by (auto simp: Let_def or_else_def)
qed

section \<open>The command\<close>

text \<open>C16: \<open>.tables\<close> prints every name the library delivers exactly once, and on lines that fit. For every list of attached
  databases the library delivers, the statement it prepares asks each of them for its tables and views; for every list of names
  that statement delivers, however long the names are, what is printed is a grid that is filled column by column, its cells as wide as
  the longest name, and holds the same names as often; no line has more than 78 characters, unless one name alone has. The
  array never overflows.\<close>

theorem tables_command_lists:
  assumes "prepare eng (ensure_open env (conn p)) ''PRAGMA database_list'' = (SQLITE_OK, d1, Some st1, rest1)"
    and "delivers eng dbs d1 st1 d2 st2" and "\<forall>r \<in> set dbs. 2 \<le> length r" and "finalize eng d2 (Some st2) = (SQLITE_OK, d3)"
    and "prepare eng d3 (tables_sql (map (\<lambda>r. r ! 1) dbs)) = (SQLITE_OK, d4, Some st4, rest4)"
    and "delivers eng (map (\<lambda>n. [n]) names) d4 (bind_text env st4 (if length azArg > 1 then azArg ! 1 else ''%'')) d5 st5"
    and "finalize eng d5 (Some st5) = (SQLITE_OK, d6)"
    and "length dbs < fuel" and "length names < fuel" and "\<forall>n \<in> set names. length n < 2 ^ 30"
  shows "\<exists>rows. tables_command fuel eng env azArg p = Inr (0, [], p\<lparr>conn := d6,
      so := print_out (so p) (concat (map (\<lambda>r. side_by_side (max_length names) r @ ''\<newline>'') rows))\<rparr>) \<and>
    rows = column_major (length rows) names \<and> mset (concat rows) = mset names \<and>
    (\<forall>r \<in> set rows. length (side_by_side (max_length names) r) \<le> max 78 (max_length names))"
proof -
  let ?rows = "if names = [] then [] else column_major (print_rows names) names"
  have q: "tables_query fuel eng (''SELECT name FROM sqlite_master'' @ names_where) d1 (Some st1) =
      Inr (''SELECT name FROM sqlite_master'' @ names_where @ concat (map attached (map (\<lambda>r. r ! 1) dbs)), d2, Some st2)"
    using tables_query_reads [OF assms(2,3,8)] by (simp add: comp_def)
  have r: "tables_rows fuel eng 0 [] d4 (Some (bind_text env st4 (if length azArg > 1 then azArg ! 1 else ''%''))) =
      Inr (names, d5, Some st5)"
    using tables_rows_reads [OF assms(6,9), of "[]" 0] by simp
  have "tables_command fuel eng env azArg p = Inr (0, [], p\<lparr>conn := d6,
      so := print_out (so p) (concat (map (\<lambda>r. side_by_side (max_length names) r @ ''\<newline>'') ?rows))\<rparr>)"
    using q r assms(1,4,5,7) tables_text_grid [of names] by (simp add: tables_command_def tables_sql_def SQLITE_OK_def)
  moreover have "?rows = column_major (length ?rows) names" by (simp add: column_major_def)
  moreover have "mset (concat ?rows) = mset names" using mset_column_major print_rows_bounds(1) [of names] by auto
  moreover have "\<forall>r \<in> set ?rows. length (side_by_side (max_length names) r) \<le> max 78 (max_length names)"
    using line_fits [OF assms(10)] by simp
  ultimately show ?thesis by blast
qed

section \<open>Three tables\<close>

text \<open>A library with one more database attached; a statement is the rows it still has and the row it is at.\<close>

definition listing_rows :: "string \<Rightarrow> string list list" where
  "listing_rows z =
     (if z = ''PRAGMA database_list'' then [[''0'', ''main'', ''shop.db''], [''2'', ''old'', ''old.db'']]
      else if z = tables_sql [''main'', ''old''] then [[''old.orders''], [''orders''], [''products'']]
      else [])"

definition listing_engine :: "(unit, string list list \<times> string list) sqlite_api" where
  "listing_engine = \<lparr>prepare = (\<lambda>d z. (0, d, Some (listing_rows z, []), [])),
     step = (\<lambda>d st. case fst st of [] \<Rightarrow> (101, d, st) | r # rs \<Rightarrow> (100, d, (rs, r))),
     reset = (\<lambda>st. st), finalize = (\<lambda>d st. (0, d)), column_count = (\<lambda>st. length (snd st)), column_name = (\<lambda>st i. None),
     column_text = (\<lambda>st i. Some (snd st ! i)), column_type = (\<lambda>st i. SQLITE_TEXT), column_int = (\<lambda>st i. 0),
     column_blob = (\<lambda>st i. []), stmt_sql = (\<lambda>st. None), errmsg = (\<lambda>d. []), changes = (\<lambda>d. 0), total_changes = (\<lambda>d. 0),
     complete = (\<lambda>z. True), strlike = (\<lambda>p z. False), strnieq = (\<lambda>a b n. False)\<rparr>"

definition listing_env :: "(unit, string list list \<times> string list) info_env" where
  "listing_env = \<lparr>ensure_open = (\<lambda>d. d), bind_text = (\<lambda>st z. st), query = (\<lambda>d s z. ([], [], 0, None, d)),
     limit_of = (\<lambda>d l n. (0, d)), same_word = (=), read_header = (\<lambda>d z. None)\<rparr>"

definition listing_shell :: "unit shell_state" where
  "listing_shell = \<lparr>conn = (), so = sample_out, echoOn = False, autoExplain = False, autoEQP = False, statsOn = False,
     scanstatsOn = False, countChanges = False, backslashOn = False, outCount = 0\<rparr>"

lemma tables_command_lists_witness:
  "\<exists>rows. tables_command 9 listing_engine listing_env [''tables''] listing_shell = Inr (0, [], listing_shell\<lparr>
      so := print_out sample_out (concat (map (\<lambda>r. side_by_side 10 r @ ''\<newline>'') rows))\<rparr>) \<and>
    mset (concat rows) = mset [''old.orders'', ''orders'', ''products'']"
proof -
  let ?names = "[''old.orders'', ''orders'', ''products'']"
  have rows: "listing_rows (tables_sql [''main'', ''old'']) = [[''old.orders''], [''orders''], [''products'']]"
    by (simp add: listing_rows_def tables_sql_def)
  have "max_length ?names = 10" by (simp add: max_length_def strlen30_def)
  moreover have "\<exists>rows. tables_command 9 listing_engine listing_env [''tables''] listing_shell = Inr (0, [], listing_shell\<lparr>conn := (),
      so := print_out (so listing_shell) (concat (map (\<lambda>r. side_by_side (max_length ?names) r @ ''\<newline>'') rows))\<rparr>) \<and>
    rows = column_major (length rows) ?names \<and> mset (concat rows) = mset ?names \<and>
    (\<forall>r \<in> set rows. length (side_by_side (max_length ?names) r) \<le> max 78 (max_length ?names))"
    by (rule tables_command_lists [where dbs = "[[''0'', ''main'', ''shop.db''], [''2'', ''old'', ''old.db'']]" and ?rest1.0 = "[]"
          and ?st1.0 = "(listing_rows ''PRAGMA database_list'', [])" and ?st4.0 = "(listing_rows (tables_sql [''main'', ''old'']), [])"
          and ?rest4.0 = "[]" and ?st2.0 = "([], [''2'', ''old'', ''old.db''])"
          and ?st5.0 = "([], [''products''])"])
      (simp_all add: listing_engine_def listing_env_def listing_shell_def rows at_row_def SQLITE_OK_def SQLITE_ROW_def
        SQLITE_DONE_def All_less_Suc, simp_all add: listing_rows_def)
  ultimately show ?thesis by (auto simp: listing_shell_def)
qed

end
