(* ===== verification/ShellClone.thy ===== *)
theory ShellClone
  imports ShellImportCmd
begin

text \<open>
  The command \<open>.clone\<close> of \<^verbatim>\<open>database/SQLite/shell.c\<close>: \<open>tryToCloneData\<close>, \<open>tryToCloneSchema\<close> and \<open>tryToClone\<close>. Both
  connections are values of one type, the library is the same. What it is asked beyond \<open>sqlite_api\<close> is in a record of its own:
  \<open>insert_values\<close> binds the values, steps and resets the prepared INSERT, \<open>run_sql\<close> is \<open>sqlite3_exec\<close> without a callback.
\<close>

section \<open>Values and the environment\<close>

datatype sql_value = SQL_Null | SQL_Integer int | SQL_Float "64 word" | SQL_Text string | SQL_Blob string

record ('db, 'st) clone_env =
  column_int64 :: "'st \<Rightarrow> nat \<Rightarrow> int"
  column_double :: "'st \<Rightarrow> nat \<Rightarrow> 64 word"
  column_bytes :: "'st \<Rightarrow> nat \<Rightarrow> string"
  insert_values :: "'st option \<Rightarrow> 'db \<Rightarrow> sql_value list \<Rightarrow> int \<times> 'db"
  extended_errcode :: "'db \<Rightarrow> int"
  run_sql :: "'db \<Rightarrow> string option \<Rightarrow> string option \<times> 'db"
  file_exists :: "string \<Rightarrow> bool"
  open_new :: "string \<Rightarrow> int \<times> 'db"

text \<open>Both connections, and what went to standard output and to standard error.\<close>

record 'db cloning =
  old_db :: 'db
  new_db :: 'db
  said :: string
  warned :: string

definition warn :: "'db cloning \<Rightarrow> string \<Rightarrow> 'db cloning" where
  "warn s t = s\<lparr>warned := warned s @ t\<rparr>"

definition say :: "'db cloning \<Rightarrow> string \<Rightarrow> 'db cloning" where
  "say s t = s\<lparr>said := said s @ t\<rparr>"

definition finalize_old :: "('db, 'st) sqlite_api \<Rightarrow> 'st option \<Rightarrow> 'db cloning \<Rightarrow> 'db cloning" where
  "finalize_old eng st s = s\<lparr>old_db := snd (finalize eng (old_db s) st)\<rparr>"

definition finalize_new :: "('db, 'st) sqlite_api \<Rightarrow> 'st option \<Rightarrow> 'db cloning \<Rightarrow> 'db cloning" where
  "finalize_new eng st s = s\<lparr>new_db := snd (finalize eng (new_db s) st)\<rparr>"

section \<open>The rows of a table\<close>

text \<open>The value that is bound for a column, \<open>v\<close> being bound before. A text is bound with the length -1, up to its first NUL.\<close>

definition column_value :: "('db, 'st) sqlite_api \<Rightarrow> ('db, 'st) clone_env \<Rightarrow> 'st \<Rightarrow> nat \<Rightarrow> sql_value \<Rightarrow> sql_value" where
  "column_value eng env st i v =
     (let t = column_type eng st i in
      if t = SQLITE_NULL then SQL_Null
      else if t = SQLITE_INTEGER then SQL_Integer (column_int64 env st i)
      else if t = SQLITE_FLOAT then SQL_Float (column_double env st i)
      else if t = SQLITE_TEXT then (case column_text eng st i of None \<Rightarrow> SQL_Null | Some z \<Rightarrow> SQL_Text (up_to_nul z))
      else if t = SQLITE_BLOB then SQL_Blob (column_bytes env st i)
      else v)"

definition bind_values :: "('db, 'st) sqlite_api \<Rightarrow> ('db, 'st) clone_env \<Rightarrow> 'st \<Rightarrow> sql_value list \<Rightarrow> sql_value list" where
  "bind_values eng env st vs = map (\<lambda>i. column_value eng env st i (vs ! i)) [0..<length vs]"

definition spinRate :: int where "spinRate = 10000"

definition spin :: "int \<Rightarrow> string" where
  "spin n = (if n mod spinRate = 0 then [(''|/-'' @ [CHR 0x5C]) ! nat (n div spinRate mod 4), CHR 0x08] else [])"

text \<open>\<open>while( (rc = sqlite3_step(pQuery))==SQLITE_ROW )\<close>\<close>

fun clone_rows :: "nat \<Rightarrow> ('db, 'st) sqlite_api \<Rightarrow> ('db, 'st) clone_env \<Rightarrow> 'st option \<Rightarrow> sql_value list \<Rightarrow> int \<Rightarrow> 'st \<Rightarrow> 'db cloning
    \<Rightarrow> (int \<times> sql_value list \<times> int \<times> 'st \<times> 'db cloning) c_result" where
  "clone_rows 0 eng env pInsert vs n st s = Inl No_return"
| "clone_rows (Suc fuel) eng env pInsert vs n st s =
     (let (rc, d, st) = step eng (old_db s) st; s = s\<lparr>old_db := d\<rparr> in
      if rc = SQLITE_ROW then
        let vs = bind_values eng env st vs;
            (rc, d) = insert_values env pInsert (new_db s) vs; s = s\<lparr>new_db := d\<rparr>;
            s = (if rc \<noteq> SQLITE_OK \<and> rc \<noteq> SQLITE_ROW \<and> rc \<noteq> SQLITE_DONE
                 then warn s (''Error '' @ dec_int (extended_errcode env d) @ '': '' @ errmsg eng d @ ''\<newline>'') else s) in
        c_bind (int_add n 1) (\<lambda>n. clone_rows fuel eng env pInsert vs n st (say s (spin n)))
      else Inr (rc, vs, n, st, s))"

definition select_all :: "string \<Rightarrow> string" where
  "select_all zTable = ''SELECT * FROM '' @ [CHR 0x22] @ in_quotes zTable @ [CHR 0x22]"

definition select_backwards :: "string \<Rightarrow> string" where
  "select_backwards zTable = select_all zTable @ '' ORDER BY rowid DESC;''"

text \<open>
  \<open>for(k=0; k<2; k++)\<close>, with the passes that are left; a statement that is null gives \<open>SQLITE_MISUSE\<close> when it is stepped. The
  statement that is current in the end.
\<close>

fun clone_passes :: "nat \<Rightarrow> nat \<Rightarrow> ('db, 'st) sqlite_api \<Rightarrow> ('db, 'st) clone_env \<Rightarrow> string \<Rightarrow> 'st option \<Rightarrow> sql_value list \<Rightarrow> int
    \<Rightarrow> 'st option \<Rightarrow> 'db cloning \<Rightarrow> ('st option \<times> 'db cloning) c_result" where
  "clone_passes 0 fuel eng env zTable pInsert vs n pQuery s = Inr (pQuery, s)"
| "clone_passes (Suc k) fuel eng env zTable pInsert vs n pQuery s =
     c_bind (case pQuery of
         None \<Rightarrow> Inr (21, vs, n, None, s)
       | Some st \<Rightarrow> c_bind (clone_rows fuel eng env pInsert vs n st s) (\<lambda>(rc, vs, n, st, s). Inr (rc, vs, n, Some st, s)))
       (\<lambda>(rc, vs, n, pQuery, s).
     if rc = SQLITE_DONE then Inr (pQuery, s)
     else
       let s = finalize_old eng pQuery s;
           (rc, d, pQuery, _) = prepare eng (old_db s) (select_backwards zTable); s = s\<lparr>old_db := d\<rparr> in
       if rc \<noteq> 0 then Inr (pQuery, warn s (''Warning: cannot step '' @ [CHR 0x22] @ zTable @ [CHR 0x22] @ '' backwards''))
       else clone_passes k fuel eng env zTable pInsert vs n pQuery s)"

text \<open>The text of the INSERT, in the block it is allotted. The name is not doubled where it has a quote.\<close>

definition clone_insert :: "string \<Rightarrow> nat \<Rightarrow> string" where
  "clone_insert zTable n =
     take (199 + length zTable) (''INSERT OR IGNORE INTO '' @ [CHR 0x22] @ zTable @ [CHR 0x22] @ '' VALUES(?'') @
     concat (replicate (n - 1) '',?'') @ '');''"

definition query_error :: "('db, 'st) sqlite_api \<Rightarrow> ('db, 'st) clone_env \<Rightarrow> 'db \<Rightarrow> string \<Rightarrow> string" where
  "query_error eng env d zQuery =
     ''Error '' @ dec_int (extended_errcode env d) @ '': '' @ errmsg eng d @ '' on ['' @ zQuery @ '']\<newline>''"

definition tryToCloneData :: "nat \<Rightarrow> ('db, 'st) sqlite_api \<Rightarrow> ('db, 'st) clone_env \<Rightarrow> string \<Rightarrow> 'db cloning \<Rightarrow> 'db cloning c_result" where
  "tryToCloneData fuel eng env zTable s =
     (let (rc, d, pQuery, _) = prepare eng (old_db s) (select_all zTable); s = s\<lparr>old_db := d\<rparr> in
      if rc \<noteq> 0 then Inr (finalize_old eng pQuery (warn s (query_error eng env d (select_all zTable))))
      else
        let n = (case pQuery of None \<Rightarrow> 0 | Some st \<Rightarrow> column_count eng st) in
        c_bind (int_add 200 (to_int (int (length zTable)))) (\<lambda>_.
        c_bind (store_string (200 + length zTable + n * 3) (clone_insert zTable n)) (\<lambda>zInsert.
        let (rc, d, pInsert, _) = prepare eng (new_db s) zInsert; s = s\<lparr>new_db := d\<rparr> in
        if rc \<noteq> 0 then
          Inr (finalize_new eng pInsert (finalize_old eng pQuery (warn s (query_error eng env d (select_all zTable)))))
        else
          c_bind (clone_passes 2 fuel eng env zTable pInsert (replicate n SQL_Null) 0 pQuery s) (\<lambda>(pQuery, s).
          Inr (finalize_new eng pInsert (finalize_old eng pQuery s))))))"

section \<open>The schema\<close>

text \<open>One row of the schema: its statement is run in the new database and \<open>xForEach\<close> called on its name.\<close>

definition clone_object :: "('db, 'st) sqlite_api \<Rightarrow> ('db, 'st) clone_env \<Rightarrow> (string \<Rightarrow> 'db cloning \<Rightarrow> 'db cloning c_result) option
    \<Rightarrow> 'st \<Rightarrow> 'db cloning \<Rightarrow> 'db cloning c_result" where
  "clone_object eng env xForEach st s =
     c_bind (str_arg (column_text eng st 0)) (\<lambda>zName.
     let zSql = column_text eng st 1; s = say s (zName @ ''... ''); (zErrMsg, d) = run_sql env (new_db s) zSql; s = s\<lparr>new_db := d\<rparr> in
     c_bind (case zErrMsg of
         None \<Rightarrow> Inr s
       | Some e \<Rightarrow> c_bind (str_arg zSql) (\<lambda>z. Inr (warn s (''Error: '' @ e @ ''\<newline>SQL: ['' @ z @ '']\<newline>'')))) (\<lambda>s.
     c_bind (case xForEach of None \<Rightarrow> Inr s | Some f \<Rightarrow> f zName s) (\<lambda>s.
     Inr (say s ''done\<newline>''))))"

fun clone_objects :: "nat \<Rightarrow> ('db, 'st) sqlite_api \<Rightarrow> ('db, 'st) clone_env \<Rightarrow> (string \<Rightarrow> 'db cloning \<Rightarrow> 'db cloning c_result) option
    \<Rightarrow> 'st option \<Rightarrow> 'db cloning \<Rightarrow> (int \<times> 'st option \<times> 'db cloning) c_result" where
  "clone_objects 0 eng env xForEach pQuery s = Inl No_return"
| "clone_objects (Suc fuel) eng env xForEach None s = Inr (21, None, s)"
| "clone_objects (Suc fuel) eng env xForEach (Some st) s =
     (let (rc, d, st) = step eng (old_db s) st; s = s\<lparr>old_db := d\<rparr> in
      if rc = SQLITE_ROW then
        c_bind (clone_object eng env xForEach st s) (\<lambda>s. clone_objects fuel eng env xForEach (Some st) s)
      else Inr (rc, Some st, s))"

definition schema_select :: "string \<Rightarrow> string" where
  "schema_select zWhere = ''SELECT name, sql FROM sqlite_master WHERE '' @ zWhere"

definition schema_error :: "('db, 'st) sqlite_api \<Rightarrow> ('db, 'st) clone_env \<Rightarrow> 'db \<Rightarrow> string \<Rightarrow> string" where
  "schema_error eng env d zQuery =
     ''Error: ('' @ dec_int (extended_errcode env d) @ '') '' @ errmsg eng d @ '' on ['' @ zQuery @ '']\<newline>''"

definition tryToCloneSchema :: "nat \<Rightarrow> ('db, 'st) sqlite_api \<Rightarrow> ('db, 'st) clone_env \<Rightarrow> string
    \<Rightarrow> (string \<Rightarrow> 'db cloning \<Rightarrow> 'db cloning c_result) option \<Rightarrow> 'db cloning \<Rightarrow> 'db cloning c_result" where
  "tryToCloneSchema fuel eng env zWhere xForEach s =
     (let zQuery = schema_select zWhere; (rc, d, pQuery, _) = prepare eng (old_db s) zQuery; s = s\<lparr>old_db := d\<rparr> in
      if rc \<noteq> 0 then Inr (finalize_old eng pQuery (warn s (schema_error eng env d zQuery)))
      else
        c_bind (clone_objects fuel eng env xForEach pQuery s) (\<lambda>(rc, pQuery, s).
        if rc \<noteq> SQLITE_DONE then
          let s = finalize_old eng pQuery s; zQuery = schema_select zWhere @ '' ORDER BY rowid DESC'';
              (rc, d, pQuery, _) = prepare eng (old_db s) zQuery; s = s\<lparr>old_db := d\<rparr> in
          if rc \<noteq> 0 then Inr (finalize_old eng pQuery (warn s (schema_error eng env d zQuery)))
          else c_bind (clone_objects fuel eng env xForEach pQuery s) (\<lambda>(rc, pQuery, s). Inr (finalize_old eng pQuery s))
        else Inr (finalize_old eng pQuery s)))"

section \<open>The command\<close>

definition run_old :: "('db, 'st) clone_env \<Rightarrow> string \<Rightarrow> 'db cloning \<Rightarrow> 'db cloning" where
  "run_old env z s = s\<lparr>old_db := snd (run_sql env (old_db s) (Some z))\<rparr>"

definition run_new :: "('db, 'st) clone_env \<Rightarrow> string \<Rightarrow> 'db cloning \<Rightarrow> 'db cloning" where
  "run_new env z s = s\<lparr>new_db := snd (run_sql env (new_db s) (Some z))\<rparr>"

definition type_table :: string where "type_table = ''type='' @ [CHR 0x27] @ ''table'' @ [CHR 0x27]"
definition type_other :: string where "type_other = ''type!='' @ [CHR 0x27] @ ''table'' @ [CHR 0x27]"

text \<open>The new database as it is closed, if it came to be made.\<close>

definition tryToClone :: "nat \<Rightarrow> ('db, 'st) sqlite_api \<Rightarrow> ('db, 'st) clone_env \<Rightarrow> string \<Rightarrow> 'db
    \<Rightarrow> (string \<times> string \<times> 'db \<times> 'db option) c_result" where
  "tryToClone fuel eng env zNewDb d =
     (if file_exists env zNewDb
      then Inr ([], ''File '' @ [CHR 0x22] @ zNewDb @ [CHR 0x22] @ '' already exists.\<newline>'', d, None)
      else
        let (rc, e) = open_new env zNewDb in
        if rc \<noteq> 0 then Inr ([], ''Cannot create output database: '' @ errmsg eng e @ ''\<newline>'', d, Some e)
        else
          let s = run_new env ''BEGIN EXCLUSIVE;'' (run_old env ''PRAGMA writable_schema=ON;''
            \<lparr>old_db = d, new_db = e, said = [], warned = []\<rparr>) in
          c_bind (tryToCloneSchema fuel eng env type_table (Some (tryToCloneData fuel eng env)) s) (\<lambda>s.
          c_bind (tryToCloneSchema fuel eng env type_other None s) (\<lambda>s.
          let s = run_old env ''PRAGMA writable_schema=OFF;'' (run_new env ''COMMIT;'' s) in
          Inr (said s, warned s, old_db s, Some (new_db s)))))"

text \<open>The result code, standard output, standard error, the state and the new database.\<close>

definition clone_command :: "nat \<Rightarrow> ('db, 'st) sqlite_api \<Rightarrow> ('db, 'st) clone_env \<Rightarrow> string list \<Rightarrow> 'db shell_state
    \<Rightarrow> (int \<times> string \<times> string \<times> 'db shell_state \<times> 'db option) c_result" where
  "clone_command fuel eng env azArg p =
     (if length azArg = 2 then
        c_bind (tryToClone fuel eng env (azArg ! 1) (conn p)) (\<lambda>(t, err, d, e). Inr (0, t, err, p\<lparr>conn := d\<rparr>, e))
      else Inr (1, [], ''Usage: .clone FILENAME\<newline>'', p, None))"

end
