(* ===== verification/ShellCloneProps.thy ===== *)
theory ShellCloneProps
  imports ShellClone
begin

text \<open>
  What \<open>.clone\<close> rescues. The old database may be corrupt: a statement delivers some rows and then breaks off. The new one
  is known by the list of what it was made to do.
\<close>

section \<open>The two databases\<close>

fun stands :: "('db, 'st) sqlite_api \<Rightarrow> ('db, 'st) clone_env \<Rightarrow> 'st \<Rightarrow> nat \<Rightarrow> sql_value \<Rightarrow> bool" where
  "stands eng env st i SQL_Null \<longleftrightarrow> column_type eng st i = SQLITE_NULL"
| "stands eng env st i (SQL_Integer k) \<longleftrightarrow> column_type eng st i = SQLITE_INTEGER \<and> column_int64 env st i = k"
| "stands eng env st i (SQL_Float x) \<longleftrightarrow> column_type eng st i = SQLITE_FLOAT \<and> column_double env st i = x"
| "stands eng env st i (SQL_Text z) \<longleftrightarrow> column_type eng st i = SQLITE_TEXT \<and> column_text eng st i = Some z \<and> CHR 0x00 \<notin> set z"
| "stands eng env st i (SQL_Blob b) \<longleftrightarrow> column_type eng st i = SQLITE_BLOB \<and> column_bytes env st i = b"

definition row_is :: "('db, 'st) sqlite_api \<Rightarrow> ('db, 'st) clone_env \<Rightarrow> nat \<Rightarrow> sql_value list \<Rightarrow> 'st \<Rightarrow> bool" where
  "row_is eng env n r st \<longleftrightarrow> length r = n \<and> (\<forall>i < n. stands eng env st i (r ! i))"

definition object_is :: "('db, 'st) sqlite_api \<Rightarrow> string \<times> string \<Rightarrow> 'st \<Rightarrow> bool" where
  "object_is eng ob st \<longleftrightarrow> column_text eng st 0 = Some (fst ob) \<and> column_text eng st 1 = Some (snd ob)"

text \<open>The statement delivers these rows and then ends with the code, on every connection in \<open>I\<close>.\<close>

fun breaks_off :: "('db, 'st) sqlite_api \<Rightarrow> ('db \<Rightarrow> bool) \<Rightarrow> ('r \<Rightarrow> 'st \<Rightarrow> bool) \<Rightarrow> int \<Rightarrow> 'r list \<Rightarrow> 'st \<Rightarrow> bool" where
  "breaks_off eng I P rc [] st \<longleftrightarrow> rc \<noteq> SQLITE_ROW \<and> (\<forall>d. I d \<longrightarrow> fst (step eng d st) = rc)"
| "breaks_off eng I P rc (r # rs) st \<longleftrightarrow>
     (\<forall>d. I d \<longrightarrow> (case step eng d st of (rc', d', st') \<Rightarrow> rc' = SQLITE_ROW \<and> P r st' \<and> breaks_off eng I P rc rs st'))"

text \<open>Reading the old database leaves it in \<open>I\<close>, where the statement \<open>z\<close> has \<open>n\<close> columns and delivers these rows.\<close>

definition reads_only :: "('db, 'st) sqlite_api \<Rightarrow> ('db, 'st) clone_env \<Rightarrow> ('db \<Rightarrow> bool) \<Rightarrow> bool" where
  "reads_only eng env I \<longleftrightarrow> (\<forall>d st. I d \<longrightarrow> I (fst (snd (step eng d st)))) \<and> (\<forall>d st. I d \<longrightarrow> I (snd (finalize eng d st))) \<and>
     (\<forall>d z. I d \<longrightarrow> I (snd (run_sql env d z)))"

definition delivered :: "('db, 'st) sqlite_api \<Rightarrow> ('db \<Rightarrow> bool) \<Rightarrow> nat \<Rightarrow> ('r \<Rightarrow> 'st \<Rightarrow> bool) \<Rightarrow> string \<Rightarrow> 'r list \<Rightarrow> int \<Rightarrow> bool" where
  "delivered eng I n P z rs rc \<longleftrightarrow> (\<forall>d. I d \<longrightarrow> (\<exists>d' st l. prepare eng d z = (SQLITE_OK, d', Some st, l) \<and> I d' \<and>
     column_count eng st = n \<and> breaks_off eng I P rc rs st))"

text \<open>What the new database was made to do: statements, and rows given to an INSERT.\<close>

definition obeys :: "('db, 'st) sqlite_api \<Rightarrow> ('db, 'st) clone_env \<Rightarrow> ('db \<Rightarrow> bool) \<Rightarrow> ('db \<Rightarrow> (string \<times> sql_value list) list) \<Rightarrow> bool" where
  "obeys eng env J ev \<longleftrightarrow>
     (\<forall>d t n. J d \<longrightarrow> (\<exists>d' st l. prepare eng d (clone_insert t n) = (SQLITE_OK, d', Some st, l) \<and> J d' \<and> ev d' = ev d \<and>
        stmt_sql eng st = Some (clone_insert t n))) \<and>
     (\<forall>d st z vs. J d \<and> stmt_sql eng st = Some z \<longrightarrow>
        (\<exists>d'. insert_values env (Some st) d vs = (SQLITE_DONE, d') \<and> J d' \<and> ev d' = ev d @ [(z, vs)])) \<and>
     (\<forall>d st. J d \<longrightarrow> J (snd (finalize eng d st)) \<and> ev (snd (finalize eng d st)) = ev d) \<and>
     (\<forall>d z. J d \<longrightarrow> (\<exists>d'. run_sql env d (Some z) = (None, d') \<and> J d' \<and> ev d' = ev d @ [(z, [])]))"

text \<open>Both are in order, and the new one has done this since.\<close>

definition went_on :: "('db \<Rightarrow> bool) \<Rightarrow> ('db \<Rightarrow> bool) \<Rightarrow> ('db \<Rightarrow> (string \<times> sql_value list) list) \<Rightarrow> (string \<times> sql_value list) list
    \<Rightarrow> 'db cloning \<Rightarrow> 'db cloning \<Rightarrow> bool" where
  "went_on I J ev es s s' \<longleftrightarrow> I (old_db s') \<and> J (new_db s') \<and> ev (new_db s') = ev (new_db s) @ es"

lemma went_on_trans: "went_on I J ev es s s' \<Longrightarrow> went_on I J ev fs s' s'' \<Longrightarrow> went_on I J ev (es @ fs) s s''"
  by (simp add: went_on_def)

lemma reads_step: "reads_only eng env I \<Longrightarrow> I d \<Longrightarrow> step eng d st = (rc, d', st') \<Longrightarrow> I d'"
  by (metis fst_conv snd_conv reads_only_def)

lemma breaks_off_end: "breaks_off eng I P rc [] st \<Longrightarrow> I d \<Longrightarrow> \<exists>d' st'. step eng d st = (rc, d', st') \<and> rc \<noteq> SQLITE_ROW"
  by (metis breaks_off.simps(1) fst_conv surj_pair)

section \<open>Rows\<close>

lemma up_to_nul_all: "CHR 0x00 \<notin> set z \<Longrightarrow> up_to_nul z = z"
  by (auto simp: up_to_nul_def takeWhile_eq_all_conv)

lemma column_value_shown: "stands eng env st i v \<Longrightarrow> column_value eng env st i w = v"
  by (cases v) (auto simp: column_value_def sqlite_type_defs up_to_nul_all)

lemma bind_values_row: "row_is eng env n r st \<Longrightarrow> length vs = n \<Longrightarrow> bind_values eng env st vs = r"
  by (auto simp: bind_values_def row_is_def column_value_shown intro: nth_equalityI)

lemma clone_rows_inserts:
  assumes "obeys eng env J ev" and "reads_only eng env I" and "breaks_off eng I (row_is eng env m) rc rs st"
    and "I (old_db s)" and "J (new_db s)" and "stmt_sql eng ip = Some z" and "length vs = m" and "0 \<le> n"
    and "n + int (length rs) < 2 ^ 31" and "length rs < fuel"
  shows "\<exists>vs' st' s'. clone_rows fuel eng env (Some ip) vs n st s = Inr (rc, vs', n + int (length rs), st', s') \<and>
    length vs' = m \<and> went_on I J ev (map (\<lambda>r. (z, r)) rs) s s'"
  using assms(3-5,7-10)
proof (induction rs arbitrary: vs n st s fuel)
  case Nil
  then obtain k where "fuel = Suc k" by (cases fuel) auto
  moreover obtain d' st' where "step eng (old_db s) st = (rc, d', st')" "rc \<noteq> SQLITE_ROW"
    using breaks_off_end [of eng I _ rc st "old_db s"] Nil.prems(1,2) by auto
  ultimately show ?case using Nil.prems reads_step [OF assms(2) Nil.prems(2)] by (auto simp: went_on_def)
next
  case (Cons r rs)
  then obtain k where k: "fuel = Suc k" "length rs < k" by (cases fuel) auto
  obtain d st1 where s1: "step eng (old_db s) st = (SQLITE_ROW, d, st1)" "row_is eng env m r st1"
    "breaks_off eng I (row_is eng env m) rc rs st1"
    using Cons.prems(1,2) by fastforce
  note d = reads_step [OF assms(2) Cons.prems(2) s1(1)]
  have b: "bind_values eng env st1 vs = r" by (rule bind_values_row [OF s1(2) Cons.prems(4)])
  obtain e where e: "insert_values env (Some ip) (new_db s) r = (SQLITE_DONE, e)" "J e" "ev e = ev (new_db s) @ [(z, r)]"
    using assms(1,6) Cons.prems(3) unfolding obeys_def by blast
  let ?s = "say (s\<lparr>old_db := d, new_db := e\<rparr>) (spin (n + 1))"
  have "length r = m" using s1(2) by (simp add: row_is_def)
  moreover have "int_add n 1 = Inr (n + 1)" using Cons.prems(5,6) by (simp add: int_add_def in_int_def)
  ultimately show ?case
    using Cons.IH [where s = ?s and st = st1 and vs = r and n = "n + 1" and fuel = k] k s1 b e d Cons.prems(5,6)
    by (simp add: say_def went_on_def Let_def) (fastforce simp: algebra_simps)
qed

section \<open>A table\<close>

text \<open>A table of the old database: what is delivered of it from either end, and how that ends.\<close>

record damaged_table =
  its_name :: string
  its_sql :: string
  its_columns :: nat
  forwards :: "sql_value list list"
  stopped :: int
  backwards :: "sql_value list list"
  stopped_back :: int

definition rescued :: "damaged_table \<Rightarrow> sql_value list list" where
  "rescued t = forwards t @ (if stopped t = SQLITE_DONE then [] else backwards t)"

definition readable_table :: "nat \<Rightarrow> ('db, 'st) sqlite_api \<Rightarrow> ('db, 'st) clone_env \<Rightarrow> ('db \<Rightarrow> bool) \<Rightarrow> damaged_table \<Rightarrow> bool" where
  "readable_table fuel eng env I t \<longleftrightarrow>
     delivered eng I (its_columns t) (row_is eng env (its_columns t)) (select_all (its_name t)) (forwards t) (stopped t) \<and>
     (stopped t \<noteq> SQLITE_DONE \<longrightarrow> delivered eng I (its_columns t) (row_is eng env (its_columns t))
        (select_backwards (its_name t)) (backwards t) (stopped_back t)) \<and>
     length (its_name t) < 2 ^ 30 \<and> length (forwards t) + length (backwards t) < 2 ^ 31 \<and>
     length (forwards t) < fuel \<and> length (backwards t) < fuel"

definition insert_of :: "damaged_table \<Rightarrow> string" where
  "insert_of t = clone_insert (its_name t) (its_columns t)"

lemma clone_passes_rescue:
  assumes ob: "obeys eng env J ev" and rd: "reads_only eng env I" and t: "readable_table fuel eng env I t"
    and st: "breaks_off eng I (row_is eng env (its_columns t)) (stopped t) (forwards t) st"
    and s: "I (old_db s)" "J (new_db s)" and ip: "stmt_sql eng ip = Some z"
  shows "\<exists>pQuery s'. clone_passes 2 fuel eng env (its_name t) (Some ip) (replicate (its_columns t) SQL_Null) 0 (Some st) s =
    Inr (pQuery, s') \<and> went_on I J ev (map (\<lambda>r. (z, r)) (rescued t)) s s'"
proof -
  have bounds: "length (forwards t) + length (backwards t) < 2 ^ 31" "length (forwards t) < fuel" "length (backwards t) < fuel"
    using t by (simp_all add: readable_table_def)
  have "0 + int (length (forwards t)) < 2 ^ 31" using bounds(1) by simp
  from clone_rows_inserts [OF ob rd st s ip length_replicate [of _ SQL_Null] order_refl this bounds(2)] obtain vs st1 s1 where
    one: "clone_rows fuel eng env (Some ip) (replicate (its_columns t) SQL_Null) 0 st s =
        Inr (stopped t, vs, int (length (forwards t)), st1, s1)" "length vs = its_columns t"
      "went_on I J ev (map (\<lambda>r. (z, r)) (forwards t)) s s1"
    by auto
  show ?thesis
  proof (cases "stopped t = SQLITE_DONE")
    case True
    with one show ?thesis by (simp add: numeral_2_eq_2 rescued_def)
  next
    case False
    let ?s = "finalize_old eng (Some st1) s1"
    have i: "I (old_db ?s)" using rd one(3) by (simp add: finalize_old_def reads_only_def went_on_def)
    obtain d st2 l where rear: "prepare eng (old_db ?s) (select_backwards (its_name t)) = (SQLITE_OK, d, Some st2, l)" "I d"
      "breaks_off eng I (row_is eng env (its_columns t)) (stopped_back t) (backwards t) st2"
      using t False i unfolding readable_table_def delivered_def by blast
    let ?s2 = "?s\<lparr>old_db := d\<rparr>"
    have "I (old_db ?s2)" "J (new_db ?s2)" "breaks_off eng I (row_is eng env (its_columns t)) (stopped_back t) (backwards t) st2"
      using rear one(3) by (simp_all add: finalize_old_def went_on_def)
    moreover have "int (length (forwards t)) + int (length (backwards t)) < 2 ^ 31" using bounds(1) by simp
    ultimately obtain vs2 st3 s3 where
      two: "clone_rows fuel eng env (Some ip) vs (int (length (forwards t))) st2 ?s2 =
          Inr (stopped_back t, vs2, int (length (forwards t)) + int (length (backwards t)), st3, s3)"
        "went_on I J ev (map (\<lambda>r. (z, r)) (backwards t)) ?s2 s3"
      using clone_rows_inserts [OF ob rd _ _ _ ip one(2) _ _ bounds(3), of "stopped_back t" st2 ?s2 "int (length (forwards t))"] by auto
    have all: "went_on I J ev (map (\<lambda>r. (z, r)) (rescued t)) s s3"
      using one(3) two(2) False by (simp add: went_on_def rescued_def finalize_old_def)
    show ?thesis
    proof (cases "stopped_back t = SQLITE_DONE")
      case True
      with one(1) two(1) rear(1) False all show ?thesis by (simp add: numeral_2_eq_2 SQLITE_OK_def)
    next
      case more: False
      let ?s4 = "finalize_old eng (Some st3) s3"
      have "I (old_db ?s4)" using rd all by (simp add: finalize_old_def reads_only_def went_on_def)
      then obtain d' st4 l' where again: "prepare eng (old_db ?s4) (select_backwards (its_name t)) = (SQLITE_OK, d', Some st4, l')" "I d'"
        using t False unfolding readable_table_def delivered_def by blast
      have "went_on I J ev (map (\<lambda>r. (z, r)) (rescued t)) s (?s4\<lparr>old_db := d'\<rparr>)"
        using all again(2) by (simp add: went_on_def finalize_old_def)
      with one(1) two(1) rear(1) again(1) False more show ?thesis by (simp add: numeral_2_eq_2 SQLITE_OK_def)
    qed
  qed
qed

lemma length_clone_insert: "length (clone_insert z n) + 1 \<le> 200 + length z + n * 3"
  by (cases n) (auto simp: clone_insert_def length_concat sum_list_replicate)

lemma tryToCloneData_rescues:
  assumes ob: "obeys eng env J ev" and rd: "reads_only eng env I" and t: "readable_table fuel eng env I t"
    and s: "I (old_db s)" "J (new_db s)"
  shows "\<exists>s'. tryToCloneData fuel eng env (its_name t) s = Inr s' \<and>
    went_on I J ev (map (\<lambda>r. (insert_of t, r)) (rescued t)) s s'"
proof -
  obtain d st l where fwd: "prepare eng (old_db s) (select_all (its_name t)) = (SQLITE_OK, d, Some st, l)" "I d"
    "column_count eng st = its_columns t"
    "breaks_off eng I (row_is eng env (its_columns t)) (stopped t) (forwards t) st"
    using t s(1) unfolding readable_table_def delivered_def by blast
  obtain e ip l' where ins: "prepare eng (new_db s) (insert_of t) = (SQLITE_OK, e, Some ip, l')" "J e" "ev e = ev (new_db s)"
    "stmt_sql eng ip = Some (insert_of t)"
    using ob s(2) unfolding obeys_def insert_of_def by blast
  let ?s = "s\<lparr>old_db := d, new_db := e\<rparr>"
  obtain pQuery s' where go: "clone_passes 2 fuel eng env (its_name t) (Some ip) (replicate (its_columns t) SQL_Null) 0 (Some st) ?s =
      Inr (pQuery, s')" "went_on I J ev (map (\<lambda>r. (insert_of t, r)) (rescued t)) ?s s'"
    using clone_passes_rescue [OF ob rd t, of st ?s ip "insert_of t"] fwd ins by auto
  have "int (length (its_name t)) < 2 ^ 30" using t by (simp add: readable_table_def)
  then have ok: "int_add 200 (to_int (int (length (its_name t)))) = Inr (200 + int (length (its_name t)))"
    by (simp add: int_add_def to_int_id in_int_def)
  have "went_on I J ev (map (\<lambda>r. (insert_of t, r)) (rescued t)) s (finalize_new eng (Some ip) (finalize_old eng pQuery s'))"
    using go(2) ob rd ins(3) unfolding went_on_def obeys_def reads_only_def by (auto simp: finalize_new_def finalize_old_def)
  with fwd(1,3) ins(1) go(1) ok show ?thesis using length_clone_insert [of "its_name t" "its_columns t"]
    by (simp add: tryToCloneData_def store_string_def insert_of_def SQLITE_OK_def)
qed

section \<open>The schema\<close>

lemma clone_object_runs:
  assumes "obeys eng env J ev" and "object_is eng ob st" and "I (old_db s)" and "J (new_db s)"
    and "\<And>s. I (old_db s) \<Longrightarrow> J (new_db s) \<Longrightarrow>
      \<exists>s'. (case each of None \<Rightarrow> Inr s | Some f \<Rightarrow> f (fst ob) s) = Inr s' \<and> went_on I J ev es s s'"
  shows "\<exists>s'. clone_object eng env each st s = Inr s' \<and> went_on I J ev ((snd ob, []) # es) s s'"
proof -
  obtain e where e: "run_sql env (new_db s) (Some (snd ob)) = (None, e)" "J e" "ev e = ev (new_db s) @ [(snd ob, [])]"
    using assms(1,4) unfolding obeys_def by blast
  let ?s = "(say s (fst ob @ ''... ''))\<lparr>new_db := e\<rparr>"
  obtain s' where "(case each of None \<Rightarrow> Inr ?s | Some f \<Rightarrow> f (fst ob) ?s) = Inr s'" "went_on I J ev es ?s s'"
    using assms(5) [of ?s] assms(3) e(2) by (auto simp: say_def)
  with e assms(2) show ?thesis
    by (auto simp: clone_object_def object_is_def str_arg_def went_on_def say_def split: option.splits)
qed

lemma clone_objects_run:
  assumes "obeys eng env J ev" and "reads_only eng env I" and "breaks_off eng I (object_is eng) rc (map ob ts) st"
    and "I (old_db s)" and "J (new_db s)" and "length ts < fuel"
    and "\<And>t s. t \<in> set ts \<Longrightarrow> I (old_db s) \<Longrightarrow> J (new_db s) \<Longrightarrow>
      \<exists>s'. (case each of None \<Rightarrow> Inr s | Some f \<Rightarrow> f (fst (ob t)) s) = Inr s' \<and> went_on I J ev (es t) s s'"
  shows "\<exists>st' s'. clone_objects fuel eng env each (Some st) s = Inr (rc, Some st', s') \<and>
    went_on I J ev (concat (map (\<lambda>t. (snd (ob t), []) # es t) ts)) s s'"
  using assms(3-7)
proof (induction ts arbitrary: st s fuel)
  case Nil
  then obtain k where "fuel = Suc k" by (cases fuel) auto
  moreover obtain d' st' where "step eng (old_db s) st = (rc, d', st')" "rc \<noteq> SQLITE_ROW"
    using breaks_off_end [of eng I _ rc st "old_db s"] Nil.prems(1,2) by auto
  ultimately show ?case using Nil.prems reads_step [OF assms(2) Nil.prems(2)] by (auto simp: went_on_def)
next
  case (Cons t ts)
  then obtain k where k: "fuel = Suc k" "length ts < k" by (cases fuel) auto
  obtain d st1 where s1: "step eng (old_db s) st = (SQLITE_ROW, d, st1)" "object_is eng (ob t) st1"
    "breaks_off eng I (object_is eng) rc (map ob ts) st1"
    using Cons.prems(1,2) by fastforce
  note d = reads_step [OF assms(2) Cons.prems(2) s1(1)]
  obtain s2 where s2: "clone_object eng env each st1 (s\<lparr>old_db := d\<rparr>) = Inr s2"
    "went_on I J ev ((snd (ob t), []) # es t) (s\<lparr>old_db := d\<rparr>) s2"
    using clone_object_runs [where s = "s\<lparr>old_db := d\<rparr>" and es = "es t" and each = each and I = I, OF assms(1) s1(2)]
      d Cons.prems(3,5) by auto
  obtain st3 s3 where s3: "clone_objects k eng env each (Some st1) s2 = Inr (rc, Some st3, s3)"
    "went_on I J ev (concat (map (\<lambda>t. (snd (ob t), []) # es t) ts)) s2 s3"
    using Cons.IH [OF s1(3), of s2 k] s2(2) k(2) Cons.prems(5) by (auto simp: went_on_def)
  have "went_on I J ev ((snd (ob t), []) # es t) s s2" using s2(2) by (simp add: went_on_def)
  from went_on_trans [OF this s3(2)] k(1) s1(1) s2(1) s3(1) show ?case by simp
qed

text \<open>The objects of the schema that are reached, from either end.\<close>

definition from_both_ends :: "int \<Rightarrow> 'a list \<Rightarrow> 'a list \<Rightarrow> 'a list" where
  "from_both_ends rc xs ys = xs @ (if rc = SQLITE_DONE then [] else ys)"

definition readable_schema :: "nat \<Rightarrow> ('db, 'st) sqlite_api \<Rightarrow> ('db \<Rightarrow> bool) \<Rightarrow> string \<Rightarrow> (string \<times> string) list \<Rightarrow> int
    \<Rightarrow> (string \<times> string) list \<Rightarrow> int \<Rightarrow> bool" where
  "readable_schema fuel eng I w obs rc obs' rc' \<longleftrightarrow>
     delivered eng I 2 (object_is eng) (schema_select w) obs rc \<and>
     (rc \<noteq> SQLITE_DONE \<longrightarrow> delivered eng I 2 (object_is eng) (schema_select w @ '' ORDER BY rowid DESC'') obs' rc') \<and>
     length obs < fuel \<and> length obs' < fuel"

lemma tryToCloneSchema_runs:
  assumes ob: "obeys eng env J ev" and rd: "reads_only eng env I"
    and sch: "readable_schema fuel eng I w (map nm ts) rc (map nm ts') rc'" and s: "I (old_db s)" "J (new_db s)"
    and each: "\<And>t s. t \<in> set (from_both_ends rc ts ts') \<Longrightarrow> I (old_db s) \<Longrightarrow> J (new_db s) \<Longrightarrow>
      \<exists>s'. (case each of None \<Rightarrow> Inr s | Some f \<Rightarrow> f (fst (nm t)) s) = Inr s' \<and> went_on I J ev (es t) s s'"
  shows "\<exists>s'. tryToCloneSchema fuel eng env w each s = Inr s' \<and>
    went_on I J ev (concat (map (\<lambda>t. (snd (nm t), []) # es t) (from_both_ends rc ts ts'))) s s'"
proof -
  have fin: "went_on I J ev fs s s' \<Longrightarrow> went_on I J ev fs s (finalize_old eng st s')" for fs s s' st
    using rd by (auto simp: went_on_def reads_only_def finalize_old_def)
  have fuel: "length ts < fuel" "length ts' < fuel" using sch by (simp_all add: readable_schema_def)
  obtain d st l where fwd: "prepare eng (old_db s) (schema_select w) = (SQLITE_OK, d, Some st, l)" "I d"
    "breaks_off eng I (object_is eng) rc (map nm ts) st"
    using sch s(1) unfolding readable_schema_def delivered_def by blast
  have "\<And>t s. t \<in> set ts \<Longrightarrow> I (old_db s) \<Longrightarrow> J (new_db s) \<Longrightarrow>
      \<exists>s'. (case each of None \<Rightarrow> Inr s | Some f \<Rightarrow> f (fst (nm t)) s) = Inr s' \<and> went_on I J ev (es t) s s'"
    using each by (simp add: from_both_ends_def)
  from clone_objects_run [where s = "s\<lparr>old_db := d\<rparr>", OF ob rd fwd(3) _ _ fuel(1) this] obtain st1 s1 where
    one: "clone_objects fuel eng env each (Some st) (s\<lparr>old_db := d\<rparr>) = Inr (rc, Some st1, s1)"
      "went_on I J ev (concat (map (\<lambda>t. (snd (nm t), []) # es t) ts)) (s\<lparr>old_db := d\<rparr>) s1"
    using fwd(2) s(2) by auto
  have s1: "went_on I J ev (concat (map (\<lambda>t. (snd (nm t), []) # es t) ts)) s (finalize_old eng (Some st1) s1)"
    using one(2) by (intro fin) (simp add: went_on_def)
  show ?thesis
  proof (cases "rc = SQLITE_DONE")
    case True
    with one(1) fwd(1) s1 show ?thesis by (simp add: tryToCloneSchema_def from_both_ends_def SQLITE_OK_def)
  next
    case False
    let ?s = "finalize_old eng (Some st1) s1"
    obtain e st2 l' where rear: "prepare eng (old_db ?s) (schema_select w @ '' ORDER BY rowid DESC'') = (SQLITE_OK, e, Some st2, l')"
      "I e" "breaks_off eng I (object_is eng) rc' (map nm ts') st2"
      using sch s1 False unfolding readable_schema_def delivered_def went_on_def by blast
    have "\<And>t s. t \<in> set ts' \<Longrightarrow> I (old_db s) \<Longrightarrow> J (new_db s) \<Longrightarrow>
        \<exists>s'. (case each of None \<Rightarrow> Inr s | Some f \<Rightarrow> f (fst (nm t)) s) = Inr s' \<and> went_on I J ev (es t) s s'"
      using each False by (simp add: from_both_ends_def)
    from clone_objects_run [where s = "?s\<lparr>old_db := e\<rparr>", OF ob rd rear(3) _ _ fuel(2) this] obtain st3 s3 where
      two: "clone_objects fuel eng env each (Some st2) (?s\<lparr>old_db := e\<rparr>) = Inr (rc', Some st3, s3)"
        "went_on I J ev (concat (map (\<lambda>t. (snd (nm t), []) # es t) ts')) (?s\<lparr>old_db := e\<rparr>) s3"
      using rear(2) s1 by (auto simp: went_on_def)
    have "went_on I J ev (concat (map (\<lambda>t. (snd (nm t), []) # es t) (ts @ ts'))) s (finalize_old eng (Some st3) s3)"
      using went_on_trans [OF s1, of "concat (map (\<lambda>t. (snd (nm t), []) # es t) ts')" s3] two(2) by (intro fin) (simp add: went_on_def)
    with one(1) two(1) fwd(1) rear(1) False show ?thesis by (simp add: tryToCloneSchema_def from_both_ends_def SQLITE_OK_def Let_def)
  qed
qed

section \<open>The command\<close>

definition named :: "damaged_table \<Rightarrow> string \<times> string" where
  "named t = (its_name t, its_sql t)"

text \<open>A table is made and then filled.\<close>

definition table_events :: "damaged_table \<Rightarrow> (string \<times> sql_value list) list" where
  "table_events t = (its_sql t, []) # map (\<lambda>r. (insert_of t, r)) (rescued t)"


section \<open>A broken page\<close>

text \<open>Of three rows the one in the middle cannot be read. A connection is what was done with it; a statement has its text, the
  rows it still delivers, the code that follows, its columns and the row it is at.\<close>

definition broken_rows :: "string \<Rightarrow> sql_value list list \<times> int \<times> nat" where
  "broken_rows z =
     (if z = select_all ''t'' then ([[SQL_Integer 1]], 11, 1)
      else if z = select_backwards ''t'' then ([[SQL_Integer 3]], 11, 1)
      else if z = schema_select type_table then ([[SQL_Text ''t'', SQL_Text ''CREATE TABLE t(a)'']], 101, 2)
      else ([], 101, 2))"

type_synonym broken_stmt = "string \<times> sql_value list list \<times> int \<times> nat \<times> sql_value list"

definition code_of :: "sql_value \<Rightarrow> int" where
  "code_of v = (case v of SQL_Null \<Rightarrow> 5 | SQL_Integer _ \<Rightarrow> 1 | SQL_Float _ \<Rightarrow> 2 | SQL_Text _ \<Rightarrow> 3 | SQL_Blob _ \<Rightarrow> 4)"

definition broken_engine :: "((string \<times> sql_value list) list, broken_stmt) sqlite_api" where
  "broken_engine = \<lparr>prepare = (\<lambda>d z. case broken_rows z of (rs, rc, n) \<Rightarrow> (0, d, Some (z, rs, rc, n, []), [])),
     step = (\<lambda>d (z, rs, rc, n, cur). case rs of [] \<Rightarrow> (rc, d, (z, rs, rc, n, cur)) | r # rs \<Rightarrow> (100, d, (z, rs, rc, n, r))),
     reset = (\<lambda>st. st), finalize = (\<lambda>d st. (0, d)), column_count = (\<lambda>(z, rs, rc, n, cur). n), column_name = (\<lambda>st i. None),
     column_text = (\<lambda>(z, rs, rc, n, cur) i. case cur ! i of SQL_Text t \<Rightarrow> Some t | _ \<Rightarrow> None),
     column_type = (\<lambda>(z, rs, rc, n, cur) i. code_of (cur ! i)), column_int = (\<lambda>st i. 0), column_blob = (\<lambda>st i. []),
     stmt_sql = (\<lambda>st. Some (fst st)), errmsg = (\<lambda>d. []), changes = (\<lambda>d. 0), total_changes = (\<lambda>d. 0),
     complete = (\<lambda>z. True), strlike = (\<lambda>p z. False), strnieq = (\<lambda>a b n. False)\<rparr>"

definition broken_env :: "((string \<times> sql_value list) list, broken_stmt) clone_env" where
  "broken_env = \<lparr>column_int64 = (\<lambda>(z, rs, rc, n, cur) i. case cur ! i of SQL_Integer k \<Rightarrow> k | _ \<Rightarrow> 0), column_double = (\<lambda>st i. 0),
     column_bytes = (\<lambda>st i. []), insert_values = (\<lambda>st d vs. (101, d @ [(fst (the st), vs)])), extended_errcode = (\<lambda>d. 0),
     run_sql = (\<lambda>d z. (None, d @ [(the z, [])])), file_exists = (\<lambda>f. False), open_new = (\<lambda>f. (0, []))\<rparr>"

definition broken_table :: damaged_table where
  "broken_table = \<lparr>its_name = ''t'', its_sql = ''CREATE TABLE t(a)'', its_columns = 1, forwards = [[SQL_Integer 1]], stopped = 11,
     backwards = [[SQL_Integer 3]], stopped_back = 11\<rparr>"

definition broken_shell :: "(string \<times> sql_value list) list shell_state" where
  "broken_shell = \<lparr>conn = [], so = sample_out, echoOn = False, autoExplain = False, autoEQP = False, statsOn = False,
     scanstatsOn = False, countChanges = False, backslashOn = False, outCount = 0\<rparr>"

lemma broken_obeys: "obeys broken_engine broken_env (\<lambda>d. True) (\<lambda>d. d)"
  by (auto simp: obeys_def broken_engine_def broken_env_def SQLITE_OK_def SQLITE_DONE_def split: prod.splits)

lemma broken_readable: "readable_table 9 broken_engine broken_env (\<lambda>d. True) broken_table"
proof -
  have "select_backwards ''t'' \<noteq> select_all ''t''" by (simp add: select_backwards_def)
  then show ?thesis
    by (auto simp: readable_table_def broken_table_def delivered_def broken_engine_def broken_rows_def broken_env_def row_is_def code_of_def
      sqlite_type_defs SQLITE_OK_def SQLITE_ROW_def)
qed

lemma broken_schema:
  "readable_schema 9 broken_engine (\<lambda>d. True) type_table (map named [broken_table]) SQLITE_DONE (map named []) SQLITE_DONE"
  "readable_schema 9 broken_engine (\<lambda>d. True) type_other [] SQLITE_DONE [] SQLITE_DONE"
  by (auto simp: readable_schema_def delivered_def broken_engine_def broken_rows_def object_is_def named_def broken_table_def
    schema_select_def select_all_def select_backwards_def type_table_def type_other_def SQLITE_OK_def SQLITE_ROW_def SQLITE_DONE_def)


end
