(* ===== verification/ShellProcess.thy ===== *)
theory ShellProcess
  imports ShellExec
begin

text \<open>
  \<open>process_input\<close> of \<^verbatim>\<open>database/SQLite/shell.c\<close>: the loop that collects lines into SQL and runs it.

  A session is the shell with the stream it reads, what it printed to standard output and standard error itself
  (what goes to \<open>p->out\<close> is in the state of the output) and where \<open>p->out\<close> points: 0 is null, 1 and 2 are
  standard output and error. The block \<open>zSql\<close> holds \<open>nSql\<close> characters, null before the first allocation. Its
  stores are checked. \<open>env\<close> has the routines this part calls and does not model (the dot commands, opening
  the database, the two printers of statistics), the global variables, and for every line whether an interrupt
  was seen by then.
\<close>

record 'db session =
  shell :: "'db shell_state"
  instream :: string
  to_stdout :: string
  to_stderr :: string
  outfile :: string
  out_id :: int
  closed :: "int list"

record 'db shell_env =
  do_meta_command :: "string \<Rightarrow> 'db session \<Rightarrow> int \<times> 'db session"
  open_db :: "'db \<Rightarrow> 'db"
  display_stats :: "'db \<Rightarrow> shell_out \<Rightarrow> shell_out"
  display_scanstats :: "'db \<Rightarrow> shell_out \<Rightarrow> shell_out"
  mainPrompt :: string
  continuePrompt :: string
  bail_on_error :: bool
  stdin_is_interactive :: bool
  from_file :: bool
  interrupted :: "nat \<Rightarrow> bool"

record line_state =
  zSql :: "string option"
  sqlAlloc :: nat
  errCnt :: nat
  lineno :: nat
  startline :: nat
  reuse :: bool

definition nSql :: "line_state \<Rightarrow> nat" where
  "nSql L = length (or_else (zSql L) [])"

definition no_lines :: line_state where
  "no_lines = \<lparr>zSql = None, sqlAlloc = 0, errCnt = 0, lineno = 0, startline = 0, reuse = False\<rparr>"

section \<open>Output files\<close>

definition output_file_close :: "int \<Rightarrow> 'db session \<Rightarrow> 'db session" where
  "output_file_close f s = (if f \<noteq> 0 \<and> f \<noteq> 1 \<and> f \<noteq> 2 then s\<lparr>closed := closed s @ [f]\<rparr> else s)"

text \<open>\<open>pclose\<close> of a pipe closes the stream, too.\<close>

definition output_reset :: "'db session \<Rightarrow> 'db session" where
  "output_reset s =
     (if take 1 (outfile s) = ''|'' then s\<lparr>closed := closed s @ [out_id s]\<rparr> else output_file_close (out_id s) s)
       \<lparr>outfile := [], out_id := 1\<rparr>"

section \<open>Collecting lines\<close>

definition echo :: "string \<Rightarrow> 'db session \<Rightarrow> 'db session" where
  "echo z s = (if echoOn (shell s) then s\<lparr>to_stdout := to_stdout s @ z @ ''\<newline>''\<rparr> else s)"

text \<open>The line at the end of the collected text, and \<open>nSqlPrior\<close>.\<close>

definition add_line :: "string \<Rightarrow> line_state \<Rightarrow> (line_state \<times> nat) c_result" where
  "add_line zLine L =
     (let nLine = strlen30 zLine;
          L = (if nSql L + nLine + 2 \<ge> sqlAlloc L
               then L\<lparr>sqlAlloc := nSql L + nLine + 100, zSql := Some (or_else (zSql L) [])\<rparr> else L);
          nSqlPrior = nSql L in
      case zSql L of
        None \<Rightarrow> Inl Null_deref
      | Some z \<Rightarrow>
          if nSql L = 0 then
            let i = length (takeWhile is_space zLine) in
            if nLine + 1 - i \<le> sqlAlloc L
            then Inr (L\<lparr>zSql := Some (take (nLine - i) (drop i zLine)), startline := lineno L\<rparr>, nSqlPrior)
            else Inl Out_of_bounds
          else if nSql L + 1 + nLine + 1 \<le> sqlAlloc L
          then Inr (L\<lparr>zSql := Some (z @ [CHR 0x0A] @ take nLine zLine)\<rparr>, nSqlPrior)
          else Inl Out_of_bounds)"

text \<open>A complete statement is run and the text starts anew.\<close>

definition run_command :: "nat \<Rightarrow> ('db, 'st) sqlite_api \<Rightarrow> 'db shell_env \<Rightarrow> line_state \<Rightarrow> 'db session
    \<Rightarrow> (line_state \<times> 'db session) c_result" where
  "run_command fuel eng env L s =
     (let p = (shell s)\<lparr>so := (so (shell s))\<lparr>cnt := 0\<rparr>, conn := open_db env (conn (shell s))\<rparr>;
          z = or_else (zSql L) []; z = (if backslashOn p then resolve_backslashes z else z) in
      c_bind (shell_exec fuel eng (display_stats env) (display_scanstats env) z p) (\<lambda>(rc, zErrMsg, p).
      let (L, s) =
        (if rc \<noteq> 0 \<or> zErrMsg \<noteq> None then
           (let zPrefix = (if from_file env \<or> \<not> stdin_is_interactive env
                           then ''Error: near line '' @ dec_nat (startline L) @ '':'' else ''Error:'');
                msg = (case zErrMsg of Some m \<Rightarrow> m | None \<Rightarrow> errmsg eng (conn p)) in
            (L\<lparr>errCnt := errCnt L + 1\<rparr>,
             s\<lparr>shell := p, to_stderr := to_stderr s @ zPrefix @ '' '' @ msg @ ''\<newline>''\<rparr>))
         else if countChanges p then
           (L, s\<lparr>shell := p\<lparr>so := print_out (so p) (''changes: '' @ pad_left 3 (dec_int (changes eng (conn p))) @
             ''   total_changes: '' @ dec_int (total_changes eng (conn p)) @ ''\<newline>'')\<rparr>\<rparr>)
         else (L, s\<lparr>shell := p\<rparr>)) in
      Inr (L\<lparr>zSql := Some []\<rparr>,
        if outCount (shell s) \<noteq> 0 then (output_reset s)\<lparr>shell := (shell s)\<lparr>outCount := 0\<rparr>\<rparr> else s)))"

text \<open>What is done once the line is in the block; the flag says whether the loop goes on.\<close>

definition line_collected :: "nat \<Rightarrow> ('db, 'st) sqlite_api \<Rightarrow> 'db shell_env \<Rightarrow> line_state \<Rightarrow> nat \<Rightarrow> 'db session
    \<Rightarrow> (bool \<times> line_state \<times> 'db session) c_result" where
  "line_collected n eng env L nSqlPrior s =
     (let z = or_else (zSql L) [] in
      if nSql L \<noteq> 0 \<and> line_contains_semicolon (drop nSqlPrior z) (nSql L - nSqlPrior) \<and> complete eng z then
        c_bind (run_command n eng env L s) (\<lambda>(L, s). Inr (True, L, s))
      else if nSql L \<noteq> 0 \<and> all_whitespace z then Inr (True, L\<lparr>zSql := Some []\<rparr>, echo z s)
      else Inr (True, L, s))"

text \<open>One line.\<close>

definition process_line :: "nat \<Rightarrow> ('db, 'st) sqlite_api \<Rightarrow> 'db shell_env \<Rightarrow> string \<Rightarrow> line_state \<Rightarrow> 'db session
    \<Rightarrow> (bool \<times> line_state \<times> 'db session) c_result" where
  "process_line fuel eng env zLine L s =
     (if interrupted env (lineno L) \<and> from_file env then Inr (False, L, s)
      else
        let L = L\<lparr>lineno := lineno L + 1\<rparr> in
        if nSql L = 0 \<and> all_whitespace zLine then Inr (True, L, echo zLine s)
        else if take 1 zLine = ''.'' \<and> nSql L = 0 then
          let (rc, s) = do_meta_command env zLine (echo zLine s) in
          Inr (if rc = 2 then (False, L, s)
               else if rc \<noteq> 0 then (True, L\<lparr>errCnt := errCnt L + 1\<rparr>, s)
               else (True, L, s))
        else
          c_bind (if line_is_command_terminator zLine
                  then line_is_complete (complete eng) (sqlAlloc L) (zSql L) (nSql L) else Inr False) (\<lambda>t.
          c_bind (add_line (if t then '';'' else zLine) L) (\<lambda>(L, nSqlPrior).
          line_collected fuel eng env L nSqlPrior s)))"

text \<open>The loop over the lines, with the fuel for each statement apart.\<close>

fun process_loop :: "nat \<Rightarrow> nat \<Rightarrow> ('db, 'st) sqlite_api \<Rightarrow> 'db shell_env \<Rightarrow> line_state \<Rightarrow> 'db session
    \<Rightarrow> (line_state \<times> 'db session) c_result" where
  "process_loop 0 n eng env L s = Inl No_return"
| "process_loop (Suc fuel) n eng env L s =
     (if errCnt L = 0 \<or> \<not> bail_on_error env \<or> (\<not> from_file env \<and> stdin_is_interactive env) then
        let (prompt, r) = one_input_line (mainPrompt env) (continuePrompt env) (from_file env) (reuse L)
                            (nSql L \<noteq> 0) (instream s) in
        case r of
          None \<Rightarrow> Inl No_return
        | Some r \<Rightarrow>
            c_bind r (\<lambda>(zLine, rest).
            let s = s\<lparr>to_stdout := to_stdout s @ prompt, instream := rest\<rparr>; L = L\<lparr>reuse := True\<rparr> in
            case zLine of
              None \<Rightarrow>
                Inr (L, if stdin_is_interactive env then s\<lparr>to_stdout := to_stdout s @ ''\<newline>''\<rparr> else s)
            | Some zLine \<Rightarrow>
                c_bind (process_line n eng env zLine L s) (\<lambda>(go, L, s).
                if go then process_loop fuel n eng env L s else Inr (L, s)))
      else Inr (L, s))"

text \<open>The result is whether there was an error.\<close>

definition process_input :: "nat \<Rightarrow> nat \<Rightarrow> ('db, 'st) sqlite_api \<Rightarrow> 'db shell_env \<Rightarrow> 'db session \<Rightarrow> (bool \<times> 'db session) c_result" where
  "process_input fuel n eng env s =
     c_bind (process_loop fuel n eng env no_lines s) (\<lambda>(L, s).
     if nSql L \<noteq> 0 \<and> \<not> all_whitespace (or_else (zSql L) []) then
       Inr (True, s\<lparr>to_stderr := to_stderr s @ ''Error: incomplete SQL: '' @ or_else (zSql L) [] @ ''\<newline>''\<rparr>)
     else Inr (errCnt L > 0, s))"

end
