(* ===== verification/ShellFiles.thy ===== *)
theory ShellFiles
  imports ShellProcess ShellMeta
begin

text \<open>
  The dot commands of \<^verbatim>\<open>database/SQLite/shell.c\<close> about files: where the output, the log and the trace go, with
  \<open>meta_command_exit\<close>, at which every command ends; opening databases; \<open>.backup\<close> and \<open>.restore\<close>; \<open>.read\<close> and \<open>.system\<close>.
\<close>

section \<open>Where the output goes\<close>

text \<open>
  A session with the streams of the log and of the trace, and what the next calls of \<open>fopen\<close> and \<open>popen\<close> return:
  a stream, or 0 for a null pointer; nothing left is a failure.
\<close>

record 'db files =
  ses :: "'db session"
  log_id :: int
  trace_id :: int
  streams :: "int list"

definition complain_err :: "string \<Rightarrow> 'db files \<Rightarrow> 'db files" where
  "complain_err t w = w\<lparr>ses := (ses w)\<lparr>to_stderr := to_stderr (ses w) @ t\<rparr>\<rparr>"

definition open_stream :: "'db files \<Rightarrow> int \<times> 'db files" where
  "open_stream w = (case streams w of [] \<Rightarrow> (0, w) | f # fs \<Rightarrow> (f, w\<lparr>streams := fs\<rparr>))"

definition open_output :: "string \<Rightarrow> 'db files \<Rightarrow> int \<times> 'db files" where
  "open_output zFile w =
     (let (f, w) = (if zFile \<in> {''stdout'', ''stderr'', ''off''} then (0, w) else open_stream w);
          (g, err) = output_file_open (\<lambda>_. f) zFile in
      (g, complain_err err w))"

definition is_once :: "string \<Rightarrow> bool" where
  "is_once z \<longleftrightarrow> length z > 1 \<and> take (length z) ''once'' = z"

definition set_count :: "int \<Rightarrow> 'db session \<Rightarrow> 'db session" where
  "set_count n s = s\<lparr>shell := (shell s)\<lparr>outCount := n\<rparr>\<rparr>"

text \<open>\<open>.output\<close> and \<open>.once\<close>; the name is copied into \<open>FILENAME_MAX\<close> bytes.\<close>

definition output_to :: "string \<Rightarrow> 'db files \<Rightarrow> int \<times> 'db files" where
  "output_to zFile w =
     (if take 1 zFile = ''|'' then
        let (f, w) = open_stream w in
        if f = 0 then
          (1, complain_err (''Error: cannot open pipe '' @ [CHR 0x22] @ drop 1 zFile @ [CHR 0x22] @ ''\<newline>'') (w\<lparr>ses := (ses w)\<lparr>out_id := 1\<rparr>\<rparr>))
        else (0, w\<lparr>ses := (ses w)\<lparr>out_id := f, outfile := take 4095 zFile\<rparr>\<rparr>)
      else
        let (f, w) = open_output zFile w in
        if f = 0 then
          (1, (if zFile \<noteq> ''off''
               then complain_err (''Error: cannot write to '' @ [CHR 0x22] @ zFile @ [CHR 0x22] @ ''\<newline>'') else id)
            (w\<lparr>ses := (ses w)\<lparr>out_id := 1\<rparr>\<rparr>))
        else (0, w\<lparr>ses := (ses w)\<lparr>out_id := f, outfile := take 4095 zFile\<rparr>\<rparr>))"

definition output_command :: "string list \<Rightarrow> 'db files \<Rightarrow> int \<times> 'db files" where
  "output_command azArg w =
     (let zFile = (if length azArg \<ge> 2 then azArg ! 1 else ''stdout'') in
      if length azArg > 2 then (1, complain_err (''Usage: .'' @ azArg ! 0 @ '' FILE\<newline>'') w)
      else if is_once (azArg ! 0) \<and> length azArg < 2 then (1, complain_err ''Usage: .once FILE\<newline>'' w)
      else output_to zFile (w\<lparr>ses := output_reset (set_count (if is_once (azArg ! 0) then 2 else 0) (ses w))\<rparr>))"

definition log_command :: "string list \<Rightarrow> 'db files \<Rightarrow> int \<times> 'db files" where
  "log_command azArg w =
     (if length azArg \<noteq> 2 then (1, complain_err ''Usage: .log FILENAME\<newline>'' w)
      else
        let (f, w) = open_output (azArg ! 1) (w\<lparr>ses := output_file_close (log_id w) (ses w)\<rparr>) in (0, w\<lparr>log_id := f\<rparr>))"

text \<open>The hook of the library follows \<open>traceOut\<close>: it is set when that is not null.\<close>

definition trace_command :: "('db \<Rightarrow> 'db) \<Rightarrow> ('db \<Rightarrow> int \<Rightarrow> 'db) \<Rightarrow> string list \<Rightarrow> 'db files \<Rightarrow> int \<times> 'db files" where
  "trace_command opened set_trace azArg w =
     (let on_db = (\<lambda>g w. w\<lparr>ses := (ses w)\<lparr>shell := (shell (ses w))\<lparr>conn := g (conn (shell (ses w)))\<rparr>\<rparr>\<rparr>); w = on_db opened w in
      if length azArg \<noteq> 2 then (1, complain_err ''Usage: .trace FILE|off\<newline>'' w)
      else
        let (f, w) = open_output (azArg ! 1) (w\<lparr>ses := output_file_close (trace_id w) (ses w)\<rparr>) in
        (0, on_db (\<lambda>d. set_trace d f) (w\<lparr>trace_id := f\<rparr>)))"

definition meta_command_exit :: "'db session \<Rightarrow> 'db session" where
  "meta_command_exit s =
     (if outCount (shell s) \<noteq> 0 then
        let s = set_count (outCount (shell s) - 1) s in if outCount (shell s) = 0 then output_reset s else s
      else s)"

section \<open>Opening a database\<close>

text \<open>
  \<open>sqlite3_open\<close> may give a connection that is not usable; \<open>errcode\<close> tells. The connection and what is printed, or no
  return when the program exits. The functions that are registered belong to the connection. A null name is printed as the C
  library prints it.
\<close>

record 'db open_env =
  sqlite_open :: "string option \<Rightarrow> 'db option"
  errcode_of :: "'db \<Rightarrow> int"
  errmsg_of :: "'db option \<Rightarrow> string"
  create_function :: "'db \<Rightarrow> string \<Rightarrow> 'db"
  enable_load_extension :: "'db \<Rightarrow> 'db"

definition open_database :: "'db open_env \<Rightarrow> string option \<Rightarrow> bool \<Rightarrow> 'db option \<Rightarrow> ('db option \<times> string) option" where
  "open_database env zDbFilename keepAlive db =
     (case db of
        Some d \<Rightarrow> Some (Some d, [])
      | None \<Rightarrow>
          let db = map_option (\<lambda>d. if errcode_of env d = SQLITE_OK then create_function env d ''shellstatic'' else d)
                     (sqlite_open env zDbFilename);
              failed = ''Error: unable to open database '' @ [CHR 0x22] @ or_else zDbFilename ''(null)'' @ [CHR 0x22] @
                '': '' @ errmsg_of env db @ ''\<newline>'' in
          (case db of
             None \<Rightarrow> if keepAlive then Some (None, failed) else None
           | Some d \<Rightarrow>
               if errcode_of env d \<noteq> SQLITE_OK then if keepAlive then Some (Some d, failed) else None
               else Some (Some (create_function env (create_function env (enable_load_extension env d) ''readfile'') ''writefile''), [])))"

text \<open>\<open>.open\<close>: the connection, the name, the connection that is closed and what is printed.\<close>

definition open_command :: "'db open_env \<Rightarrow> string list \<Rightarrow> 'db option \<Rightarrow> string option
    \<Rightarrow> ('db option \<times> string option \<times> 'db option \<times> string) option" where
  "open_command env azArg db zDbFilename =
     (let zNewFilename = (if length azArg \<ge> 2 then Some (azArg ! 1) else None) in
      map_option (\<lambda>(newdb, err).
        if newdb \<noteq> None then (newdb, zNewFilename, db, err) else (db, zDbFilename, None, err))
      (open_database env zNewFilename True None))"

section \<open>Backup and restore\<close>

text \<open>\<open>'b\<close> is a backup under way; \<open>backup_finish\<close> gives the destination and the source back.\<close>

record ('db, 'b) backup_env =
  backup_open :: "string \<Rightarrow> int \<times> 'db"
  backup_init :: "'db \<Rightarrow> string \<Rightarrow> 'db \<Rightarrow> string \<Rightarrow> 'b option"
  backup_step :: "'b \<Rightarrow> int \<times> 'b"
  backup_finish :: "'b \<Rightarrow> 'db \<times> 'db"
  backup_errmsg :: "'db \<Rightarrow> string"
  db_opened :: "'db \<Rightarrow> 'db"

definition quoted_error :: "string \<Rightarrow> string" where
  "quoted_error z = ''Error: cannot open '' @ [CHR 0x22] @ z @ [CHR 0x22] @ ''\<newline>''"

text \<open>The arguments of \<open>.backup\<close> and \<open>.save\<close>: \<open>zDestFile\<close> and \<open>zDb\<close>, or a message.\<close>

fun backup_args :: "string list \<Rightarrow> string option \<Rightarrow> string option \<Rightarrow> string + string option \<times> string option" where
  "backup_args [] zDestFile zDb = Inr (zDestFile, zDb)"
| "backup_args (z # zs) zDestFile zDb =
     (if take 1 z = ''-'' then Inl (''unknown option: '' @ z @ ''\<newline>'')
      else
        (case (zDestFile, zDb) of
           (None, _) \<Rightarrow> backup_args zs (Some z) zDb
         | (Some f, None) \<Rightarrow> backup_args zs (Some z) (Some f)
         | (Some f, Some d) \<Rightarrow> Inl ''too many arguments to .backup\<newline>''))"

fun backup_steps :: "nat \<Rightarrow> ('b \<Rightarrow> int \<times> 'b) \<Rightarrow> 'b \<Rightarrow> (int \<times> 'b) c_result" where
  "backup_steps 0 f b = Inl No_return"
| "backup_steps (Suc fuel) f b = (let (rc, b) = f b in if rc = SQLITE_OK then backup_steps fuel f b else Inr (rc, b))"

text \<open>The result code, standard error, the shell's database and the other one as it is closed.\<close>

definition backup_command :: "nat \<Rightarrow> ('db, 'b) backup_env \<Rightarrow> string list \<Rightarrow> 'db \<Rightarrow> (int \<times> string \<times> 'db \<times> 'db option) c_result" where
  "backup_command fuel env azArg d =
     (case backup_args (drop 1 azArg) None None of
        Inl msg \<Rightarrow> Inr (1, msg, d, None)
      | Inr (None, _) \<Rightarrow> Inr (1, ''missing FILENAME argument on .backup\<newline>'', d, None)
      | Inr (Some zDestFile, zDb) \<Rightarrow>
          (let (rc, pDest) = backup_open env zDestFile in
           if rc \<noteq> SQLITE_OK then Inr (1, quoted_error zDestFile, d, Some pDest)
           else
             let d = db_opened env d in
             (case backup_init env pDest ''main'' d (or_else zDb ''main'') of
                None \<Rightarrow> Inr (1, ''Error: '' @ backup_errmsg env pDest @ ''\<newline>'', d, Some pDest)
              | Some b \<Rightarrow>
                  c_bind (backup_steps fuel (backup_step env) b) (\<lambda>(rc, b).
                  let (pDest, d) = backup_finish env b in
                  Inr (if rc = SQLITE_DONE then (0, [], d, Some pDest)
                       else (1, ''Error: '' @ backup_errmsg env pDest @ ''\<newline>'', d, Some pDest))))))"

text \<open>\<open>nTimeout\<close> counts all the busy answers; after each of the first three the program sleeps. The last code and the sleeps.\<close>

fun restore_steps :: "nat \<Rightarrow> ('b \<Rightarrow> int \<times> 'b) \<Rightarrow> nat \<Rightarrow> 'b \<Rightarrow> (int \<times> nat \<times> 'b) c_result" where
  "restore_steps 0 f nTimeout b = Inl No_return"
| "restore_steps (Suc fuel) f nTimeout b =
     (let (rc, b) = f b in
      if rc = SQLITE_OK then restore_steps fuel f nTimeout b
      else if rc = SQLITE_BUSY then if nTimeout \<ge> 3 then Inr (rc, nTimeout, b) else restore_steps fuel f (nTimeout + 1) b
      else Inr (rc, nTimeout, b))"

definition restore_command :: "nat \<Rightarrow> ('db, 'b) backup_env \<Rightarrow> string list \<Rightarrow> 'db \<Rightarrow> (int \<times> string \<times> 'db \<times> 'db option) c_result" where
  "restore_command fuel env azArg d =
     (if length azArg \<noteq> 2 \<and> length azArg \<noteq> 3 then Inr (1, ''Usage: .restore ?DB? FILE\<newline>'', d, None)
      else
        let (zSrcFile, zDb) = (if length azArg = 2 then (azArg ! 1, ''main'') else (azArg ! 2, azArg ! 1));
            (rc, pSrc) = backup_open env zSrcFile in
        if rc \<noteq> SQLITE_OK then Inr (1, quoted_error zSrcFile, d, Some pSrc)
        else
          let d = db_opened env d in
          (case backup_init env d zDb pSrc ''main'' of
             None \<Rightarrow> Inr (1, ''Error: '' @ backup_errmsg env d @ ''\<newline>'', d, Some pSrc)
           | Some b \<Rightarrow>
               c_bind (restore_steps fuel (backup_step env) 0 b) (\<lambda>(rc, n, b).
               let (d, pSrc) = backup_finish env b in
               Inr (if rc = SQLITE_DONE then (0, [], d, Some pSrc)
                    else if rc = SQLITE_BUSY \<or> rc = SQLITE_LOCKED then (1, ''Error: source database is busy\<newline>'', d, Some pSrc)
                    else (1, ''Error: '' @ backup_errmsg env d @ ''\<newline>'', d, Some pSrc)))))"

section \<open>Reading commands and running programs\<close>

definition read_command :: "nat \<Rightarrow> nat \<Rightarrow> ('db, 'st) sqlite_api \<Rightarrow> 'db shell_env \<Rightarrow> (string \<Rightarrow> string option) \<Rightarrow> string list \<Rightarrow> 'db session
    \<Rightarrow> (int \<times> 'db session) c_result" where
  "read_command fuel n eng env fopen_rb azArg s =
     (if length azArg \<noteq> 2 then Inr (1, s\<lparr>to_stderr := to_stderr s @ ''Usage: .read FILE\<newline>''\<rparr>)
      else
        (case fopen_rb (azArg ! 1) of
           None \<Rightarrow> Inr (1, s\<lparr>to_stderr := to_stderr s @ quoted_error (azArg ! 1)\<rparr>)
         | Some text \<Rightarrow>
             c_bind (process_input fuel n eng (env\<lparr>from_file := True\<rparr>) (s\<lparr>instream := text\<rparr>)) (\<lambda>(failed, s').
             Inr (if failed then 1 else 0, s'\<lparr>instream := instream s\<rparr>))))"

text \<open>An argument with a space is put in quotes. The command line, and what is printed to standard error for its status.\<close>

definition system_arg :: "string \<Rightarrow> string" where
  "system_arg z = (if CHR '' '' \<in> set z then [CHR 0x22] @ z @ [CHR 0x22] else z)"

definition system_command :: "(string \<Rightarrow> int) \<Rightarrow> string list \<Rightarrow> int \<times> string \<times> string option" where
  "system_command run azArg =
     (if length azArg < 2 then (1, ''Usage: .system COMMAND\<newline>'', None)
      else
        let zCmd = system_arg (azArg ! 1) @ concat (map (\<lambda>z. '' '' @ system_arg z) (drop 2 azArg)); x = run zCmd in
        (0, if x \<noteq> 0 then ''System command returns '' @ dec_int x @ ''\<newline>'' else [], Some zCmd))"

definition timeout_command :: "(string \<Rightarrow> string \<Rightarrow> bool) \<Rightarrow> ('db \<Rightarrow> int \<Rightarrow> 'db) \<Rightarrow> string list \<Rightarrow> 'db \<Rightarrow> (int \<times> 'db) c_result" where
  "timeout_command same busy_timeout azArg d =
     (if length azArg \<ge> 2 then c_bind (integerValue same (azArg ! 1)) (\<lambda>v. Inr (0, busy_timeout d (to_int (v mod 2 ^ 32))))
      else Inr (0, busy_timeout d 0))"

text \<open>\<open>enableTimer\<close>; this system has a timer.\<close>

definition timer_command :: "(string \<Rightarrow> string \<Rightarrow> bool) \<Rightarrow> string list \<Rightarrow> int \<Rightarrow> (int \<times> string \<times> int) c_result" where
  "timer_command same azArg enableTimer =
     (if length azArg = 2 then c_bind (booleanValue same (azArg ! 1)) (\<lambda>(v, err). Inr (0, err, v))
      else Inr (1, ''Usage: .timer on|off\<newline>'', enableTimer))"

end
