(* ===== verification/ShellFilesProps.thy ===== *)
theory ShellFilesProps
  imports ShellFiles "HOL-Library.Multiset"
begin

text \<open>
  The output, the log and the trace through every sequence of commands: each stream that was opened is in use or was closed, once.
  How \<open>.restore\<close> waits for a busy source, and what a failed \<open>.open\<close> leaves.
\<close>

section \<open>Sequences of commands\<close>

text \<open>A command that leaves the streams alone ends at \<open>meta_command_exit\<close> or returns before it.\<close>

datatype file_event = Output_file "string list" | Log_file "string list" | Trace_file "string list" | Other_command | Early_return

definition at_exit :: "'db files \<Rightarrow> 'db files" where
  "at_exit w = w\<lparr>ses := meta_command_exit (ses w)\<rparr>"

fun run_event :: "('db \<Rightarrow> 'db) \<Rightarrow> ('db \<Rightarrow> int \<Rightarrow> 'db) \<Rightarrow> file_event \<Rightarrow> 'db files \<Rightarrow> 'db files" where
  "run_event g h (Output_file a) w = at_exit (snd (output_command a w))"
| "run_event g h (Log_file a) w = at_exit (snd (log_command a w))"
| "run_event g h (Trace_file a) w = at_exit (snd (trace_command g h a w))"
| "run_event g h Other_command w = at_exit w"
| "run_event g h Early_return w = w"

definition run_events :: "('db \<Rightarrow> 'db) \<Rightarrow> ('db \<Rightarrow> int \<Rightarrow> 'db) \<Rightarrow> file_event list \<Rightarrow> 'db files \<Rightarrow> 'db files" where
  "run_events g h es w = fold (run_event g h) es w"

section \<open>Streams in use and closed\<close>

definition real :: "int list \<Rightarrow> int list" where
  "real = filter (\<lambda>f. f \<notin> {0, 1, 2})"

lemma real_simps: "real [] = []" "real (f # fs) = (if f \<in> {0, 1, 2} then real fs else f # real fs)"
  by (simp_all add: real_def)

text \<open>Of the streams \<open>S\<close> that could be opened, those that were are closed or among \<open>own\<close>.\<close>

definition accounts :: "int list \<Rightarrow> int list \<Rightarrow> 'db files \<Rightarrow> bool" where
  "accounts S own w \<longleftrightarrow> (\<forall>f \<in> set S. f \<notin> {1, 2}) \<and>
     (\<exists>used. S = used @ streams w \<and> mset (filter (\<lambda>f. f \<noteq> 0) used) = mset (closed (ses w)) + mset (real own))"

definition streams_inv :: "int list \<Rightarrow> 'db files \<Rightarrow> bool" where
  "streams_inv S w \<longleftrightarrow> accounts S [out_id (ses w), log_id w, trace_id w] w \<and> out_id (ses w) \<noteq> 0 \<and>
     (take 1 (outfile (ses w)) = ''|'' \<longrightarrow> out_id (ses w) \<notin> {1, 2})"

lemma accounts_perm: "accounts S own w \<Longrightarrow> mset own' = mset own \<Longrightarrow> accounts S own' w"
  by (simp add: accounts_def real_def)

lemma accounts_standard [simp]: "f \<in> {0, 1, 2} \<Longrightarrow> accounts S (f # own) w \<longleftrightarrow> accounts S own w"
  by (simp add: accounts_def real_simps)

lemma accounts_same:
  "closed (ses w') = closed (ses w) \<Longrightarrow> streams w' = streams w \<Longrightarrow> accounts S own w' \<longleftrightarrow> accounts S own w"
  by (simp add: accounts_def)

lemma accounts_close:
  assumes "accounts S (f # own) w"
  shows "accounts S own (w\<lparr>ses := output_file_close f (ses w)\<rparr>)"
  using assms by (auto simp: accounts_def output_file_close_def real_simps split: if_splits)

lemma open_stream_accounts:
  assumes "accounts S own w" and "open_stream w = (f, w')"
  shows "accounts S (f # own) w' \<and> f \<notin> {1, 2} \<and> ses w' = ses w \<and> log_id w' = log_id w \<and> trace_id w' = trace_id w"
proof (cases "streams w")
  case Nil
  with assms show ?thesis by (auto simp: open_stream_def)
next
  case (Cons x xs)
  then have w': "f = x" "w' = w\<lparr>streams := xs\<rparr>" using assms(2) by (auto simp: open_stream_def)
  obtain used where used: "S = used @ x # xs" "mset (filter (\<lambda>f. f \<noteq> 0) used) = mset (closed (ses w)) + mset (real own)"
    and S: "\<forall>f \<in> set S. f \<notin> {1, 2}"
    using assms(1) Cons by (auto simp: accounts_def)
  have "S = (used @ [x]) @ xs" using used(1) by simp
  moreover have "x \<notin> {1, 2}" using S used(1) by simp
  ultimately show ?thesis using used(2) S w' unfolding accounts_def
    by (intro conjI exI [of _ "used @ [x]"]) (auto simp: real_simps)
qed

lemma accounts_complain [simp]: "accounts S own (complain_err t w) \<longleftrightarrow> accounts S own w"
  by (simp add: accounts_def complain_err_def)

lemma complain_err_sel [simp]:
  "log_id (complain_err t w) = log_id w" "trace_id (complain_err t w) = trace_id w" "streams (complain_err t w) = streams w"
  "out_id (ses (complain_err t w)) = out_id (ses w)" "outfile (ses (complain_err t w)) = outfile (ses w)"
  "closed (ses (complain_err t w)) = closed (ses w)" "shell (ses (complain_err t w)) = shell (ses w)"
  by (simp_all add: complain_err_def)

lemma open_output_accounts:
  assumes "accounts S own w" and "open_output zFile w = (f, w')"
  shows "accounts S (f # own) w' \<and> log_id w' = log_id w \<and> trace_id w' = trace_id w \<and> out_id (ses w') = out_id (ses w) \<and>
    outfile (ses w') = outfile (ses w)"
proof (cases "zFile \<in> {''stdout'', ''stderr'', ''off''}")
  case True
  then have "f \<in> {0, 1, 2}" "w' = complain_err [] w"
    using assms(2) by (auto simp: open_output_def output_file_open_def)
  with assms(1) show ?thesis by simp
next
  case False
  obtain f' w1 where w1: "open_stream w = (f', w1)" by (cases "open_stream w")
  then have "f = f'" "\<exists>err. w' = complain_err err w1"
    using False assms(2) by (auto simp: open_output_def output_file_open_def Let_def)
  with open_stream_accounts [OF assms(1) w1] show ?thesis by auto
qed

lemma streams_inv_cong:
  assumes "streams_inv S w" and "closed (ses w') = closed (ses w)" and "out_id (ses w') = out_id (ses w)"
    and "outfile (ses w') = outfile (ses w)" and "log_id w' = log_id w" and "trace_id w' = trace_id w" and "streams w' = streams w"
  shows "streams_inv S w'"
  using assms accounts_same [of w' w] by (simp add: streams_inv_def)

lemma close_own:
  assumes "accounts S (f # own) w" and "f \<notin> {0, 1, 2}" and "closed (ses w') = closed (ses w) @ [f]" and "streams w' = streams w"
  shows "accounts S own w'"
proof -
  have "accounts S own (w\<lparr>ses := output_file_close f (ses w)\<rparr>)" by (rule accounts_close [OF assms(1)])
  with accounts_same [of w' "w\<lparr>ses := output_file_close f (ses w)\<rparr>"] assms(2-4) show ?thesis by (simp add: output_file_close_def)
qed

lemma output_reset_inv:
  assumes "streams_inv S w"
  shows "streams_inv S (w\<lparr>ses := output_reset (ses w)\<rparr>) \<and> out_id (output_reset (ses w)) = 1 \<and> outfile (output_reset (ses w)) = []"
proof -
  let ?w = "w\<lparr>ses := output_reset (ses w)\<rparr>"
  have a: "accounts S [out_id (ses w), log_id w, trace_id w] w" using assms by (simp add: streams_inv_def)
  have "accounts S [log_id w, trace_id w] ?w"
  proof (cases "out_id (ses w) \<in> {0, 1, 2}")
    case True
    then have "closed (ses ?w) = closed (ses w)" using assms by (auto simp: output_reset_def output_file_close_def streams_inv_def)
    with a True accounts_same [of ?w w] show ?thesis by simp
  next
    case False
    then have "closed (ses ?w) = closed (ses w) @ [out_id (ses w)]" by (auto simp: output_reset_def output_file_close_def)
    then show ?thesis using close_own [OF a False, of ?w] by simp
  qed
  then show ?thesis by (simp add: streams_inv_def output_reset_def)
qed

lemma set_count_sel [simp]:
  "closed (set_count n s) = closed s" "out_id (set_count n s) = out_id s" "outfile (set_count n s) = outfile s"
  "outCount (shell (set_count n s)) = n"
  by (simp_all add: set_count_def)

lemma at_exit_inv:
  assumes "streams_inv S w"
  shows "streams_inv S (at_exit w)"
proof -
  have "streams_inv S (w\<lparr>ses := set_count n (ses w)\<rparr>)" for n using assms by (rule streams_inv_cong) simp_all
  then have "streams_inv S (w\<lparr>ses := set_count n (ses w)\<rparr>)" "streams_inv S (w\<lparr>ses := output_reset (set_count n (ses w))\<rparr>)" for n
    using output_reset_inv [of S "w\<lparr>ses := set_count n (ses w)\<rparr>"] by simp_all
  with assms show ?thesis by (simp add: at_exit_def meta_command_exit_def Let_def)
qed

lemma output_to_inv:
  assumes w: "streams_inv S w" and idle: "out_id (ses w) = 1" "outfile (ses w) = []"
  shows "streams_inv S (snd (output_to zFile w))"
proof -
  have a: "accounts S [log_id w, trace_id w] w" using w idle(1) by (simp add: streams_inv_def)
  have done_with: "streams_inv S w'"
    if "accounts S [f, log_id w, trace_id w] w1" "log_id w1 = log_id w" "trace_id w1 = trace_id w" "closed (ses w') = closed (ses w1)"
      "streams w' = streams w1" "log_id w' = log_id w1" "trace_id w' = trace_id w1" "out_id (ses w') = (if f = 0 then 1 else f)"
      "take 1 (outfile (ses w')) = ''|'' \<longrightarrow> out_id (ses w') \<notin> {1, 2}" for f w1 w'
    using that accounts_same [of w' w1] by (auto simp: streams_inv_def)
  show ?thesis
  proof (cases "take 1 zFile = ''|''")
    case True
    obtain f w1 where w1: "open_stream w = (f, w1)" by (cases "open_stream w")
    show ?thesis
      by (rule done_with [of f w1])
        (use open_stream_accounts [OF a w1] w1 True idle in \<open>auto simp: output_to_def\<close>)
  next
    case False
    obtain f w1 where w1: "open_output zFile w = (f, w1)" by (cases "open_output zFile w")
    show ?thesis
      by (rule done_with [of f w1])
        (use open_output_accounts [OF a w1] w1 False idle in \<open>auto simp: output_to_def min_def\<close>)
  qed
qed

lemma reopened_inv:
  assumes "accounts S (f # own) w" and "open_output z (w\<lparr>ses := output_file_close f (ses w)\<rparr>) = (f', w1)"
  shows "accounts S (f' # own) w1 \<and> log_id w1 = log_id w \<and> trace_id w1 = trace_id w \<and> out_id (ses w1) = out_id (ses w) \<and>
    outfile (ses w1) = outfile (ses w)"
  using open_output_accounts [OF accounts_close [OF assms(1)] assms(2)] by (simp add: output_file_close_def)

lemma log_command_inv:
  assumes "streams_inv S w"
  shows "streams_inv S (snd (log_command a w))"
proof (cases "length a = 2")
  case True
  have "accounts S (log_id w # [out_id (ses w), trace_id w]) w" by (rule accounts_perm) (use assms in \<open>auto simp: streams_inv_def\<close>)
  moreover obtain f w1 where w1: "open_output (a ! 1) (w\<lparr>ses := output_file_close (log_id w) (ses w)\<rparr>) = (f, w1)"
    by (cases "open_output (a ! 1) (w\<lparr>ses := output_file_close (log_id w) (ses w)\<rparr>)")
  ultimately have r: "accounts S [f, out_id (ses w), trace_id w] w1" "trace_id w1 = trace_id w" "out_id (ses w1) = out_id (ses w)"
    "outfile (ses w1) = outfile (ses w)"
    using reopened_inv by blast+
  have "accounts S [out_id (ses w), f, trace_id w] (w1\<lparr>log_id := f\<rparr>)"
    using accounts_perm [OF r(1), of "[out_id (ses w), f, trace_id w]"] accounts_same [of "w1\<lparr>log_id := f\<rparr>" w1] by simp
  with r assms True w1 show ?thesis by (simp add: log_command_def streams_inv_def)
next
  case False
  then show ?thesis by (simp add: log_command_def) (rule streams_inv_cong [OF assms]; simp)
qed

lemma trace_command_inv:
  assumes "streams_inv S w"
  shows "streams_inv S (snd (trace_command g h a w))"
proof -
  let ?v = "w\<lparr>ses := (ses w)\<lparr>shell := (shell (ses w))\<lparr>conn := g (conn (shell (ses w)))\<rparr>\<rparr>\<rparr>"
  have v: "streams_inv S ?v" by (rule streams_inv_cong [OF assms]) simp_all
  show ?thesis
  proof (cases "length a = 2")
    case True
    have "accounts S (trace_id ?v # [out_id (ses ?v), log_id ?v]) ?v" by (rule accounts_perm) (use v in \<open>auto simp: streams_inv_def\<close>)
    moreover obtain f w1 where w1: "open_output (a ! 1) (?v\<lparr>ses := output_file_close (trace_id ?v) (ses ?v)\<rparr>) = (f, w1)"
      by (cases "open_output (a ! 1) (?v\<lparr>ses := output_file_close (trace_id ?v) (ses ?v)\<rparr>)")
    ultimately have r: "accounts S [f, out_id (ses ?v), log_id ?v] w1" "log_id w1 = log_id ?v" "out_id (ses w1) = out_id (ses ?v)"
      "outfile (ses w1) = outfile (ses ?v)"
      using reopened_inv by blast+
    let ?t = "w1\<lparr>trace_id := f, ses := (ses w1)\<lparr>shell := (shell (ses w1))\<lparr>conn := h (conn (shell (ses w1))) f\<rparr>\<rparr>\<rparr>"
    have "accounts S [out_id (ses ?v), log_id ?v, f] ?t"
      using accounts_perm [OF r(1), of "[out_id (ses ?v), log_id ?v, f]"] accounts_same [of ?t w1] by simp
    then have "streams_inv S ?t" using r v by (simp add: streams_inv_def)
    with True w1 show ?thesis by (simp add: trace_command_def)
  next
    case False
    then show ?thesis by (simp add: trace_command_def Let_def) (rule streams_inv_cong [OF v]; simp)
  qed
qed

lemma output_command_inv:
  assumes "streams_inv S w"
  shows "streams_inv S (snd (output_command a w))"
proof -
  let ?c = "if is_once (a ! 0) then 2 else 0"
  have "streams_inv S (w\<lparr>ses := set_count ?c (ses w)\<rparr>)" by (rule streams_inv_cong [OF assms]) simp_all
  from output_reset_inv [OF this] have "streams_inv S (snd (output_to z (w\<lparr>ses := output_reset (set_count ?c (ses w))\<rparr>)))" for z
    by (intro output_to_inv) simp_all
  moreover have "streams_inv S (complain_err t w)" for t by (rule streams_inv_cong [OF assms]) simp_all
  ultimately show ?thesis by (simp add: output_command_def Let_def)
qed

lemma run_events_inv: "streams_inv S w \<Longrightarrow> streams_inv S (run_events g h es w)"
proof (induction es arbitrary: w)
  case (Cons e es)
  have "streams_inv S (run_event g h e w)"
    by (cases e) (simp_all add: Cons.prems at_exit_inv log_command_inv trace_command_inv output_command_inv)
  from Cons.IH [OF this] show ?case by (simp add: run_events_def)
qed (simp add: run_events_def)

lemma open_stream_shell [simp]: "shell (ses (snd (open_stream w))) = shell (ses w)"
  by (simp add: open_stream_def split: list.split)

lemma open_output_shell [simp]: "shell (ses (snd (open_output z w))) = shell (ses w)"
  by (simp add: open_output_def Let_def split_def)

lemma output_to_shell: "shell (ses (snd (output_to z w))) = shell (ses w)"
  by (simp add: output_to_def Let_def split_def)

lemma output_reset_shell [simp]: "shell (output_reset s) = shell s"
  by (simp add: output_reset_def output_file_close_def)

lemma once_counts: "outCount (shell (ses (run_event g h (Output_file [''once'', f]) w))) = 1"
  by (simp add: output_command_def is_once_def at_exit_def meta_command_exit_def output_to_shell Let_def)

section \<open>The claims\<close>

definition no_files :: "int list \<Rightarrow> 'db session \<Rightarrow> 'db files" where
  "no_files S s = \<lparr>ses = s\<lparr>outfile := [], out_id := 1, closed := []\<rparr>, log_id = 0, trace_id = 0, streams = S\<rparr>"


section \<open>Waiting for a busy source\<close>

text \<open>The steps give these codes, one after the other.\<close>

fun steps_give :: "('b \<Rightarrow> int \<times> 'b) \<Rightarrow> int list \<Rightarrow> 'b \<Rightarrow> 'b \<Rightarrow> bool" where
  "steps_give f [] b b' \<longleftrightarrow> b = b'"
| "steps_give f (c # cs) b b' \<longleftrightarrow> fst (f b) = c \<and> steps_give f cs (snd (f b)) b'"

definition gives_up :: "int list \<Rightarrow> int \<Rightarrow> bool" where
  "gives_up cs rc \<longleftrightarrow> set cs \<subseteq> {SQLITE_OK, SQLITE_BUSY} \<and>
     (if rc = SQLITE_BUSY then count_list cs SQLITE_BUSY = 3 else rc \<noteq> SQLITE_OK \<and> count_list cs SQLITE_BUSY \<le> 3)"

lemma restore_steps_eq:
  assumes "steps_give f (cs @ [rc]) b b'" and "set cs \<subseteq> {SQLITE_OK, SQLITE_BUSY}" and "length cs < fuel"
    and "if rc = SQLITE_BUSY then n + count_list cs SQLITE_BUSY = 3 else rc \<noteq> SQLITE_OK \<and> n + count_list cs SQLITE_BUSY \<le> 3"
  shows "restore_steps fuel f n b = Inr (rc, n + count_list cs SQLITE_BUSY, b')"
  using assms
proof (induction cs arbitrary: fuel n b)
  case Nil
  then obtain k where "fuel = Suc k" by (cases fuel) auto
  with Nil show ?case by (auto simp: split_def Let_def SQLITE_OK_def SQLITE_BUSY_def split: if_splits)
next
  case (Cons c cs)
  then obtain k where k: "fuel = Suc k" by (cases fuel) auto
  have c: "fst (f b) = c" "steps_give f (cs @ [rc]) (snd (f b)) b'" using Cons.prems(1) by simp_all
  have ne: "SQLITE_OK \<noteq> SQLITE_BUSY" by (simp add: SQLITE_OK_def SQLITE_BUSY_def)
  show ?case
  proof (cases "c = SQLITE_OK")
    case True
    with Cons.IH [OF c(2), of k n] Cons.prems k c(1) ne show ?thesis by (cases "rc = SQLITE_BUSY") (simp_all add: split_def Let_def)
  next
    case False
    then have "c = SQLITE_BUSY" using Cons.prems(2) by simp
    moreover from this have "n < 3" using Cons.prems(4) by (auto split: if_splits)
    ultimately show ?thesis using Cons.IH [OF c(2), of k "n + 1"] Cons.prems k c(1) ne
      by (cases "rc = SQLITE_BUSY") (simp_all add: split_def Let_def)
  qed
qed

text \<open>\<open>.restore\<close> copies on through any number of \<open>SQLITE_OK\<close> and waits for a busy source three times in all, not three times in
  a row; the fourth busy answer, or the first other code, ends it, and only \<open>SQLITE_DONE\<close> counts as success.\<close>

theorem restore_command_outcome:
  assumes "backup_open env f = (SQLITE_OK, src)" and "backup_init env (db_opened env d) ''main'' src ''main'' = Some b"
    and "steps_give (backup_step env) (cs @ [rc]) b b'" and "gives_up cs rc" and "length cs < fuel"
    and "backup_finish env b' = (d', src')"
  shows "restore_command fuel env [cmd, f] d = Inr (if rc = SQLITE_DONE then 0 else 1,
    if rc = SQLITE_DONE then [] else if rc \<in> {SQLITE_BUSY, SQLITE_LOCKED} then ''Error: source database is busy\<newline>''
    else ''Error: '' @ backup_errmsg env d' @ ''\<newline>'', d', Some src')"
proof -
  have "restore_steps fuel (backup_step env) 0 b = Inr (rc, 0 + count_list cs SQLITE_BUSY, b')"
    using assms(3,4,5) by (intro restore_steps_eq) (auto simp: gives_up_def)
  with assms(1,2,6) show ?thesis by (simp add: restore_command_def)
qed

section \<open>A failed open\<close>

text \<open>When the library gives a connection although the file cannot be opened, \<open>.open\<close> closes the old database and goes on with
  the one that cannot be used.\<close>

theorem failed_open_replaces:
  assumes "sqlite_open env (Some f) = Some e" and "errcode_of env e \<noteq> SQLITE_OK"
  shows "\<exists>msg. open_command env [cmd, f] (Some d) name = Some (Some e, Some f, Some d, msg) \<and> msg \<noteq> []"
  using assms by (simp add: open_command_def open_database_def Let_def)

section \<open>Three files\<close>

definition quiet_session :: "unit session" where
  "quiet_session = \<lparr>shell = \<lparr>conn = (), so = \<lparr>cnt = 0, sent_out = [], mode = 2, cMode = 2, showHeader = False, zDestTable = None,
       colSeparator = ''|'', rowSeparator = ''\<newline>'', colWidth = [], actualWidth = [], nullValue = [], pStmt = None, aiIndent = None,
       nIndent = 0, iIndent = 0\<rparr>, echoOn = False, autoExplain = False, autoEQP = False, statsOn = False, scanstatsOn = False,
       countChanges = False, backslashOn = False, outCount = 0\<rparr>,
     instream = [], to_stdout = [], to_stderr = [], outfile = [], out_id = 1, closed = []\<rparr>"


end
