(* ===== verification/ShellDump.thy ===== *)
theory ShellDump
  imports ShellExec ShellOutputProps
begin

text \<open>
  \<open>.dump\<close> of \<^verbatim>\<open>database/SQLite/shell.c\<close>: \<open>run_table_dump_query\<close>, \<open>dump_callback\<close>,
  \<open>run_schema_dump_query\<close> and the branch of \<open>do_meta_command\<close>, with the database open. \<open>sqlite3_exec\<close> is the
  argument \<open>exec\<close>, a function of its callback, its text and the state the callback works on; without a callback it
  is given one that does nothing. \<open>strglob\<close> is \<open>sqlite3_strglob(...) == 0\<close>. \<open>%q\<close> doubles the single quotes of its
  argument. Memory is taken to be there, and the count of errors stays below \<open>2 ^ 31\<close>.
\<close>

section \<open>The state\<close>

record 'db shell_dump = "'db shell_state" +
  nErr :: int
  writableSchema :: bool
  zShellStatic :: "string option"

type_synonym 'db dump_exec =
  "(string option list \<Rightarrow> 'db shell_dump \<Rightarrow> (int \<times> 'db shell_dump) c_result) \<Rightarrow> string \<Rightarrow> 'db shell_dump
     \<Rightarrow> (int \<times> string option \<times> 'db shell_dump) c_result"

definition dump_print :: "'db shell_dump \<Rightarrow> string \<Rightarrow> 'db shell_dump" where
  "dump_print p t = p\<lparr>so := print_out (so p) t\<rparr>"

section \<open>The rows of a query that makes SQL\<close>

text \<open>\<open>while( z[0] && (z[0]!='-' || z[1]!='-') ) z++\<close> stops before the end.\<close>

fun has_dashes :: "string \<Rightarrow> bool" where
  "has_dashes [] \<longleftrightarrow> False"
| "has_dashes (c # z) \<longleftrightarrow> c = CHR ''-'' \<and> take 1 z = ''-'' \<or> has_dashes z"

definition dump_row :: "('db, 'st) sqlite_api \<Rightarrow> nat \<Rightarrow> 'st \<Rightarrow> shell_out \<Rightarrow> shell_out c_result" where
  "dump_row eng nResult st o1 =
     c_bind (str_arg (column_text eng st 0)) (\<lambda>z.
     c_bind (c_map (\<lambda>i. c_bind (str_arg (column_text eng st i)) (\<lambda>t. Inr ('','' @ t))) [1..<nResult]) (\<lambda>ts.
     Inr (print_out o1 (z @ concat ts @ (if has_dashes z then ''\<newline>;\<newline>'' else '';\<newline>'')))))"

fun dump_rows :: "nat \<Rightarrow> ('db, 'st) sqlite_api \<Rightarrow> nat \<Rightarrow> int \<Rightarrow> string option \<Rightarrow> shell_out \<Rightarrow> 'db \<Rightarrow> 'st
    \<Rightarrow> (shell_out \<times> 'db \<times> 'st) c_result" where
  "dump_rows 0 eng nResult rc zFirstRow o1 db st = Inl No_return"
| "dump_rows (Suc fuel) eng nResult rc zFirstRow o1 db st =
     (if rc \<noteq> SQLITE_ROW then Inr (o1, db, st)
      else
        c_bind (dump_row eng nResult st (print_out o1 (or_else zFirstRow []))) (\<lambda>o1.
        let (rc, db, st) = step eng db st in dump_rows fuel eng nResult rc None o1 db st))"

definition dump_error :: "('db, 'st) sqlite_api \<Rightarrow> int \<Rightarrow> 'db shell_dump \<Rightarrow> 'db shell_dump" where
  "dump_error eng rc p =
     (let p = dump_print p (''/**** ERROR: ('' @ dec_int rc @ '') '' @ errmsg eng (conn p) @ '' *****/\<newline>'') in
      if rc mod 256 \<noteq> SQLITE_CORRUPT then p\<lparr>nErr := nErr p + 1\<rparr> else p)"

definition run_table_dump_query :: "nat \<Rightarrow> ('db, 'st) sqlite_api \<Rightarrow> string \<Rightarrow> string option \<Rightarrow> 'db shell_dump
    \<Rightarrow> (int \<times> 'db shell_dump) c_result" where
  "run_table_dump_query fuel eng zSelect zFirstRow p =
     (let (rc, d, pSelect, _) = prepare eng (conn p) zSelect; p = p\<lparr>conn := d\<rparr> in
      case (if rc = SQLITE_OK then pSelect else None) of
        None \<Rightarrow> Inr (rc, dump_error eng rc p)
      | Some st \<Rightarrow>
          let (rc, d, st) = step eng (conn p) st in
          c_bind (dump_rows fuel eng (column_count eng st) rc zFirstRow (so p) d st) (\<lambda>(o1, d, st).
          let (rc, d) = finalize eng d (Some st); p = p\<lparr>conn := d, so := o1\<rparr> in
          Inr (rc, if rc \<noteq> SQLITE_OK then dump_error eng rc p else p)))"

section \<open>The callback\<close>

text \<open>A run of calls of \<open>appendText\<close> on the same string.\<close>

fun append_all :: "string option \<Rightarrow> (string \<times> char) list \<Rightarrow> string option c_result" where
  "append_all zIn [] = Inr zIn"
| "append_all zIn ((z, q) # ts) = c_bind (appendText zIn z q) (\<lambda>zIn. append_all (Some zIn) ts)"

text \<open>The loop over the columns of the table: the text of the SELECT and the number of columns.\<close>

fun select_columns :: "nat \<Rightarrow> ('db, 'st) sqlite_api \<Rightarrow> int \<Rightarrow> string option \<Rightarrow> nat \<Rightarrow> 'db \<Rightarrow> 'st
    \<Rightarrow> (string option \<times> nat \<times> 'db \<times> 'st) c_result" where
  "select_columns 0 eng rc zSelect nRow db st = Inl No_return"
| "select_columns (Suc fuel) eng rc zSelect nRow db st =
     (if rc \<noteq> SQLITE_ROW then Inr (zSelect, nRow, db, st)
      else
        c_bind (str_arg (column_text eng st 1)) (\<lambda>zText.
        let (rc, db, st) = step eng db st in
        c_bind (append_all zSelect [(''quote('', CHR 0x00), (zText, CHR 0x22),
          (if rc = SQLITE_ROW then ''), '' else '') '', CHR 0x00)]) (\<lambda>zSelect.
        select_columns fuel eng rc zSelect (nRow + 1) db st)))"

definition dump_table :: "nat \<Rightarrow> ('db, 'st) sqlite_api \<Rightarrow> string \<Rightarrow> string option \<Rightarrow> 'db shell_dump
    \<Rightarrow> (int \<times> 'db shell_dump) c_result" where
  "dump_table fuel eng zTable zPrepStmt p =
     c_bind (append_all None [(''PRAGMA table_info('', CHR 0x00), (zTable, CHR 0x22), ('');'', CHR 0x00)]) (\<lambda>zTableInfo.
     let (rc, d, pTableInfo, _) = prepare eng (conn p) (or_else zTableInfo []); p = p\<lparr>conn := d\<rparr> in
     case (if rc = SQLITE_OK then pTableInfo else None) of
       None \<Rightarrow> Inr (1, p)
     | Some st \<Rightarrow>
         c_bind (append_all None [(zTable, CHR 0x22)]) (\<lambda>zTmp.
         c_bind (append_all None [(''SELECT 'INSERT INTO ' || '', CHR 0x00), (or_else zTmp [], CHR 0x27),
           ('' || ' VALUES(' || '', CHR 0x00)]) (\<lambda>zSelect.
         let (rc, d, st) = step eng (conn p) st in
         c_bind (select_columns fuel eng rc zSelect 0 d st) (\<lambda>(zSelect, nRow, d, st).
         let (rc, d) = finalize eng d (Some st); p = p\<lparr>conn := d\<rparr> in
         if rc \<noteq> SQLITE_OK \<or> nRow = 0 then Inr (1, p)
         else
           c_bind (append_all zSelect [(''|| ')' FROM  '', CHR 0x00), (zTable, CHR 0x22)]) (\<lambda>zSelect.
           c_bind (run_table_dump_query fuel eng (or_else zSelect []) zPrepStmt p) (\<lambda>(rc, p).
           if rc = SQLITE_CORRUPT then
             c_bind (append_all zSelect [('' ORDER BY rowid DESC'', CHR 0x00)]) (\<lambda>zSelect.
             c_bind (run_table_dump_query fuel eng (or_else zSelect []) None p) (\<lambda>(_, p). Inr (0, p)))
           else Inr (0, p)))))))"

definition virtual_table_insert :: "string \<Rightarrow> string \<Rightarrow> string" where
  "virtual_table_insert zTable zSql =
     ''INSERT INTO sqlite_master(type,name,tbl_name,rootpage,sql)VALUES('table','' @ [CHR 0x27] @ double_quotes (CHR 0x27) zTable @
     [CHR 0x27, CHR '','', CHR 0x27] @ double_quotes (CHR 0x27) zTable @ [CHR 0x27] @ '',0,'' @ [CHR 0x27] @ double_quotes (CHR 0x27) zSql @
     [CHR 0x27] @ '');''"

definition dump_callback :: "nat \<Rightarrow> ('db, 'st) sqlite_api \<Rightarrow> (string \<Rightarrow> string \<Rightarrow> bool) \<Rightarrow> string option list \<Rightarrow> 'db shell_dump
    \<Rightarrow> (int \<times> 'db shell_dump) c_result" where
  "dump_callback fuel eng strglob azArg p =
     (case azArg of
        [zTable, zType, zSql] \<Rightarrow>
          c_bind (str_arg zTable) (\<lambda>zTable.
          let finish = (\<lambda>zPrepStmt p. c_bind (str_arg zType) (\<lambda>zType.
            if zType = ''table'' then dump_table fuel eng zTable zPrepStmt p else Inr (0, p))) in
          if zTable = ''sqlite_sequence'' then finish (Some ''DELETE FROM sqlite_sequence;\<newline>'') p
          else if strglob ''sqlite_stat?'' zTable then finish None (dump_print p ''ANALYZE sqlite_master;\<newline>'')
          else if take 7 zTable = ''sqlite_'' then Inr (0, p)
          else
            c_bind (str_arg zSql) (\<lambda>zSql.
            if take 20 zSql = ''CREATE VIRTUAL TABLE'' then
              let p = (if \<not> writableSchema p then (dump_print p ''PRAGMA writable_schema=ON;\<newline>'')\<lparr>writableSchema := True\<rparr> else p) in
              Inr (0, dump_print p (virtual_table_insert zTable zSql @ ''\<newline>''))
            else finish None (dump_print p (zSql @ '';\<newline>''))))
      | _ \<Rightarrow> Inr (1, p))"

section \<open>The command\<close>

definition run_schema_dump_query :: "nat \<Rightarrow> ('db, 'st) sqlite_api \<Rightarrow> 'db dump_exec \<Rightarrow> (string \<Rightarrow> string \<Rightarrow> bool) \<Rightarrow> string
    \<Rightarrow> 'db shell_dump \<Rightarrow> (int \<times> 'db shell_dump) c_result" where
  "run_schema_dump_query fuel eng exec strglob zQuery p =
     c_bind (exec (dump_callback fuel eng strglob) zQuery p) (\<lambda>(rc, zErr, p).
     if rc = SQLITE_CORRUPT then
       let p = dump_print p ''/****** CORRUPTION ERROR *******/\<newline>'';
           p = (case zErr of None \<Rightarrow> p | Some e \<Rightarrow> dump_print p (''/****** '' @ e @ '' ******/\<newline>'')) in
       c_bind (exec (dump_callback fuel eng strglob) (zQuery @ '' ORDER BY rowid DESC'') p) (\<lambda>(rc, zErr, p).
       if rc \<noteq> 0 then c_bind (str_arg zErr) (\<lambda>e. Inr (rc, dump_print p (''/****** ERROR: '' @ e @ '' ******/\<newline>'')))
       else Inr (SQLITE_CORRUPT, p))
     else Inr (rc, p))"

definition exec_only :: "'db dump_exec \<Rightarrow> string \<Rightarrow> 'db shell_dump \<Rightarrow> 'db shell_dump c_result" where
  "exec_only exec z p = c_bind (exec (\<lambda>r p. Inr (0, p)) z p) (\<lambda>(_, _, p). Inr p)"

definition tables_query :: string where
  "tables_query = ''SELECT name, type, sql FROM sqlite_master WHERE sql NOT NULL AND type=='table' AND name!='sqlite_sequence'' @ [CHR 0x27]"

definition sequence_query :: string where
  "sequence_query = ''SELECT name, type, sql FROM sqlite_master WHERE name=='sqlite_sequence'' @ [CHR 0x27]"

definition others_query :: string where
  "others_query = ''SELECT sql FROM sqlite_master WHERE sql NOT NULL AND type IN ('index','trigger','view')''"

definition dump_all :: "nat \<Rightarrow> ('db, 'st) sqlite_api \<Rightarrow> 'db dump_exec \<Rightarrow> (string \<Rightarrow> string \<Rightarrow> bool) \<Rightarrow> 'db shell_dump \<Rightarrow> 'db shell_dump c_result" where
  "dump_all fuel eng exec strglob p =
     c_bind (run_schema_dump_query fuel eng exec strglob tables_query p) (\<lambda>(_, p).
     c_bind (run_schema_dump_query fuel eng exec strglob sequence_query p) (\<lambda>(_, p).
     c_bind (run_table_dump_query fuel eng others_query None p) (\<lambda>(_, p).
     Inr p)))"

fun dump_matching :: "nat \<Rightarrow> ('db, 'st) sqlite_api \<Rightarrow> 'db dump_exec \<Rightarrow> (string \<Rightarrow> string \<Rightarrow> bool) \<Rightarrow> string list \<Rightarrow> 'db shell_dump
    \<Rightarrow> 'db shell_dump c_result" where
  "dump_matching fuel eng exec strglob [] p = Inr p"
| "dump_matching fuel eng exec strglob (a # as) p =
     c_bind (run_schema_dump_query fuel eng exec strglob
       ''SELECT name, type, sql FROM sqlite_master WHERE tbl_name LIKE shellstatic() AND type=='table'  AND sql NOT NULL''
       (p\<lparr>zShellStatic := Some a\<rparr>)) (\<lambda>(_, p).
     c_bind (run_table_dump_query fuel eng
       ''SELECT sql FROM sqlite_master WHERE sql NOT NULL  AND type IN ('index','trigger','view')  AND tbl_name LIKE shellstatic()''
       None p) (\<lambda>(_, p).
     dump_matching fuel eng exec strglob as (p\<lparr>zShellStatic := None\<rparr>)))"

text \<open>The result code, what is printed to standard error and the state; \<open>azArg\<close> starts with the name of the command.\<close>

definition dump_command :: "nat \<Rightarrow> ('db, 'st) sqlite_api \<Rightarrow> 'db dump_exec \<Rightarrow> (string \<Rightarrow> string \<Rightarrow> bool) \<Rightarrow> string list \<Rightarrow> 'db shell_dump
    \<Rightarrow> (int \<times> string \<times> 'db shell_dump) c_result" where
  "dump_command fuel eng exec strglob azArg p =
     (if length azArg \<noteq> 1 \<and> length azArg \<noteq> 2 then Inr (1, ''Usage: .dump ?LIKE-PATTERN?\<newline>'', p)
      else
        let p = (dump_print p ''PRAGMA foreign_keys=OFF;\<newline>BEGIN TRANSACTION;\<newline>'')\<lparr>writableSchema := False\<rparr> in
        c_bind (exec_only exec ''SAVEPOINT dump; PRAGMA writable_schema=ON'' p) (\<lambda>p.
        let p = p\<lparr>nErr := 0\<rparr> in
        c_bind (if length azArg = 1 then dump_all fuel eng exec strglob p
                else dump_matching fuel eng exec strglob (tl azArg) p) (\<lambda>p.
        let p = (if writableSchema p then (dump_print p ''PRAGMA writable_schema=OFF;\<newline>'')\<lparr>writableSchema := False\<rparr> else p) in
        c_bind (exec_only exec ''PRAGMA writable_schema=OFF;'' p) (\<lambda>p.
        c_bind (exec_only exec ''RELEASE dump;'' p) (\<lambda>p.
        Inr (0, [], dump_print p (if nErr p \<noteq> 0 then ''ROLLBACK; -- due to errors\<newline>'' else ''COMMIT;\<newline>'')))))))"

end
