(* ===== verification/ShellDumpProps.thy ===== *)
theory ShellDumpProps
  imports ShellDump
begin

text \<open>
  What \<open>.dump\<close> writes: the SELECT it builds for a table reads back as that table and its columns, and the
  script has the schema and one INSERT per row.
\<close>

section \<open>Reading SQL\<close>

text \<open>The text in quotes after the opening one, a doubled quote being one character, and what follows it.\<close>

fun sql_quoted :: "char \<Rightarrow> string \<Rightarrow> (string \<times> string) option" where
  "sql_quoted q [] = None"
| "sql_quoted q [c] = (if c = q then Some ([], []) else None)"
| "sql_quoted q (c # d # z) =
     (if c \<noteq> q then map_option (apfst ((#) c)) (sql_quoted q (d # z))
      else if d = q then map_option (apfst ((#) q)) (sql_quoted q z)
      else Some ([], d # z))"

lemma sql_quoted_shorter: "sql_quoted q z = Some (t, r) \<Longrightarrow> length r < length z"
  by (induction q z arbitrary: t rule: sql_quoted.induct) (fastforce split: if_splits)+

datatype sql_token = Literal string | Name string | Word string | Mark string

function sql_tokens :: "string \<Rightarrow> sql_token list option" where
  "sql_tokens [] = Some []"
| "sql_tokens (c # z) =
     (if is_space c then sql_tokens z
      else if c = CHR 0x27 \<or> c = CHR 0x22 then
        (case sql_quoted c z of
           None \<Rightarrow> None
         | Some (t, r) \<Rightarrow> map_option ((#) (if c = CHR 0x27 then Literal t else Name t)) (sql_tokens r))
      else if name_char c then
        map_option ((#) (Word (c # takeWhile name_char z))) (sql_tokens (dropWhile name_char z))
      else if c = CHR ''|'' \<and> take 1 z = ''|'' then map_option ((#) (Mark ''||'')) (sql_tokens (drop 1 z))
      else map_option ((#) (Mark [c])) (sql_tokens z))"
  by pat_completeness auto

termination
  by (relation "measure length") (auto simp: sql_quoted_shorter less_Suc_eq_le length_dropWhile_le intro: less_imp_le)

text \<open>A quoted text reads as the text.\<close>

lemma sql_quoted_doubled:
  "take 1 r \<noteq> [q] \<Longrightarrow> sql_quoted q (double_quotes q t @ q # r) = Some (t, r)"
proof (induction t)
  case Nil
  then show ?case by (cases r) (auto simp: double_quotes_def)
next
  case (Cons c t)
  then show ?case
    by (cases "double_quotes q t @ q # r") (auto simp: double_quotes_def)
qed

section \<open>The texts\<close>

definition sql_name :: "string \<Rightarrow> string" where
  "sql_name t = CHR 0x22 # double_quotes (CHR 0x22) t @ [CHR 0x22]"

fun columns_text :: "string list \<Rightarrow> string" where
  "columns_text [] = []"
| "columns_text [c] = ''quote('' @ sql_name c @ '') ''"
| "columns_text (c # d # cs) = ''quote('' @ sql_name c @ ''), '' @ columns_text (d # cs)"

definition info_text :: "string \<Rightarrow> string" where
  "info_text t = ''PRAGMA table_info('' @ sql_name t @ '');''"

definition select_text :: "string \<Rightarrow> string list \<Rightarrow> string" where
  "select_text t cols = ''SELECT 'INSERT INTO ' || '' @ (CHR 0x27 # double_quotes (CHR 0x27) (sql_name t) @ [CHR 0x27]) @
     '' || ' VALUES(' || '' @ columns_text cols @ ''|| ')' FROM  '' @ sql_name t"

fun columns_tokens :: "string list \<Rightarrow> sql_token list" where
  "columns_tokens [] = []"
| "columns_tokens [c] = [Word ''quote'', Mark ''('', Name c, Mark '')'']"
| "columns_tokens (c # d # cs) = [Word ''quote'', Mark ''('', Name c, Mark '')'', Mark '',''] @ columns_tokens (d # cs)"

definition info_tokens :: "string \<Rightarrow> sql_token list" where
  "info_tokens t = [Word ''PRAGMA'', Word ''table_info'', Mark ''('', Name t, Mark '')'', Mark '';'']"

definition select_tokens :: "string \<Rightarrow> string list \<Rightarrow> sql_token list" where
  "select_tokens t cols =
     [Word ''SELECT'', Literal ''INSERT INTO '', Mark ''||'', Literal (sql_name t), Mark ''||'', Literal '' VALUES('', Mark ''||''] @
     columns_tokens cols @ [Mark ''||'', Literal '')'', Word ''FROM'', Name t]"

lemmas char_facts = is_space_def name_char_def is_alpha_def is_digit_def char_code_def

lemma tokens_name:
  "take 1 r \<noteq> [CHR 0x22] \<Longrightarrow> sql_tokens (sql_name t @ r) = map_option ((#) (Name t)) (sql_tokens r)"
  by (simp add: sql_name_def sql_quoted_doubled char_facts)

lemma tokens_last_name: "sql_tokens (sql_name t) = Some [Name t]"
  using tokens_name [of "[]" t] by simp

lemma info_reads: "sql_tokens (info_text t) = Some (info_tokens t)"
  by (simp add: info_text_def info_tokens_def tokens_name char_facts)

lemma columns_read:
  "cols \<noteq> [] \<Longrightarrow> sql_tokens (columns_text cols @ r) = map_option ((@) (columns_tokens cols)) (sql_tokens r)"
proof (induction cols rule: columns_text.induct)
  case 1
  then show ?case by simp
next
  case (2 c)
  show ?case by (simp add: tokens_name char_facts option.map_comp o_def)
next
  case (3 c d cs)
  then show ?case by (simp add: tokens_name char_facts option.map_comp o_def)
qed

lemma select_reads: "cols \<noteq> [] \<Longrightarrow> sql_tokens (select_text t cols) = Some (select_tokens t cols)"
  by (simp add: select_text_def select_tokens_def sql_quoted_doubled columns_read tokens_last_name char_facts)

section \<open>Building the texts\<close>

definition pieces :: "(string \<times> char) list \<Rightarrow> string" where
  "pieces ts = concat (map (\<lambda>(z, q). appended_text None z q) ts)"

lemma pieces_simps [simp]:
  "pieces [] = []"
  "pieces ((z, CHR 0x00) # ts) = z @ pieces ts"
  "pieces ((z, CHR 0x22) # ts) = sql_name z @ pieces ts"
  "pieces ((z, CHR 0x27) # ts) = CHR 0x27 # double_quotes (CHR 0x27) z @ CHR 0x27 # pieces ts"
  by (simp_all add: pieces_def appended_text_def sql_name_def or_else_def)

lemma length_appended_text: "length z \<le> length (appended_text None z q)"
  by (simp add: appended_text_def or_else_def length_double_quotes)

lemma append_all_eq:
  "ts \<noteq> [] \<Longrightarrow> length (or_else z [] @ pieces ts) < 2 ^ 28 \<Longrightarrow> append_all z ts = Inr (Some (or_else z [] @ pieces ts))"
proof (induction ts arbitrary: z)
  case Nil
  then show ?case by simp
next
  case (Cons t ts)
  obtain a q where t: "t = (a, q)" by (cases t)
  have p: "pieces ((a, q) # ts) = appended_text None a q @ pieces ts" by (simp add: pieces_def)
  have "length (or_else z []) + 2 * length a + 3 < 2 ^ 30"
    using Cons.prems(2) length_appended_text [of a q] by (simp add: p t)
  then have a: "appendText z a q = Inr (appended_text z a q)" by (rule appendText_eq)
  have e: "appended_text z a q = or_else z [] @ appended_text None a q" by (simp add: appended_text_def or_else_def)
  show ?case
  proof (cases "ts = []")
    case True
    then show ?thesis using a e by (simp add: t pieces_def)
  next
    case False
    with Cons.IH [of "Some (appended_text z a q)"] Cons.prems(2) a e show ?thesis
      by (simp add: t p or_else_def)
  qed
qed

section \<open>Statements that run\<close>

text \<open>The statement delivers rows, each as \<open>P\<close> says, and then is done.\<close>

fun yields :: "('db, 'st) sqlite_api \<Rightarrow> ('r \<Rightarrow> 'st \<Rightarrow> bool) \<Rightarrow> 'r list \<Rightarrow> 'db \<Rightarrow> 'st \<Rightarrow> 'db \<Rightarrow> 'st \<Rightarrow> bool" where
  "yields eng P [] d st d' st' \<longleftrightarrow> step eng d st = (SQLITE_DONE, d', st')"
| "yields eng P (r # rs) d st d' st' \<longleftrightarrow>
     (case step eng d st of (rc, d1, st1) \<Rightarrow> rc = SQLITE_ROW \<and> P r st1 \<and> yields eng P rs d1 st1 d' st')"

text \<open>The text runs on every connection in \<open>I\<close>, from \<open>prepare\<close> to \<open>finalize\<close>.\<close>

definition runs :: "('db, 'st) sqlite_api \<Rightarrow> ('db \<Rightarrow> bool) \<Rightarrow> ('r \<Rightarrow> 'st \<Rightarrow> bool) \<Rightarrow> string \<Rightarrow> 'r list \<Rightarrow> bool" where
  "runs eng I P z rs \<longleftrightarrow> (\<forall>d. I d \<longrightarrow> (\<exists>d1 st l d2 st2 d3. prepare eng d z = (SQLITE_OK, d1, Some st, l) \<and>
     yields eng P rs d1 st d2 st2 \<and> finalize eng d2 (Some st2) = (SQLITE_OK, d3) \<and> I d3))"

definition has_texts :: "('db, 'st) sqlite_api \<Rightarrow> string list \<Rightarrow> 'st \<Rightarrow> bool" where
  "has_texts eng r st \<longleftrightarrow> column_count eng st = length r \<and> (\<forall>i < length r. column_text eng st i = Some (r ! i))"

definition has_name :: "('db, 'st) sqlite_api \<Rightarrow> string \<Rightarrow> 'st \<Rightarrow> bool" where
  "has_name eng c st \<longleftrightarrow> column_text eng st 1 = Some c"

lemma codes [simp]: "SQLITE_DONE \<noteq> SQLITE_ROW" "SQLITE_OK \<noteq> SQLITE_CORRUPT"
  by (simp_all add: SQLITE_DONE_def SQLITE_ROW_def SQLITE_OK_def SQLITE_CORRUPT_def)

section \<open>The SELECT of a table\<close>

lemma select_columns_eq:
  assumes "has_name eng c st" and "yields eng (has_name eng) cs d st d' st'" and "length cs + 1 < fuel"
    and "length (z @ columns_text (c # cs)) < 2 ^ 28"
  shows "select_columns fuel eng SQLITE_ROW (Some z) n d st =
    Inr (Some (z @ columns_text (c # cs)), n + length (c # cs), d', st')"
  using assms
proof (induction cs arbitrary: c st d z n fuel)
  case Nil
  then obtain k where k: "fuel = Suc (Suc k)" by (cases fuel; cases "fuel - 1") auto
  from append_all_eq [of "[(''quote('', CHR 0x00), (c, CHR 0x22), ('') '', CHR 0x00)]" "Some z"] Nil.prems
  show ?case by (simp add: k has_name_def str_arg_def or_else_def del: append_all.simps)
next
  case (Cons e cs)
  then obtain k where k: "fuel = Suc k" "length cs + 1 < k" by (cases fuel) auto
  obtain d1 st1 where s: "step eng d st = (SQLITE_ROW, d1, st1)" "has_name eng e st1" "yields eng (has_name eng) cs d1 st1 d' st'"
    using Cons.prems(2) by auto
  let ?z = "z @ ''quote('' @ sql_name c @ ''), ''"
  have l: "length (?z @ columns_text (e # cs)) < 2 ^ 28" using Cons.prems(4) by simp
  from append_all_eq [of "[(''quote('', CHR 0x00), (c, CHR 0x22), (''), '', CHR 0x00)]" "Some z"] l
  have "append_all (Some z) [(''quote('', CHR 0x00), (c, CHR 0x22), (''), '', CHR 0x00)] = Inr (Some ?z)"
    by (simp add: or_else_def)
  with Cons.IH [OF s(2,3) k(2) l] Cons.prems(1) s(1) show ?case
    by (simp add: k(1) has_name_def str_arg_def del: append_all.simps)
qed

section \<open>The rows of a table\<close>

definition dump_line :: "string list \<Rightarrow> string" where
  "dump_line r = hd r @ concat (map ((#) (CHR '','')) (tl r)) @ (if has_dashes (hd r) then ''\<newline>;\<newline>'' else '';\<newline>'')"

lemma c_map_texts:
  "(\<And>i. i \<in> set is \<Longrightarrow> f i = Inr (g i)) \<Longrightarrow> c_map f is = Inr (map g is)"
  by (induction "is") simp_all

lemma dump_row_eq:
  assumes "has_texts eng r st" and "r \<noteq> []"
  shows "dump_row eng (length r) st o1 = Inr (print_out o1 (dump_line r))"
proof -
  obtain a as where r: "r = a # as" using assms(2) by (cases r) auto
  have "c_map (\<lambda>i. c_bind (str_arg (column_text eng st i)) (\<lambda>t. Inr ('','' @ t))) [1..<length r] =
      Inr (map (\<lambda>i. CHR '','' # r ! i) [1..<length r])"
    using assms(1) by (intro c_map_texts) (auto simp: has_texts_def str_arg_def)
  moreover have "map (\<lambda>i. CHR '','' # r ! i) [1..<length r] = map ((#) (CHR '','')) as"
    by (rule nth_equalityI) (auto simp: r simp del: upt_Suc)
  moreover have "column_text eng st 0 = Some a" using assms(1) r by (auto simp: has_texts_def)
  ultimately show ?thesis by (simp add: dump_row_def str_arg_def dump_line_def r)
qed

lemma print_out_twice [simp]: "print_out (print_out o1 s) t = print_out o1 (s @ t)"
  by (simp add: print_out_def)

lemma print_out_nothing [simp]: "print_out o1 [] = o1"
  by (simp add: print_out_def)

lemma dump_rows_eq:
  assumes "has_texts eng r st" and "yields eng (has_texts eng) rs d st d' st'" and "length rs + 1 < fuel"
    and "\<forall>q \<in> set (r # rs). length q = n" and "0 < n"
  shows "dump_rows fuel eng n SQLITE_ROW None o1 d st =
    Inr (print_out o1 (concat (map dump_line (r # rs))), d', st')"
  using assms
proof (induction rs arbitrary: r st d o1 fuel)
  case Nil
  then obtain k where k: "fuel = Suc (Suc k)" by (cases fuel; cases "fuel - 1") auto
  have "n = length r" "r \<noteq> []" using Nil.prems(4,5) by auto
  with dump_row_eq [OF Nil.prems(1)] Nil.prems(2) show ?case by (simp add: k or_else_def)
next
  case (Cons q rs)
  then obtain k where k: "fuel = Suc k" "length rs + 1 < k" by (cases fuel) auto
  have n: "n = length r" "r \<noteq> []" using Cons.prems(4,5) by auto
  obtain d1 st1 where s: "step eng d st = (SQLITE_ROW, d1, st1)" "has_texts eng q st1" "yields eng (has_texts eng) rs d1 st1 d' st'"
    using Cons.prems(2) by auto
  have q: "\<forall>x \<in> set (q # rs). length x = n" using Cons.prems(4) by simp
  show ?case
    using Cons.IH [OF s(2,3) k(2) q Cons.prems(5)] dump_row_eq [OF Cons.prems(1) n(2)] s(1) n(1)
    by (simp add: k(1) or_else_def)
qed

lemma run_table_dump_query_eq:
  assumes "runs eng I (has_texts eng) z rows" and "I (conn p)" and "\<forall>r \<in> set rows. length r = n" and "0 < n"
    and "length rows + 1 < fuel"
  shows "\<exists>d. I d \<and> run_table_dump_query fuel eng z None p =
    Inr (SQLITE_OK, p\<lparr>conn := d, so := print_out (so p) (concat (map dump_line rows))\<rparr>)"
proof -
  obtain d1 st l d2 st2 d3 where e: "prepare eng (conn p) z = (SQLITE_OK, d1, Some st, l)"
    "yields eng (has_texts eng) rows d1 st d2 st2" "finalize eng d2 (Some st2) = (SQLITE_OK, d3)" "I d3"
    using assms(1,2) by (auto simp: runs_def)
  show ?thesis
  proof (cases rows)
    case Nil
    then obtain k where "fuel = Suc k" using assms(5) by (cases fuel) auto
    with Nil e show ?thesis by (intro exI [of _ d3]) (simp add: run_table_dump_query_def)
  next
    case (Cons r rs)
    then obtain d0 st0 where s: "step eng d1 st = (SQLITE_ROW, d0, st0)" "has_texts eng r st0"
      "yields eng (has_texts eng) rs d0 st0 d2 st2" using e(2) by auto
    have c: "column_count eng st0 = n" using s(2) assms(3) Cons by (simp add: has_texts_def)
    have f: "length rs + 1 < fuel" "\<forall>q \<in> set (r # rs). length q = n" using assms(3,5) Cons by auto
    from dump_rows_eq [OF s(2,3) f assms(4), of "so p"] e s(1) c Cons show ?thesis
      by (intro exI [of _ d3]) (simp add: run_table_dump_query_def)
  qed
qed

section \<open>A table\<close>

record dumped_table =
  tname :: string
  tsql :: string
  tcols :: "string list"
  trows :: "string list list"

definition insert_head :: "string \<Rightarrow> string" where
  "insert_head t = ''INSERT INTO '' @ sql_name t @ '' VALUES(''"

text \<open>The row of the SELECT for a row of the table, given by its values as \<open>quote\<close> writes them.\<close>

fun cells :: "string \<Rightarrow> string list \<Rightarrow> string list" where
  "cells pre [] = []"
| "cells pre [v] = [pre @ v @ '')'']"
| "cells pre (v # w # vs) = (pre @ v) # cells [] (w # vs)"

fun comma_list :: "string list \<Rightarrow> string" where
  "comma_list [] = []"
| "comma_list [v] = v"
| "comma_list (v # w # vs) = v @ '','' @ comma_list (w # vs)"

lemma length_cells [simp]: "length (cells pre vs) = length vs"
  by (induction pre vs rule: cells.induct) simp_all

lemma cells_joined:
  "vs \<noteq> [] \<Longrightarrow> hd (cells pre vs) @ concat (map ((#) (CHR '','')) (tl (cells pre vs))) = pre @ comma_list vs @ '')''"
proof (induction pre vs rule: cells.induct)
  case (3 pre v w vs)
  have "cells [] (w # vs) = hd (cells [] (w # vs)) # tl (cells [] (w # vs))"
    by (cases "cells [] (w # vs)") (auto dest: arg_cong [of _ _ length])
  then have "concat (map ((#) (CHR '','')) (cells [] (w # vs))) =
      CHR '','' # hd (cells [] (w # vs)) @ concat (map ((#) (CHR '','')) (tl (cells [] (w # vs))))"
    by (metis concat.simps(2) list.simps(9) append_Cons)
  with 3 show ?case by simp
qed simp_all

definition insert_line :: "string \<Rightarrow> string list \<Rightarrow> string" where
  "insert_line t vs = insert_head t @ comma_list vs @ '')'' @
     (if has_dashes (hd (cells (insert_head t) vs)) then ''\<newline>;\<newline>'' else '';\<newline>'')"

definition table_script :: "dumped_table \<Rightarrow> string" where
  "table_script t = tsql t @ '';\<newline>'' @ concat (map (insert_line (tname t)) (trows t))"

lemma dump_line_cells: "vs \<noteq> [] \<Longrightarrow> dump_line (cells (insert_head t) vs) = insert_line t vs"
  using cells_joined [of vs "insert_head t"] by (simp add: dump_line_def insert_line_def)

text \<open>What the library knows of the table, whatever the text of the statement that asks for it.\<close>

definition holds_table :: "('db, 'st) sqlite_api \<Rightarrow> ('db \<Rightarrow> bool) \<Rightarrow> dumped_table \<Rightarrow> bool" where
  "holds_table eng I t \<longleftrightarrow>
     (\<forall>z. sql_tokens z = Some (info_tokens (tname t)) \<longrightarrow> runs eng I (has_name eng) z (tcols t)) \<and>
     (\<forall>z. sql_tokens z = Some (select_tokens (tname t) (tcols t)) \<longrightarrow>
        runs eng I (has_texts eng) z (map (cells (insert_head (tname t))) (trows t)))"

definition ordinary_table :: "nat \<Rightarrow> (string \<Rightarrow> string \<Rightarrow> bool) \<Rightarrow> dumped_table \<Rightarrow> bool" where
  "ordinary_table fuel strglob t \<longleftrightarrow> take 7 (tname t) \<noteq> ''sqlite_'' \<and> \<not> strglob ''sqlite_stat?'' (tname t) \<and>
     take 20 (tsql t) \<noteq> ''CREATE VIRTUAL TABLE'' \<and> tcols t \<noteq> [] \<and> (\<forall>r \<in> set (trows t). length r = length (tcols t)) \<and>
     length (select_text (tname t) (tcols t)) < 2 ^ 28 \<and> length (tcols t) < fuel \<and> length (trows t) + 1 < fuel"

lemma dump_table_eq:
  assumes "holds_table eng I t" and "ordinary_table fuel strglob t" and "I (conn p)"
  shows "\<exists>d. I d \<and> dump_table fuel eng (tname t) None p =
    Inr (0, p\<lparr>conn := d, so := print_out (so p) (concat (map (insert_line (tname t)) (trows t)))\<rparr>)"
proof -
  let ?n = "tname t" let ?cols = "tcols t"
  have sel: "length (select_text ?n ?cols) < 2 ^ 28" and fuel: "length ?cols < fuel" "length (trows t) + 1 < fuel"
    and rows: "\<forall>r \<in> set (trows t). length r = length ?cols" using assms(2) by (auto simp: ordinary_table_def)
  have ne: "?cols \<noteq> []" using assms(2) by (simp add: ordinary_table_def)
  then obtain c cs where cols: "?cols = c # cs" by (cases ?cols) auto
  have nm: "length (sql_name ?n) \<le> length (double_quotes (CHR 0x27) (sql_name ?n))" by (simp add: length_double_quotes)
  let ?z0 = "''SELECT 'INSERT INTO ' || '' @ (CHR 0x27 # double_quotes (CHR 0x27) (sql_name ?n) @ [CHR 0x27]) @ '' || ' VALUES(' || ''"
  have a1: "append_all None [(''PRAGMA table_info('', CHR 0x00), (?n, CHR 0x22), ('');'', CHR 0x00)] = Inr (Some (info_text ?n))"
    using append_all_eq [of "[(''PRAGMA table_info('', CHR 0x00), (?n, CHR 0x22), ('');'', CHR 0x00)]" None] sel nm
    by (simp add: or_else_def info_text_def select_text_def del: append_all.simps)
  have a2: "append_all None [(?n, CHR 0x22)] = Inr (Some (sql_name ?n))"
    using append_all_eq [of "[(?n, CHR 0x22)]" None] sel nm
    by (simp add: or_else_def select_text_def del: append_all.simps)
  have a3: "append_all None [(''SELECT 'INSERT INTO ' || '', CHR 0x00), (sql_name ?n, CHR 0x27), ('' || ' VALUES(' || '', CHR 0x00)] =
      Inr (Some ?z0)"
    using append_all_eq [of "[(''SELECT 'INSERT INTO ' || '', CHR 0x00), (sql_name ?n, CHR 0x27), ('' || ' VALUES(' || '', CHR 0x00)]" None] sel
    by (simp add: or_else_def select_text_def del: append_all.simps)
  have a4: "append_all (Some (?z0 @ columns_text ?cols)) [(''|| ')' FROM  '', CHR 0x00), (?n, CHR 0x22)] = Inr (Some (select_text ?n ?cols))"
    using append_all_eq [of "[(''|| ')' FROM  '', CHR 0x00), (?n, CHR 0x22)]" "Some (?z0 @ columns_text ?cols)"] sel
    by (simp add: or_else_def select_text_def del: append_all.simps)
  have "runs eng I (has_name eng) (info_text ?n) ?cols"
    using assms(1) info_reads [of ?n] by (simp add: holds_table_def)
  then obtain d1 st l d2 st2 d3 where i: "prepare eng (conn p) (info_text ?n) = (SQLITE_OK, d1, Some st, l)"
    "yields eng (has_name eng) ?cols d1 st d2 st2" "finalize eng d2 (Some st2) = (SQLITE_OK, d3)" "I d3"
    using assms(3) unfolding runs_def by blast
  from i(2) obtain d0 st0 where s: "step eng d1 st = (SQLITE_ROW, d0, st0)" "has_name eng c st0"
    "yields eng (has_name eng) cs d0 st0 d2 st2" by (auto simp: cols)
  have f: "length cs + 1 < fuel" using fuel(1) cols by simp
  have l0: "length (?z0 @ columns_text (c # cs)) < 2 ^ 28" using sel cols by (simp add: select_text_def)
  from select_columns_eq [OF s(2,3) f l0, of 0]
  have b: "select_columns fuel eng SQLITE_ROW (Some ?z0) 0 d0 st0 = Inr (Some (?z0 @ columns_text ?cols), length ?cols, d2, st2)"
    by (simp add: cols)
  have r: "runs eng I (has_texts eng) (select_text ?n ?cols) (map (cells (insert_head ?n)) (trows t))"
    using assms(1) select_reads [OF ne] by (simp add: holds_table_def)
  have lines: "map dump_line (map (cells (insert_head ?n)) (trows t)) = map (insert_line ?n) (trows t)"
    using rows ne by (auto intro!: dump_line_cells)
  have "I (conn (p\<lparr>conn := d3\<rparr>))" "0 < length ?cols" using i(4) ne by simp_all
  with run_table_dump_query_eq [OF r this(1), of "length ?cols" fuel] rows fuel(2) lines
  obtain d where "I d" "run_table_dump_query fuel eng (select_text ?n ?cols) None (p\<lparr>conn := d3\<rparr>) =
    Inr (SQLITE_OK, p\<lparr>conn := d, so := print_out (so p) (concat (map (insert_line ?n) (trows t)))\<rparr>)"
    by (auto simp del: map_map)
  then show ?thesis
    using a1 a2 a3 a4 b i(1,3) s(1) ne
    by (intro exI [of _ d]) (simp add: dump_table_def or_else_def Let_def del: append_all.simps)
qed

section \<open>The script\<close>

text \<open>Nothing changes but what was printed and the connection, which stays in \<open>I\<close>.\<close>

definition writes :: "('db \<Rightarrow> bool) \<Rightarrow> string \<Rightarrow> 'db shell_dump \<Rightarrow> 'db shell_dump \<Rightarrow> bool" where
  "writes I t p p' \<longleftrightarrow> (\<exists>d. I d \<and> p' = p\<lparr>conn := d, so := print_out (so p) t\<rparr>)"

lemma writes_conn: "writes I t p p' \<Longrightarrow> I (conn p')"
  by (auto simp: writes_def)

lemma writes_then: "writes I s p p' \<Longrightarrow> writes I t p' p'' \<Longrightarrow> writes I (s @ t) p p''"
  by (auto simp: writes_def)

lemma writes_nothing: "I (conn p) \<Longrightarrow> writes I [] p p"
  by (auto simp: writes_def intro!: exI [of _ "conn p"])

lemma writes_print: "writes I s (dump_print p t) p' \<Longrightarrow> writes I (t @ s) p p'"
  by (auto simp: writes_def dump_print_def)

lemma dump_callback_writes:
  assumes "holds_table eng I t" and "ordinary_table fuel strglob t" and "I (conn p)"
  shows "\<exists>p'. dump_callback fuel eng strglob [Some (tname t), Some ''table'', Some (tsql t)] p = Inr (0, p') \<and>
    writes I (table_script t) p p'"
proof -
  let ?p = "dump_print p (tsql t @ '';\<newline>'')"
  have "I (conn ?p)" using assms(3) by (simp add: dump_print_def)
  from dump_table_eq [OF assms(1,2) this] obtain d where "I d" "dump_table fuel eng (tname t) None ?p =
    Inr (0, ?p\<lparr>conn := d, so := print_out (so ?p) (concat (map (insert_line (tname t)) (trows t)))\<rparr>)" by auto
  moreover have "tname t \<noteq> ''sqlite_sequence''" using assms(2) by (auto simp: ordinary_table_def)
  ultimately show ?thesis using assms(2)
    by (auto simp: ordinary_table_def dump_callback_def str_arg_def writes_def table_script_def dump_print_def)
qed

text \<open>The calls of a callback for the rows of a query, until one does not return 0.\<close>

fun call_each :: "(string option list \<Rightarrow> 'p \<Rightarrow> (int \<times> 'p) c_result) \<Rightarrow> string option list list \<Rightarrow> 'p \<Rightarrow> (int \<times> 'p) c_result" where
  "call_each cb [] p = Inr (0, p)"
| "call_each cb (r # rs) p = c_bind (cb r p) (\<lambda>(rc, p). if rc \<noteq> 0 then Inr (rc, p) else call_each cb rs p)"

definition schema_row :: "dumped_table \<Rightarrow> string option list" where
  "schema_row t = [Some (tname t), Some ''table'', Some (tsql t)]"

lemma call_each_tables:
  assumes "\<forall>t \<in> set ts. holds_table eng I t \<and> ordinary_table fuel strglob t" and "I (conn p)"
  shows "\<exists>p'. call_each (dump_callback fuel eng strglob) (map schema_row ts) p = Inr (0, p') \<and>
    writes I (concat (map table_script ts)) p p'"
  using assms
proof (induction ts arbitrary: p)
  case Nil
  then show ?case by (simp add: writes_nothing)
next
  case (Cons t ts)
  obtain p1 where p1: "dump_callback fuel eng strglob (schema_row t) p = Inr (0, p1)" "writes I (table_script t) p p1"
    using dump_callback_writes [of eng I t fuel strglob p] Cons.prems unfolding schema_row_def by auto
  obtain p2 where "call_each (dump_callback fuel eng strglob) (map schema_row ts) p1 = Inr (0, p2)"
    "writes I (concat (map table_script ts)) p1 p2"
    using Cons.IH [of p1] Cons.prems(1) writes_conn [OF p1(2)] by auto
  with p1 writes_then show ?case by fastforce
qed

text \<open>What \<open>sqlite3_exec\<close> promises of a query, and of a statement that is run without a callback.\<close>

definition calls_back :: "'db dump_exec \<Rightarrow> ('db \<Rightarrow> bool) \<Rightarrow> string \<Rightarrow> string option list list \<Rightarrow> bool" where
  "calls_back exec I z rows \<longleftrightarrow> (\<forall>cb p p'. I (conn p) \<longrightarrow> call_each cb rows p = Inr (0, p') \<longrightarrow> exec cb z p = Inr (SQLITE_OK, None, p'))"

definition keeps_tables :: "'db dump_exec \<Rightarrow> ('db \<Rightarrow> bool) \<Rightarrow> string \<Rightarrow> bool" where
  "keeps_tables exec I z \<longleftrightarrow>
     (\<forall>p. I (conn p) \<longrightarrow> (\<exists>rc e d. I d \<and> exec (\<lambda>r p. Inr (0, p)) z p = Inr (rc, e, p\<lparr>conn := d\<rparr>)))"

lemma schema_dump_writes:
  assumes "calls_back exec I z (map schema_row ts)" and "\<forall>t \<in> set ts. holds_table eng I t \<and> ordinary_table fuel strglob t"
    and "I (conn p)"
  shows "\<exists>p'. run_schema_dump_query fuel eng exec strglob z p = Inr (SQLITE_OK, p') \<and>
    writes I (concat (map table_script ts)) p p'"
proof -
  obtain p' where p': "call_each (dump_callback fuel eng strglob) (map schema_row ts) p = Inr (0, p')"
    "writes I (concat (map table_script ts)) p p'" using call_each_tables [OF assms(2,3)] by blast
  with assms(1,3) have "exec (dump_callback fuel eng strglob) z p = Inr (SQLITE_OK, None, p')"
    unfolding calls_back_def by blast
  with p'(2) show ?thesis by (simp add: run_schema_dump_query_def)
qed

lemma exec_only_writes:
  "keeps_tables exec I z \<Longrightarrow> I (conn p) \<Longrightarrow> \<exists>d. I d \<and> exec_only exec z p = Inr (p\<lparr>conn := d\<rparr>)"
  unfolding keeps_tables_def exec_only_def by fastforce

text \<open>The schemas other than tables, as they are printed.\<close>

definition other_script :: "string \<Rightarrow> string" where
  "other_script s = s @ (if has_dashes s then ''\<newline>;\<newline>'' else '';\<newline>'')"

lemma dump_all_writes:
  assumes "calls_back exec I tables_query (map schema_row ts)" and "calls_back exec I sequence_query []"
    and "runs eng I (has_texts eng) others_query (map (\<lambda>s. [s]) others)"
    and "\<forall>t \<in> set ts. holds_table eng I t \<and> ordinary_table fuel strglob t"
    and "length others + 1 < fuel" and "I (conn p)"
  shows "\<exists>p'. dump_all fuel eng exec strglob p = Inr p' \<and>
    writes I (concat (map table_script ts) @ concat (map other_script others)) p p'"
proof -
  obtain p1 where p1: "run_schema_dump_query fuel eng exec strglob tables_query p = Inr (SQLITE_OK, p1)"
    "writes I (concat (map table_script ts)) p p1" using schema_dump_writes [OF assms(1,4,6)] by blast
  note i1 = writes_conn [OF p1(2)]
  have "calls_back exec I sequence_query (map schema_row [])" using assms(2) by simp
  from schema_dump_writes [OF this _ i1] obtain p2 where
    p2: "run_schema_dump_query fuel eng exec strglob sequence_query p1 = Inr (SQLITE_OK, p2)" "writes I [] p1 p2" by force
  note i2 = writes_conn [OF p2(2)]
  have "map dump_line (map (\<lambda>s. [s]) others) = map other_script others" by (simp add: dump_line_def other_script_def)
  with run_table_dump_query_eq [OF assms(3) i2, of 1 fuel] assms(5) obtain p3 where
    p3: "run_table_dump_query fuel eng others_query None p2 = Inr (SQLITE_OK, p3)" "writes I (concat (map other_script others)) p2 p3"
    unfolding writes_def by (auto simp del: map_map)
  from writes_then [OF writes_then [OF p1(2) p2(2)] p3(2)] p1(1) p2(1) p3(1) show ?thesis by (simp add: dump_all_def)
qed

text \<open>C12: \<open>.dump\<close> writes a script that makes the database again. For every list of ordinary tables and of other
  schemas, the script opens a transaction, has the schema of each table followed by one INSERT per row that
  names the table in quotes and lists the values as \<open>quote\<close> writes them, then the other schemas, and commits. The
  library is asked for the columns and the rows of a table by statements that read back, quotes undone, as
  that table and its columns, whatever characters their names have.\<close>

theorem dump_writes_script:
  assumes tables: "calls_back exec I tables_query (map schema_row ts)" "calls_back exec I sequence_query []"
      "runs eng I (has_texts eng) others_query (map (\<lambda>s. [s]) others)" "\<forall>t \<in> set ts. holds_table eng I t"
    and pragmas: "keeps_tables exec I ''SAVEPOINT dump; PRAGMA writable_schema=ON''"
      "keeps_tables exec I ''PRAGMA writable_schema=OFF;''" "keeps_tables exec I ''RELEASE dump;''"
    and ordinary: "\<forall>t \<in> set ts. ordinary_table fuel strglob t" "length others + 1 < fuel"
    and opened: "I (conn p)"
  shows "\<exists>p'. dump_command fuel eng exec strglob [cmd] p = Inr (0, [], p') \<and>
    sent_out (so p') = sent_out (so p) @ ''PRAGMA foreign_keys=OFF;\<newline>BEGIN TRANSACTION;\<newline>'' @
      concat (map table_script ts) @ concat (map other_script others) @ ''COMMIT;\<newline>''"
proof -
  let ?p = "(dump_print p ''PRAGMA foreign_keys=OFF;\<newline>BEGIN TRANSACTION;\<newline>'')\<lparr>writableSchema := False\<rparr>"
  have "I (conn ?p)" using opened by (simp add: dump_print_def)
  from exec_only_writes [OF pragmas(1) this] obtain d where
    d: "I d" "exec_only exec ''SAVEPOINT dump; PRAGMA writable_schema=ON'' ?p = Inr (?p\<lparr>conn := d\<rparr>)" by blast
  have "I (conn (?p\<lparr>conn := d, nErr := 0\<rparr>))" using d(1) by simp
  from dump_all_writes [OF tables(1-3) _ ordinary(2) this, of strglob] tables(4) ordinary(1) obtain q where
    q: "dump_all fuel eng exec strglob (?p\<lparr>conn := d, nErr := 0\<rparr>) = Inr q"
      "writes I (concat (map table_script ts) @ concat (map other_script others)) (?p\<lparr>conn := d, nErr := 0\<rparr>) q" by blast
  have w: "nErr q = 0" "\<not> writableSchema q" "sent_out (so q) = sent_out (so p) @
      ''PRAGMA foreign_keys=OFF;\<newline>BEGIN TRANSACTION;\<newline>'' @ concat (map table_script ts) @ concat (map other_script others)"
    using q(2) by (auto simp: writes_def dump_print_def print_out_def)
  from exec_only_writes [OF pragmas(2) writes_conn [OF q(2)]] obtain d2 where
    d2: "I d2" "exec_only exec ''PRAGMA writable_schema=OFF;'' q = Inr (q\<lparr>conn := d2\<rparr>)" by blast
  have "I (conn (q\<lparr>conn := d2\<rparr>))" using d2(1) by simp
  from exec_only_writes [OF pragmas(3) this] obtain d3 where
    d3: "exec_only exec ''RELEASE dump;'' (q\<lparr>conn := d2\<rparr>) = Inr (q\<lparr>conn := d3\<rparr>)" by auto
  from d(2) q(1) w d2(2) d3 show ?thesis by (simp add: dump_command_def Let_def) (simp add: dump_print_def print_out_def)
qed

section \<open>A database of one table\<close>

definition quoted_table :: dumped_table where
  "quoted_table = \<lparr>tname = [CHR ''a'', CHR 0x22, CHR ''b''], tsql = ''CREATE TABLE'', tcols = [''x'', [CHR 0x22]],
     trows = [[''1'', '' '--' ''], [''2--'', ''NULL'']]\<rparr>"

definition one_table_rows :: "string \<Rightarrow> string list list" where
  "one_table_rows z =
     (if z = others_query then [[''CREATE VIEW--'']]
      else if sql_tokens z = Some (info_tokens (tname quoted_table)) then map (\<lambda>c. [''0'', c]) (tcols quoted_table)
      else map (cells (insert_head (tname quoted_table))) (trows quoted_table))"

definition one_table_engine :: "(unit, string list list \<times> nat) sqlite_api" where
  "one_table_engine = \<lparr>prepare = (\<lambda>d z. (0, d, Some (one_table_rows z, 0), [])),
     step = (\<lambda>d (rs, k). if k < length rs then (100, d, (rs, Suc k)) else (101, d, (rs, k))), reset = (\<lambda>(rs, k). (rs, 0)),
     finalize = (\<lambda>d k. (0, d)), column_count = (\<lambda>(rs, k). length (rs ! (k - 1))), column_name = (\<lambda>k i. Some ''c''),
     column_text = (\<lambda>(rs, k) i. Some (rs ! (k - 1) ! i)), column_type = (\<lambda>k i. 3), column_int = (\<lambda>k i. 0),
     column_blob = (\<lambda>k i. []), stmt_sql = (\<lambda>k. None), errmsg = (\<lambda>d. []), changes = (\<lambda>d. 0), total_changes = (\<lambda>d. 0),
     complete = (\<lambda>z. True), strlike = (\<lambda>a b. False), strnieq = (\<lambda>a b n. False)\<rparr>"

definition one_table_exec :: "unit dump_exec" where
  "one_table_exec cb z p =
     (if z = tables_query then c_bind (call_each cb [schema_row quoted_table] p) (\<lambda>(rc, p). Inr (rc, None, p))
      else Inr (0, None, p))"

definition dump_shell :: "unit shell_dump" where
  "dump_shell = \<lparr>conn = (), so = blank_out, echoOn = False, autoExplain = False, autoEQP = False, statsOn = False,
     scanstatsOn = False, countChanges = False, backslashOn = False, outCount = 0, nErr = 3, writableSchema = True,
     zShellStatic = None\<rparr>"

lemma one_table_queries:
  "sql_tokens others_query \<noteq> Some (info_tokens t)" "sql_tokens others_query \<noteq> Some (select_tokens t cols)"
  "select_tokens u cols \<noteq> info_tokens t" "sequence_query \<noteq> tables_query"
  "''SAVEPOINT dump; PRAGMA writable_schema=ON'' \<noteq> tables_query" "''PRAGMA writable_schema=OFF;'' \<noteq> tables_query"
  "''RELEASE dump;'' \<noteq> tables_query"
  by (simp_all add: others_query_def info_tokens_def select_tokens_def sequence_query_def tables_query_def char_facts)

lemma one_table_exec_ok:
  "calls_back one_table_exec I tables_query [schema_row quoted_table]" "calls_back one_table_exec I sequence_query []"
  "z \<noteq> tables_query \<Longrightarrow> keeps_tables one_table_exec I z"
  by (auto simp: calls_back_def keeps_tables_def one_table_exec_def one_table_queries SQLITE_OK_def
      simp del: call_each.simps)
     (auto intro!: exI [of _ "conn _"])

lemma one_table_holds: "holds_table one_table_engine (\<lambda>d. True) quoted_table"
  unfolding holds_table_def runs_def
  by (auto simp: one_table_engine_def one_table_rows_def one_table_queries quoted_table_def has_name_def has_texts_def
      SQLITE_OK_def SQLITE_ROW_def SQLITE_DONE_def All_less_Suc)

lemma one_table_others: "runs one_table_engine (\<lambda>d. True) (has_texts one_table_engine) others_query (map (\<lambda>s. [s]) [''CREATE VIEW--''])"
  unfolding runs_def
  by (auto simp: one_table_engine_def one_table_rows_def has_texts_def SQLITE_OK_def SQLITE_ROW_def SQLITE_DONE_def All_less_Suc)

lemma one_table_ordinary: "ordinary_table 9 (\<lambda>a b. False) quoted_table"
  by (simp add: ordinary_table_def quoted_table_def select_text_def sql_name_def double_quotes_def)

lemma dump_writes_script_witness:
  "\<exists>p'. dump_command 9 one_table_engine one_table_exec (\<lambda>a b. False) [''dump''] dump_shell = Inr (0, [], p') \<and>
    sent_out (so p') = ''PRAGMA foreign_keys=OFF;\<newline>BEGIN TRANSACTION;\<newline>'' @ table_script quoted_table @
      ''CREATE VIEW--\<newline>;\<newline>COMMIT;\<newline>''"
proof -
  have "calls_back one_table_exec (\<lambda>d. True) tables_query (map schema_row [quoted_table])"
    using one_table_exec_ok(1) by simp
  from dump_writes_script [OF this one_table_exec_ok(2) one_table_others _
      one_table_exec_ok(3) [OF one_table_queries(5)] one_table_exec_ok(3) [OF one_table_queries(6)]
      one_table_exec_ok(3) [OF one_table_queries(7)], where fuel = 9 and strglob = "\<lambda>a b. False" and p = dump_shell and cmd = "''dump''"]
  show ?thesis
    using one_table_holds one_table_ordinary by (simp add: dump_shell_def blank_out_def other_script_def)
qed

end
