(* ===== verification/ShellSettingsProps.thy ===== *)
theory ShellSettingsProps
  imports ShellSettings
begin

text \<open>
  The mode and the EXPLAIN switch of the shell through every sequence of setting commands, against a machine
  with a chosen mode and three positions of the switch.
\<close>

section \<open>The machine\<close>

datatype explain_switch = Explain_on | Explain_auto | Explain_off

text \<open>A prefix of a name, of at least so many characters, stands for a mode; the first that fits counts.\<close>

definition mode_names :: "(string \<times> nat \<times> int) list" where
  "mode_names = [(''lines'', 3, MODE_Line), (''columns'', 1, MODE_Column), (''list'', 3, MODE_List), (''html'', 1, MODE_Html),
     (''tcl'', 1, MODE_Tcl), (''csv'', 1, MODE_Csv), (''tabs'', 1, MODE_List), (''insert'', 1, MODE_Insert), (''ascii'', 1, MODE_Ascii)]"

definition mode_named :: "string \<Rightarrow> int option" where
  "mode_named z = map_option (\<lambda>(n, k, m). m) (find (\<lambda>(n, k, m). k \<le> length z \<and> take (length z) n = z) mode_names)"

definition switched :: "int \<Rightarrow> explain_switch \<Rightarrow> explain_switch" where
  "switched v x = (if v = 1 then Explain_on else if v = 0 then Explain_off else if v = 99 then Explain_auto else x)"

fun mode_step :: "(string \<Rightarrow> string \<Rightarrow> bool) \<Rightarrow> int \<times> explain_switch \<Rightarrow> setting \<times> string list \<Rightarrow> int \<times> explain_switch" where
  "mode_step same (c, x) (Explain, azArg) =
     (c, case explain_value same azArg of Inl _ \<Rightarrow> x | Inr (v, _) \<Rightarrow> switched v x)"
| "mode_step same (c, x) (Mode, azArg) =
     (case (if length azArg \<ge> 2 then mode_named (azArg ! 1) else None) of
        None \<Rightarrow> (c, x)
      | Some m \<Rightarrow> (m, if x = Explain_on then Explain_off else x))"
| "mode_step same (c, x) _ = (c, x)"

definition in_mode :: "'db shell_settings \<Rightarrow> int \<times> explain_switch \<Rightarrow> bool" where
  "in_mode p s \<longleftrightarrow> (case s of (c, x) \<Rightarrow>
     mode (so p) = (if x = Explain_on then MODE_Explain else c) \<and> (x = Explain_on \<longrightarrow> normalMode p = c) \<and>
     autoExplain p = (x = Explain_auto) \<and> 0 \<le> c \<and> c < 10 \<and> c \<noteq> MODE_Explain)"

text \<open>What a command keeps when it does not touch the mode.\<close>

definition same_mode :: "'db shell_settings \<Rightarrow> 'db shell_settings \<Rightarrow> bool" where
  "same_mode p q \<longleftrightarrow> mode (so q) = mode (so p) \<and> normalMode q = normalMode p \<and> autoExplain q = autoExplain p"

lemma in_mode_same: "in_mode p s \<Longrightarrow> same_mode p q \<Longrightarrow> in_mode q s"
  by (cases s) (simp add: in_mode_def same_mode_def)

lemma mode_named_range: "mode_named z = Some m \<Longrightarrow> 0 \<le> m \<and> m < 10 \<and> m \<noteq> MODE_Explain"
  by (auto simp: mode_named_def mode_names_def mode_defs split: if_splits)

section \<open>The commands\<close>

text \<open>Every argument that is read as a number is in range.\<close>

definition readable :: "(string \<Rightarrow> string \<Rightarrow> bool) \<Rightarrow> string list \<Rightarrow> bool" where
  "readable same azArg \<longleftrightarrow> (\<forall>a \<in> set azArg. \<exists>v. integerValue same a = Inr v)"

lemma booleanValue_returns: "integerValue same a = Inr v \<Longrightarrow> \<exists>r. booleanValue same a = Inr r"
  by (auto simp: booleanValue_def Let_def)

lemma readable_nth: "readable same azArg \<Longrightarrow> i < length azArg \<Longrightarrow> \<exists>r. booleanValue same (azArg ! i) = Inr r"
  using booleanValue_returns by (fastforce simp: readable_def)

lemma set_switch_mode:
  assumes "readable same azArg" and "\<And>b. same_mode p (upd b p)"
  shows "\<exists>rc err q. set_switch same usage upd azArg p = Inr (rc, err, q) \<and> same_mode p q"
proof -
  have "same_mode p p" by (simp add: same_mode_def)
  with assms readable_nth [OF assms(1), of 1] show ?thesis by (auto simp: set_switch_def)
qed

lemma width_loop_returns: "readable same as \<Longrightarrow> \<exists>w'. width_loop same j as w = Inr w'"
  by (induction as arbitrary: j w) (auto simp: readable_def)

lemma show_command_mode:
  assumes "in_mode p s"
  shows "\<exists>rc err q. show_command azArg p = Inr (rc, err, q) \<and> same_mode p q"
proof (cases "length azArg \<noteq> 1")
  case True
  then show ?thesis by (simp add: show_command_def same_mode_def)
next
  case False
  have "0 \<le> mode (so p)" "mode (so p) < 10" using assms by (auto simp: in_mode_def mode_defs split: prod.splits if_splits)
  then have "nat (mode (so p)) < length modeDescr" by (simp add: modeDescr_def)
  then have "elem_at modeDescr (nat (mode (so p))) = Inr (modeDescr ! nat (mode (so p)))" by (simp add: elem_at_def)
  with False \<open>0 \<le> mode (so p)\<close> show ?thesis
    by (simp add: show_command_def Let_def same_mode_def print_out_def)
qed

lemma starts_iff:
  "take 1 w = [c] \<and> take (length w) (c # z) = w \<longleftrightarrow> 1 \<le> length w \<and> take (length w) (c # z) = w"
  by (cases w) auto

lemma mode_command_mode:
  "\<exists>rc err q. mode_command azArg p = Inr (rc, err, q) \<and> normalMode q = normalMode p \<and> autoExplain q = autoExplain p \<and>
     mode (so q) = (case (if length azArg \<ge> 2 then mode_named (azArg ! 1) else None) of None \<Rightarrow> mode (so p) | Some m \<Rightarrow> m)"
proof (cases "length azArg \<ge> 2")
  case False
  then show ?thesis by (simp add: mode_command_def Let_def)
next
  case True
  then show ?thesis
    by (simp add: mode_command_def Let_def starts_iff set_table_name_eq mode_named_def mode_names_def conj_commute del: One_nat_def)
qed

lemma explain_command_mode:
  assumes "in_mode p (c, x)" and "readable same azArg"
  shows "\<exists>rc err q. explain_command same azArg p = Inr (rc, err, q) \<and> in_mode q (mode_step same (c, x) (Explain, azArg))"
proof -
  have "\<exists>r. explain_value same azArg = Inr r"
    using readable_nth [OF assms(2), of 1] by (auto simp: explain_value_def)
  then obtain v err where v: "explain_value same azArg = Inr (v, err)" by auto
  show ?thesis using assms(1) v
    by (cases x) (auto simp: explain_command_def Let_def switched_def in_mode_def)
qed

lemma setting_command_mode:
  assumes "in_mode p s" and "readable same azArg" and "\<forall>d o1. mode (stats d o1) = mode o1"
  shows "\<exists>rc err q. setting_command same stats k azArg p = Inr (rc, err, q) \<and> in_mode q (mode_step same s (k, azArg))"
proof -
  obtain c x where s: "s = (c, x)" by (cases s)
  have other: "\<exists>rc err q. setting_command same stats k azArg p = Inr (rc, err, q) \<and> in_mode q s"
    if "\<exists>rc err q. setting_command same stats k azArg p = Inr (rc, err, q) \<and> same_mode p q"
    using that in_mode_same [OF assms(1)] by blast
  have switch: "\<exists>rc err q. set_switch same u upd azArg p = Inr (rc, err, q) \<and> same_mode p q"
    if "\<And>b. same_mode p (upd b p)" for u upd by (rule set_switch_mode [OF assms(2)]) (rule that)
  show ?thesis
  proof (cases "k \<in> {Explain, Mode}")
    case True
    then consider "k = Explain" | "k = Mode" by auto
    then show ?thesis
    proof cases
      case 1
      then show ?thesis using explain_command_mode [OF assms(1) [unfolded s] assms(2)] by (simp add: s)
    next
      case 2
      obtain named where n: "named = (if length azArg \<ge> 2 then mode_named (azArg ! 1) else None)" by simp
      have r: "0 \<le> m \<and> m < 10 \<and> m \<noteq> MODE_Explain" if "named = Some m" for m
        using that mode_named_range by (auto simp: n split: if_splits)
      obtain rc err q where q: "mode_command azArg p = Inr (rc, err, q)" "normalMode q = normalMode p" "autoExplain q = autoExplain p"
        "mode (so q) = (case named of None \<Rightarrow> mode (so p) | Some m \<Rightarrow> m)"
        using mode_command_mode [of azArg p] unfolding n by blast
      have "in_mode q (case named of None \<Rightarrow> (c, x) | Some m \<Rightarrow> (m, if x = Explain_on then Explain_off else x))"
        using assms(1) q(2-4) r by (auto simp: s in_mode_def split: option.splits)
      with 2 q(1) show ?thesis by (simp add: s n)
    qed
  next
    case False
    then have step: "mode_step same s (k, azArg) = s" by (cases k) (auto simp: s)
    have "\<exists>rc err q. setting_command same stats k azArg p = Inr (rc, err, q) \<and> same_mode p q"
    proof (cases k)
      case Scanstats
      obtain rc err q where "set_switch same ''.scanstats on|off'' (\<lambda>b p. p\<lparr>scanstatsOn := b\<rparr>) azArg p = Inr (rc, err, q)" "same_mode p q"
        using switch [of "\<lambda>b p. p\<lparr>scanstatsOn := b\<rparr>" "''.scanstats on|off''"] by (auto simp: same_mode_def)
      then show ?thesis by (simp add: Scanstats scanstats_command_def)
    next
      case Show
      then show ?thesis using show_command_mode [OF assms(1)] by simp
    next
      case Width
      have "readable same (tl azArg)" using assms(2) by (cases azArg) (auto simp: readable_def)
      then obtain w where "width_loop same 1 (tl azArg) (colWidth (so p)) = Inr w" using width_loop_returns by blast
      then show ?thesis by (simp add: Width width_command_def same_mode_def)
    qed (use False switch assms(3) in \<open>auto simp: bail_command_def changes_command_def echo_command_def eqp_command_def
        headers_command_def stats_command_def nullvalue_command_def print_command_def prompt_command_def separator_command_def
        print_out_def Let_def same_mode_def\<close>)
    with other step show ?thesis by simp
  qed
qed

lemma run_settings_mode:
  assumes "\<forall>d o1. mode (stats d o1) = mode o1"
  shows "in_mode p s \<Longrightarrow> \<forall>c \<in> set cs. readable same (snd c) \<Longrightarrow>
     \<exists>q. run_settings same stats cs p = Inr q \<and> in_mode q (foldl (mode_step same) s cs)"
proof (induction cs arbitrary: p s)
  case Nil
  then show ?case by simp
next
  case (Cons c cs)
  obtain k azArg where c: "c = (k, azArg)" by (cases c)
  obtain rc err q where "setting_command same stats k azArg p = Inr (rc, err, q)" "in_mode q (mode_step same s (k, azArg))"
    using setting_command_mode [OF Cons.prems(1) _ assms, where k = k and azArg = azArg and same = same] Cons.prems(2)
    by (auto simp: c)
  with Cons show ?case by (simp add: c)
qed

section \<open>The property\<close>

definition switch_text :: "explain_switch \<Rightarrow> string" where
  "switch_text x = (case x of Explain_on \<Rightarrow> ''on'' | Explain_auto \<Rightarrow> ''auto'' | Explain_off \<Rightarrow> ''off'')"



end
