(* ===== verification/ShellMain.thy ===== *)
theory ShellMain
  imports ShellProcess ShellSettings
begin

text \<open>
  \<open>main\<close> of \<^verbatim>\<open>database/SQLite/shell.c\<close>: the two passes over the arguments of the program, the initialization file, the
  commands among the arguments and the commands of standard input.

  The environment has what the program asks the system and the library for. \<open>open_named\<close> is \<open>open_db\<close> with the name
  of the database file; as there, a database that cannot be opened ends the program. The commands \<open>.bail\<close> and
  \<open>.exit\<close> reach the rest of \<open>main\<close> through the result code only. The history of an interactive session is left out.
\<close>

section \<open>State\<close>

record 'db main_env =
  base :: "'db shell_env"
  open_named :: "string \<Rightarrow> 'db \<Rightarrow> 'db"
  same_text :: "string \<Rightarrow> string \<Rightarrow> bool"
  vfs_known :: "string \<Rightarrow> bool"
  exists_at :: "string \<Rightarrow> bool"
  file_at :: "string \<Rightarrow> string option"
  pw_dir :: "string option"
  env_home :: "string option"
  same_version :: bool
  libversion :: string
  sourceid :: string

text \<open>The calls of \<open>sqlite3_config\<close> and \<open>sqlite3_vfs_register\<close> the options lead to.\<close>

datatype config_call = Conf_scratch int int | Conf_pagecache bool int int | Conf_lookaside int int | Conf_mmap int
  | Register_vfs string

text \<open>What the first pass finds.\<close>

record arguments =
  zDbFilename :: "string option"
  zInitFile :: "string option"
  readStdin :: bool
  azCmd :: "string list"
  interactive :: bool
  shellFlgs :: "32 word"
  configured :: "config_call list"

text \<open>The shell, with the two global variables the options set.\<close>

record 'db main_state =
  ses :: "'db session"
  bail :: bool
  inter :: bool

definition SHFLG_Scratch :: "32 word" where "SHFLG_Scratch = 1"
definition SHFLG_Pagecache :: "32 word" where "SHFLG_Pagecache = 2"
definition SHFLG_Lookaside :: "32 word" where "SHFLG_Lookaside = 4"

text \<open>A pass ends with a message and status 1, or goes on.\<close>

type_synonym 'a pass = "(string + 'a) c_result"

section \<open>The first pass\<close>

text \<open>A value for an option, \<open>k\<close> places behind it.\<close>

definition with_value :: "string list \<Rightarrow> nat \<Rightarrow> (string \<Rightarrow> 'a pass) \<Rightarrow> 'a pass" where
  "with_value argv i f = (case cmdline_option_value argv i of Inl e \<Rightarrow> Inr (Inl e) | Inr v \<Rightarrow> f v)"

text \<open>\<open>(int)integerValue(...)\<close> of a value\<close>

definition with_int :: "'db main_env \<Rightarrow> string list \<Rightarrow> nat \<Rightarrow> (int \<Rightarrow> 'a pass) \<Rightarrow> 'a pass" where
  "with_int env argv i f = with_value argv i (\<lambda>v. c_bind (integerValue (same_text env) v) (\<lambda>n. f (to_int (n mod 2 ^ 32))))"

definition int_mult :: "int \<Rightarrow> int \<Rightarrow> int c_result" where
  "int_mult a b = (if in_int (a * b) then Inr (a * b) else Inl Int_overflow)"

text \<open>
  One option of the first pass, \<open>z\<close> being the argument without the second of two dashes: how many values it took,
  and what it leaves. The size of the heap is looked for only in builds with another allocator.
\<close>

definition first_option :: "'db main_env \<Rightarrow> string list \<Rightarrow> nat \<Rightarrow> string \<Rightarrow> arguments \<Rightarrow> (nat \<times> arguments) pass" where
  "first_option env argv i z o1 =
     (if z \<in> {''-separator'', ''-nullvalue'', ''-newline'', ''-cmd''} then
        with_value argv (i + 1) (\<lambda>_. Inr (Inr (1, o1)))
      else if z = ''-init'' then with_value argv (i + 1) (\<lambda>v. Inr (Inr (1, o1\<lparr>zInitFile := Some v\<rparr>)))
      else if z = ''-batch'' then Inr (Inr (0, o1\<lparr>interactive := False\<rparr>))
      else if z = ''-heap'' then Inr (Inr (0, o1))
      else if z = ''-scratch'' then
        with_int env argv (i + 1) (\<lambda>sz.
        let sz = (if sz > 400000 then 400000 else sz); sz = (if sz < 2500 then 2500 else sz) in
        with_int env argv (i + 2) (\<lambda>n.
        let n = (if n > 10 then 10 else n); n = (if n < 1 then 1 else n) in
        c_bind (int_mult n sz) (\<lambda>_.
        Inr (Inr (2, o1\<lparr>configured := configured o1 @ [Conf_scratch sz n], shellFlgs := or (shellFlgs o1) SHFLG_Scratch\<rparr>)))))
      else if z = ''-pagecache'' then
        with_int env argv (i + 1) (\<lambda>sz.
        let sz = (if sz > 70000 then 70000 else sz); sz = (if sz < 0 then 0 else sz) in
        with_int env argv (i + 2) (\<lambda>n.
        c_bind (if n > 0 \<and> sz > 0 then int_mult n sz else Inr 0) (\<lambda>_.
        Inr (Inr (2, o1\<lparr>configured := configured o1 @ [Conf_pagecache (n > 0 \<and> sz > 0) sz n],
          shellFlgs := or (shellFlgs o1) SHFLG_Pagecache\<rparr>)))))
      else if z = ''-lookaside'' then
        with_int env argv (i + 1) (\<lambda>sz.
        let sz = (if sz < 0 then 0 else sz) in
        with_int env argv (i + 2) (\<lambda>n.
        let n = (if n < 0 then 0 else n) in
        c_bind (int_mult sz n) (\<lambda>k.
        Inr (Inr (2, o1\<lparr>configured := configured o1 @ [Conf_lookaside sz n],
          shellFlgs := (if k = 0 then and (shellFlgs o1) (not SHFLG_Lookaside) else shellFlgs o1)\<rparr>)))))
      else if z = ''-mmap'' then
        with_value argv (i + 1) (\<lambda>v. c_bind (integerValue (same_text env) v) (\<lambda>sz.
        Inr (Inr (1, o1\<lparr>configured := configured o1 @ [Conf_mmap sz]\<rparr>))))
      else if z = ''-vfs'' then
        with_value argv (i + 1) (\<lambda>v.
        if vfs_known env v then Inr (Inr (1, o1\<lparr>configured := configured o1 @ [Register_vfs v]\<rparr>))
        else Inr (Inl (''no such VFS: '' @ [CHR 0x22] @ v @ [CHR 0x22] @ ''\<newline>'')))
      else Inr (Inr (0, o1)))"

text \<open>An argument that is no option is the name of the database, or a command.\<close>

definition first_word :: "string \<Rightarrow> arguments \<Rightarrow> arguments" where
  "first_word z o1 =
     (if take 1 z = ''-'' then o1
      else if zDbFilename o1 = None then o1\<lparr>zDbFilename := Some z\<rparr>
      else o1\<lparr>readStdin := False, azCmd := azCmd o1 @ [z]\<rparr>)"

definition second_dash :: "string \<Rightarrow> string" where
  "second_dash z = (if take 1 (drop 1 z) = ''-'' then drop 1 z else z)"

text \<open>The second character of every argument is looked at, the empty one included.\<close>

function first_pass :: "'db main_env \<Rightarrow> string list \<Rightarrow> nat \<Rightarrow> arguments \<Rightarrow> arguments pass" where
  "first_pass env argv i o1 =
     (if i < length argv then
        let z = argv ! i in
        if z = [] then Inl Out_of_bounds
        else
          c_bind (first_option env argv i (second_dash z) (first_word z o1)) (\<lambda>r.
          case r of
            Inl e \<Rightarrow> Inr (Inl e)
          | Inr (k, o2) \<Rightarrow> first_pass env argv (Suc (i + k)) o2)
      else Inr (Inr o1))"
  by pat_completeness auto
termination
  by (relation "measure (\<lambda>(env, argv, i, o1). length argv - i)") auto

declare first_pass.simps [simp del]

section \<open>The second pass\<close>

definition on_out :: "(shell_out \<Rightarrow> shell_out) \<Rightarrow> 'db main_state \<Rightarrow> 'db main_state" where
  "on_out f m = m\<lparr>ses := (ses m)\<lparr>shell := (shell (ses m))\<lparr>so := f (so (shell (ses m)))\<rparr>\<rparr>\<rparr>"

definition on_shell :: "('db shell_state \<Rightarrow> 'db shell_state) \<Rightarrow> 'db main_state \<Rightarrow> 'db main_state" where
  "on_shell f m = m\<lparr>ses := (ses m)\<lparr>shell := f (shell (ses m))\<rparr>\<rparr>"

definition say_err :: "string \<Rightarrow> 'db main_state \<Rightarrow> 'db main_state" where
  "say_err t m = m\<lparr>ses := (ses m)\<lparr>to_stderr := to_stderr (ses m) @ t\<rparr>\<rparr>"

definition say :: "string \<Rightarrow> 'db main_state \<Rightarrow> 'db main_state" where
  "say t m = m\<lparr>ses := (ses m)\<lparr>to_stdout := to_stdout (ses m) @ t\<rparr>\<rparr>"

text \<open>The options that set something and take no value.\<close>

fun set_flag :: "string \<Rightarrow> ('db main_state \<Rightarrow> 'db main_state) option" where
  "set_flag z =
     (if z = ''-html'' then Some (on_out (\<lambda>p. p\<lparr>mode := MODE_Html\<rparr>))
      else if z = ''-list'' then Some (on_out (\<lambda>p. p\<lparr>mode := MODE_List\<rparr>))
      else if z = ''-line'' then Some (on_out (\<lambda>p. p\<lparr>mode := MODE_Line\<rparr>))
      else if z = ''-column'' then Some (on_out (\<lambda>p. p\<lparr>mode := MODE_Column\<rparr>))
      else if z = ''-csv'' then Some (on_out (\<lambda>p. p\<lparr>mode := MODE_Csv, colSeparator := SEP_Comma\<rparr>))
      else if z = ''-ascii'' then
        Some (on_out (\<lambda>p. p\<lparr>mode := MODE_Ascii, colSeparator := SEP_Unit, rowSeparator := SEP_Record\<rparr>))
      else if z = ''-header'' then Some (on_out (\<lambda>p. p\<lparr>showHeader := True\<rparr>))
      else if z = ''-noheader'' then Some (on_out (\<lambda>p. p\<lparr>showHeader := False\<rparr>))
      else if z = ''-echo'' then Some (on_shell (\<lambda>p. p\<lparr>echoOn := True\<rparr>))
      else if z = ''-eqp'' then Some (on_shell (\<lambda>p. p\<lparr>autoEQP := True\<rparr>))
      else if z = ''-stats'' then Some (on_shell (\<lambda>p. p\<lparr>statsOn := True\<rparr>))
      else if z = ''-scanstats'' then Some (on_shell (\<lambda>p. p\<lparr>scanstatsOn := True\<rparr>))
      else if z = ''-backslash'' then Some (on_shell (\<lambda>p. p\<lparr>backslashOn := True\<rparr>))
      else if z = ''-bail'' then Some (\<lambda>m. m\<lparr>bail := True\<rparr>)
      else if z = ''-interactive'' then Some (\<lambda>m. m\<lparr>inter := True\<rparr>)
      else if z = ''-batch'' then Some (\<lambda>m. m\<lparr>inter := False\<rparr>)
      else None)"

text \<open>The options that set a text of 20 bytes.\<close>

fun set_value :: "string \<Rightarrow> (string \<Rightarrow> shell_out \<Rightarrow> shell_out) option" where
  "set_value z =
     (if z = ''-separator'' then Some (\<lambda>v p. p\<lparr>colSeparator := take 19 v\<rparr>)
      else if z = ''-newline'' then Some (\<lambda>v p. p\<lparr>rowSeparator := take 19 v\<rparr>)
      else if z = ''-nullvalue'' then Some (\<lambda>v p. p\<lparr>nullValue := take 19 v\<rparr>)
      else None)"

text \<open>The options the first pass dealt with, and how many values they have.\<close>

fun seen_values :: "string \<Rightarrow> nat option" where
  "seen_values z =
     (if z \<in> {''-init'', ''-heap'', ''-mmap'', ''-vfs''} then Some 1
      else if z \<in> {''-scratch'', ''-pagecache'', ''-lookaside''} then Some 2
      else None)"

definition zOptions :: string where
  "zOptions =
     ''   -ascii               set output mode to 'ascii'\<newline>'' @
     ''   -bail                stop after hitting an error\<newline>'' @
     ''   -batch               force batch I/O\<newline>'' @
     ''   -column              set output mode to 'column'\<newline>'' @
     ''   -cmd COMMAND         run '' @ [CHR 0x22] @ ''COMMAND'' @ [CHR 0x22] @ '' before reading stdin\<newline>'' @
     ''   -csv                 set output mode to 'csv'\<newline>'' @
     ''   -echo                print commands before execution\<newline>'' @
     ''   -init FILENAME       read/process named file\<newline>'' @
     ''   -[no]header          turn headers on or off\<newline>'' @
     ''   -help                show this message\<newline>'' @
     ''   -html                set output mode to HTML\<newline>'' @
     ''   -interactive         force interactive I/O\<newline>'' @
     ''   -line                set output mode to 'line'\<newline>'' @
     ''   -list                set output mode to 'list'\<newline>'' @
     ''   -lookaside SIZE N    use N entries of SZ bytes for lookaside memory\<newline>'' @
     ''   -mmap N              default mmap size set to N\<newline>'' @
     ''   -newline SEP         set output row separator. Default: '' @ [CHR 0x27, CHR 0x5C, CHR 0x6E, CHR 0x27] @ ''\<newline>'' @
     ''   -nullvalue TEXT      set text string for NULL values. Default '' @ [CHR 0x27, CHR 0x27] @ ''\<newline>'' @
     ''   -pagecache SIZE N    use N slots of SZ bytes each for page cache memory\<newline>'' @
     ''   -scratch SIZE N      use N slots of SZ bytes each for scratch memory\<newline>'' @
     ''   -separator SEP       set output column separator. Default: '' @ [CHR 0x27, CHR 0x7C, CHR 0x27] @ ''\<newline>'' @
     ''   -stats               print memory stats before each finalize\<newline>'' @
     ''   -version             show SQLite version\<newline>'' @
     ''   -vfs NAME            use NAME as the default VFS\<newline>''"

definition usage :: "string \<Rightarrow> bool \<Rightarrow> string" where
  "usage Argv0 showDetail =
     ''Usage: '' @ Argv0 @ '' [OPTIONS] FILENAME [SQL]\<newline>'' @
     ''FILENAME is the name of an SQLite database. A new database is created\<newline>'' @
     ''if the file does not previously exist.\<newline>'' @
     (if showDetail then ''OPTIONS include:\<newline>'' @ zOptions
      else ''Use the -help option for additional information\<newline>'')"

text \<open>Where the loop goes: on, that many arguments further; out of the loop; or out of \<open>main\<close> with a status.\<close>

datatype flow = Further nat | Break | Return int

text \<open>
  A command from the arguments. \<open>stop\<close> says whether an error ends the program; \<open>quote\<close> puts the text of the
  statement into the message.
\<close>

definition run_argument :: "nat \<Rightarrow> ('db, 'st) sqlite_api \<Rightarrow> 'db main_env \<Rightarrow> (string \<Rightarrow> string) \<Rightarrow> bool \<Rightarrow> string
    \<Rightarrow> 'db main_state \<Rightarrow> (int option \<times> int \<times> 'db main_state) c_result" where
  "run_argument n eng env quote stop z m =
     (if take 1 z = ''.'' then
        let (rc, s) = do_meta_command (base env) z (ses m) in
        Inr (if rc \<noteq> 0 \<and> stop then Some (if rc = 2 then 0 else rc) else None, rc, m\<lparr>ses := s\<rparr>)
      else
        let p = (shell (ses m))\<lparr>conn := open_db (base env) (conn (shell (ses m)))\<rparr> in
        c_bind (shell_exec n eng (display_stats (base env)) (display_scanstats (base env)) z p) (\<lambda>(rc, zErrMsg, p).
        let m = on_shell (\<lambda>_. p) m in
        Inr (case zErrMsg of
               Some e \<Rightarrow> (if stop then Some (if rc \<noteq> 0 then rc else 1) else None, rc, say_err (''Error: '' @ e @ ''\<newline>'') m)
             | None \<Rightarrow>
                 if rc \<noteq> 0 then (if stop then Some rc else None, rc, say_err (''Error: unable to process SQL'' @ quote z @ ''\<newline>'') m)
                 else (None, rc, m))))"

definition second_option :: "nat \<Rightarrow> ('db, 'st) sqlite_api \<Rightarrow> 'db main_env \<Rightarrow> string list \<Rightarrow> nat \<Rightarrow> string \<Rightarrow> int \<Rightarrow> 'db main_state
    \<Rightarrow> (flow \<times> int \<times> 'db main_state) c_result" where
  "second_option n eng env argv i z rc m =
     (case set_flag z of Some f \<Rightarrow> Inr (Further 0, rc, f m) | None \<Rightarrow>
      case seen_values z of Some k \<Rightarrow> Inr (Further k, rc, m) | None \<Rightarrow>
      case set_value z of
        Some f \<Rightarrow>
          (case cmdline_option_value argv (i + 1) of
             Inl e \<Rightarrow> Inr (Return 1, rc, say_err e m)
           | Inr v \<Rightarrow> Inr (Further 1, rc, on_out (f v) m))
      | None \<Rightarrow>
      if z = ''-version'' then Inr (Return 0, rc, say (libversion env @ '' '' @ sourceid env @ ''\<newline>'') m)
      else if z = ''-help'' then Inr (Return 1, rc, say_err (usage (hd argv) True) m)
      else if z = ''-cmd'' then
        if i = length argv - 1 then Inr (Break, rc, m)
        else
          c_bind (run_argument n eng env (\<lambda>z. '' '' @ [CHR 0x22] @ z @ [CHR 0x22]) (bail m) (argv ! (i + 1)) m) (\<lambda>(r, rc, m).
          Inr (case r of None \<Rightarrow> Further 1 | Some v \<Rightarrow> Return v, rc, m))
      else Inr (Return 1, rc, say_err (hd argv @ '': Error: unknown option: '' @ z @ ''\<newline>'' @ ''Use -help for a list of options.\<newline>'') m))"

function second_pass :: "nat \<Rightarrow> ('db, 'st) sqlite_api \<Rightarrow> 'db main_env \<Rightarrow> string list \<Rightarrow> nat \<Rightarrow> int \<Rightarrow> 'db main_state
    \<Rightarrow> (int option \<times> int \<times> 'db main_state) c_result" where
  "second_pass n eng env argv i rc m =
     (if i < length argv then
        if take 1 (argv ! i) \<noteq> ''-'' then second_pass n eng env argv (Suc i) rc m
        else
          c_bind (second_option n eng env argv i (second_dash (argv ! i)) rc m) (\<lambda>(go, rc, m).
          case go of
            Further k \<Rightarrow> second_pass n eng env argv (Suc (i + k)) rc (on_out (\<lambda>p. p\<lparr>cMode := mode p\<rparr>) m)
          | Break \<Rightarrow> Inr (None, rc, m)
          | Return v \<Rightarrow> Inr (Some v, rc, m))
      else Inr (None, rc, m))"
  by pat_completeness auto
termination
  by (relation "measure (\<lambda>(n, eng, env, argv, i, rc, m). length argv - i)") auto

declare second_pass.simps [simp del]

section \<open>The rest of main\<close>

definition find_home_dir :: "'db main_env \<Rightarrow> string option" where
  "find_home_dir env = (case pw_dir env of Some d \<Rightarrow> Some d | None \<Rightarrow> env_home env)"

text \<open>\<open>process_input\<close> with the variables as the options left them; the stream is standard input or a file.\<close>

definition input_from :: "nat \<Rightarrow> nat \<Rightarrow> ('db, 'st) sqlite_api \<Rightarrow> 'db main_env \<Rightarrow> bool \<Rightarrow> 'db main_state \<Rightarrow> (bool \<times> 'db main_state) c_result" where
  "input_from fuel n eng env in_file m =
     c_bind (process_input fuel n eng
       ((base env)\<lparr>bail_on_error := bail m, stdin_is_interactive := inter m, from_file := in_file\<rparr>) (ses m)) (\<lambda>(e, s).
     Inr (e, m\<lparr>ses := s\<rparr>))"

definition process_sqliterc :: "nat \<Rightarrow> nat \<Rightarrow> ('db, 'st) sqlite_api \<Rightarrow> 'db main_env \<Rightarrow> string option \<Rightarrow> 'db main_state \<Rightarrow> 'db main_state c_result" where
  "process_sqliterc fuel n eng env sqliterc_override m =
     (case (case sqliterc_override of Some f \<Rightarrow> Some f | None \<Rightarrow> map_option (\<lambda>h. h @ ''/.sqliterc'') (find_home_dir env)) of
        None \<Rightarrow> Inr (say_err (''-- warning: cannot find home directory; cannot read ~/.sqliterc\<newline>'') m)
      | Some sqliterc \<Rightarrow>
          (case file_at env sqliterc of
             None \<Rightarrow> Inr m
           | Some content \<Rightarrow>
               let m = (if inter m then say_err (''-- Loading resources from '' @ sqliterc @ ''\<newline>'') m else m);
                   stdin = instream (ses m) in
               c_bind (input_from fuel n eng env True (m\<lparr>ses := (ses m)\<lparr>instream := content\<rparr>\<rparr>)) (\<lambda>(_, m).
               Inr (m\<lparr>ses := (ses m)\<lparr>instream := stdin\<rparr>\<rparr>))))"

text \<open>The commands among the arguments, in order, up to the first that fails.\<close>

fun run_commands :: "nat \<Rightarrow> ('db, 'st) sqlite_api \<Rightarrow> 'db main_env \<Rightarrow> string list \<Rightarrow> int \<Rightarrow> 'db main_state
    \<Rightarrow> (int option \<times> int \<times> 'db main_state) c_result" where
  "run_commands n eng env [] rc m = Inr (None, rc, m)"
| "run_commands n eng env (z # zs) rc m =
     c_bind (run_argument n eng env (\<lambda>z. '': '' @ z) True z m) (\<lambda>(r, rc, m).
     case r of Some v \<Rightarrow> Inr (Some v, rc, m) | None \<Rightarrow> run_commands n eng env zs rc m)"

definition printBold :: "string \<Rightarrow> string" where
  "printBold zText = [CHR 0x1B] @ ''[1m'' @ zText @ [CHR 0x1B] @ ''[0m''"

definition greeting :: "'db main_env \<Rightarrow> bool \<Rightarrow> string" where
  "greeting env warnInmemoryDb =
     ''SQLite version '' @ libversion env @ '' '' @ take 19 (sourceid env) @ ''\<newline>'' @
     ''Enter '' @ [CHR 0x22] @ ''.help'' @ [CHR 0x22] @ '' for usage hints.\<newline>'' @
     (if warnInmemoryDb then
        ''Connected to a '' @ printBold ''transient in-memory database'' @
        ''.\<newline>Use '' @ [CHR 0x22] @ ''.open FILENAME'' @ [CHR 0x22] @ '' to reopen on a persistent database.\<newline>''
      else [])"

text \<open>What \<open>main\<close> does once the options are set: the commands, or what standard input holds.\<close>

definition main_input :: "nat \<Rightarrow> nat \<Rightarrow> ('db, 'st) sqlite_api \<Rightarrow> 'db main_env \<Rightarrow> bool \<Rightarrow> bool \<Rightarrow> string list \<Rightarrow> int
    \<Rightarrow> 'db main_state \<Rightarrow> (int \<times> 'db main_state) c_result" where
  "main_input fuel n eng env warnInmemoryDb stdin cmds rc m =
     c_bind
       (if \<not> stdin then run_commands n eng env cmds rc m
        else if inter m then
          c_bind (input_from fuel n eng env False (say (greeting env warnInmemoryDb) m)) (\<lambda>(e, m).
          Inr (None, if e then 1 else 0, m))
        else c_bind (input_from fuel n eng env True m) (\<lambda>(e, m). Inr (None, if e then 1 else 0, m))) (\<lambda>(r, rc, m).
     case r of
       Some v \<Rightarrow> Inr (v, m)
     | None \<Rightarrow> c_bind (set_table_name (so (shell (ses m))) None) (\<lambda>p. Inr (rc, on_out (\<lambda>_. p) m)))"

text \<open>The database is opened at once if its file exists.\<close>

definition main_open :: "'db main_env \<Rightarrow> string \<Rightarrow> 'db main_state \<Rightarrow> 'db main_state" where
  "main_open env name m =
     (if exists_at env name then on_shell (\<lambda>p. p\<lparr>conn := open_db (base env) (conn p)\<rparr>) m else m)"

definition main_with :: "nat \<Rightarrow> nat \<Rightarrow> ('db, 'st) sqlite_api \<Rightarrow> 'db main_env \<Rightarrow> string list \<Rightarrow> arguments \<Rightarrow> 'db session
    \<Rightarrow> (int \<times> 'db main_state) c_result" where
  "main_with fuel n eng env argv o1 s =
     (let name = (case zDbFilename o1 of None \<Rightarrow> '':memory:'' | Some f \<Rightarrow> f);
          warnInmemoryDb = (zDbFilename o1 = None \<and> length argv = 1);
          env = env\<lparr>base := (base env)\<lparr>open_db := open_named env name\<rparr>\<rparr> in
      c_bind (process_sqliterc fuel n eng env (zInitFile o1)
        (main_open env name \<lparr>ses = s, bail = False, inter = interactive o1\<rparr>)) (\<lambda>m.
      c_bind (second_pass n eng env argv 1 0 m) (\<lambda>(r, rc, m).
      case r of
        Some v \<Rightarrow> Inr (v, m)
      | None \<Rightarrow> main_input fuel n eng env warnInmemoryDb (readStdin o1) (azCmd o1) rc m)))"

text \<open>\<open>tty\<close> is \<open>isatty(0)\<close>, \<open>d\<close> the connection before it is opened, \<open>input\<close> what standard input holds.\<close>

definition shell_main :: "nat \<Rightarrow> nat \<Rightarrow> ('db, 'st) sqlite_api \<Rightarrow> 'db main_env \<Rightarrow> bool \<Rightarrow> 'db \<Rightarrow> string \<Rightarrow> string list
    \<Rightarrow> (int \<times> 'db main_state) c_result" where
  "shell_main fuel n eng env tty d input argv =
     (let s = \<lparr>shell = shell_state.truncate (main_init d), instream = input, to_stdout = [], to_stderr = [], outfile = [], out_id = 1,
            closed = []\<rparr>;
          ended = (\<lambda>e. Inr (1, say_err e \<lparr>ses = s, bail = False, inter = tty\<rparr>)) in
      if \<not> same_version env then ended ''SQLite header and source version mismatch\<newline>''
      else
        c_bind (first_pass env argv 1 \<lparr>zDbFilename = None, zInitFile = None, readStdin = True, azCmd = [], interactive = tty,
            shellFlgs = SHFLG_Lookaside, configured = []\<rparr>) (\<lambda>r.
        case r of Inl e \<Rightarrow> ended e | Inr o1 \<Rightarrow> main_with fuel n eng env argv o1 s))"

end
