(* ===== verification/ShellInputProps.thy ===== *)
theory ShellInputProps
  imports ShellInput
begin

text \<open>
  \<open>local_getline\<close> reads in pieces of at most 99 characters at first, into a block that doubles; it gives the first
  line of the stream.
\<close>

lemma fgets_append: "fst (fgets k s) @ snd (fgets k s) = s"
  by (induction k s rule: fgets.induct) auto

lemma fgets_length: "length (fst (fgets k s)) \<le> k"
  by (induction k s rule: fgets.induct) auto

lemma fgets_line:
  "CHR 0x0A \<notin> set (fst (fgets k s)) \<or> (\<exists>l. fst (fgets k s) = l @ [CHR 0x0A] \<and> CHR 0x0A \<notin> set l)"
proof (induction k s rule: fgets.induct)
  case (3 k c s)
  show ?case
  proof (cases "c = CHR 0x0A")
    case True
    then show ?thesis by (intro disjI2 exI [of _ "[]"]) simp
  next
    case False
    with 3 [OF False] show ?thesis by (auto intro: exI [of _ "c # _"])
  qed
qed auto

lemma fgets_progress: "0 < k \<Longrightarrow> s \<noteq> [] \<Longrightarrow> length (snd (fgets k s)) < length s"
proof -
  assume "0 < k" "s \<noteq> []"
  then obtain j c r where "k = Suc j" "s = c # r" by (cases k; cases s) auto
  moreover have "length (snd (fgets j r)) \<le> length r" using fgets_append [of j r] by (metis le_add2 length_append)
  ultimately show ?thesis by (auto simp: less_Suc_eq_le)
qed

text \<open>The first line of a stream, and the stream behind it.\<close>

definition head_line :: "string \<Rightarrow> string option \<times> string" where
  "head_line s =
     (let l = takeWhile (\<lambda>c. c \<noteq> CHR 0x0A) s in
      if s = [] then (None, [])
      else if l = s then (Some s, [])
      else (Some (strip_cr l), drop (length l + 1) s))"

lemma head_line_newline:
  "CHR 0x0A \<notin> set l \<Longrightarrow> head_line (l @ CHR 0x0A # s) = (Some (strip_cr l), s)"
proof -
  assume "CHR 0x0A \<notin> set l"
  then have "takeWhile (\<lambda>c. c \<noteq> CHR 0x0A) (l @ CHR 0x0A # s) = l"
    by (subst takeWhile_append2) auto
  then show ?thesis by (simp add: head_line_def Let_def)
qed

lemma head_line_last: "CHR 0x0A \<notin> set l \<Longrightarrow> l \<noteq> [] \<Longrightarrow> head_line l = (Some l, [])"
proof -
  assume "CHR 0x0A \<notin> set l" and "l \<noteq> []"
  moreover from this(1) have "takeWhile (\<lambda>c. c \<noteq> CHR 0x0A) l = l" by (auto simp: takeWhile_eq_all_conv)
  ultimately show ?thesis by (simp add: head_line_def Let_def)
qed

definition getline_room :: "nat \<Rightarrow> string \<Rightarrow> bool" where
  "getline_room nLine buf \<longleftrightarrow> length buf < nLine \<or> (buf = [] \<and> nLine = 0)"

lemma grown_room: "getline_room n buf \<Longrightarrow> length buf + 100 \<le> (if length buf + 100 > n then n * 2 + 100 else n)"
  by (auto simp: getline_room_def)

lemma getline_loop_step:
  assumes "n = (if length buf + 100 > nLine then nLine * 2 + 100 else nLine)" and "length buf < n" and "s \<noteq> []"
    and "fgets (n - length buf - 1) s = (chunk, s')" and "c_text chunk"
  shows "getline_loop nLine buf s =
    (if buf @ chunk \<noteq> [] \<and> last (buf @ chunk) = CHR 0x0A then Some (Inr (Some (strip_cr (butlast (buf @ chunk))), s'))
     else getline_loop n (buf @ chunk) s')"
proof -
  have "takeWhile (\<lambda>c. c \<noteq> CHR 0x00) chunk = chunk"
    using assms(5) by (auto simp: c_text_def takeWhile_eq_all_conv)
  moreover have "\<not> n \<le> length buf" using assms(2) by simp
  ultimately show ?thesis
    by (subst getline_loop.simps) (simp only: Let_def assms(1) [symmetric] assms(3,4) prod.case if_False)
qed

lemma getline_loop_first:
  assumes "c_text s" and "CHR 0x0A \<notin> set buf" and "getline_room nLine buf"
  shows "getline_loop nLine buf s = Some (Inr (head_line (buf @ s)))"
  using assms
proof (induction "length s" arbitrary: s buf nLine rule: less_induct)
  case less
  obtain n where n: "n = (if length buf + 100 > nLine then nLine * 2 + 100 else nLine)" by simp
  have room: "length buf + 100 \<le> n" unfolding n by (rule grown_room [OF less.prems(3)])
  show ?case
  proof (cases "s = []")
    case True
    with room less.prems(2) show ?thesis
      by (subst getline_loop.simps) (simp add: Let_def n [symmetric] head_line_last, simp add: head_line_def)
  next
    case False
    obtain chunk s' where f: "fgets (n - length buf - 1) s = (chunk, s')" by fastforce
    have s: "chunk @ s' = s" using fgets_append [of "n - length buf - 1" s] f by simp
    have plain: "c_text chunk" "c_text s'" using less.prems(1) s by (metis c_text_append)+
    have less_n: "length buf < n" using room by simp
    note step = getline_loop_step [OF n less_n False f plain(1)]
    show ?thesis
    proof (cases "CHR 0x0A \<in> set chunk")
      case True
      with fgets_line [of "n - length buf - 1" s] f obtain l where l: "chunk = l @ [CHR 0x0A]" "CHR 0x0A \<notin> set l" by auto
      have "buf @ s = (buf @ l) @ CHR 0x0A # s'" using s l(1) by simp
      moreover have "CHR 0x0A \<notin> set (buf @ l)" using less.prems(2) l(2) by simp
      ultimately have "head_line (buf @ s) = (Some (strip_cr (buf @ l)), s')" using head_line_newline by metis
      with step l(1) show ?thesis by (simp add: butlast_append)
    next
      case False': False
      have b: "CHR 0x0A \<notin> set (buf @ chunk)" using less.prems(2) False' by simp
      then have no: "\<not> (buf @ chunk \<noteq> [] \<and> last (buf @ chunk) = CHR 0x0A)" by (metis last_in_set)
      have "length chunk \<le> n - length buf - 1" using fgets_length [of "n - length buf - 1" s] f by simp
      then have "getline_room n (buf @ chunk)" using room by (simp add: getline_room_def)
      moreover have "length s' < length s" using fgets_progress [of "n - length buf - 1" s] f room False by simp
      ultimately have "getline_loop n (buf @ chunk) s' = Some (Inr (head_line (buf @ s)))"
        using less.hyps [of s' "buf @ chunk" n] plain(2) b s by simp
      with step no show ?thesis by (simp only: if_False)
    qed
  qed
qed

lemma local_getline_eq: "c_text s \<Longrightarrow> local_getline reused s = Some (Inr (head_line s))"
  using getline_loop_first [of s "[]" "if reused then 100 else 0"] by (simp add: local_getline_def getline_room_def)

section \<open>The properties\<close>



end
