(* ===== verification/ShellProcessProps.thy ===== *)
theory ShellProcessProps
  imports ShellProcess ShellInputProps
begin

text \<open>
  \<open>process_input\<close>: its block is always large enough, it returns, and it runs a script statement by statement.
\<close>

section \<open>The block\<close>

definition sql_room :: "line_state \<Rightarrow> bool" where
  "sql_room L \<longleftrightarrow> (case zSql L of None \<Rightarrow> sqlAlloc L = 0 | Some z \<Rightarrow> length z + 1 < sqlAlloc L)"

lemma room_no_lines [simp]: "sql_room no_lines"
  by (simp add: sql_room_def no_lines_def)

lemma room_kept [simp]:
  "sql_room (L\<lparr>errCnt := e\<rparr>) = sql_room L" "sql_room (L\<lparr>lineno := n\<rparr>) = sql_room L"
  "sql_room (L\<lparr>reuse := b\<rparr>) = sql_room L" "sql_room (L\<lparr>startline := k\<rparr>) = sql_room L"
  by (simp_all add: sql_room_def split: option.split)

lemma nSql_kept [simp]:
  "nSql (L\<lparr>errCnt := e\<rparr>) = nSql L" "nSql (L\<lparr>lineno := n\<rparr>) = nSql L" "nSql (L\<lparr>reuse := b\<rparr>) = nSql L"
  "nSql (L\<lparr>zSql := Some z\<rparr>) = length z"
  by (simp_all add: nSql_def or_else_def)

lemma room_cleared: "sql_room L \<Longrightarrow> zSql L \<noteq> None \<Longrightarrow> sql_room (L\<lparr>zSql := Some []\<rparr>)"
  by (auto simp: sql_room_def)

lemma line_is_complete_total: "sql_room L \<Longrightarrow> \<exists>b. line_is_complete c (sqlAlloc L) (zSql L) (nSql L) = Inr b"
  by (auto simp: sql_room_def line_is_complete_def nSql_def or_else_def split: option.splits)

text \<open>The text after a line.\<close>

definition with_line :: "string \<Rightarrow> line_state \<Rightarrow> string" where
  "with_line l L = (if nSql L = 0 then dropWhile is_space l else or_else (zSql L) [] @ [CHR 0x0A] @ l)"

lemma add_line_ok:
  assumes "sql_room L" and "length l < 2 ^ 30"
  shows "\<exists>a. add_line l L =
      Inr (L\<lparr>sqlAlloc := a, zSql := Some (with_line l L), startline := if nSql L = 0 then lineno L else startline L\<rparr>, nSql L) \<and>
    length (with_line l L) + 1 < a"
proof -
  have n: "strlen30 l = length l" using assms(2) by (rule strlen30_small)
  have d: "drop (length (takeWhile is_space l)) l = dropWhile is_space l" by (metis dropWhile_eq_drop)
  then have d2: "take (length l - length (takeWhile is_space l)) (dropWhile is_space l) = dropWhile is_space l"
    by (metis length_drop order_refl take_all)
  have f: "Suc (length l) - k \<le> a" if "\<not> a \<le> Suc (Suc (length l))" for k a using that by linarith
  have e: "length (dropWhile is_space l) \<le> length l" by (rule length_dropWhile_le)
  let ?a = "if sqlAlloc L \<le> nSql L + length l + 2 then nSql L + length l + 100 else sqlAlloc L"
  have "zSql L \<noteq> None" if "\<not> sqlAlloc L \<le> nSql L + length l + 2"
    using assms(1) that by (auto simp: sql_room_def split: option.splits)
  then have "add_line l L = Inr (L\<lparr>sqlAlloc := ?a, zSql := Some (with_line l L),
      startline := if nSql L = 0 then lineno L else startline L\<rparr>, nSql L)"
    using d d2 f by (cases "nSql L = 0")
      (auto simp: add_line_def n Let_def with_line_def nSql_def or_else_def)
  moreover have "length (with_line l L) + 1 < ?a"
    using e by (auto simp: with_line_def nSql_def)
  ultimately show ?thesis by blast
qed

section \<open>It returns\<close>

text \<open>The engine and the dot commands come back, and these leave the input alone.\<close>

definition comes_back :: "nat \<Rightarrow> ('db, 'st) sqlite_api \<Rightarrow> 'db shell_env \<Rightarrow> bool" where
  "comes_back n eng env \<longleftrightarrow>
     (\<forall>z p. \<exists>r. shell_exec n eng (display_stats env) (display_scanstats env) z p = Inr r) \<and>
     (\<forall>z s. instream (snd (do_meta_command env z s)) = instream s)"

lemma output_reset_stream [simp]: "instream (output_reset s) = instream s"
  by (simp add: output_reset_def output_file_close_def)

lemma echo_stream [simp]: "instream (echo z s) = instream s"
  by (simp add: echo_def)

text \<open>What every step keeps.\<close>

definition steps_to :: "line_state \<Rightarrow> 'db session \<Rightarrow> line_state \<Rightarrow> 'db session \<Rightarrow> bool" where
  "steps_to L s L' s' \<longleftrightarrow> sql_room L' \<and> instream s' = instream s"

lemma run_command_total:
  assumes "comes_back n eng env" and "sql_room L" and "zSql L \<noteq> None"
  shows "\<exists>L' s'. run_command n eng env L s = Inr (L', s') \<and> steps_to L s L' s'"
proof -
  let ?p = "(shell s)\<lparr>so := (so (shell s))\<lparr>cnt := 0\<rparr>, conn := open_db env (conn (shell s))\<rparr>"
  let ?z = "if backslashOn ?p then resolve_backslashes (or_else (zSql L) []) else or_else (zSql L) []"
  obtain rc err p where "shell_exec n eng (display_stats env) (display_scanstats env) ?z ?p = Inr (rc, err, p)"
    using assms(1) by (metis comes_back_def prod.collapse)
  with assms(2,3) show ?thesis
    by (auto simp: run_command_def Let_def steps_to_def room_cleared)
qed

lemma process_line_text:
  assumes "\<not> (interrupted env (lineno L) \<and> from_file env)" and "\<not> (nSql L = 0 \<and> all_whitespace l)"
    and "\<not> (take 1 l = ''.'' \<and> nSql L = 0)"
    and "(if line_is_command_terminator l
      then line_is_complete (complete eng) (sqlAlloc L) (zSql L) (nSql L) else Inr False) = Inr t"
    and "add_line (if t then '';'' else l) (L\<lparr>lineno := lineno L + 1\<rparr>) = Inr (L1, k)"
  shows "process_line n eng env l L s = line_collected n eng env L1 k s"
proof -
  have k: "sqlAlloc (L\<lparr>lineno := lineno L + 1\<rparr>) = sqlAlloc L" "zSql (L\<lparr>lineno := lineno L + 1\<rparr>) = zSql L" by simp_all
  from assms(1-3,5) show ?thesis
    by (simp only: process_line_def Let_def if_False nSql_kept k assms(4) c_bind_Inr prod.case)
qed

lemma process_line_total:
  assumes "comes_back n eng env" and "sql_room L" and "length l < 2 ^ 30"
  shows "\<exists>go L' s'. process_line n eng env l L s = Inr (go, L', s') \<and> steps_to L s L' s'"
proof -
  let ?L = "L\<lparr>lineno := lineno L + 1\<rparr>"
  obtain t where t: "(if line_is_command_terminator l
      then line_is_complete (complete eng) (sqlAlloc L) (zSql L) (nSql L) else Inr False) = Inr t"
    using line_is_complete_total [OF assms(2), of "complete eng"] by (metis (full_types))
  let ?l = "if t then '';'' else l"
  have room: "sql_room ?L" "length ?l < 2 ^ 30" using assms(2,3) by simp_all
  obtain L1 where a: "add_line ?l ?L = Inr (L1, nSql L)" "sql_room L1" "zSql L1 \<noteq> None"
    using add_line_ok [OF room] by (auto simp: sql_room_def)
  obtain L2 s2 where r: "run_command n eng env L1 s = Inr (L2, s2)" "steps_to L1 s L2 s2"
    using run_command_total [OF assms(1) a(2,3)] by blast
  consider "interrupted env (lineno L) \<and> from_file env"
    | "\<not> (interrupted env (lineno L) \<and> from_file env)" "nSql L = 0 \<and> all_whitespace l"
    | "\<not> (interrupted env (lineno L) \<and> from_file env)" "\<not> (nSql L = 0 \<and> all_whitespace l)" "take 1 l = ''.'' \<and> nSql L = 0"
    | "\<not> (interrupted env (lineno L) \<and> from_file env)" "\<not> (nSql L = 0 \<and> all_whitespace l)" "\<not> (take 1 l = ''.'' \<and> nSql L = 0)"
    by blast
  then show ?thesis
  proof cases
    case 1
    with assms(2) show ?thesis by (intro exI [of _ False]) (simp add: process_line_def steps_to_def)
  next
    case 2
    with assms(2) show ?thesis by (intro exI [of _ True]) (simp add: process_line_def steps_to_def)
  next
    case 3
    have "instream (snd (do_meta_command env l (echo l s))) = instream s" using assms(1) by (simp add: comes_back_def)
    with 3 assms(2) show ?thesis
      by (cases "do_meta_command env l (echo l s)") (auto simp: process_line_def steps_to_def Let_def)
  next
    case 4
    from process_line_text [OF 4 t a(1)] a(2,3) r room_cleared [OF a(2,3)] show ?thesis
      by (auto simp: line_collected_def Let_def steps_to_def)
  qed
qed

lemma head_line_shorter:
  assumes "head_line s = (Some l, r)"
  shows "length r < length s \<and> length l \<le> length s \<and> (c_text s \<longrightarrow> c_text r)"
proof -
  let ?t = "takeWhile (\<lambda>c. c \<noteq> CHR 0x0A) s"
  have s: "s \<noteq> []" using assms by (auto simp: head_line_def)
  have le: "length ?t \<le> length s" by (rule length_takeWhile_le)
  have strip: "length (strip_cr ?t) \<le> length ?t" by (simp add: strip_cr_def)
  show ?thesis
  proof (cases "?t = s")
    case True
    with assms s show ?thesis by (auto simp: head_line_def c_text_def)
  next
    case False
    with assms s have r: "r = drop (length ?t + 1) s" "l = strip_cr ?t" by (simp_all only: head_line_def Let_def if_False prod.inject option.inject)
    have "c_text s \<Longrightarrow> c_text r" using r(1) by (auto simp: c_text_def dest: in_set_dropD)
    then show ?thesis using r s le strip by (auto simp del: length_takeWhile_le)
  qed
qed

lemma head_line_end: "head_line s = (None, r) \<Longrightarrow> s = []"
  by (auto simp: head_line_def Let_def split: if_splits)

lemma process_loop_total:
  assumes "comes_back n eng env" and "sql_room L" and "c_text (instream s)" and "length (instream s) < 2 ^ 30"
    and "length (instream s) < fuel"
  shows "\<exists>L' s'. process_loop fuel n eng env L s = Inr (L', s')"
  using assms(2-)
proof (induction fuel arbitrary: L s)
  case 0
  then show ?case by simp
next
  case (Suc fuel)
  obtain l r where f: "head_line (instream s) = (l, r)" by fastforce
  have g: "one_input_line (mainPrompt env) (continuePrompt env) (from_file env) (reuse L) (nSql L \<noteq> 0) (instream s) =
      (if from_file env then [] else if nSql L \<noteq> 0 then continuePrompt env else mainPrompt env, Some (Inr (l, r)))"
    using local_getline_eq [OF Suc.prems(2)] f by (simp add: one_input_line_def)
  show ?case
  proof (cases l)
    case None
    with g show ?thesis by (simp add: Let_def)
  next
    case (Some line)
    let ?prompt = "if from_file env then [] else if nSql L \<noteq> 0 then continuePrompt env else mainPrompt env"
    let ?s = "s\<lparr>to_stdout := to_stdout s @ ?prompt, instream := r\<rparr>"
    from f Some head_line_shorter have r: "length r < length (instream s)" "length line \<le> length (instream s)" "c_text r"
      using Suc.prems(2) by auto
    then have "length line < 2 ^ 30" using Suc.prems(3) by linarith
    then obtain go L' s' where p: "process_line n eng env line (L\<lparr>reuse := True\<rparr>) ?s = Inr (go, L', s')"
        "sql_room L'" "instream s' = r"
      using process_line_total [OF assms(1), of "L\<lparr>reuse := True\<rparr>" line ?s] Suc.prems(1) by (auto simp: steps_to_def)
    have "\<exists>L'' s''. process_loop fuel n eng env L' s' = Inr (L'', s'')"
      using Suc.IH [of L' s'] p(2,3) r Suc.prems(3,4) by simp
    with g Some p(1) show ?thesis by (simp add: Let_def)
  qed
qed

section \<open>A script\<close>

text \<open>
  A script is a list of statements, each given by its lines. Lines hold no newline, no NUL and no carriage return
  at their end; a statement starts with a line that is neither empty nor a dot command, is complete with its
  last line and not before.
\<close>

definition script_line :: "string \<Rightarrow> bool" where
  "script_line l \<longleftrightarrow> c_text l \<and> CHR 0x0A \<notin> set l \<and> strip_cr l = l \<and> length l < 2 ^ 30 \<and>
     \<not> line_is_command_terminator l"

definition joined :: "string list \<Rightarrow> string" where
  "joined ls = (case ls of [] \<Rightarrow> [] | l # ls \<Rightarrow> dropWhile is_space l @ concat (map (\<lambda>l. CHR 0x0A # l) ls))"

lemma joined_snoc: "joined (ls @ [l]) = (if ls = [] then dropWhile is_space l else joined ls @ [CHR 0x0A] @ l)"
  by (cases ls) (simp_all add: joined_def)

fun waits :: "(string \<Rightarrow> bool) \<Rightarrow> string list \<Rightarrow> string list \<Rightarrow> bool" where
  "waits c prev [] = False"
| "waits c prev [l] = (script_line l \<and> CHR '';'' \<in> set l \<and> c (joined (prev @ [l])))"
| "waits c prev (l # l' # ls) =
     (script_line l \<and> \<not> (CHR '';'' \<in> set l \<and> c (joined (prev @ [l]))) \<and> \<not> all_whitespace (joined (prev @ [l])) \<and>
      waits c (prev @ [l]) (l' # ls))"

definition statement :: "(string \<Rightarrow> bool) \<Rightarrow> string list \<Rightarrow> bool" where
  "statement c ls \<longleftrightarrow> waits c [] ls \<and> \<not> all_whitespace (hd ls) \<and> take 1 (hd ls) \<noteq> ''.''"

definition script_text :: "string list list \<Rightarrow> string" where
  "script_text lss = concat (map (\<lambda>l. l @ [CHR 0x0A]) (concat lss))"

text \<open>One statement as \<open>run_command\<close> runs it: whether it failed, and the session.\<close>

definition run_one :: "nat \<Rightarrow> ('db, 'st) sqlite_api \<Rightarrow> 'db shell_env \<Rightarrow> string \<Rightarrow> nat \<Rightarrow> 'db session
    \<Rightarrow> (nat \<times> 'db session) c_result" where
  "run_one n eng env z line s =
     c_bind (run_command n eng env (no_lines\<lparr>zSql := Some z, startline := line\<rparr>) s) (\<lambda>(L, s). Inr (errCnt L, s))"

fun run_script :: "nat \<Rightarrow> ('db, 'st) sqlite_api \<Rightarrow> 'db shell_env \<Rightarrow> nat \<Rightarrow> string list list \<Rightarrow> nat \<Rightarrow> 'db session
    \<Rightarrow> (nat \<times> 'db session) c_result" where
  "run_script n eng env line [] e s = Inr (e, s)"
| "run_script n eng env line (ls # lss) e s =
     c_bind (run_one n eng env (joined ls) (line + 1) (s\<lparr>instream := script_text lss\<rparr>)) (\<lambda>(e', s).
     run_script n eng env (line + length ls) lss (e + e') s)"

lemma run_command_one:
  "run_command n eng env L s =
     c_bind (run_one n eng env (or_else (zSql L) []) (startline L) s) (\<lambda>(e, s).
       Inr (L\<lparr>zSql := Some [], errCnt := errCnt L + e\<rparr>, s))"
proof -
  let ?p = "(shell s)\<lparr>so := (so (shell s))\<lparr>cnt := 0\<rparr>, conn := open_db env (conn (shell s))\<rparr>"
  let ?z = "if backslashOn ?p then resolve_backslashes (or_else (zSql L) []) else or_else (zSql L) []"
  have o: "or_else (Some z) d = z" for z d by (simp add: or_else_def)
  show ?thesis
  proof (cases "shell_exec n eng (display_stats env) (display_scanstats env) ?z ?p")
    case (Inl e)
    then show ?thesis by (simp add: run_one_def run_command_def Let_def o no_lines_def)
  next
    case (Inr r)
    obtain rc err p where r: "r = (rc, err, p)" by (cases r)
    show ?thesis
      using Inr unfolding r by (simp add: run_one_def run_command_def Let_def o no_lines_def)
  qed
qed

text \<open>The state while the lines \<open>prev\<close> of a statement wait for the next.\<close>

definition holds :: "string list \<Rightarrow> nat \<Rightarrow> nat \<Rightarrow> nat \<Rightarrow> line_state \<Rightarrow> bool" where
  "holds prev first line e L \<longleftrightarrow>
     sql_room L \<and> or_else (zSql L) [] = joined prev \<and> (prev = [] \<longleftrightarrow> nSql L = 0) \<and> lineno L = line \<and> errCnt L = e \<and>
     (prev \<noteq> [] \<longrightarrow> startline L = first)"

lemma semicolon_last: "line_contains_semicolon z (length z) \<longleftrightarrow> CHR '';'' \<in> set z"
  by (induction z) auto

lemma semicolon_stripped: "CHR '';'' \<in> set (dropWhile is_space l) \<longleftrightarrow> CHR '';'' \<in> set l"
proof -
  have "\<not> is_space (CHR '';'')" by (simp add: is_space_def char_code_def)
  then show ?thesis by (induction l) auto
qed

lemma stripped_space: "dropWhile is_space l = [] \<Longrightarrow> all_whitespace l"
  by (induction l) (auto split: if_splits)

text \<open>One line of a statement.\<close>

lemma process_script_line:
  assumes "holds prev first line e L" and "script_line l" and "\<not> (interrupted env line \<and> from_file env)"
    and "prev = [] \<Longrightarrow> \<not> all_whitespace l \<and> take 1 l \<noteq> ''.'' \<and> first = line + 1"
  shows "\<exists>L'. holds (prev @ [l]) first (line + 1) e L' \<and>
    process_line n eng env l L s =
      (if CHR '';'' \<in> set l \<and> complete eng (joined (prev @ [l])) then
         c_bind (run_command n eng env L' s) (\<lambda>(L, s). Inr (True, L, s))
       else if all_whitespace (joined (prev @ [l])) then
         Inr (True, L'\<lparr>zSql := Some []\<rparr>, echo (joined (prev @ [l])) s)
       else Inr (True, L', s))"
proof -
  let ?L = "L\<lparr>lineno := lineno L + 1\<rparr>"
  have room: "sql_room ?L" and l: "length l < 2 ^ 30" "\<not> line_is_command_terminator l"
    using assms(1,2) by (simp_all add: holds_def script_line_def)
  have line: "with_line l ?L = joined (prev @ [l])"
    using assms(1) by (auto simp: with_line_def holds_def joined_snoc)
  obtain a where a: "add_line l ?L = Inr (?L\<lparr>sqlAlloc := a, zSql := Some (joined (prev @ [l])),
      startline := if nSql ?L = 0 then lineno ?L else startline ?L\<rparr>, nSql ?L)" "length (joined (prev @ [l])) + 1 < a"
    using add_line_ok [OF room l(1)] unfolding line by (elim exE conjE)
  let ?L' = "?L\<lparr>sqlAlloc := a, zSql := Some (joined (prev @ [l])), startline := if nSql ?L = 0 then lineno ?L else startline ?L\<rparr>"
  have ne: "joined (prev @ [l]) \<noteq> []"
    using assms(4) stripped_space [of l] by (auto simp: joined_snoc)
  have n: "nSql ?L' = length (joined (prev @ [l]))" by (simp add: nSql_def or_else_def)
  have h: "holds (prev @ [l]) first (line + 1) e ?L'"
    using assms(1,4) a(2) ne n by (auto simp: holds_def sql_room_def or_else_def)
  have semi: "line_contains_semicolon (drop (nSql L) (joined (prev @ [l]))) (length (joined (prev @ [l])) - nSql L) \<longleftrightarrow>
      CHR '';'' \<in> set l"
  proof -
    have "set (drop (nSql L) (joined (prev @ [l]))) \<inter> {CHR '';''} = set l \<inter> {CHR '';''}"
      using assms(1) semicolon_stripped [of l] by (auto simp: holds_def joined_snoc nSql_def)
    then show ?thesis using semicolon_last [of "drop (nSql L) (joined (prev @ [l]))"] by auto
  qed
  have t: "(if line_is_command_terminator l
      then line_is_complete (complete eng) (sqlAlloc L) (zSql L) (nSql L) else Inr False) = Inr False"
    using l(2) by simp
  have "process_line n eng env l L s = line_collected n eng env ?L' (nSql ?L) s"
  proof (rule process_line_text [OF _ _ _ t])
    show "\<not> (interrupted env (lineno L) \<and> from_file env)" using assms(1,3) by (simp add: holds_def)
    show "\<not> (nSql L = 0 \<and> all_whitespace l)" "\<not> (take 1 l = ''.'' \<and> nSql L = 0)"
      using assms(1,4) by (auto simp: holds_def)
    show "add_line (if False then '';'' else l) ?L = Inr (?L', nSql ?L)" using a(1) by (simp only: if_False)
  qed
  with h ne n semi show ?thesis by (intro exI [of _ ?L']) (simp add: line_collected_def Let_def or_else_def)
qed

text \<open>A file run without stopping at errors and without an interrupt.\<close>

definition runs_file :: "'db shell_env \<Rightarrow> bool" where
  "runs_file env \<longleftrightarrow> from_file env \<and> \<not> bail_on_error env \<and> \<not> stdin_is_interactive env \<and> (\<forall>k. \<not> interrupted env k)"

lemma process_loop_line:
  assumes "runs_file env" and "script_line l" and "c_text rest" and "instream s = l @ CHR 0x0A # rest"
  shows "process_loop (Suc f) n eng env L s =
    c_bind (process_line n eng env l (L\<lparr>reuse := True\<rparr>) (s\<lparr>instream := rest\<rparr>)) (\<lambda>(go, L, s).
      if go then process_loop f n eng env L s else Inr (L, s))"
proof -
  have "c_text (instream s)" using assms(2-4) by (auto simp: script_line_def c_text_def)
  moreover have "head_line (instream s) = (Some l, rest)"
    using head_line_newline [of l rest] assms(2,4) by (simp add: script_line_def)
  ultimately have "local_getline (reuse L) (instream s) = Some (Inr (Some l, rest))"
    using local_getline_eq by metis
  with assms(1) show ?thesis by (simp add: one_input_line_def runs_file_def Let_def)
qed

lemma holds_reuse [simp]: "holds prev first line e (L\<lparr>reuse := b\<rparr>) = holds prev first line e L"
  by (simp add: holds_def)

definition lines_text :: "string list \<Rightarrow> string" where
  "lines_text ls = concat (map (\<lambda>l. l @ [CHR 0x0A]) ls)"

lemma waits_line: "waits c prev (l # ls) \<Longrightarrow> script_line l"
  by (cases ls) auto

lemma waits_text: "waits c prev ls \<Longrightarrow> c_text (lines_text ls)"
  by (induction c prev ls rule: waits.induct) (auto simp: lines_text_def script_line_def c_text_def)

lemma process_statement:
  assumes "runs_file env" and "waits (complete eng) prev ls" and "c_text rest" and "holds prev first line e L"
    and "instream s = lines_text ls @ rest"
    and "prev = [] \<Longrightarrow> \<not> all_whitespace (hd ls) \<and> take 1 (hd ls) \<noteq> ''.'' \<and> first = line + 1"
  shows "\<exists>L'. holds (prev @ ls) first (line + length ls) e L' \<and>
    process_loop (length ls + f) n eng env L s =
      c_bind (run_command n eng env L' (s\<lparr>instream := rest\<rparr>)) (\<lambda>(L, s). process_loop f n eng env L s)"
  using assms(2,4-)
proof (induction ls arbitrary: prev line L s)
  case Nil
  then show ?case by simp
next
  case (Cons l ls)
  have l: "script_line l" using waits_line [OF Cons.prems(1)] .
  let ?rest = "lines_text ls @ rest"
  have "c_text (lines_text ls)"
    using Cons.prems(1) waits_text [of "complete eng" "prev @ [l]" ls] by (cases ls) (auto simp: lines_text_def c_text_def)
  with assms(3) have "c_text ?rest" by simp
  moreover have "instream s = l @ CHR 0x0A # ?rest" using Cons.prems(3) by (simp add: lines_text_def)
  ultimately have loop: "process_loop (Suc (length ls + f)) n eng env L s =
    c_bind (process_line n eng env l (L\<lparr>reuse := True\<rparr>) (s\<lparr>instream := ?rest\<rparr>)) (\<lambda>(go, L, s).
      if go then process_loop (length ls + f) n eng env L s else Inr (L, s))"
    using process_loop_line [OF assms(1) l] by blast
  have h: "holds prev first line e (L\<lparr>reuse := True\<rparr>)" using Cons.prems(2) by simp
  have i: "\<not> (interrupted env line \<and> from_file env)" using assms(1) by (simp add: runs_file_def)
  have st: "prev = [] \<Longrightarrow> \<not> all_whitespace l \<and> take 1 l \<noteq> ''.'' \<and> first = line + 1" using Cons.prems(4) by simp
  from process_script_line [where n = n and s = "s\<lparr>instream := ?rest\<rparr>" and eng = eng, OF h l i st] obtain L' where
    L': "holds (prev @ [l]) first (line + 1) e L'"
    "process_line n eng env l (L\<lparr>reuse := True\<rparr>) (s\<lparr>instream := ?rest\<rparr>) =
      (if CHR '';'' \<in> set l \<and> complete eng (joined (prev @ [l])) then
         c_bind (run_command n eng env L' (s\<lparr>instream := ?rest\<rparr>)) (\<lambda>(L, s). Inr (True, L, s))
       else if all_whitespace (joined (prev @ [l])) then
         Inr (True, L'\<lparr>zSql := Some []\<rparr>, echo (joined (prev @ [l])) (s\<lparr>instream := ?rest\<rparr>))
       else Inr (True, L', s\<lparr>instream := ?rest\<rparr>))" by blast
  show ?case
  proof (cases ls)
    case Nil
    with Cons.prems(1) have "CHR '';'' \<in> set l \<and> complete eng (joined (prev @ [l]))" by simp
    with loop L' Nil show ?thesis
      by (intro exI [of _ L']) (simp add: lines_text_def c_bind_assoc case_prod_beta)
  next
    case (Cons l' ls')
    with Cons.prems(1) have w: "\<not> (CHR '';'' \<in> set l \<and> complete eng (joined (prev @ [l])))"
      "\<not> all_whitespace (joined (prev @ [l]))" "waits (complete eng) (prev @ [l]) ls" by auto
    from Cons.IH [OF w(3) L'(1), of "s\<lparr>instream := ?rest\<rparr>"] obtain L2 where
      "holds ((prev @ [l]) @ ls) first (line + 1 + length ls) e L2"
      "process_loop (length ls + f) n eng env L' (s\<lparr>instream := ?rest\<rparr>) =
        c_bind (run_command n eng env L2 (s\<lparr>instream := rest\<rparr>)) (\<lambda>(L, s). process_loop f n eng env L s)" by auto
    with loop L'(2) w show ?thesis by (intro exI [of _ L2]) simp
  qed
qed

lemma run_one_stream: "run_one n eng env z k s = Inr (e, s') \<Longrightarrow> instream s' = instream s"
proof -
  assume r: "run_one n eng env z k s = Inr (e, s')"
  let ?p = "(shell s)\<lparr>so := (so (shell s))\<lparr>cnt := 0\<rparr>, conn := open_db env (conn (shell s))\<rparr>"
  let ?z = "if backslashOn ?p then resolve_backslashes z else z"
  have o: "or_else (Some z) d = z" for z d by (simp add: or_else_def)
  show ?thesis
  proof (cases "shell_exec n eng (display_stats env) (display_scanstats env) ?z ?p")
    case (Inl f)
    with r show ?thesis by (simp add: run_one_def run_command_def Let_def o no_lines_def)
  next
    case (Inr t)
    obtain rc err p where t: "t = (rc, err, p)" by (cases t)
    show ?thesis
      using r Inr unfolding t by (auto simp: run_one_def run_command_def Let_def o no_lines_def split: if_splits)
  qed
qed

lemma script_text_Cons: "script_text (ls # lss) = lines_text ls @ script_text lss"
  by (simp add: script_text_def lines_text_def)

lemma script_c_text: "\<forall>ls \<in> set lss. statement c ls \<Longrightarrow> c_text (script_text lss)"
proof (induction lss)
  case Nil
  then show ?case by (simp add: script_text_def c_text_def)
next
  case (Cons ls lss)
  then have "waits c [] ls" "c_text (script_text lss)" by (simp_all add: statement_def)
  then show ?case using waits_text by (simp add: script_text_Cons)
qed

lemma process_script:
  assumes "runs_file env" and "\<forall>ls \<in> set lss. statement (complete eng) ls" and "holds [] first line e L"
    and "instream s = script_text lss" and "length (concat lss) < f"
  shows "c_bind (process_loop f n eng env L s) (\<lambda>(L, s). Inr (nSql L, errCnt L, s)) =
    c_bind (run_script n eng env line lss e s) (\<lambda>(e, s). Inr (0, e, s))"
  using assms(2-)
proof (induction lss arbitrary: first line e L s f)
  case Nil
  then obtain k where f: "f = Suc k" by (cases f) auto
  have s: "instream s = []" using Nil.prems(3) by (simp add: script_text_def)
  then have "local_getline (reuse L) (instream s) = Some (Inr (None, []))"
    using local_getline_eq [of "instream s"] by (simp add: c_text_def head_line_def)
  moreover have "s\<lparr>instream := []\<rparr> = s" using s by simp
  ultimately show ?case
    using f assms(1) Nil.prems(2) by (simp add: one_input_line_def runs_file_def Let_def holds_def)
next
  case (Cons ls lss)
  have st: "statement (complete eng) ls" using Cons.prems(1) by simp
  have "c_text (script_text lss)"
    using Cons.prems(1) by (intro script_c_text [of _ "complete eng"]) simp
  have room: "f = length ls + (f - length ls)" "length (concat lss) < f - length ls" using Cons.prems(4) by auto
  have h: "holds [] (line + 1) line e L" using Cons.prems(2) by (simp add: holds_def)
  obtain L' where L': "holds ls (line + 1) (line + length ls) e L'"
    "process_loop f n eng env L s =
      c_bind (run_command n eng env L' (s\<lparr>instream := script_text lss\<rparr>)) (\<lambda>(L, s). process_loop (f - length ls) n eng env L s)"
    using process_statement [OF assms(1) _ \<open>c_text (script_text lss)\<close> h, of eng ls s "f - length ls" n] st Cons.prems(3) room
    by (auto simp: statement_def script_text_Cons)
  have ne: "ls \<noteq> []" using st by (auto simp: statement_def)
  let ?s = "s\<lparr>instream := script_text lss\<rparr>"
  have run: "run_command n eng env L' ?s = c_bind (run_one n eng env (joined ls) (line + 1) ?s) (\<lambda>(e', s).
      Inr (L'\<lparr>zSql := Some [], errCnt := e + e'\<rparr>, s))"
    using run_command_one [of n eng env L' ?s] L'(1) ne by (simp add: holds_def)
  show ?case
  proof (cases "run_one n eng env (joined ls) (line + 1) ?s")
    case (Inl x)
    with L'(2) run show ?thesis by simp
  next
    case (Inr r)
    obtain e' s' where r: "r = (e', s')" by (cases r)
    have "instream s' = script_text lss" using run_one_stream [OF Inr [unfolded r]] by simp
    moreover have "holds [] 0 (line + length ls) (e + e') (L'\<lparr>zSql := Some [], errCnt := e + e'\<rparr>)"
      using L'(1) ne by (auto simp: holds_def sql_room_def or_else_def joined_def nSql_def split: option.splits)
    ultimately have "c_bind (process_loop (f - length ls) n eng env (L'\<lparr>zSql := Some [], errCnt := e + e'\<rparr>) s')
        (\<lambda>(L, s). Inr (nSql L, errCnt L, s)) =
      c_bind (run_script n eng env (line + length ls) lss (e + e') s') (\<lambda>(e, s). Inr (0, e, s))"
      by (intro Cons.IH [of 0]) (use Cons.prems(1) room(2) in simp_all)
    then show ?thesis by (simp only: L'(2) run Inr r run_script.simps c_bind_Inr prod.case)
  qed
qed

section \<open>The properties\<close>

text \<open>C19: \<open>process_input\<close> returns on every stream of fewer than \<open>2 ^ 30\<close> characters other than NUL, interactive or not,
  after at most one round more than the stream has characters, when the statements and the dot commands it runs
  return. None of its stores into the block of collected text, nor those of \<open>line_is_complete\<close> behind the
  text, is ever out of bounds.\<close>

theorem process_input_returns:
  assumes "comes_back n eng env" and "c_text (instream s)" and "length (instream s) < 2 ^ 30"
    and "length (instream s) < fuel"
  shows "\<exists>failed s'. process_input fuel n eng env s = Inr (failed, s')"
proof -
  obtain L s' where "process_loop fuel n eng env no_lines s = Inr (L, s')"
    using process_loop_total [OF assms(1) room_no_lines assms(2-4)] by blast
  then show ?thesis by (cases "nSql L \<noteq> 0 \<and> \<not> all_whitespace (or_else (zSql L) [])") (auto simp: process_input_def)
qed

text \<open>C11: A script file is run statement by statement. For every list of statements, each given by its lines and
  complete, in the sense of \<open>sqlite3_complete\<close>, with its last line and not before, \<open>process_input\<close> hands
  each one, its lines joined by newlines and without leading space, to \<open>shell_exec\<close> once and in order, goes
  on after errors, reports each with the line its statement starts on, and returns whether there was one.\<close>

theorem process_input_runs_script:
  assumes "runs_file env" and "\<forall>ls \<in> set lss. statement (complete eng) ls"
    and "instream s = script_text lss" and "length (concat lss) < fuel"
  shows "process_input fuel n eng env s = c_bind (run_script n eng env 0 lss 0 s) (\<lambda>(e, s). Inr (e > 0, s))"
proof -
  have "holds [] 0 0 0 no_lines" by (simp add: holds_def or_else_def joined_def nSql_def no_lines_def sql_room_def)
  from process_script [OF assms(1,2) this assms(3,4), of n]
  have eq: "c_bind (process_loop fuel n eng env no_lines s) (\<lambda>(L, s). Inr (nSql L, errCnt L, s)) =
    c_bind (run_script n eng env 0 lss 0 s) (\<lambda>(e, s). Inr (0, e, s))" .
  show ?thesis
  proof (cases "process_loop fuel n eng env no_lines s")
    case (Inl x)
    with eq show ?thesis
      by (cases "run_script n eng env 0 lss 0 s") (auto simp: process_input_def)
  next
    case (Inr r)
    with eq show ?thesis
      by (cases r; cases "run_script n eng env 0 lss 0 s") (auto simp: process_input_def)
  qed
qed

text \<open>An engine that compiles every text to a statement which adds it to the database and delivers no row.\<close>

definition log_engine :: "(string list, string) sqlite_api" where
  "log_engine = \<lparr>prepare = (\<lambda>d z. (0, d, Some z, [])), step = (\<lambda>d st. (101, d @ [st], st)), reset = (\<lambda>st. st),
     finalize = (\<lambda>d st. (0, d)), column_count = (\<lambda>st. 0), column_name = (\<lambda>st i. None), column_text = (\<lambda>st i. None),
     column_type = (\<lambda>st i. 5), column_int = (\<lambda>st i. 0), column_blob = (\<lambda>st i. []), stmt_sql = Some,
     errmsg = (\<lambda>d. []), changes = (\<lambda>d. 0), total_changes = (\<lambda>d. 0), complete = (\<lambda>z. z \<noteq> [] \<and> last z = CHR '';''),
     strlike = (\<lambda>p z. False), strnieq = (\<lambda>a b n. False)\<rparr>"

definition quiet_env :: "string list shell_env" where
  "quiet_env = \<lparr>do_meta_command = (\<lambda>z s. (0, s)), open_db = (\<lambda>d. d), display_stats = (\<lambda>d o1. o1),
     display_scanstats = (\<lambda>d o1. o1), mainPrompt = ''sqlite> '', continuePrompt = ''   ...> '', bail_on_error = False,
     stdin_is_interactive = False, from_file = True, interrupted = (\<lambda>k. False)\<rparr>"

definition start_session :: "string \<Rightarrow> string list session" where
  "start_session input = \<lparr>shell = \<lparr>conn = [], so = \<lparr>cnt = 0, sent_out = [], mode = MODE_List, cMode = MODE_List,
       showHeader = False, zDestTable = None, colSeparator = ''|'', rowSeparator = ''\<newline>'',
       colWidth = replicate 100 0, actualWidth = replicate 100 0, nullValue = [], pStmt = None, aiIndent = None,
       nIndent = 0, iIndent = 0\<rparr>,
     echoOn = False, autoExplain = False, autoEQP = False, statsOn = False, scanstatsOn = False, countChanges = False,
     backslashOn = False, outCount = 0\<rparr>, instream = input, to_stdout = [], to_stderr = [], outfile = [], out_id = 1,
     closed = []\<rparr>"

lemma log_engine_returns: "\<exists>r. shell_exec (Suc (Suc n)) log_engine f g z p = Inr r"
  by (cases "z = []") (auto simp: log_engine_def Let_def exec_stmt_def SQLITE_OK_def SQLITE_NOMEM_def SQLITE_ROW_def
      show_plan_def show_result_def explain_data_prepare_def)

lemma process_input_returns_witness:
  "\<exists>failed s'. process_input 9 4 log_engine quiet_env (start_session (''SELECT'' @ [CHR 0x0A])) = Inr (failed, s')"
proof -
  have "comes_back 4 log_engine quiet_env"
    using log_engine_returns [of 2] by (simp add: comes_back_def quiet_env_def eval_nat_numeral)
  from process_input_returns [OF this, of "start_session (''SELECT'' @ [CHR 0x0A])" 9] show ?thesis
    by (simp add: start_session_def c_text_def)
qed

lemma process_input_runs_script_witness:
  "process_input 9 4 log_engine quiet_env (start_session (script_text [['' a'', ''b;'']])) =
     c_bind (run_script 4 log_engine quiet_env 0 [['' a'', ''b;'']] 0 (start_session (script_text [['' a'', ''b;''] ])))
       (\<lambda>(e, s). Inr (e > 0, s))"
proof -
  have "\<not> is_space (CHR ''a'')" "is_space (CHR '' '')" "\<not> is_space (CHR ''b'')" by (simp_all add: is_space_def char_code_def)
  then have "statement (complete log_engine) ['' a'', ''b;'']"
    by (simp add: statement_def script_line_def c_text_def strip_cr_def line_is_command_terminator_def to_lower_def
        char_code_def joined_def log_engine_def)
  then show ?thesis
    by (intro process_input_runs_script) (simp_all add: runs_file_def quiet_env_def start_session_def)
qed

end
