(* ===== verification/ShellMainProps.thy ===== *)
theory ShellMainProps
  imports ShellMain ShellProcessProps
begin

text \<open>
  What the program makes of its arguments: options, values and words in any order are told apart as they were meant,
  and the cases in which the two passes do not agree.
\<close>

section \<open>Arguments as they are meant\<close>

text \<open>The boolean says whether the option was written with two dashes.\<close>

datatype item = Flag bool string | Valued bool string string | Cmd bool string | Word string

definition dashed :: "bool \<Rightarrow> string \<Rightarrow> string" where
  "dashed two z = (if two then CHR ''-'' # z else z)"

fun item_args :: "item \<Rightarrow> string list" where
  "item_args (Flag two z) = [dashed two z]"
| "item_args (Valued two z v) = [dashed two z, v]"
| "item_args (Cmd two v) = [dashed two ''-cmd'', v]"
| "item_args (Word w) = [w]"

text \<open>A word starts with no dash and has none in the second place.\<close>

fun item_ok :: "item \<Rightarrow> bool" where
  "item_ok (Flag two z) \<longleftrightarrow> (set_flag z :: (unit main_state \<Rightarrow> unit main_state) option) \<noteq> None"
| "item_ok (Valued two z v) \<longleftrightarrow> z \<in> {''-separator'', ''-newline'', ''-nullvalue'', ''-init''}"
| "item_ok (Cmd two v) \<longleftrightarrow> True"
| "item_ok (Word w) \<longleftrightarrow> w \<noteq> [] \<and> take 1 w \<noteq> ''-'' \<and> take 1 (drop 1 w) \<noteq> ''-''"

text \<open>The words in order, the last initialization file, and whether input is taken as coming from a terminal.\<close>

fun item_words :: "item list \<Rightarrow> string list" where
  "item_words [] = []"
| "item_words (Word w # is) = w # item_words is"
| "item_words (_ # is) = item_words is"

fun item_init :: "item list \<Rightarrow> string option \<Rightarrow> string option" where
  "item_init [] f = f"
| "item_init (Valued two z v # is) f = item_init is (if z = ''-init'' then Some v else f)"
| "item_init (_ # is) f = item_init is f"

fun is_batch :: "item \<Rightarrow> bool" where
  "is_batch (Flag two z) \<longleftrightarrow> z = ''-batch''"
| "is_batch _ \<longleftrightarrow> False"

definition arguments_of :: "bool \<Rightarrow> item list \<Rightarrow> arguments" where
  "arguments_of tty is =
     \<lparr>zDbFilename = (case item_words is of [] \<Rightarrow> None | w # ws \<Rightarrow> Some w), zInitFile = item_init is None,
      readStdin = (length (item_words is) \<le> 1), azCmd = tl (item_words is),
      interactive = (tty \<and> \<not> list_ex is_batch is), shellFlgs = SHFLG_Lookaside, configured = []\<rparr>"

text \<open>The options, one after the other; an error in a command may end the program.\<close>

fun run_items :: "nat \<Rightarrow> ('db, 'st) sqlite_api \<Rightarrow> 'db main_env \<Rightarrow> item list \<Rightarrow> int \<Rightarrow> 'db main_state
    \<Rightarrow> (int option \<times> int \<times> 'db main_state) c_result" where
  "run_items n eng env [] rc m = Inr (None, rc, m)"
| "run_items n eng env (Word w # is) rc m = run_items n eng env is rc m"
| "run_items n eng env (Flag two z # is) rc m =
     run_items n eng env is rc (on_out (\<lambda>p. p\<lparr>cMode := mode p\<rparr>) (the (set_flag z) m))"
| "run_items n eng env (Valued two z v # is) rc m =
     run_items n eng env is rc (on_out (\<lambda>p. p\<lparr>cMode := mode p\<rparr>)
       (case set_value z of None \<Rightarrow> m | Some f \<Rightarrow> on_out (f v) m))"
| "run_items n eng env (Cmd two v # is) rc m =
     c_bind (run_argument n eng env (\<lambda>z. '' '' @ [CHR 0x22] @ z @ [CHR 0x22]) (bail m) v m) (\<lambda>(r, rc, m).
     case r of Some x \<Rightarrow> Inr (Some x, rc, m)
     | None \<Rightarrow> run_items n eng env is rc (on_out (\<lambda>p. p\<lparr>cMode := mode p\<rparr>) m))"

section \<open>The first pass\<close>

fun noted :: "item \<Rightarrow> arguments \<Rightarrow> arguments" where
  "noted (Flag two z) o1 = (if z = ''-batch'' then o1\<lparr>interactive := False\<rparr> else o1)"
| "noted (Valued two z v) o1 = (if z = ''-init'' then o1\<lparr>zInitFile := Some v\<rparr> else o1)"
| "noted (Cmd two v) o1 = o1"
| "noted (Word w) o1 = first_word w o1"

definition flag_names :: "string list" where
  "flag_names = [''-html'', ''-list'', ''-line'', ''-column'', ''-csv'', ''-ascii'', ''-header'', ''-noheader'', ''-echo'', ''-eqp'',
     ''-stats'', ''-scanstats'', ''-backslash'', ''-bail'', ''-interactive'', ''-batch'']"

lemma set_flag_names: "set_flag z \<noteq> None \<longleftrightarrow> z \<in> set flag_names"
  by (simp add: flag_names_def)

lemma dashed_facts:
  assumes "take 1 z = ''-''" and "take 1 (drop 1 z) \<noteq> ''-''"
  shows "second_dash (dashed two z) = z" and "dashed two z \<noteq> []" and "first_word (dashed two z) o1 = o1"
    and "take 1 (dashed two z) = ''-''"
  using assms by (cases z; auto simp: second_dash_def dashed_def first_word_def)+

lemma dashed_take: "take 1 z = ''-'' \<Longrightarrow> take (Suc 0) (dashed two z) = ''-''"
  by (cases z) (auto simp: dashed_def)

definition value_names :: "string list" where
  "value_names = [''-separator'', ''-nullvalue'', ''-newline'', ''-cmd'', ''-init'', ''-heap'', ''-scratch'', ''-pagecache'',
     ''-lookaside'', ''-mmap'', ''-vfs'']"

lemma names_apart:
  "list_all (\<lambda>z. take 1 z = ''-'' \<and> take 1 (drop 1 z) \<noteq> ''-'' \<and> z \<notin> set value_names) flag_names"
  by code_simp

lemma flag_dash: "z \<in> set flag_names \<Longrightarrow> take 1 z = ''-''" "z \<in> set flag_names \<Longrightarrow> take 1 (drop 1 z) \<noteq> ''-''"
  "z \<in> set flag_names \<Longrightarrow> z \<notin> set value_names"
  using names_apart unfolding list_all_iff by blast+

lemma word_names: "take 1 w \<noteq> ''-'' \<Longrightarrow> w \<notin> set value_names \<and> w \<noteq> ''-batch''"
proof -
  have "list_all (\<lambda>z. take 1 z = ''-'') (''-batch'' # value_names)" by code_simp
  then show "take 1 w \<noteq> ''-'' \<Longrightarrow> w \<notin> set value_names \<and> w \<noteq> ''-batch''" unfolding list_all_iff by auto
qed

lemma second_of [simp]: "(pre @ x # v # post) ! Suc (length pre) = v"
  by (simp add: nth_append)

lemma first_option_flag:
  assumes "z \<in> set flag_names"
  shows "first_option env argv i z o1 = Inr (Inr (0, noted (Flag two z) o1))"
  using flag_dash(3) [OF assms] by (simp add: first_option_def value_names_def)

lemma valued_names:
  assumes "z \<in> {''-separator'', ''-newline'', ''-nullvalue'', ''-init''}"
  shows "take 1 z = ''-''" and "take 1 (drop 1 z) \<noteq> ''-''" and "set_flag z = None"
    and "z = ''-init'' \<and> seen_values z = Some 1 \<and> set_value z = None \<or>
      z \<in> {''-separator'', ''-nullvalue'', ''-newline'', ''-cmd''} \<and> z \<noteq> ''-init'' \<and> seen_values z = None \<and> set_value z \<noteq> None"
  using assms by (elim insertE; simp)+

lemma first_pass_item:
  assumes "item_ok it" and "argv = pre @ item_args it @ post"
  shows "first_pass env argv (length pre) o1 = first_pass env argv (length (pre @ item_args it)) (noted it o1)"
proof (cases it)
  case (Flag two z)
  then have z: "z \<in> set flag_names" using assms(1) set_flag_names by auto
  note d = dashed_facts [OF flag_dash(1,2) [OF z]] dashed_take [OF flag_dash(1) [OF z]]
  show ?thesis unfolding assms(2) Flag
    by (subst first_pass.simps) (simp add: Let_def d first_option_flag [OF z, of _ _ _ _ two])
next
  case (Valued two z v)
  then have z: "z \<in> {''-separator'', ''-newline'', ''-nullvalue'', ''-init''}" using assms(1) by simp
  note d = dashed_facts [OF valued_names(1,2) [OF z]] dashed_take [OF valued_names(1) [OF z]]
  have "first_option env argv (length pre) z o1 = Inr (Inr (1, noted (Valued two z v) o1))"
    using valued_names(4) [OF z] assms(2) Valued
    by (elim disjE) (simp_all add: first_option_def with_value_def cmdline_option_value_def)
  then show ?thesis unfolding assms(2) Valued
    by (subst first_pass.simps) (simp add: Let_def d)
next
  case (Cmd two v)
  note d = dashed_facts [of "''-cmd''"] dashed_take [of "''-cmd''"]
  have "first_option env argv (length pre) ''-cmd'' o1 = Inr (Inr (1, o1))"
    using assms(2) Cmd by (simp add: first_option_def with_value_def cmdline_option_value_def)
  then show ?thesis unfolding assms(2) Cmd
    by (subst first_pass.simps) (simp add: Let_def d)
next
  case (Word w)
  then have w: "w \<noteq> []" "second_dash w = w" "take 1 w \<noteq> ''-''" using assms(1) by (simp_all add: second_dash_def)
  have "first_option env argv (length pre) w o2 = Inr (Inr (0, o2))" for o2
    using word_names [OF w(3)] by (simp add: first_option_def value_names_def)
  with w show ?thesis unfolding assms(2) Word
    by (subst first_pass.simps) (simp add: Let_def)
qed

lemma first_pass_items:
  assumes "\<forall>it \<in> set is. item_ok it"
  shows "first_pass env (pre @ concat (map item_args is)) (length pre) o1 = Inr (Inr (fold noted is o1))"
  using assms
proof (induction "is" arbitrary: pre o1)
  case Nil
  then show ?case by (simp add: first_pass.simps)
next
  case (Cons it "is")
  have "first_pass env (pre @ concat (map item_args (it # is))) (length pre) o1 =
      first_pass env (pre @ concat (map item_args (it # is))) (length (pre @ item_args it)) (noted it o1)"
    by (rule first_pass_item) (use Cons.prems in simp_all)
  also have "\<dots> = Inr (Inr (fold noted is (noted it o1)))"
    using Cons.IH [of "pre @ item_args it" "noted it o1"] Cons.prems by simp
  finally show ?case by simp
qed

lemma fold_noted:
  assumes "\<forall>it \<in> set is. item_ok it"
  shows "fold noted is o1 = o1\<lparr>zDbFilename := (case zDbFilename o1 of None \<Rightarrow> (case item_words is of [] \<Rightarrow> None | w # ws \<Rightarrow> Some w) | Some f \<Rightarrow> Some f),
     zInitFile := item_init is (zInitFile o1),
     readStdin := readStdin o1 \<and> length (item_words is) \<le> (if zDbFilename o1 = None then 1 else 0),
     azCmd := azCmd o1 @ (if zDbFilename o1 = None then tl (item_words is) else item_words is),
     interactive := interactive o1 \<and> \<not> list_ex is_batch is\<rparr>"
  using assms
proof (induction "is" arbitrary: o1)
  case Nil
  then show ?case by (cases o1) (simp split: option.split)
next
  case (Cons it "is")
  then have IH: "fold noted (it # is) o1 = fold noted is (noted it o1)" and ok: "item_ok it" by simp_all
  show ?case
  proof (cases it)
    case (Word w)
    then show ?thesis using Cons.IH [of "noted it o1"] Cons.prems
      by (cases "item_words is") (auto simp: first_word_def split: option.split)
  qed (use Cons.IH [of "noted it o1"] Cons.prems in \<open>simp_all split: option.split\<close>)
qed

lemma first_pass_arguments:
  assumes "\<forall>it \<in> set is. item_ok it"
  shows "first_pass env (prog # concat (map item_args is)) 1 \<lparr>zDbFilename = None, zInitFile = None, readStdin = True, azCmd = [],
     interactive = tty, shellFlgs = SHFLG_Lookaside, configured = []\<rparr> = Inr (Inr (arguments_of tty is))"
  using first_pass_items [OF assms, of env "[prog]"] fold_noted [OF assms] by (simp add: arguments_of_def)

section \<open>The second pass\<close>

lemma second_option_flag:
  assumes "z \<in> set flag_names"
  shows "second_option n eng env argv i z rc (m :: 'd main_state) = Inr (Further 0, rc, the (set_flag z) m)"
proof -
  obtain f :: "'d main_state \<Rightarrow> 'd main_state" where "set_flag z = Some f" using assms set_flag_names by blast
  then show ?thesis by (simp add: second_option_def del: set_flag.simps)
qed

lemma second_pass_item:
  assumes "item_ok it" and "argv = pre @ item_args it @ post" and "pre \<noteq> []"
  shows "second_pass n eng env argv (length pre) rc m =
    c_bind (run_items n eng env [it] rc m) (\<lambda>(r, rc, m).
    case r of Some x \<Rightarrow> Inr (Some x, rc, m) | None \<Rightarrow> second_pass n eng env argv (length (pre @ item_args it)) rc m)"
proof (cases it)
  case (Flag two z)
  then have z: "z \<in> set flag_names" using assms(1) set_flag_names by auto
  note d = dashed_facts [OF flag_dash(1,2) [OF z]] dashed_take [OF flag_dash(1) [OF z]]
  show ?thesis unfolding assms(2) Flag
    by (subst second_pass.simps) (simp add: d second_option_flag [OF z] del: set_flag.simps)
next
  case (Valued two z v)
  then have z: "z \<in> {''-separator'', ''-newline'', ''-nullvalue'', ''-init''}" using assms(1) by simp
  note d = dashed_facts [OF valued_names(1,2) [OF z]] dashed_take [OF valued_names(1) [OF z]]
  have "second_option n eng env argv (length pre) z rc m =
      Inr (Further 1, rc, case set_value z of None \<Rightarrow> m | Some f \<Rightarrow> on_out (f v) m)"
  proof (cases "z = ''-init''")
    case True
    then show ?thesis by (simp add: second_option_def)
  next
    case False
    then obtain f where f: "set_value z = Some f" "seen_values z = None" using valued_names(4) [OF z] by blast
    have "cmdline_option_value argv (length pre + 1) = Inr v" using assms(2) Valued by (simp add: cmdline_option_value_def)
    with f show ?thesis
      by (simp add: second_option_def valued_names(3) [OF z] del: set_flag.simps set_value.simps seen_values.simps)
  qed
  then show ?thesis unfolding assms(2) Valued
    by (subst second_pass.simps) (simp add: d del: set_value.simps)
next
  case (Cmd two v)
  note d = dashed_facts [of "''-cmd''"] dashed_take [of "''-cmd''"]
  have "second_option n eng env argv (length pre) ''-cmd'' rc m =
      c_bind (run_argument n eng env (\<lambda>z. '' '' @ [CHR 0x22] @ z @ [CHR 0x22]) (bail m) v m) (\<lambda>(r, rc, m).
          Inr (case r of None \<Rightarrow> Further 1 | Some v \<Rightarrow> Return v, rc, m))"
    using assms(2) Cmd by (simp add: second_option_def nth_append)
  then show ?thesis unfolding assms(2) Cmd
    by (subst second_pass.simps, cases "run_argument n eng env (\<lambda>z. '' '' @ [CHR 0x22] @ z @ [CHR 0x22]) (bail m) v m")
      (auto simp: d split: option.splits)
next
  case (Word w)
  then have "take (Suc 0) w \<noteq> ''-''" using assms(1) by simp
  then show ?thesis unfolding assms(2) Word
    by (subst second_pass.simps) simp
qed

lemma run_items_Cons:
  "run_items n eng env (it # is) rc m = c_bind (run_items n eng env [it] rc m) (\<lambda>(r, rc, m).
     case r of Some x \<Rightarrow> Inr (Some x, rc, m) | None \<Rightarrow> run_items n eng env is rc m)"
proof (cases it)
  case (Cmd two v)
  then show ?thesis
    by (cases "run_argument n eng env (\<lambda>z. '' '' @ [CHR 0x22] @ z @ [CHR 0x22]) (bail m) v m") (auto split: option.splits)
qed simp_all

lemma second_pass_items:
  assumes "\<forall>it \<in> set is. item_ok it" and "pre \<noteq> []"
  shows "second_pass n eng env (pre @ concat (map item_args is)) (length pre) rc m = run_items n eng env is rc m"
  using assms
proof (induction "is" arbitrary: pre rc m)
  case Nil
  then show ?case by (simp add: second_pass.simps)
next
  case (Cons it "is")
  have "second_pass n eng env (pre @ concat (map item_args (it # is))) (length pre) rc m =
    c_bind (run_items n eng env [it] rc m) (\<lambda>(r, rc, m).
    case r of Some x \<Rightarrow> Inr (Some x, rc, m)
    | None \<Rightarrow> second_pass n eng env (pre @ concat (map item_args (it # is))) (length (pre @ item_args it)) rc m)"
    by (rule second_pass_item) (use Cons.prems in simp_all)
  also have "\<dots> = c_bind (run_items n eng env [it] rc m) (\<lambda>(r, rc, m).
    case r of Some x \<Rightarrow> Inr (Some x, rc, m) | None \<Rightarrow> run_items n eng env is rc m)"
    using Cons.IH [of "pre @ item_args it"] Cons.prems
    by (cases "run_items n eng env [it] rc m") (auto split: option.splits)
  finally show ?case using run_items_Cons [of n eng env it "is" rc m] by simp
qed

section \<open>The properties\<close>

text \<open>C13: The program takes its arguments as they are meant, however options, values and words are mixed. For every
  list of options without a value, options with any value, commands after \<open>-cmd\<close> and words, options written with one dash
  or two: the first word names the database; the other words are run as commands, in order, and when there are any nothing is
  read from standard input; the last \<open>-init\<close> names the file that is read first; and then the options take effect one
  after the other. A value is never taken for an option, a word or a command.\<close>

theorem shell_main_arguments:
  assumes "\<forall>it \<in> set is. item_ok it" and "same_version env"
  shows "shell_main fuel n eng env tty d input (prog # concat (map item_args is)) =
    (let name = (case item_words is of [] \<Rightarrow> '':memory:'' | w # ws \<Rightarrow> w);
         env' = env\<lparr>base := (base env)\<lparr>open_db := open_named env name\<rparr>\<rparr>;
         start = \<lparr>ses = \<lparr>shell = shell_state.truncate (main_init d), instream = input, to_stdout = [], to_stderr = [],
             outfile = [], out_id = 1, closed = []\<rparr>, bail = False, inter = (tty \<and> \<not> list_ex is_batch is)\<rparr> in
     c_bind (process_sqliterc fuel n eng env' (item_init is None) (main_open env' name start)) (\<lambda>m.
     c_bind (run_items n eng env' is 0 m) (\<lambda>(r, rc, m).
     case r of
       Some v \<Rightarrow> Inr (v, m)
     | None \<Rightarrow> main_input fuel n eng env' (is = []) (length (item_words is) \<le> 1) (tl (item_words is)) rc m)))"
proof -
  have names: "(case zDbFilename (arguments_of tty is) of None \<Rightarrow> '':memory:'' | Some f \<Rightarrow> f) =
      (case item_words is of [] \<Rightarrow> '':memory:'' | w # ws \<Rightarrow> w)"
    by (simp add: arguments_of_def split: list.split)
  have args: "item_args it \<noteq> []" for it by (cases it) simp_all
  have warn: "(zDbFilename (arguments_of tty is) = None \<and> length (prog # concat (map item_args is)) = 1) \<longleftrightarrow> is = []"
    using args by (cases "is") (auto simp: arguments_of_def)
  have second: "second_pass n eng env' (prog # concat (map item_args is)) 1 rc m = run_items n eng env' is rc m" for env' rc m
    using second_pass_items [OF assms(1), of "[prog]" n eng env' rc m] by simp
  have fields: "zInitFile (arguments_of tty is) = item_init is None" "readStdin (arguments_of tty is) = (length (item_words is) \<le> 1)"
    "azCmd (arguments_of tty is) = tl (item_words is)" "interactive (arguments_of tty is) = (tty \<and> \<not> list_ex is_batch is)"
    by (simp_all add: arguments_of_def)
  have "shell_main fuel n eng env tty d input (prog # concat (map item_args is)) =
      main_with fuel n eng env (prog # concat (map item_args is)) (arguments_of tty is)
        \<lparr>shell = shell_state.truncate (main_init d), instream = input, to_stdout = [], to_stderr = [],
             outfile = [], out_id = 1, closed = []\<rparr>"
    by (simp only: shell_main_def Let_def assms(2) first_pass_arguments [OF assms(1)] c_bind_Inr sum.case simp_thms if_False)
  then show ?thesis unfolding main_with_def Let_def names warn second fields .
qed

section \<open>Where the two passes do not agree\<close>

text \<open>
  A word with a dash in the second place: the first pass names the database by it and goes on to read
  it as the option behind the first character.
\<close>

lemma word_read_as_option:
  "first_pass env [prog, ''x-init'', v] 1 o1 = Inr (Inr ((first_word ''x-init'' o1)\<lparr>zInitFile := Some v\<rparr>))"
  by (simp add: first_pass.simps second_dash_def first_option_def with_value_def cmdline_option_value_def)

text \<open>The value of \<open>-heap\<close> is the name of the database for the first pass, and a value for the second.\<close>

lemma heap_value_names_database:
  "take 1 v \<noteq> ''-'' \<Longrightarrow> take 1 (drop 1 v) \<noteq> ''-'' \<Longrightarrow> v \<noteq> [] \<Longrightarrow> zDbFilename o1 = None \<Longrightarrow>
     first_pass env [prog, ''-heap'', v] 1 o1 = Inr (Inr (o1\<lparr>zDbFilename := Some v\<rparr>))"
  "second_pass n eng env [prog, ''-heap'', v] 1 rc m = Inr (None, rc, on_out (\<lambda>p. p\<lparr>cMode := mode p\<rparr>) m)"
proof -
  assume v: "take 1 v \<noteq> ''-''" "take 1 (drop 1 v) \<noteq> ''-''" "v \<noteq> []" "zDbFilename o1 = None"
  then have "first_option env [prog, ''-heap'', v] 2 v o2 = Inr (Inr (0, o2))" for o2
    using word_names [OF v(1)] by (simp add: first_option_def value_names_def)
  with v show "first_pass env [prog, ''-heap'', v] 1 o1 = Inr (Inr (o1\<lparr>zDbFilename := Some v\<rparr>))"
    by (simp add: first_pass.simps second_dash_def first_option_def [of _ _ 1] first_option_def [of _ _ "Suc 0"] first_word_def eval_nat_numeral)
next
  show "second_pass n eng env [prog, ''-heap'', v] 1 rc m = Inr (None, rc, on_out (\<lambda>p. p\<lparr>cMode := mode p\<rparr>) m)"
    by (simp add: second_pass.simps second_dash_def second_option_def)
qed

text \<open>The empty argument is read past its end.\<close>

lemma empty_argument_overrun: "first_pass env [prog, []] 1 o1 = Inl Out_of_bounds"
  by (simp add: first_pass.simps)

section \<open>A call\<close>

text \<open>The value of \<open>-separator\<close> looks like an option, and \<open>.tables\<close> is the command.\<close>

definition bare_env :: "string list main_env" where
  "bare_env = \<lparr>base = quiet_env\<lparr>do_meta_command := (\<lambda>z s. (0, s\<lparr>to_stdout := to_stdout s @ z\<rparr>))\<rparr>, open_named = (\<lambda>f d. f # d),
     same_text = (=), vfs_known = (\<lambda>_. False), exists_at = (\<lambda>_. True), file_at = (\<lambda>_. None), pw_dir = None, env_home = None,
     same_version = True, libversion = [], sourceid = []\<rparr>"

lemma shell_main_arguments_witness:
  "\<exists>m. shell_main 1 1 log_engine bare_env True [] [] [''sqlite3'', ''--csv'', ''shop.db'', ''-separator'', ''-list'', ''.tables''] =
       Inr (0, m) \<and> mode (so (shell (ses m))) = MODE_Csv \<and> colSeparator (so (shell (ses m))) = ''-list'' \<and>
     to_stdout (ses m) = ''.tables'' \<and> conn (shell (ses m)) = [''shop.db'']"
proof -
  let ?is = "[Flag True ''-csv'', Word ''shop.db'', Valued False ''-separator'' ''-list'', Word ''.tables'']"
  have ok: "\<forall>it \<in> set ?is. item_ok it" by simp
  have args: "concat (map item_args ?is) = [''--csv'', ''shop.db'', ''-separator'', ''-list'', ''.tables'']" by (simp add: dashed_def)
  have "same_version bare_env" by (simp add: bare_env_def)
  from shell_main_arguments [OF ok this, of 1 1 log_engine True "[]" "[]" "''sqlite3''", unfolded args]
  show ?thesis
    by (simp add: bare_env_def process_sqliterc_def find_home_dir_def main_open_def on_shell_def say_err_def on_out_def
        main_input_def run_argument_def set_table_name_def main_init_def shell_state.defs)
qed

end
