(* ===== verification/Waiting.thy ===== *)
theory Waiting
  imports ForkedServer DatabaseRuns
begin

text \<open>
  What the rounds of the forked server and of the database server do when the bytes they read are not all
  there yet: they wait. And what a round of the forked server writes before it reads.
\<close>

section \<open>Silent streams\<close>

text \<open>Nothing but data is to come on the descriptor, and then it stays silent.\<close>

definition silent :: "proc \<Rightarrow> fd \<Rightarrow> bool" where
  "silent p f \<longleftrightarrow> after (rd p f) = []"

lemma after_skip: "after (skip n es) = after es"
  by (induction n es rule: skip.induct) auto

lemma silent_frame [simp]:
  "silent (consume g n p) f = silent p f" "silent (deliver g bs p) f = silent p f"
  "silent (deliver_frame g bs p) f = silent p f" "silent (logged m l p) f = silent p f"
  by (simp_all add: silent_def consume_def after_skip)

lemma ensureRead_waits:
  "silent p f \<Longrightarrow> length (rd_avail p f) < n \<Longrightarrow> n < 2 ^ 31 \<Longrightarrow> ensureRead n f p = Inl No_return"
  using ensureRead_loop_spins [of "rd p f" n 0 "[]"] by (auto simp: ensureRead_def rd_avail_def silent_def)

section \<open>The forked server\<close>

lemma getProducts_loop_waits:
  assumes "\<forall>s \<in> set ps. product_ok s" and "silent p inFD" and "k < length (product_frames ps)"
    and "rd_avail p inFD = take k (product_frames ps)"
  shows "getProducts_loop inFD (length ps) acc p = Inl No_return"
  using assms
proof (induction ps arbitrary: acc p k)
  case Nil
  then show ?case by simp
next
  case (Cons s ps)
  let ?bs = "product_bytes s"
  have len: "length ?bs < 2 ^ 31"
    using product_wire.enc_message [of s] Cons.prems(1) by (simp add: message_ok_def)
  then have u: "unat (word_of_nat (length ?bs) :: size_t) = length ?bs" by (intro unat_of_nat64) simp
  show ?case
  proof (cases "k < 8")
    case True
    with Cons.prems have "length (rd_avail p inFD) < 8" by simp
    with Cons.prems(2) ensureRead_waits [of p inFD 8] show ?thesis by simp
  next
    case False
    then have r1: "ensureRead 8 inFD p = Inr (1, enc64 (word_of_nat (length ?bs)), consume inFD 8 p)"
      using Cons.prems(3,4) ensureRead_exact [of 8 p inFD] by (simp add: frame_def)
    show ?thesis
    proof (cases "k < 8 + length ?bs")
      case True
      with Cons.prems len False have "ensureRead (length ?bs) inFD (consume inFD 8 p) = Inl No_return"
        by (intro ensureRead_waits) auto
      with r1 u show ?thesis by (simp add: Let_def)
    next
      case all: False
      then have stream: "rd_avail p inFD = frame ?bs @ take (k - (8 + length ?bs)) (product_frames ps)"
        using Cons.prems(4) by simp
      have "getProducts_loop inFD (length ps) (acc @ [product_of s]) (consume inFD (8 + length ?bs) p) = Inl No_return"
        by (rule Cons.IH [of _ "k - (8 + length ?bs)"]) (use Cons.prems all stream in auto)
      with len u Cons.prems(1) stream show ?thesis
        by (simp add: ensureRead_frame_length [OF stream] ensureRead_frame_data [OF stream] Let_def
            received_all product_wire.unser_enc consume_consume)
    qed
  qed
qed

lemma getProducts_waits:
  assumes "healthy (wr p outFD)" and "exchange_ok (Products ps)" and "silent p inFD"
    and "k < length (db_answers (Products ps))" and "rd_avail p inFD = take k (db_answers (Products ps))"
  shows "getProducts me (shared_free outFD inFD) p = Inl No_return"
proof -
  let ?n = "word_of_nat (length ps) :: c_int" and ?p = "deliver outFD (enc32 CMD_GET_PRODUCTS) p"
  have n: "sint ?n = int (length ps)" using assms(2) by (simp add: sint_of_nat in_int_def)
  then have e: "?n \<noteq> MESSAGE_ERROR" by (intro notI) (simp add: MESSAGE_ERROR_def)
  show ?thesis
  proof (cases "k < 4")
    case True
    with assms(3-5) have "ensureRead 4 inFD ?p = Inl No_return" by (intro ensureRead_waits) auto
    with assms(1) show ?thesis by (simp add: getProducts_def ensureWrite_healthy)
  next
    case False
    then have "ensureRead 4 inFD ?p = Inr (1, enc32 ?n, consume inFD 4 ?p)"
      using assms(4,5) ensureRead_exact [of 4 ?p inFD] by simp
    moreover have "getProducts_loop inFD (length ps) [] (consume inFD 4 ?p) = Inl No_return"
      by (rule getProducts_loop_waits [of _ _ _ "k - 4"]) (use assms False in auto)
    ultimately show ?thesis using assms(1) n e by (simp add: getProducts_def ensureWrite_healthy)
  qed
qed

context channel
begin

lemma processOrder_waits:
  assumes h: "healthy (wr p outFD)" "healthy (wr p (out_fd c))"
    and d: "outFD \<noteq> out_fd c" "inFD \<noteq> in_fd c"
    and ok: "message_ok ord" "message_ok red"
    and client: "rd_avail p (in_fd c) = frame ord @ crest"
    and db: "silent p inFD" "k < length (enc32 code @ answer_tail code red)"
      "rd_avail p inFD = take k (enc32 code @ answer_tail code red)"
  shows "processOrder ops c me (shared_free outFD inFD) p = Inl No_return"
proof -
  note len = message_ok_length [OF ok(1)]
  let ?p1 = "consume (in_fd c) (8 + length ord) p"
  let ?p2 = "deliver outFD ord (deliver outFD (enc64 (word_of_nat (length ord)))
    (deliver outFD (enc32 CMD_PLACE_ORDER) ?p1))"
  let ?p3 = "deliver_frame (out_fd c) (enc32 code) (consume inFD 4 ?p2)"
  have recv: "conn_receive ops c q p = Inr (1, full_block ord, Some (length ord), ?p1)" for q
    using receive_frame [OF client ok(1)] .
  show ?thesis
  proof (cases "k < 4")
    case True
    with db d have "ensureRead 4 inFD ?p2 = Inl No_return" by (intro ensureRead_waits) auto
    with recv len h show ?thesis by (simp add: processOrder_def ensureWrite_healthy mem_read_full)
  next
    case False
    then have u: "code = MESSAGE_UNSATISFIABLE_ORDER" using db(2) by (auto simp: answer_tail_def split: if_splits)
    have read: "ensureRead 4 inFD ?p2 = Inr (1, enc32 code, consume inFD 4 ?p2)"
      using ensureRead_exact [of 4 ?p2 inFD] db d False by simp
    have code: "overlay (enc32 code) (enc32 CMD_PLACE_ORDER) = enc32 code" by (simp add: overlay_def)
    note len' = message_ok_length [OF ok(2)]
    have avail: "rd_avail ?p3 inFD = take (k - 4) (frame red)" using db d False u by (simp add: answer_tail_def)
    show ?thesis
    proof (cases "k < 12")
      case True
      with db d False avail have "ensureRead 8 inFD ?p3 = Inl No_return" by (intro ensureRead_waits) auto
      with recv read code len h u show ?thesis
        by (simp add: processOrder_def ensureWrite_healthy mem_read_full send_frame Let_def)
    next
      case more: False
      have "8 \<le> length (rd_avail ?p3 inFD)" unfolding avail using more by simp
      moreover have "take 8 (rd_avail ?p3 inFD) = enc64 (word_of_nat (length red))" unfolding avail using more by (simp add: frame_def)
      ultimately have r8: "ensureRead 8 inFD ?p3 = Inr (1, enc64 (word_of_nat (length red)), consume inFD 8 ?p3)"
        using ensureRead_exact [of 8 ?p3 inFD] by (simp del: rd_avail_consume rd_avail_deliver_frame rd_avail_deliver)
      have "k < 12 + length red" using db(2) u by (simp add: answer_tail_def)
      with db d avail len' more have "ensureRead (length red) inFD (consume inFD 8 ?p3) = Inl No_return"
        by (intro ensureRead_waits) auto
      moreover have "overlay (enc64 x) (enc64 y) = enc64 x" for x y :: size_t by (simp add: overlay_def)
      ultimately show ?thesis using recv read code len len' h u r8
        by (simp add: processOrder_def ensureWrite_healthy mem_read_full send_frame Let_def)
    qed
  qed
qed

lemma round_waits:
  assumes ok: "exchange_ok e"
    and h: "healthy (wr p outFD)" "healthy (wr p (out_fd c))"
    and d: "outFD \<noteq> out_fd c" "inFD \<noteq> in_fd c"
    and client: "rd_avail p (in_fd c) = client_asks e @ crest"
    and db: "silent p inFD" "k < length (db_answers e)" "rd_avail p inFD = take k (db_answers e)"
  shows "forkedServer_round ops c me (shared_free outFD inFD) p = Inl No_return"
proof (cases e)
  case (Products ps)
  let ?q = "logged (received_text me CMD_GET_PRODUCTS) INFO (consume (in_fd c) 12 p)"
  have "getProducts me (shared_free outFD inFD) ?q = Inl No_return"
    by (rule getProducts_waits [of _ _ ps _ k]) (use ok h d db Products in auto)
  then show ?thesis
    using Products client round_code [of p c CMD_GET_PRODUCTS crest me "shared_free outFD inFD"]
    by (simp add: sendProducts_def)
next
  case (Place ord code red)
  let ?q = "logged (received_text me CMD_PLACE_ORDER) INFO (consume (in_fd c) 12 p)"
  have "processOrder ops c me (shared_free outFD inFD) ?q = Inl No_return"
    by (rule processOrder_waits [of _ _ _ _ ord red crest k code]) (use ok h d db client Place in auto)
  moreover have "CMD_PLACE_ORDER \<noteq> CMD_GET_PRODUCTS" by (simp add: message_codes)
  ultimately show ?thesis
    using Place client round_code [of p c CMD_PLACE_ORDER "frame ord @ crest" me "shared_free outFD inFD"] by simp
qed

end


section \<open>What a round writes first\<close>

text \<open>The process with other events to come on a descriptor.\<close>

definition fed :: "fd \<Rightarrow> rd_event list \<Rightarrow> proc \<Rightarrow> proc" where
  "fed f es p = p\<lparr>rd := (rd p)(f := es)\<rparr>"

lemma fed_simps [simp]:
  "rd_avail (fed f es p) = (rd_avail p)(f := avail es)" "sent (fed f es p) = sent p" "wr (fed f es p) = wr p"
  "answers (fed f es p) = answers p" "rd (fed f es p) f = es"
  by (simp_all add: fed_def rd_avail_def fun_eq_iff)

lemma silent_fed [simp]: "silent (fed f [Rd_data bs] p) f"
  by (simp add: silent_def)

text \<open>The next read on the descriptor fails.\<close>

definition failing :: "proc \<Rightarrow> fd \<Rightarrow> bool" where
  "failing p f \<longleftrightarrow> rd p f = [Rd_fail]"

lemma ensureRead_fails: "failing p f \<Longrightarrow> ensureRead 4 f p = Inr (0, [], p\<lparr>rd := (rd p)(f := [])\<rparr>)"
  using ensureRead_loop_failed [of "rd p f" _ _ 0 4 "[]"] by (auto simp: ensureRead_def rd_avail_def failing_def)

lemma failing_frame [simp]:
  "failing (deliver g bs p) f = failing p f" "failing (logged m l p) f = failing p f"
  "g \<noteq> f \<Longrightarrow> failing (consume g n p) f = failing p f" "failing (fed f [Rd_fail] p) f"
  by (simp_all add: failing_def consume_def fed_def)

context channel
begin

lemma round_request:
  assumes ok: "exchange_ok e"
    and h: "healthy (wr p outFD)" "healthy (wr p (out_fd c))"
    and d: "outFD \<noteq> out_fd c" "inFD \<noteq> in_fd c"
    and client: "rd_avail p (in_fd c) = client_asks e @ crest" and db: "failing p inFD"
  shows "\<exists>conn p'. forkedServer_round ops c me (shared_free outFD inFD) p = Inr (False, conn, p') \<and>
    sent p' outFD = sent p outFD @ db_asked e"
proof (cases e)
  case (Products ps)
  let ?q = "logged (received_text me CMD_GET_PRODUCTS) INFO (consume (in_fd c) 12 p)"
  have "failing (deliver outFD (enc32 CMD_GET_PRODUCTS) ?q) inFD" using db d by simp
  from ensureRead_fails [OF this] h d have "\<exists>conn p'. sendProducts ops c me (shared_free outFD inFD) ?q = Inr (conn, p') \<and>
    sent p' outFD = sent ?q outFD @ enc32 CMD_GET_PRODUCTS"
    by (simp add: sendProducts_def getProducts_def ensureWrite_healthy send_frame)
  then show ?thesis
    using Products client round_code [of p c CMD_GET_PRODUCTS crest me "shared_free outFD inFD"] by auto
next
  case (Place ord code red)
  let ?q = "logged (received_text me CMD_PLACE_ORDER) INFO (consume (in_fd c) 12 p)"
  note len = message_ok_length [of ord]
  let ?p1 = "consume (in_fd c) (8 + length ord) ?q"
  let ?p2 = "deliver outFD ord (deliver outFD (enc64 (word_of_nat (length ord)))
    (deliver outFD (enc32 CMD_PLACE_ORDER) ?p1))"
  have m: "message_ok ord" using ok Place by simp
  have client': "rd_avail ?q (in_fd c) = frame ord @ crest" using client Place by simp
  have recv: "conn_receive ops c x ?q = Inr (1, full_block ord, Some (length ord), ?p1)" for x
    using receive_frame [OF client' m] .
  have "failing ?p2 inFD" using db d by simp
  from ensureRead_fails [OF this] recv len m h d have "\<exists>conn p'. processOrder ops c me (shared_free outFD inFD) ?q = Inr (conn, p') \<and>
    sent p' outFD = sent ?q outFD @ enc32 CMD_PLACE_ORDER @ frame ord"
    by (simp add: processOrder_def ensureWrite_healthy mem_read_full send_frame overlay_def message_codes frame_def)
  moreover have "CMD_PLACE_ORDER \<noteq> CMD_GET_PRODUCTS" by (simp add: message_codes)
  ultimately show ?thesis
    using Place client round_code [of p c CMD_PLACE_ORDER "frame ord @ crest" me "shared_free outFD inFD"] by auto
qed

end

section \<open>The database server\<close>

lemma db_round_waits:
  assumes "0 \<le> inFD" and "inFD < 1024" and "answers p = 1 # as" and "silent p inFD"
    and "\<And>s a ts. r = Put s a ts \<Longrightarrow> order_ok s"
    and "k < length (request_bytes r)" and "rd_avail p inFD = take k (request_bytes r)"
  shows "db_round db inFD outFD d p = Inl No_return"
proof (cases "k < 4")
  case True
  with assms(6,7) have "length (rd_avail (p\<lparr>answers := as\<rparr>) inFD) < 4" by simp
  with assms(3,4) have "ensureRead 4 inFD (p\<lparr>answers := as\<rparr>) = Inl No_return"
    by (intro ensureRead_waits) (simp_all add: silent_def)
  with assms(3) select_one [OF assms(1,2), of 1] show ?thesis by (simp add: db_round_def read_fresh_def)
next
  case False
  with assms(6) obtain s a ts where r: "r = Put s a ts" by (cases r) auto
  let ?bs = "order_bytes s" and ?m = "''Database server placing order''" and ?p = "(consume inFD 4 p)\<lparr>answers := as\<rparr>"
  have m: "message_ok ?bs" using order_wire.enc_message assms(5) [OF r] .
  have len: "length ?bs < 2 ^ 31" "unat (word_of_nat (length ?bs) :: size_t) = length ?bs" using message_ok_length [OF m] by auto
  have stream: "rd_avail p inFD = enc32 CMD_PLACE_ORDER @ take (k - 4) (frame ?bs)" using assms(7) r False by simp
  obtain x where "log_info ?m ?p = Inr (x, logged ?m INFO ?p)"
    using log_info_short [OF round_messages(3,4), of ?p] by blast
  moreover have "silent (logged ?m INFO ?p) inFD" using assms(4) by (simp add: silent_def consume_def after_skip)
  moreover have "rd_avail (logged ?m INFO ?p) inFD = take (k - 4) (frame ?bs)" using stream by simp
  ultimately obtain q where x: "log_info ?m ?p = Inr (x, q)" and q: "silent q inFD" "rd_avail q inFD = take (k - 4) (frame ?bs)" by metis
  have "place_order db inFD outFD d q = Inl No_return"
  proof (cases "k < 12")
    case True
    then have "ensureRead 8 inFD q = Inl No_return" using q by (intro ensureRead_waits) auto
    then show ?thesis by (simp add: place_order_def read_fresh_def)
  next
    case more: False
    then have "read_fresh 8 inFD q = Inr (enc64 (word_of_nat (length ?bs)), consume inFD 8 q)"
      using read_fresh_exact [of 8 q inFD] q(2) by (simp add: frame_def)
    moreover have "ensureRead (length ?bs) inFD (consume inFD 8 q) = Inl No_return"
      using q len assms(6) r more by (intro ensureRead_waits) auto
    ultimately show ?thesis using len by (simp add: place_order_def Let_def)
  qed
  moreover have "CMD_PLACE_ORDER \<noteq> CMD_GET_PRODUCTS" by (simp add: message_codes)
  ultimately show ?thesis using db_round_code [OF assms(1,2,3) stream, of db outFD d] x by (simp add: Let_def)
qed

end
