(* ===== verification/Interleaving.thy ===== *)
theory Interleaving
  imports Waiting
begin

text \<open>
  Any number of forked servers and the database server at the same time, over the two pipes and the lock
  they share. A state has the shared connection of \<^verbatim>\<open>server/dbConn.c\<close>, the bytes in the pipes, which hold at most
  \<open>w_cap\<close> each, and the state of every process; a step is one event of one process.

  The events of a forked server are those of the rounds of \<^verbatim>\<open>server/forkedServer.c\<close>. A round takes the lock, writes
  its request byte by byte, reads byte by byte as long as it waits for more, and comes to its end, where it sends
  its client the answer and gives the lock back. What it writes, whether it waits and what it does at its end is
  what \<open>forkedServer_round\<close> does on the bytes it got: it writes before it reads, so the bytes it writes are those it
  writes when the first read fails. What goes to its client and to the log belongs to the end of the round: nobody
  else uses the connection to the client, and the log is not part of the state. The events of the database server are those of the rounds of
  \<^verbatim>\<open>database/databaseServer.c\<close> in the same way; the clock gives any time.
\<close>

section \<open>States\<close>

datatype phase = Outside | Writing "byte list" | Reading "byte list" | Left

record ('c, 'd) site =
  w_ops :: "'c comm"
  w_conn :: "nat \<Rightarrow> 'c"
  w_out :: fd
  w_in :: fd
  w_db :: "'d sqlite"
  w_dbIn :: fd
  w_dbOut :: fd
  w_cap :: nat

record 'd system =
  shared :: shared_conn
  requests :: "byte list"
  replies :: "byte list"
  phases :: "nat \<Rightarrow> phase"
  servers :: "nat \<Rightarrow> proc"
  contents :: 'd
  dbProc :: proc
  dbGot :: "byte list"
  dbToSend :: "byte list"

definition free_lock :: "('c, 'd) site \<Rightarrow> shared_conn" where
  "free_lock W = shared_free (w_out W) (w_in W)"

section \<open>The rounds\<close>

text \<open>A round of server \<open>i\<close> when these events come on the pipe from the database.\<close>

definition server_round :: "('c, 'd) site \<Rightarrow> nat \<Rightarrow> rd_event list \<Rightarrow> proc \<Rightarrow> (bool \<times> shared_conn \<times> proc) c_result" where
  "server_round W i es p = forkedServer_round (w_ops W) (w_conn W i) (int i) (free_lock W) (fed (w_in W) es p)"

definition round_writes :: "('c, 'd) site \<Rightarrow> nat \<Rightarrow> proc \<Rightarrow> byte list c_result" where
  "round_writes W i p =
     c_bind (server_round W i [Rd_fail] p) (\<lambda>(_, _, p').
     Inr (drop (length (sent p (w_out W))) (sent p' (w_out W))))"

text \<open>A round of the database server that got these bytes, \<open>t\<close> being the time.\<close>

definition serving_round :: "('c, 'd) site \<Rightarrow> int \<Rightarrow> byte list \<Rightarrow> 'd \<Rightarrow> proc \<Rightarrow> (bool \<times> 'd \<times> proc) c_result" where
  "serving_round W t got d p =
     db_round (w_db W) (w_dbIn W) (w_dbOut W) d ((fed (w_dbIn W) [Rd_data got] p)\<lparr>answers := [1, t]\<rparr>)"

section \<open>Steps\<close>

inductive system_step :: "('c, 'd) site \<Rightarrow> 'd system \<Rightarrow> 'd system \<Rightarrow> bool" for W where
  enter: "phases s i = Outside \<Longrightarrow> round_writes W i (servers s i) = Inr bs \<Longrightarrow> bs \<noteq> [] \<Longrightarrow>
    sh_conn_open (int i) (shared s) = Inr (1, l) \<Longrightarrow>
    system_step W s (s\<lparr>shared := l, phases := (phases s)(i := Writing bs)\<rparr>)"
| send: "phases s i = Writing (b # bs) \<Longrightarrow> length (requests s) < w_cap W \<Longrightarrow>
    system_step W s (s\<lparr>requests := requests s @ [b],
      phases := (phases s)(i := if bs = [] then Reading [] else Writing bs)\<rparr>)"
| receive: "phases s i = Reading got \<Longrightarrow> server_round W i [Rd_data got] (servers s i) = Inl No_return \<Longrightarrow>
    replies s = b # bs \<Longrightarrow>
    system_step W s (s\<lparr>replies := bs, phases := (phases s)(i := Reading (got @ [b]))\<rparr>)"
| leave: "phases s i = Reading got \<Longrightarrow> server_round W i [Rd_data got] (servers s i) = Inr (fin, l, p) \<Longrightarrow>
    system_step W s (s\<lparr>shared := l, phases := (phases s)(i := if fin then Left else Outside),
      servers := (servers s)(i := p)\<rparr>)"
| without: "phases s i = Outside \<Longrightarrow> round_writes W i (servers s i) = Inr [] \<Longrightarrow>
    server_round W i [] (servers s i) = Inr (fin, l, p) \<Longrightarrow>
    system_step W s (s\<lparr>phases := (phases s)(i := if fin then Left else Outside), servers := (servers s)(i := p)\<rparr>)"
| db_receive: "dbToSend s = [] \<Longrightarrow> serving_round W 0 (dbGot s) (contents s) (dbProc s) = Inl No_return \<Longrightarrow>
    requests s = b # bs \<Longrightarrow>
    system_step W s (s\<lparr>requests := bs, dbGot := dbGot s @ [b]\<rparr>)"
| db_serve: "dbToSend s = [] \<Longrightarrow> in_int t \<Longrightarrow> 0 \<le> t \<Longrightarrow>
    serving_round W t (dbGot s) (contents s) (dbProc s) = Inr (False, d, p) \<Longrightarrow>
    system_step W s (s\<lparr>contents := d, dbProc := p, dbGot := [],
      dbToSend := drop (length (sent (dbProc s) (w_dbOut W))) (sent p (w_dbOut W))\<rparr>)"
| db_send: "dbToSend s = b # bs \<Longrightarrow> length (replies s) < w_cap W \<Longrightarrow>
    system_step W s (s\<lparr>replies := replies s @ [b], dbToSend := bs\<rparr>)"

inductive reachable :: "('c, 'd) site \<Rightarrow> 'd system \<Rightarrow> 'd system \<Rightarrow> bool" for W s0 where
  start: "reachable W s0 s0"
| step: "reachable W s0 s \<Longrightarrow> system_step W s s' \<Longrightarrow> reachable W s0 s'"

section \<open>What the clients want\<close>

datatype wish = See | Buy order_spec string

fun wish_asks :: "wish \<Rightarrow> byte list" where
  "wish_asks See = frame (enc32 CMD_GET_PRODUCTS)"
| "wish_asks (Buy s a) = frame (enc32 CMD_PLACE_ORDER) @ frame (order_bytes s)"

text \<open>The request a wish becomes when it is served at a time, and the wish it was.\<close>

fun stamped :: "wish \<Rightarrow> int \<Rightarrow> request" where
  "stamped See t = Ask"
| "stamped (Buy s a) t = Put s a t"

fun unstamped :: "request \<Rightarrow> wish" where
  "unstamped Ask = See"
| "unstamped (Put s a t) = Buy s a"

fun wish_ok :: "store \<Rightarrow> wish \<Rightarrow> bool" where
  "wish_ok st See = True"
| "wish_ok st (Buy s a) =
     (order_inv s \<and> order_address s a \<and> length a \<le> 150 \<and> billable s \<and> listed st (os_entries s))"

text \<open>The exchange a request is when the database holds \<open>st\<close>.\<close>

fun exchange_at :: "store \<Rightarrow> request \<Rightarrow> exchange" where
  "exchange_at st Ask = Products (catalogue_specs st)"
| "exchange_at st (Put s a t) =
     (if satisfiable st (os_entries s) then Place (order_bytes s) MESSAGE_OK (order_bytes s)
      else Place (order_bytes s) MESSAGE_UNSATISFIABLE_ORDER (order_bytes (reduced_order st s)))"

section \<open>Serial execution\<close>

text \<open>
  A history is the requests in the order they were served, each with its server. \<open>serial_answers\<close> is what client
  \<open>i\<close> gets when the requests are served one after the other, from the store \<open>st\<close>.
\<close>

type_synonym history = "(nat \<times> request) list"

definition after_history :: "store \<Rightarrow> history \<Rightarrow> store" where
  "after_history st h = snd (serve_all st (map snd h))"

fun serial_answers :: "store \<Rightarrow> history \<Rightarrow> nat \<Rightarrow> byte list" where
  "serial_answers st [] i = []"
| "serial_answers st ((j, r) # h) i =
     (if j = i then client_answered (exchange_at st r) else []) @ serial_answers (snd (serve st r)) h i"

text \<open>The orders of a history the stock was enough for, each with its client.\<close>

fun booked :: "store \<Rightarrow> history \<Rightarrow> (nat \<times> order_spec \<times> string \<times> int) list" where
  "booked st [] = []"
| "booked st ((j, r) # h) =
     (case r of Ask \<Rightarrow> [] | Put s a t \<Rightarrow> if satisfiable st (os_entries s) then [(j, s, a, t)] else []) @
     booked (snd (serve st r)) h"

definition sold :: "(nat \<times> order_spec \<times> string \<times> int) list \<Rightarrow> int \<Rightarrow> int" where
  "sold bs i = (\<Sum>(j, s, a, t) \<leftarrow> bs. asked (os_entries s) i)"

definition asked_by :: "nat \<Rightarrow> history \<Rightarrow> wish list" where
  "asked_by i h = map (unstamped \<circ> snd) (filter (\<lambda>x. fst x = i) h)"

section \<open>The start\<close>

text \<open>\<open>n\<close> servers were forked; the client of server \<open>i\<close> asks \<open>scripts i\<close> and closes.\<close>

definition starts :: "('c, 'd) site \<Rightarrow> ('c \<Rightarrow> fd) \<Rightarrow> ('c \<Rightarrow> fd) \<Rightarrow> nat \<Rightarrow> (nat \<Rightarrow> wish list) \<Rightarrow> 'd system \<Rightarrow> bool" where
  "starts W in_fd out_fd n scripts s \<longleftrightarrow>
     shared s = free_lock W \<and> requests s = [] \<and> replies s = [] \<and> dbGot s = [] \<and> dbToSend s = [] \<and>
     healthy (wr (dbProc s) (w_dbOut W)) \<and> (\<forall>i. phases s i = (if i < n then Outside else Left)) \<and>
     (\<forall>i < n. rd_avail (servers s i) (in_fd (w_conn W i)) = concat (map wish_asks (scripts i)) @ frame (enc32 MESSAGE_CLOSE) \<and>
       sent (servers s i) (out_fd (w_conn W i)) = [] \<and>
       healthy (wr (servers s i) (w_out W)) \<and> healthy (wr (servers s i) (out_fd (w_conn W i))))"

definition site_ok :: "('c, 'd) site \<Rightarrow> ('c \<Rightarrow> fd) \<Rightarrow> ('c \<Rightarrow> fd) \<Rightarrow> ('c \<Rightarrow> bool) \<Rightarrow> nat \<Rightarrow> bool" where
  "site_ok W in_fd out_fd closable n \<longleftrightarrow> 0 < w_cap W \<and> 0 \<le> w_dbIn W \<and> w_dbIn W < 1024 \<and> w_dbIn W \<noteq> w_dbOut W \<and>
     (\<forall>i < n. closable (w_conn W i) \<and> w_out W \<noteq> out_fd (w_conn W i) \<and> w_in W \<noteq> in_fd (w_conn W i))"

definition scripts_ok :: "store \<Rightarrow> nat \<Rightarrow> (nat \<Rightarrow> wish list) \<Rightarrow> bool" where
  "scripts_ok st n scripts \<longleftrightarrow> st_products st \<noteq> [] \<and> (\<forall>i < n. \<forall>w \<in> set (scripts i). wish_ok st w) \<and>
     in_int (next_id st + int (\<Sum>i < n. length (scripts i)))"

end
