(* ===== verification/ServerEvents.thy ===== *)
theory ServerEvents
  imports Interleaving
begin

text \<open>
  The events of single processes in the interleaved system: when a forked server writes, waits and leaves, when
  the database server waits and serves, and what histories of requests do to the store.
\<close>

section \<open>Requests and exchanges\<close>

lemma unstamped_stamped [simp]: "unstamped (stamped w t) = w"
  by (cases w) simp_all

lemma request_bytes_stamped: "request_bytes (stamped w t) = request_bytes (stamped w 0)"
  by (cases w) simp_all

lemma request_bytes_nonempty [simp]: "request_bytes r \<noteq> []" "[] \<noteq> request_bytes r"
proof -
  show "request_bytes r \<noteq> []" using length_greater_0_conv [of "request_bytes r"] by (cases r) auto
  then show "[] \<noteq> request_bytes r" by simp
qed

lemma exchange_asks [simp]:
  "client_asks (exchange_at st (stamped w t)) = wish_asks w"
  "db_asked (exchange_at st (stamped w t)) = request_bytes (stamped w 0)"
  by (cases w; simp)+

lemma exchange_answers:
  "st_products st \<noteq> [] \<Longrightarrow> db_answers (exchange_at st r) = fst (serve st r)"
  by (cases r) (simp_all add: catalogue_bytes_def catalogue_specs_def product_frames_def answer_tail_def message_codes comp_def)

lemma answers_nonempty [simp]: "db_answers e \<noteq> []"
  using length_greater_0_conv [of "db_answers e"] by (cases e) auto

lemma exchange_at_ok:
  assumes "store_ok st" and "wish_ok st' w"
  shows "exchange_ok (exchange_at st (stamped w t))"
proof (cases w)
  case See
  with assms(1) catalogue_specs_ok [OF assms(1)] show ?thesis by (simp add: catalogue_specs_def store_ok_def)
next
  case (Buy s a)
  then have "order_ok s" using assms(2) by (simp add: order_inv_def)
  with reduced_order_ok order_wire.enc_message Buy show ?thesis by simp
qed

section \<open>Stores on the way\<close>

text \<open>The products stay the same, and \<open>k\<close> orders were added at most.\<close>

definition follows :: "store \<Rightarrow> nat \<Rightarrow> store \<Rightarrow> bool" where
  "follows st0 k st \<longleftrightarrow> store_ok st \<and> st_products st \<noteq> [] \<and> (\<forall>es. listed st es = listed st0 es) \<and>
     next_id st \<le> next_id st0 + int k"

lemma products_stock: "st_products st = [] \<longleftrightarrow> (\<forall>i. stock_of st i = None)"
proof
  assume all: "\<forall>i. stock_of st i = None"
  show "st_products st = []"
  proof (rule ccontr)
    assume "st_products st \<noteq> []"
    then obtain r rs where "st_products st = r # rs" by (cases "st_products st") auto
    then have "stock_of st (sr_id r) \<noteq> None" by (simp add: stock_of_def)
    with all show False by simp
  qed
qed (simp add: stock_of_def)

lemma serve_follows:
  assumes "follows st0 k st" and "store_ok (snd (serve st r))" and "\<And>s a t. r = Put s a t \<Longrightarrow> order_inv s"
  shows "follows st0 (Suc k) (snd (serve st r))"
proof (cases "\<exists>s a t. r = Put s a t \<and> satisfiable st (os_entries s)")
  case False
  then have "snd (serve st r) = st" by (cases r) auto
  with assms(1) show ?thesis by (simp add: follows_def)
next
  case True
  then obtain s a t where r: "r = Put s a t" "satisfiable st (os_entries s)" by blast
  have st': "snd (serve st r) = placed s a t st" using r by simp
  have ok: "store_ok st" using assms(1) by (simp add: follows_def)
  have d: "distinct (product_ids (os_entries s))" using assms(3) [OF r(1)] by (simp add: order_inv_def)
  note eff = placed_effect [OF d r(2) ok, of a t]
  have stock: "stock_of (placed s a t st) i = None \<longleftrightarrow> stock_of st i = None" for i using eff(3) [of i] by simp
  have "st_products (placed s a t st) \<noteq> []" using assms(1) by (simp add: follows_def products_stock stock)
  moreover have "listed (placed s a t st) es = listed st es" for es by (simp add: listed_def stock)
  moreover have "next_id (placed s a t st) \<le> next_id st + 1"
  proof -
    have "x \<le> next_id st" if "x \<in> fst ` set (st_orders st)" for x
    proof -
      have "x \<le> Max (fst ` set (st_orders st))" using that by (intro Max_ge) auto
      moreover have "st_orders st \<noteq> []" using that by auto
      ultimately show ?thesis by (simp add: next_id_def)
    qed
    then have "Max (fst ` set (st_orders (placed s a t st))) \<le> next_id st"
      unfolding eff(1) by (intro Max.boundedI) auto
    then show ?thesis using eff(1) by (simp add: next_id_def [of "placed s a t st"])
  qed
  ultimately show ?thesis using assms(1,2) by (simp add: follows_def st')
qed

lemma wish_request_ok:
  assumes "follows st0 k st" and "wish_ok st0 w" and "in_int t" and "0 \<le> t" and "0 < next_id st"
    and "in_int (next_id st0 + int m)" and "k \<le> m"
  shows "request_ok st (stamped w t)"
  using assms by (cases w) (auto simp: follows_def in_int_def)

section \<open>Histories\<close>

lemma serve_all_append: "snd (serve_all st (rs @ rs')) = snd (serve_all (snd (serve_all st rs)) rs')"
  by (induction rs arbitrary: st) (simp_all add: split_beta Let_def)

lemma after_history_simps [simp]:
  "after_history st [] = st" "after_history st (h @ [(i, r)]) = snd (serve (after_history st h) r)"
  by (simp_all add: after_history_def serve_all_append split_beta Let_def)

lemma after_history_Cons: "after_history st ((i, r) # h) = after_history (snd (serve st r)) h"
  by (simp add: after_history_def split_beta Let_def)

lemma serial_answers_append:
  "serial_answers st (h @ [(j, r)]) i = serial_answers st h i @
     (if j = i then client_answered (exchange_at (after_history st h) r) else [])"
proof (induction h arbitrary: st)
  case Nil
  then show ?case by simp
next
  case (Cons x h)
  then show ?case by (cases x) (simp add: after_history_Cons)
qed

lemma asked_by_append [simp]:
  "asked_by i [] = []" "asked_by i (h @ [(j, r)]) = asked_by i h @ (if j = i then [unstamped r] else [])"
  by (simp_all add: asked_by_def)

lemma booked_append:
  "booked st (h @ [(j, r)]) = booked st h @
     (case r of Ask \<Rightarrow> [] | Put s a t \<Rightarrow> if satisfiable (after_history st h) (os_entries s) then [(j, s, a, t)] else [])"
proof (induction h arbitrary: st)
  case Nil
  then show ?case by (cases r) simp_all
next
  case (Cons x h)
  then show ?case by (cases x; cases r) (simp_all add: after_history_Cons)
qed

text \<open>The tables grow by the booked orders, and the stock goes down by them.\<close>

definition ledger :: "store \<Rightarrow> history \<Rightarrow> bool" where
  "ledger st h \<longleftrightarrow>
     map snd (st_orders (after_history st h)) = map snd (st_orders st) @ map (\<lambda>(j, s, a, t). (amount_of s, a, t)) (booked st h) \<and>
     (\<forall>i. stock_of (after_history st h) i = map_option (\<lambda>q. q - sold (booked st h) i) (stock_of st i))"

lemma ledger_Nil: "ledger st []"
  by (simp add: ledger_def sold_def option.map_ident)

lemma ledger_append:
  assumes "ledger st h" and "store_ok (after_history st h)" and "\<And>s a t. r = Put s a t \<Longrightarrow> order_inv s"
  shows "ledger st (h @ [(j, r)])"
proof (cases "\<exists>s a t. r = Put s a t \<and> satisfiable (after_history st h) (os_entries s)")
  case False
  then have "snd (serve (after_history st h) r) = after_history st h" "booked st (h @ [(j, r)]) = booked st h"
    by (cases r; auto simp: booked_append)+
  with assms(1) show ?thesis by (simp add: ledger_def)
next
  case True
  then obtain s a t where r: "r = Put s a t" "satisfiable (after_history st h) (os_entries s)" by blast
  have d: "distinct (product_ids (os_entries s))" using assms(3) [OF r(1)] by (simp add: order_inv_def)
  note eff = placed_effect [OF d r(2) assms(2), of a t]
  have "booked st (h @ [(j, r)]) = booked st h @ [(j, s, a, t)]" using r by (simp add: booked_append)
  moreover have "after_history st (h @ [(j, r)]) = placed s a t (after_history st h)" using r by simp
  ultimately show ?thesis using assms(1) eff(1,3)
    by (simp add: ledger_def sold_def option.map_comp comp_def diff_diff_add)
qed

text \<open>Every request of the history was asked by one of the clients.\<close>

lemma history_length:
  "\<forall>x \<in> set h. fst x < n \<Longrightarrow> length h = (\<Sum>i < n. length (asked_by i h))"
proof (induction h)
  case Nil
  then show ?case by (simp add: asked_by_def)
next
  case (Cons x h)
  have "(\<Sum>i < n. length (asked_by i (x # h))) = (\<Sum>i < n. (if fst x = i then 1 else 0) + length (asked_by i h))"
    by (rule sum.cong) (auto simp: asked_by_def)
  also have "\<dots> = 1 + (\<Sum>i < n. length (asked_by i h))"
    using Cons.prems by (simp add: sum.distrib sum.delta')
  finally show ?case using Cons by simp
qed


section \<open>The events of one process\<close>

locale shop = closable_channel ops in_fd out_fd closable farewell + sql_store db view usable
  for ops :: "'c comm" and in_fd :: "'c \<Rightarrow> fd" and out_fd :: "'c \<Rightarrow> fd" and closable :: "'c \<Rightarrow> bool"
    and farewell :: "byte list" and db :: "'d sqlite" and view :: "'d \<Rightarrow> store" and usable :: "'d \<Rightarrow> bool"
begin

text \<open>A server outside with these wishes of its client to come.\<close>

definition ready :: "('c, 'd) site \<Rightarrow> nat \<Rightarrow> wish list \<Rightarrow> proc \<Rightarrow> bool" where
  "ready W i ws p \<longleftrightarrow> rd_avail p (in_fd (w_conn W i)) = concat (map wish_asks ws) @ frame (enc32 MESSAGE_CLOSE) \<and>
     healthy (wr p (w_out W)) \<and> healthy (wr p (out_fd (w_conn W i))) \<and> closable (w_conn W i) \<and>
     w_out W \<noteq> out_fd (w_conn W i) \<and> w_in W \<noteq> in_fd (w_conn W i) \<and> w_ops W = ops"

lemma round_writes_request:
  assumes "ready W i (w # ws) p" and "store_ok st" and "wish_ok st' w"
  shows "round_writes W i p = Inr (request_bytes (stamped w 0))"
proof -
  let ?e = "exchange_at st (stamped w 0)" and ?p = "fed (w_in W) [Rd_fail] p" and ?c = "w_conn W i"
  have "exchange_ok ?e" using exchange_at_ok assms(2,3) by blast
  then have "\<exists>conn p'. forkedServer_round ops ?c (int i) (shared_free (w_out W) (w_in W)) ?p = Inr (False, conn, p') \<and>
    sent p' (w_out W) = sent ?p (w_out W) @ db_asked ?e"
    by (rule round_request) (use assms(1) in \<open>auto simp: ready_def\<close>)
  with assms(1) show ?thesis by (auto simp: round_writes_def server_round_def free_lock_def ready_def)
qed

lemma round_writes_close:
  assumes "ready W i [] p"
  shows "round_writes W i p = Inr []" and "\<exists>p'. server_round W i [] p = Inr (True, free_lock W, p') \<and>
    sent p' (out_fd (w_conn W i)) = sent p (out_fd (w_conn W i)) @ farewell"
proof -
  let ?c = "w_conn W i"
  have r: "\<exists>p'. server_round W i es p = Inr (True, free_lock W, p') \<and>
    sent p' = (sent p)(out_fd ?c := sent p (out_fd ?c) @ farewell)" for es
  proof -
    have "rd_avail (fed (w_in W) es p) (in_fd ?c) = frame (enc32 MESSAGE_CLOSE) @ []" using assms by (simp add: ready_def)
    from round_close [OF _ _ this, of "int i" "free_lock W"] assms show ?thesis by (auto simp: ready_def server_round_def)
  qed
  from r [of "[Rd_fail]"] assms show "round_writes W i p = Inr []" by (auto simp: round_writes_def ready_def)
  from r [of "[]"] show "\<exists>p'. server_round W i [] p = Inr (True, free_lock W, p') \<and>
    sent p' (out_fd ?c) = sent p (out_fd ?c) @ farewell" by auto
qed

lemma server_waits:
  assumes "ready W i (w # ws) p" and "store_ok st" and "wish_ok st' w" and "st_products st \<noteq> []"
    and "got @ rest = fst (serve st (stamped w t))" and "rest \<noteq> []"
  shows "server_round W i [Rd_data got] p = Inl No_return"
proof -
  let ?e = "exchange_at st (stamped w t)" and ?p = "fed (w_in W) [Rd_data got] p" and ?c = "w_conn W i"
  have a: "db_answers ?e = got @ rest" using exchange_answers [OF assms(4), of "stamped w t"] assms(5) by simp
  have "exchange_ok ?e" using exchange_at_ok assms(2,3) by blast
  then have "forkedServer_round ops ?c (int i) (shared_free (w_out W) (w_in W)) ?p = Inl No_return"
    by (rule round_waits [where k = "length got"]) (use assms(1,6) a in \<open>auto simp: ready_def\<close>)
  with assms(1) show ?thesis by (simp add: server_round_def free_lock_def ready_def)
qed

lemma server_leaves:
  assumes "ready W i (w # ws) p" and "store_ok st" and "wish_ok st' w" and "st_products st \<noteq> []"
    and "got = fst (serve st (stamped w t))"
  shows "\<exists>p'. server_round W i [Rd_data got] p = Inr (False, free_lock W, p') \<and> ready W i ws p' \<and>
    sent p' (out_fd (w_conn W i)) = sent p (out_fd (w_conn W i)) @ client_answered (exchange_at st (stamped w t))"
proof -
  let ?e = "exchange_at st (stamped w t)" and ?p = "fed (w_in W) [Rd_data got] p" and ?c = "w_conn W i"
  let ?rest = "concat (map wish_asks ws) @ frame (enc32 MESSAGE_CLOSE)"
  have a: "db_answers ?e = got" using exchange_answers [OF assms(4), of "stamped w t"] assms(5) by simp
  have "exchange_ok ?e" using exchange_at_ok assms(2,3) by blast
  then have "\<exists>p'. forkedServer_round ops ?c (int i) (shared_free (w_out W) (w_in W)) ?p =
      Inr (False, shared_free (w_out W) (w_in W), p') \<and>
    sent p' = (sent ?p)(w_out W := sent ?p (w_out W) @ db_asked ?e, out_fd ?c := sent ?p (out_fd ?c) @ client_answered ?e) \<and>
    rd_avail p' = (rd_avail ?p)(in_fd ?c := ?rest, w_in W := []) \<and> (\<forall>f. healthy (wr ?p f) \<longrightarrow> healthy (wr p' f))"
    by (rule round_exchange) (use assms(1) a in \<open>auto simp: ready_def\<close>)
  with assms(1) show ?thesis by (auto simp: server_round_def free_lock_def ready_def)
qed

lemma db_waits:
  assumes "w_db W = db" and "0 \<le> w_dbIn W" and "w_dbIn W < 1024" and "wish_ok st w"
    and "got @ rest = request_bytes (stamped w 0)" and "rest \<noteq> []"
  shows "serving_round W t got d p = Inl No_return"
proof -
  have k: "length got < length (request_bytes (stamped w 0))" "got = take (length got) (request_bytes (stamped w 0))"
    using assms(6) by (simp_all flip: assms(5))
  have ord: "order_ok s" if "stamped w 0 = Put s a ts" for s a ts
    using assms(4) that by (cases w) (auto simp: order_inv_def)
  show ?thesis unfolding serving_round_def
    by (rule db_round_waits [OF assms(2,3), where r = "stamped w 0" and k = "length got" and as = "[t]"])
      (use k in \<open>auto simp: silent_def rd_avail_def fed_def dest: ord\<close>)
qed

lemma db_serves:
  assumes "w_db W = db" and "0 \<le> w_dbIn W" and "w_dbIn W < 1024" and "usable d" and "request_ok (view d) (stamped w t)"
    and "healthy (wr p (w_dbOut W))" and "got = request_bytes (stamped w 0)"
  shows "\<exists>d' p'. serving_round W t got d p = Inr (False, d', p') \<and> usable d' \<and> view d' = snd (serve (view d) (stamped w t)) \<and>
    sent p' (w_dbOut W) = sent p (w_dbOut W) @ fst (serve (view d) (stamped w t)) \<and> healthy (wr p' (w_dbOut W))"
proof -
  let ?p = "(fed (w_dbIn W) [Rd_data got] p)\<lparr>answers := [1, t]\<rparr>"
  have "\<exists>as. [1, t] = ticks (view d) (stamped w t) @ as" by (cases w) auto
  then obtain as where as: "[1, t] = ticks (view d) (stamped w t) @ as" by blast
  have "rd_avail ?p (w_dbIn W) = request_bytes (stamped w t) @ []"
    using assms(7) request_bytes_stamped [of w t] by simp
  from db_round_request [OF assms(4,5,2,3) this, of as "w_dbOut W"] as assms(1,6) show ?thesis
    by (auto simp: serving_round_def answered_def)
qed

end

end
