(* ===== verification/InterleavingProps.thy ===== *)
theory InterleavingProps
  imports ServerEvents
begin

text \<open>
  However the processes are interleaved, the requests are served as if one after the other, each client gets
  the answers to its own requests, nobody waits for ever, and everybody comes to the end.
\<close>

section \<open>The invariant\<close>

text \<open>What goes on in the critical section: nothing, a request on its way, or an answer on its way.\<close>

datatype stage = Free | Asking nat wish "byte list" | Answering nat wish int "byte list"

definition outside :: "phase \<Rightarrow> bool" where
  "outside x \<longleftrightarrow> x = Outside \<or> x = Left"

lemma outside_simps [simp]: "outside Outside" "outside Left" "\<not> outside (Writing bs)" "\<not> outside (Reading bs)"
  by (simp_all add: outside_def)

definition held_lock :: "('c, 'd) site \<Rightarrow> nat \<Rightarrow> shared_conn" where
  "held_lock W i = shared_held (int i) (w_out W) (w_in W)"

lemma lock_simps [simp]:
  "sh_conn_open i (free_lock W) = Inr (1, shared_held i (w_out W) (w_in W))"
  "sh_conn_open j (held_lock W i) = Inl No_return"
  by (simp_all add: free_lock_def held_lock_def)

context shop
begin

fun in_stage :: "('c, 'd) site \<Rightarrow> store \<Rightarrow> nat \<Rightarrow> (nat \<Rightarrow> wish list) \<Rightarrow> history \<Rightarrow> 'd system \<Rightarrow> stage \<Rightarrow> bool" where
  "in_stage W st0 n scripts h s Free \<longleftrightarrow>
     shared s = free_lock W \<and> (\<forall>i. outside (phases s i)) \<and> requests s = [] \<and> replies s = [] \<and> dbGot s = [] \<and>
     dbToSend s = [] \<and> view (contents s) = after_history st0 h"
| "in_stage W st0 n scripts h s (Asking i w bs) \<longleftrightarrow>
     shared s = held_lock W i \<and> i < n \<and> phases s i = (if bs = [] then Reading [] else Writing bs) \<and>
     (\<forall>j. j \<noteq> i \<longrightarrow> outside (phases s j)) \<and> (\<exists>ws. scripts i = asked_by i h @ w # ws) \<and>
     dbGot s @ requests s @ bs = request_bytes (stamped w 0) \<and> replies s = [] \<and> dbToSend s = [] \<and>
     view (contents s) = after_history st0 h"
| "in_stage W st0 n scripts h s (Answering i w t got) \<longleftrightarrow>
     shared s = held_lock W i \<and> i < n \<and> phases s i = Reading got \<and>
     (\<forall>j. j \<noteq> i \<longrightarrow> outside (phases s j)) \<and> (\<exists>ws. scripts i = asked_by i h @ w # ws) \<and>
     got @ replies s @ dbToSend s = fst (serve (after_history st0 h) (stamped w t)) \<and> dbGot s = [] \<and> requests s = [] \<and>
     view (contents s) = after_history st0 (h @ [(i, stamped w t)])"

text \<open>A server between its rounds, or the state in which its round found it.\<close>

definition server_at :: "('c, 'd) site \<Rightarrow> store \<Rightarrow> (nat \<Rightarrow> wish list) \<Rightarrow> history \<Rightarrow> 'd system \<Rightarrow> nat \<Rightarrow> bool" where
  "server_at W st0 scripts h s i \<longleftrightarrow>
     (if phases s i = Left then scripts i = asked_by i h \<and>
        sent (servers s i) (out_fd (w_conn W i)) = serial_answers st0 h i @ farewell
      else (\<exists>ws. scripts i = asked_by i h @ ws \<and> ready W i ws (servers s i)) \<and>
        sent (servers s i) (out_fd (w_conn W i)) = serial_answers st0 h i)"

definition system_inv :: "('c, 'd) site \<Rightarrow> store \<Rightarrow> nat \<Rightarrow> (nat \<Rightarrow> wish list) \<Rightarrow> history \<Rightarrow> stage \<Rightarrow> 'd system \<Rightarrow> bool" where
  "system_inv W st0 n scripts h g s \<longleftrightarrow>
     usable (contents s) \<and> healthy (wr (dbProc s) (w_dbOut W)) \<and> follows st0 (length h) (after_history st0 h) \<and> ledger st0 h \<and>
     (\<forall>x \<in> set h. fst x < n) \<and> (\<forall>i. n \<le> i \<longrightarrow> phases s i = Left) \<and> (\<forall>i < n. server_at W st0 scripts h s i) \<and>
     in_stage W st0 n scripts h s g"

lemma server_at_cong:
  "server_at W st0 scripts h s i \<Longrightarrow> phases s' i = phases s i \<Longrightarrow> servers s' i = servers s i \<Longrightarrow> server_at W st0 scripts h s' i"
  by (simp add: server_at_def)

text \<open>A server inside keeps the state its round found.\<close>

lemma server_at_inside:
  "server_at W st0 scripts h s i \<Longrightarrow> phases s i \<noteq> Left \<Longrightarrow> phases s' i \<noteq> Left \<Longrightarrow> servers s' i = servers s i \<Longrightarrow>
     server_at W st0 scripts h s' i"
  by (simp add: server_at_def)

lemma inv_start:
  assumes "starts W in_fd out_fd n scripts s" and "site_ok W in_fd out_fd closable n" and "w_ops W = ops"
    and "scripts_ok (view (contents s)) n scripts" and "usable (contents s)"
  shows "system_inv W (view (contents s)) n scripts [] Free s"
proof -
  have "follows (view (contents s)) 0 (view (contents s))"
    using view_ok [OF assms(5)] assms(4) by (simp add: follows_def scripts_ok_def)
  moreover have "server_at W (view (contents s)) scripts [] s i" if "i < n" for i
    using assms(1-3) that by (simp add: server_at_def starts_def site_ok_def ready_def)
  ultimately show ?thesis using assms(1,5) ledger_Nil by (simp add: system_inv_def starts_def)
qed

text \<open>What the invariant says of a wish that is to be served.\<close>

lemma inv_request:
  assumes "system_inv W st0 n scripts h g s" and "scripts_ok st0 n scripts" and "i < n" and "scripts i = asked_by i h @ w # ws"
  shows "wish_ok st0 w" and "length h < (\<Sum>i < n. length (scripts i))"
proof -
  show "wish_ok st0 w" using assms(2-4) by (auto simp: scripts_ok_def)
  have le: "length (asked_by j h) \<le> length (scripts j)" if "j < n" for j
    using assms(1) that by (auto simp: system_inv_def server_at_def split: if_splits)
  have "length h = (\<Sum>j < n. length (asked_by j h))"
    using history_length assms(1) by (auto simp: system_inv_def)
  also have "\<dots> < (\<Sum>j < n. length (scripts j))"
    by (rule sum_strict_mono_ex1) (use le assms(3,4) in \<open>auto intro!: bexI [of _ i]\<close>)
  finally show "length h < (\<Sum>j < n. length (scripts j))" .
qed

section \<open>Every step keeps it\<close>

definition setting :: "('c, 'd) site \<Rightarrow> store \<Rightarrow> nat \<Rightarrow> (nat \<Rightarrow> wish list) \<Rightarrow> bool" where
  "setting W st0 n scripts \<longleftrightarrow> site_ok W in_fd out_fd closable n \<and> w_ops W = ops \<and> w_db W = db \<and> scripts_ok st0 n scripts"

text \<open>What is left to do, in the order of what counts first.\<close>

fun stage_rank :: "stage \<Rightarrow> nat" where
  "stage_rank Free = 2"
| "stage_rank (Asking i w bs) = 1"
| "stage_rank (Answering i w t got) = 0"

fun byte_rank :: "'d system \<Rightarrow> stage \<Rightarrow> nat" where
  "byte_rank s Free = 0"
| "byte_rank s (Asking i w bs) = 2 * length bs + length (requests s)"
| "byte_rank s (Answering i w t got) = 2 * length (dbToSend s) + length (replies s)"

definition rank :: "nat \<Rightarrow> (nat \<Rightarrow> wish list) \<Rightarrow> ((history \<times> stage \<times> 'd system) \<times> (history \<times> stage \<times> 'd system)) set" where
  "rank n scripts = measures [\<lambda>(h, g, s). (\<Sum>i < n. length (scripts i)) - length h,
     \<lambda>(h, g, s). card {i. i < n \<and> phases s i \<noteq> Left}, \<lambda>(h, g, s). stage_rank g, \<lambda>(h, g, s). byte_rank s g]"

lemma wf_rank: "wf (rank n scripts)"
  by (simp add: rank_def)

lemma same_left: "(\<And>j. phases s' j = Left \<longleftrightarrow> phases s j = Left) \<Longrightarrow>
    {i. i < n \<and> phases s' i \<noteq> Left} = {i. i < n \<and> phases s i \<noteq> Left}"
  by auto

text \<open>A step inside or into the critical section: the servers are as they were, and none left.\<close>

lemma step_inside:
  assumes inv: "system_inv W st0 n scripts h g s"
    and same: "servers s' = servers s" "\<And>j. phases s' j = Left \<longleftrightarrow> phases s j = Left"
    and db: "usable (contents s')" "healthy (wr (dbProc s') (w_dbOut W))"
    and stage: "in_stage W st0 n scripts h s' g'"
    and less: "stage_rank g' < stage_rank g \<or> stage_rank g' = stage_rank g \<and> byte_rank s' g' < byte_rank s g"
  shows "\<exists>h' g'. system_inv W st0 n scripts h' g' s' \<and> ((h', g', s'), (h, g, s)) \<in> rank n scripts"
proof -
  have "server_at W st0 scripts h s' j" if "j < n" for j
    using inv that same by (simp add: system_inv_def server_at_def)
  then have "system_inv W st0 n scripts h g' s'" using inv same db stage by (simp add: system_inv_def)
  moreover have "((h, g', s'), (h, g, s)) \<in> rank n scripts"
    using less same_left [OF same(2)] by (simp add: rank_def)
  ultimately show ?thesis by blast
qed

lemma inv_active: "system_inv W st0 n scripts h g s \<Longrightarrow> phases s i \<noteq> Left \<Longrightarrow> i < n"
  by (cases "i < n") (auto simp: system_inv_def not_less)

lemma step_enter:
  assumes set: "setting W st0 n scripts" and inv: "system_inv W st0 n scripts h g s"
    and i: "phases s i = Outside" "round_writes W i (servers s i) = Inr bs" "bs \<noteq> []" "sh_conn_open (int i) (shared s) = Inr (1, l)"
  shows "\<exists>h' g'. system_inv W st0 n scripts h' g' (s\<lparr>shared := l, phases := (phases s)(i := Writing bs)\<rparr>) \<and>
    ((h', g', s\<lparr>shared := l, phases := (phases s)(i := Writing bs)\<rparr>), (h, g, s)) \<in> rank n scripts"
proof -
  have g: "g = Free" using inv i(4) by (cases g) (auto simp: system_inv_def)
  have n: "i < n" using inv_active [OF inv, of i] i(1) by simp
  then have "server_at W st0 scripts h s i" using inv by (simp add: system_inv_def)
  then obtain ws where ws: "scripts i = asked_by i h @ ws" "ready W i ws (servers s i)"
    using i(1) by (auto simp: server_at_def)
  have "ws \<noteq> []" using round_writes_close(1) ws(2) i(2,3) by auto
  then obtain w ws' where w: "ws = w # ws'" by (cases ws) auto
  have sc: "scripts_ok st0 n scripts" using set by (simp add: setting_def)
  have ok: "wish_ok st0 w" using inv_request(1) [OF inv sc n, of w ws'] ws(1) w by simp
  have st: "store_ok (after_history st0 h)" using inv by (simp add: system_inv_def follows_def)
  have bs: "bs = request_bytes (stamped w 0)" using round_writes_request [OF ws(2) [unfolded w] st ok] i(2) by simp
  show ?thesis
    by (rule step_inside [OF inv, where g' = "Asking i w bs"])
      (use inv i g n ws(1) w bs in \<open>auto simp: system_inv_def held_lock_def\<close>)
qed

text \<open>The server inside is at the wish the stage names.\<close>

lemma inside_ready:
  assumes "system_inv W st0 n scripts h g s" and "scripts_ok st0 n scripts"
    and "g = Asking i w bs \<or> g = Answering i w t got"
  shows "\<exists>ws. scripts i = asked_by i h @ w # ws \<and> ready W i (w # ws) (servers s i) \<and> wish_ok st0 w \<and> i < n \<and>
    sent (servers s i) (out_fd (w_conn W i)) = serial_answers st0 h i"
proof -
  have n: "i < n" and p: "phases s i \<noteq> Left" and sc: "\<exists>ws. scripts i = asked_by i h @ w # ws"
    using assms(1,3) by (auto simp: system_inv_def split: if_splits)
  then obtain ws where ws: "scripts i = asked_by i h @ w # ws" by blast
  have "server_at W st0 scripts h s i" using assms(1) n by (simp add: system_inv_def)
  then have "ready W i (w # ws) (servers s i)" "sent (servers s i) (out_fd (w_conn W i)) = serial_answers st0 h i"
    using p ws by (auto simp: server_at_def)
  with ws n inv_request(1) [OF assms(1,2) n ws] show ?thesis by blast
qed

lemma history_store: "system_inv W st0 n scripts h g s \<Longrightarrow> store_ok (after_history st0 h) \<and> st_products (after_history st0 h) \<noteq> []"
  by (simp add: system_inv_def follows_def)

lemma step_send:
  assumes inv: "system_inv W st0 n scripts h g s" and i: "phases s i = Writing (b # bs)"
  shows "\<exists>h' g'. system_inv W st0 n scripts h' g'
      (s\<lparr>requests := requests s @ [b], phases := (phases s)(i := if bs = [] then Reading [] else Writing bs)\<rparr>) \<and>
    ((h', g', s\<lparr>requests := requests s @ [b], phases := (phases s)(i := if bs = [] then Reading [] else Writing bs)\<rparr>),
      (h, g, s)) \<in> rank n scripts"
proof -
  obtain w where g: "g = Asking i w (b # bs)"
  proof (cases g)
    case (Asking j w cs)
    have "j = i" using inv i Asking by (cases "j = i") (auto simp: system_inv_def outside_def)
    moreover have "cs = b # bs" using inv i Asking \<open>j = i\<close> by (auto simp: system_inv_def split: if_splits)
    ultimately show thesis using that Asking by simp
  qed (use inv i in \<open>auto simp: system_inv_def outside_def fun_upd_def split: if_splits dest: spec [of _ i]\<close>)
  show ?thesis
    by (rule step_inside [OF inv, where g' = "Asking i w bs"])
      (use inv i g in \<open>auto simp: system_inv_def\<close>)
qed

lemma step_receive:
  assumes set: "setting W st0 n scripts" and inv: "system_inv W st0 n scripts h g s"
    and i: "phases s i = Reading got" "replies s = b # bs"
  shows "\<exists>h' g'. system_inv W st0 n scripts h' g' (s\<lparr>replies := bs, phases := (phases s)(i := Reading (got @ [b]))\<rparr>) \<and>
    ((h', g', s\<lparr>replies := bs, phases := (phases s)(i := Reading (got @ [b]))\<rparr>), (h, g, s)) \<in> rank n scripts"
proof -
  obtain w t where g: "g = Answering i w t got"
  proof (cases g)
    case (Answering j w t got')
    have "j = i" using inv i Answering by (cases "j = i") (auto simp: system_inv_def outside_def)
    with that Answering inv i show thesis by (auto simp: system_inv_def)
  qed (use inv i in \<open>auto simp: system_inv_def\<close>)
  show ?thesis
    by (rule step_inside [OF inv, where g' = "Answering i w t (got @ [b])"])
      (use inv i g in \<open>auto simp: system_inv_def\<close>)
qed

lemma step_leave:
  assumes set: "setting W st0 n scripts" and inv: "system_inv W st0 n scripts h g s"
    and i: "phases s i = Reading got" "server_round W i [Rd_data got] (servers s i) = Inr (fin, l, p)"
  defines "s' \<equiv> s\<lparr>shared := l, phases := (phases s)(i := if fin then Left else Outside), servers := (servers s)(i := p)\<rparr>"
  shows "\<exists>h' g'. system_inv W st0 n scripts h' g' s' \<and> ((h', g', s'), (h, g, s)) \<in> rank n scripts"
proof -
  have sc: "scripts_ok st0 n scripts" using set by (simp add: setting_def)
  note st = history_store [OF inv]
  have "g \<noteq> Free"
  proof
    assume "g = Free"
    then have "outside (phases s i)" using inv by (simp add: system_inv_def)
    with i(1) show False by simp
  qed
  moreover have "\<not> (\<exists>j w cs. g = Asking j w cs)"
  proof
    assume "\<exists>j w cs. g = Asking j w cs"
    then obtain j w cs where g: "g = Asking j w cs" by blast
    have j: "j = i" using inv i(1) g by (cases "j = i") (auto simp: system_inv_def outside_def)
    then have "got = []" using inv i(1) g by (auto simp: system_inv_def split: if_splits)
    obtain ws where "ready W i (w # ws) (servers s i)" "wish_ok st0 w" using inside_ready [OF inv sc] g j by blast
    moreover have "fst (serve (after_history st0 h) (stamped w 0)) \<noteq> []"
      using exchange_answers [of "after_history st0 h" "stamped w 0"] st answers_nonempty by metis
    ultimately have "server_round W i [Rd_data got] (servers s i) = Inl No_return"
      using server_waits [of W i w ws "servers s i" "after_history st0 h" st0 got _ 0] st \<open>got = []\<close> by auto
    with i(2) show False by simp
  qed
  ultimately obtain j w t got' where g: "g = Answering j w t got'" by (cases g) auto
  have "j = i" using inv i(1) g by (cases "j = i") (auto simp: system_inv_def outside_def)
  with g inv i(1) have g: "g = Answering i w t got" by (auto simp: system_inv_def)
  let ?r = "stamped w t"
  have ans: "got @ replies s @ dbToSend s = fst (serve (after_history st0 h) ?r)" using inv g by (simp add: system_inv_def)
  obtain ws where ws: "scripts i = asked_by i h @ w # ws" "ready W i (w # ws) (servers s i)" "wish_ok st0 w" "i < n"
    "sent (servers s i) (out_fd (w_conn W i)) = serial_answers st0 h i" using inside_ready [OF inv sc] g by blast
  have "replies s @ dbToSend s = []"
    using server_waits [OF ws(2) _ ws(3) _ ans] st i(2) by (cases "replies s @ dbToSend s = []") auto
  then have all: "replies s = []" "dbToSend s = []" "got = fst (serve (after_history st0 h) ?r)" using ans by auto
  obtain p' where p': "server_round W i [Rd_data got] (servers s i) = Inr (False, free_lock W, p')" "ready W i ws p'"
    "sent p' (out_fd (w_conn W i)) = serial_answers st0 (h @ [(i, ?r)]) i"
    using server_leaves [OF ws(2) _ ws(3) _ all(3)] st ws(5) by (auto simp: serial_answers_append)
  have eq: "fin = False" "l = free_lock W" "p = p'" using p'(1) i(2) by simp_all
  let ?h = "h @ [(i, ?r)]"
  have "server_at W st0 scripts ?h s' j" if "j < n" for j
  proof (cases "j = i")
    case True
    with p'(2,3) ws(1) eq show ?thesis by (simp add: server_at_def s'_def)
  next
    case False
    have "server_at W st0 scripts h s j" using inv that by (simp add: system_inv_def)
    with False show ?thesis by (simp add: server_at_def s'_def serial_answers_append)
  qed
  moreover have "follows st0 (length ?h) (after_history st0 ?h)"
  proof -
    have "store_ok (view (contents s))" using view_ok inv by (simp add: system_inv_def)
    then have "store_ok (snd (serve (after_history st0 h) ?r))" using inv g by (simp add: system_inv_def)
    moreover have "order_inv x" if "?r = Put x a u" for x a u using ws(3) that by (cases w) auto
    ultimately show ?thesis using serve_follows [of st0 "length h"] inv by (simp add: system_inv_def)
  qed
  moreover have "ledger st0 ?h"
    by (rule ledger_append) (use inv st ws(3) in \<open>cases w; auto simp: system_inv_def\<close>)+
  ultimately have "system_inv W st0 n scripts ?h Free s'"
    using inv g eq all ws(4) inv_active [OF inv] by (auto simp: system_inv_def s'_def)
  moreover have "((?h, Free, s'), (h, g, s)) \<in> rank n scripts"
    using diff_less_mono2 [OF lessI inv_request(2) [OF inv sc ws(4,1)]] by (simp add: rank_def)
  ultimately show ?thesis by blast
qed

text \<open>A server that leaves for good from outside.\<close>

lemma step_out:
  assumes inv: "system_inv W st0 n scripts h g s" and i: "phases s i = Outside" "i < n"
    and same: "\<And>j. j \<noteq> i \<Longrightarrow> phases s' j = phases s j"
      "\<And>j. j \<noteq> i \<Longrightarrow> servers s' j = servers s j" "shared s' = shared s" "requests s' = requests s" "replies s' = replies s"
      "contents s' = contents s" "dbProc s' = dbProc s" "dbGot s' = dbGot s" "dbToSend s' = dbToSend s"
    and left: "phases s' i = Left" "scripts i = asked_by i h"
      "sent (servers s' i) (out_fd (w_conn W i)) = serial_answers st0 h i @ farewell"
  shows "\<exists>h' g'. system_inv W st0 n scripts h' g' s' \<and> ((h', g', s'), (h, g, s)) \<in> rank n scripts"
proof -
  have old: "\<forall>j < n. server_at W st0 scripts h s j" "in_stage W st0 n scripts h s g" "\<forall>j. n \<le> j \<longrightarrow> phases s j = Left"
    "usable (contents s)" "healthy (wr (dbProc s) (w_dbOut W))" "\<forall>x \<in> set h. fst x < n"
    "follows st0 (length h) (after_history st0 h)" "ledger st0 h" using inv by (simp_all add: system_inv_def)
  have "server_at W st0 scripts h s' j" if "j < n" for j
    using left same(1,2) [of j] old(1) that by (cases "j = i") (simp_all add: server_at_def)
  moreover have "in_stage W st0 n scripts h s' g"
  proof (cases g)
    case Free
    have "outside (phases s' j)" for j using old(2) Free left(1) same(1) [of j] by (cases "j = i") simp_all
    with Free old(2) same(3-) show ?thesis by simp
  next
    case (Asking k w bs)
    then have "k \<noteq> i" using old(2) i(1) by (auto split: if_splits)
    moreover have "outside (phases s' j)" if "j \<noteq> k" for j using old(2) Asking that left(1) same(1) [of j] by (cases "j = i") simp_all
    ultimately show ?thesis using Asking old(2) same(3-) same(1) [of k] by simp
  next
    case (Answering k w t got)
    then have "k \<noteq> i" using old(2) i(1) by auto
    moreover have "outside (phases s' j)" if "j \<noteq> k" for j using old(2) Answering that left(1) same(1) [of j] by (cases "j = i") simp_all
    ultimately show ?thesis using Answering old(2) same(3-) same(1) [of k] by simp
  qed
  moreover have "phases s' j = Left" if "n \<le> j" for j using old(3) that i(2) same(1) [of j] by simp
  ultimately have "system_inv W st0 n scripts h g s'" using old(4-8) same(6,7) by (simp add: system_inv_def)
  moreover have "{j. j < n \<and> phases s' j \<noteq> Left} \<subset> {j. j < n \<and> phases s j \<noteq> Left}"
  proof (rule psubsetI)
    show "{j. j < n \<and> phases s' j \<noteq> Left} \<subseteq> {j. j < n \<and> phases s j \<noteq> Left}"
    proof
      fix j
      assume "j \<in> {j. j < n \<and> phases s' j \<noteq> Left}"
      then show "j \<in> {j. j < n \<and> phases s j \<noteq> Left}" using left(1) same(1) [of j] by (cases "j = i") simp_all
    qed
    have "i \<in> {j. j < n \<and> phases s j \<noteq> Left}" "i \<notin> {j. j < n \<and> phases s' j \<noteq> Left}" using i left(1) by simp_all
    then show "{j. j < n \<and> phases s' j \<noteq> Left} \<noteq> {j. j < n \<and> phases s j \<noteq> Left}" by metis
  qed
  then have "card {j. j < n \<and> phases s' j \<noteq> Left} < card {j. j < n \<and> phases s j \<noteq> Left}"
    by (intro psubset_card_mono) simp_all
  then have "((h, g, s'), (h, g, s)) \<in> rank n scripts" by (simp add: rank_def)
  ultimately show ?thesis by blast
qed

lemma step_without:
  assumes set: "setting W st0 n scripts" and inv: "system_inv W st0 n scripts h g s"
    and i: "phases s i = Outside" "round_writes W i (servers s i) = Inr []" "server_round W i [] (servers s i) = Inr (fin, l, p)"
  defines "s' \<equiv> s\<lparr>phases := (phases s)(i := if fin then Left else Outside), servers := (servers s)(i := p)\<rparr>"
  shows "\<exists>h' g'. system_inv W st0 n scripts h' g' s' \<and> ((h', g', s'), (h, g, s)) \<in> rank n scripts"
proof -
  have sc: "scripts_ok st0 n scripts" using set by (simp add: setting_def)
  have n: "i < n" using inv_active [OF inv, of i] i(1) by simp
  then have "server_at W st0 scripts h s i" using inv by (simp add: system_inv_def)
  then obtain ws where ws: "scripts i = asked_by i h @ ws" "ready W i ws (servers s i)"
    and sent: "sent (servers s i) (out_fd (w_conn W i)) = serial_answers st0 h i"
    using i(1) by (auto simp: server_at_def)
  have "ws = []"
  proof (rule ccontr)
    assume "ws \<noteq> []"
    then obtain w ws' where w: "ws = w # ws'" by (cases ws) auto
    have "wish_ok st0 w" using inv_request(1) [OF inv sc n, of w ws'] ws(1) w by simp
    from round_writes_request [OF ws(2) [unfolded w] _ this, of "after_history st0 h"] history_store [OF inv] i(2)
    show False by simp
  qed
  obtain q where "server_round W i [] (servers s i) = Inr (True, free_lock W, q)"
    "sent q (out_fd (w_conn W i)) = serial_answers st0 h i @ farewell"
    using round_writes_close(2) [of W i "servers s i"] ws(2) \<open>ws = []\<close> sent by auto
  then have p: "fin = True" "sent p (out_fd (w_conn W i)) = serial_answers st0 h i @ farewell" using i(3) by simp_all
  have same: "phases s' i = Left" "servers s' i = p" "\<And>j. j \<noteq> i \<Longrightarrow> phases s' j = phases s j"
    "\<And>j. j \<noteq> i \<Longrightarrow> servers s' j = servers s j" "shared s' = shared s" "requests s' = requests s" "replies s' = replies s"
    "contents s' = contents s" "dbProc s' = dbProc s" "dbGot s' = dbGot s" "dbToSend s' = dbToSend s"
    using p(1) by (simp_all add: s'_def)
  show ?thesis by (rule step_out [OF inv i(1) n same(3-)]) (use same(1,2) p(2) ws(1) \<open>ws = []\<close> in simp_all)
qed

text \<open>What the database server got belongs to the request of the server inside.\<close>

lemma db_idle_waits:
  assumes "setting W st0 n scripts" and "dbGot s = []"
  shows "serving_round W t (dbGot s) (contents s) (dbProc s) = Inl No_return"
  by (rule db_waits [where w = See and rest = "request_bytes (stamped See 0)"])
    (use assms in \<open>auto simp: setting_def site_ok_def simp del: stamped.simps request_bytes.simps\<close>)

lemma step_db_receive:
  assumes inv: "system_inv W st0 n scripts h g s" and i: "requests s = b # bs"
  shows "\<exists>h' g'. system_inv W st0 n scripts h' g' (s\<lparr>requests := bs, dbGot := dbGot s @ [b]\<rparr>) \<and>
    ((h', g', s\<lparr>requests := bs, dbGot := dbGot s @ [b]\<rparr>), (h, g, s)) \<in> rank n scripts"
proof -
  obtain j w cs where g: "g = Asking j w cs" using inv i by (cases g) (auto simp: system_inv_def)
  show ?thesis by (rule step_inside [OF inv, where g' = g]) (use inv i g in \<open>auto simp: system_inv_def\<close>)
qed

text \<open>The wish of the server inside is a request the database can serve.\<close>

lemma wish_served_ok:
  assumes set: "setting W st0 n scripts" and inv: "system_inv W st0 n scripts h g s"
    and ws: "i < n" "scripts i = asked_by i h @ w # ws" and t: "in_int t" "0 \<le> t"
    and u: "usable (contents s)" "view (contents s) = after_history st0 h"
  shows "request_ok (view (contents s)) (stamped w t)"
proof -
  have sc: "scripts_ok st0 n scripts" using set by (simp add: setting_def)
  show ?thesis
    using wish_request_ok [of st0 "length h" "after_history st0 h" w t "\<Sum>i < n. length (scripts i)"] inv t sc
      inv_request [OF inv sc ws] next_id_pos [OF u(1)] u(2)
    by (simp add: system_inv_def scripts_ok_def)
qed

lemma step_db_serve:
  assumes set: "setting W st0 n scripts" and inv: "system_inv W st0 n scripts h g s"
    and t: "in_int t" "0 \<le> t" and db: "serving_round W t (dbGot s) (contents s) (dbProc s) = Inr (False, d, p)"
  defines "s' \<equiv> s\<lparr>contents := d, dbProc := p, dbGot := [],
      dbToSend := drop (length (sent (dbProc s) (w_dbOut W))) (sent p (w_dbOut W))\<rparr>"
  shows "\<exists>h' g'. system_inv W st0 n scripts h' g' s' \<and> ((h', g', s'), (h, g, s)) \<in> rank n scripts"
proof -
  have sc: "scripts_ok st0 n scripts" and W: "w_db W = db" "0 \<le> w_dbIn W" "w_dbIn W < 1024"
    using set by (simp_all add: setting_def site_ok_def)
  have "dbGot s \<noteq> []" using db_idle_waits [OF set, of s t] db by auto
  then obtain i w cs where g: "g = Asking i w cs" using inv by (cases g) (auto simp: system_inv_def)
  obtain ws where ws: "scripts i = asked_by i h @ w # ws" "wish_ok st0 w" "i < n" using inside_ready [OF inv sc] g by blast
  have req: "dbGot s @ requests s @ cs = request_bytes (stamped w 0)" using inv g by (simp add: system_inv_def)
  have "requests s @ cs = []"
    using db_waits [OF W ws(2) req, of t "contents s" "dbProc s"] db by (cases "requests s @ cs = []") auto
  then have all: "requests s = []" "cs = []" "dbGot s = request_bytes (stamped w 0)" using req by auto
  have u: "usable (contents s)" "view (contents s) = after_history st0 h" "healthy (wr (dbProc s) (w_dbOut W))"
    using inv g by (simp_all add: system_inv_def)
  have "request_ok (view (contents s)) (stamped w t)" using wish_served_ok [OF set inv ws(3,1) t u(1,2)] .
  from db_serves [OF W u(1) this u(3) all(3)] db have d: "usable d" "view d = snd (serve (view (contents s)) (stamped w t))"
    "sent p (w_dbOut W) = sent (dbProc s) (w_dbOut W) @ fst (serve (view (contents s)) (stamped w t))" "healthy (wr p (w_dbOut W))"
    by auto
  show ?thesis
    by (rule step_inside [OF inv, where g' = "Answering i w t []"])
      (use inv g d u(2) ws all in \<open>auto simp: system_inv_def s'_def\<close>)
qed

lemma step_db_send:
  assumes inv: "system_inv W st0 n scripts h g s" and i: "dbToSend s = b # bs"
  shows "\<exists>h' g'. system_inv W st0 n scripts h' g' (s\<lparr>replies := replies s @ [b], dbToSend := bs\<rparr>) \<and>
    ((h', g', s\<lparr>replies := replies s @ [b], dbToSend := bs\<rparr>), (h, g, s)) \<in> rank n scripts"
proof -
  obtain j w t got where g: "g = Answering j w t got" using inv i by (cases g) (auto simp: system_inv_def)
  show ?thesis by (rule step_inside [OF inv, where g' = g]) (use inv i g in \<open>auto simp: system_inv_def\<close>)
qed

lemma step_keeps_inv:
  assumes "setting W st0 n scripts" and "system_inv W st0 n scripts h g s" and "system_step W s s'"
  shows "\<exists>h' g'. system_inv W st0 n scripts h' g' s' \<and> ((h', g', s'), (h, g, s)) \<in> rank n scripts"
  using assms(3)
proof cases
  case (enter i bs l)
  then show ?thesis using step_enter [OF assms(1,2)] by blast
next
  case (send i b bs)
  then show ?thesis using step_send [OF assms(2)] by blast
next
  case (receive i got b bs)
  then show ?thesis using step_receive [OF assms(1,2)] by blast
next
  case (leave i got fin l p)
  then show ?thesis using step_leave [OF assms(1,2)] by blast
next
  case (without i fin l p)
  then show ?thesis using step_without [OF assms(1,2)] by blast
next
  case (db_receive b bs)
  then show ?thesis using step_db_receive [OF assms(2)] by blast
next
  case (db_serve t d p)
  then show ?thesis using step_db_serve [OF assms(1,2)] by blast
next
  case (db_send b bs)
  then show ?thesis using step_db_send [OF assms(2)] by blast
qed

end

end
