(* ===== verification/Concurrent.thy ===== *)
theory Concurrent
  imports InterleavingProps DatabaseProps
begin

text \<open>
  What the invariant of the interleaved system gives: every reachable state has it, in every such state somebody
  can go on or everybody has left, and no run goes on for ever.
\<close>

section \<open>Somebody can go on\<close>

context shop
begin

lemma reachable_inv:
  assumes "reachable W s0 s" and "setting W st0 n scripts" and "system_inv W st0 n scripts h g s0"
  shows "\<exists>h g. system_inv W st0 n scripts h g s"
  using assms(1)
proof induction
  case start
  then show ?case using assms(3) by blast
next
  case (step s s')
  then show ?case using step_keeps_inv [OF assms(2)] by blast
qed

lemma outside_goes_on:
  assumes set: "setting W st0 n scripts" and inv: "system_inv W st0 n scripts h Free s" and i: "phases s i \<noteq> Left"
  shows "\<exists>s'. system_step W s s'"
proof -
  have sc: "scripts_ok st0 n scripts" using set by (simp add: setting_def)
  have n: "i < n" using inv_active [OF inv i] .
  have lock: "shared s = free_lock W" and out: "phases s i = Outside"
    using inv i by (auto simp: system_inv_def outside_def)
  have "server_at W st0 scripts h s i" using inv n by (simp add: system_inv_def)
  then obtain ws where ws: "scripts i = asked_by i h @ ws" "ready W i ws (servers s i)"
    using i by (auto simp: server_at_def)
  show ?thesis
  proof (cases ws)
    case Nil
    with ws(2) obtain p where "server_round W i [] (servers s i) = Inr (True, free_lock W, p)"
      using round_writes_close(2) by blast
    with out round_writes_close(1) ws(2) Nil show ?thesis by (blast intro: system_step.without)
  next
    case (Cons w ws')
    then have "wish_ok st0 w" using inv_request(1) [OF inv sc n, of w ws'] ws(1) by simp
    with ws(2) Cons history_store [OF inv] have "round_writes W i (servers s i) = Inr (request_bytes (stamped w 0))"
      using round_writes_request by blast
    moreover have "sh_conn_open (int i) (shared s) = Inr (1, held_lock W i)" using lock by (simp add: held_lock_def)
    ultimately show ?thesis using system_step.enter [OF out] request_bytes_nonempty(1) by blast
  qed
qed

lemma asking_goes_on:
  assumes set: "setting W st0 n scripts" and inv: "system_inv W st0 n scripts h (Asking i w bs) s"
  shows "\<exists>s'. system_step W s s'"
proof -
  have sc: "scripts_ok st0 n scripts" and W: "w_db W = db" "0 \<le> w_dbIn W" "w_dbIn W < 1024" and cap: "0 < w_cap W"
    using set by (simp_all add: setting_def site_ok_def)
  have st: "dbGot s @ requests s @ bs = request_bytes (stamped w 0)" "dbToSend s = []"
    "phases s i = (if bs = [] then Reading [] else Writing bs)" using inv by (simp_all add: system_inv_def)
  obtain ws where ws: "scripts i = asked_by i h @ w # ws" "wish_ok st0 w" "i < n" using inside_ready [OF inv sc] by blast
  show ?thesis
  proof (cases "requests s")
    case (Cons c cs)
    then have "serving_round W 0 (dbGot s) (contents s) (dbProc s) = Inl No_return"
      by (intro db_waits [OF W ws(2) st(1)]) simp
    with st(2) Cons show ?thesis by (blast intro: system_step.db_receive)
  next
    case none: Nil
    show ?thesis
    proof (cases bs)
      case (Cons b bs')
      with st(3) have "phases s i = Writing (b # bs')" by simp
      moreover have "length (requests s) < w_cap W" using none cap by simp
      ultimately show ?thesis by (blast intro: system_step.send)
    next
      case Nil
      with none st(1) have all: "dbGot s = request_bytes (stamped w 0)" by simp
      have u: "usable (contents s)" "view (contents s) = after_history st0 h" "healthy (wr (dbProc s) (w_dbOut W))"
        using inv by (simp_all add: system_inv_def)
      have "request_ok (view (contents s)) (stamped w 0)" using wish_served_ok [OF set inv ws(3,1), of 0] u by (simp add: in_int_def)
      from db_serves [OF W u(1) this u(3) all] obtain d p where "serving_round W 0 (dbGot s) (contents s) (dbProc s) = Inr (False, d, p)"
        by blast
      moreover have "in_int 0" by (simp add: in_int_def)
      ultimately have "\<exists>s'. system_step W s s'" using system_step.db_serve [OF st(2), of 0] by blast
      then show ?thesis .
    qed
  qed
qed

lemma answering_goes_on:
  assumes set: "setting W st0 n scripts" and inv: "system_inv W st0 n scripts h (Answering i w t got) s"
  shows "\<exists>s'. system_step W s s'"
proof -
  have sc: "scripts_ok st0 n scripts" and cap: "0 < w_cap W" using set by (simp_all add: setting_def site_ok_def)
  have st: "got @ replies s @ dbToSend s = fst (serve (after_history st0 h) (stamped w t))" "phases s i = Reading got"
    using inv by (simp_all add: system_inv_def)
  obtain ws where ws: "ready W i (w # ws) (servers s i)" "wish_ok st0 w" using inside_ready [OF inv sc] by blast
  note store = history_store [OF inv]
  show ?thesis
  proof (cases "replies s")
    case (Cons b bs)
    then have "server_round W i [Rd_data got] (servers s i) = Inl No_return"
      using server_waits [OF ws(1) _ ws(2) _ st(1)] store by simp
    with st(2) Cons show ?thesis by (blast intro: system_step.receive)
  next
    case none: Nil
    show ?thesis
    proof (cases "dbToSend s")
      case (Cons b bs)
      moreover have "length (replies s) < w_cap W" using none cap by simp
      ultimately show ?thesis by (blast intro: system_step.db_send)
    next
      case Nil
      with none st(1) have "got = fst (serve (after_history st0 h) (stamped w t))" by simp
      then obtain p where "server_round W i [Rd_data got] (servers s i) = Inr (False, free_lock W, p)"
        using server_leaves [OF ws(1) _ ws(2)] store by blast
      with st(2) show ?thesis by (blast intro: system_step.leave)
    qed
  qed
qed

lemma system_goes_on:
  assumes "setting W st0 n scripts" and "system_inv W st0 n scripts h g s"
  shows "(\<exists>s'. system_step W s s') \<or> (\<forall>i. phases s i = Left)"
proof (cases g)
  case Free
  with assms outside_goes_on show ?thesis by blast
next
  case (Asking i w bs)
  with assms asking_goes_on show ?thesis by blast
next
  case (Answering i w t got)
  with assms answering_goes_on show ?thesis by blast
qed

section \<open>Nothing goes on for ever\<close>

lemma run_ends:
  assumes "setting W st0 n scripts"
  shows "system_inv W st0 n scripts h g (f k) \<Longrightarrow> \<forall>k. system_step W (f k) (f (Suc k)) \<Longrightarrow> False"
proof (induction "(h, g, f k)" arbitrary: h g k rule: wf_induct_rule [OF wf_rank [of n scripts]])
  case 1
  obtain h' g' where "system_inv W st0 n scripts h' g' (f (Suc k))" "((h', g', f (Suc k)), (h, g, f k)) \<in> rank n scripts"
    using step_keeps_inv [OF assms 1(2), of "f (Suc k)"] 1(3) by blast
  with 1 show ?case by blast
qed

lemma run_finishes:
  assumes "setting W st0 n scripts" and "system_inv W st0 n scripts h g s" and "reachable W s0 s"
  shows "\<exists>s'. reachable W s0 s' \<and> (\<forall>i. phases s' i = Left)"
  using assms(2,3)
proof (induction "(h, g, s)" arbitrary: h g s rule: wf_induct_rule [OF wf_rank [of n scripts]])
  case 1
  show ?case
  proof (cases "\<forall>i. phases s i = Left")
    case False
    then obtain s' where s': "system_step W s s'" using system_goes_on [OF assms(1) 1(2)] by blast
    then obtain h' g' where "system_inv W st0 n scripts h' g' s'" "((h', g', s'), (h, g, s)) \<in> rank n scripts"
      using step_keeps_inv [OF assms(1) 1(2)] by blast
    with 1 s' show ?thesis by (blast intro: reachable.step)
  qed (use 1 in blast)
qed

section \<open>What a state shows\<close>

text \<open>The answers every client was sent, and the contents when nobody is inside.\<close>

lemma one_inside:
  assumes "system_inv W st0 n scripts h g s" and "\<not> outside (phases s i)" and "\<not> outside (phases s j)"
  shows "i = j"
proof (cases g)
  case Free
  with assms show ?thesis by (auto simp: system_inv_def)
next
  case (Asking k w bs)
  then have "\<forall>j. j \<noteq> k \<longrightarrow> outside (phases s j)" using assms(1) by (simp add: system_inv_def)
  with assms(2,3) show ?thesis by metis
next
  case (Answering k w t got)
  then have "\<forall>j. j \<noteq> k \<longrightarrow> outside (phases s j)" using assms(1) by (simp add: system_inv_def)
  with assms(2,3) show ?thesis by metis
qed

lemma contents_between:
  assumes "system_inv W st0 n scripts h g s" and "\<forall>i. outside (phases s i)"
  shows "view (contents s) = after_history st0 h"
proof (cases g)
  case Free
  with assms(1) show ?thesis by (simp add: system_inv_def)
next
  case (Asking k w bs)
  then have "phases s k = (if bs = [] then Reading [] else Writing bs)" using assms(1) by (simp add: system_inv_def)
  with assms(2) have False by (metis outside_simps(3,4))
  then show ?thesis ..
next
  case (Answering k w t got)
  then have "phases s k = Reading got" using assms(1) by (simp add: system_inv_def)
  with assms(2) have False by (metis outside_simps(4))
  then show ?thesis ..
qed

text \<open>What the clients of a state were sent, for the history of the requests that were served.\<close>

lemma state_answers:
  assumes "system_inv W st0 n scripts h g s" and "i < n"
  shows "phases s i = Left \<Longrightarrow> scripts i = asked_by i h \<and>
      sent (servers s i) (out_fd (w_conn W i)) = serial_answers st0 h i @ farewell"
    and "phases s i \<noteq> Left \<Longrightarrow> (\<exists>ws. scripts i = asked_by i h @ ws) \<and>
      sent (servers s i) (out_fd (w_conn W i)) = serial_answers st0 h i"
proof -
  have at: "server_at W st0 scripts h s i" using assms by (simp add: system_inv_def)
  show "phases s i = Left \<Longrightarrow> scripts i = asked_by i h \<and>
      sent (servers s i) (out_fd (w_conn W i)) = serial_answers st0 h i @ farewell"
    using at by (simp add: server_at_def)
  show "phases s i \<noteq> Left \<Longrightarrow> (\<exists>ws. scripts i = asked_by i h @ ws) \<and>
      sent (servers s i) (out_fd (w_conn W i)) = serial_answers st0 h i"
    using at by (auto simp: server_at_def)
qed

lemma history_clients: "system_inv W st0 n scripts h g s \<Longrightarrow> \<forall>x \<in> set h. fst x < n"
  by (simp add: system_inv_def)

text \<open>The same from the start of the processes.\<close>

lemma serializable:
  assumes start: "w_ops W = ops" "w_db W = db" "site_ok W in_fd out_fd closable n" "usable (contents s0)"
    "scripts_ok (view (contents s0)) n scripts" "starts W in_fd out_fd n scripts s0" and run: "reachable W s0 s"
  shows "(\<forall>i j. \<not> outside (phases s i) \<and> \<not> outside (phases s j) \<longrightarrow> i = j) \<and>
    (\<exists>h. (\<forall>x \<in> set h. fst x < n) \<and>
      (\<forall>i < n. if phases s i = Left
        then scripts i = asked_by i h \<and>
          sent (servers s i) (out_fd (w_conn W i)) = serial_answers (view (contents s0)) h i @ farewell
        else (\<exists>ws. scripts i = asked_by i h @ ws) \<and>
          sent (servers s i) (out_fd (w_conn W i)) = serial_answers (view (contents s0)) h i) \<and>
      ((\<forall>i. outside (phases s i)) \<longrightarrow> view (contents s) = after_history (view (contents s0)) h))"
proof -
  have set: "setting W (view (contents s0)) n scripts" using start by (simp add: setting_def)
  obtain h g where inv: "system_inv W (view (contents s0)) n scripts h g s"
    using reachable_inv [OF run set inv_start [OF start(6,3,1,5,4)]] by blast
  have "\<forall>i j. \<not> outside (phases s i) \<and> \<not> outside (phases s j) \<longrightarrow> i = j" using one_inside [OF inv] by blast
  moreover have "\<forall>i < n. if phases s i = Left
        then scripts i = asked_by i h \<and>
          sent (servers s i) (out_fd (w_conn W i)) = serial_answers (view (contents s0)) h i @ farewell
        else (\<exists>ws. scripts i = asked_by i h @ ws) \<and>
          sent (servers s i) (out_fd (w_conn W i)) = serial_answers (view (contents s0)) h i"
    using state_answers [OF inv] by simp
  ultimately show ?thesis using history_clients [OF inv] contents_between [OF inv] by blast
qed

lemma ledger_kept:
  assumes start: "w_ops W = ops" "w_db W = db" "site_ok W in_fd out_fd closable n" "usable (contents s0)"
    "scripts_ok (view (contents s0)) n scripts" "starts W in_fd out_fd n scripts s0" and run: "reachable W s0 s"
    and out: "\<forall>i. outside (phases s i)"
  shows "\<exists>h. (\<forall>i < n. (\<exists>ws. scripts i = asked_by i h @ ws) \<and> sent (servers s i) (out_fd (w_conn W i)) =
        serial_answers (view (contents s0)) h i @ (if phases s i = Left then farewell else [])) \<and>
      map snd (st_orders (view (contents s))) = map snd (st_orders (view (contents s0))) @
        map (\<lambda>(j, s, a, t). (amount_of s, a, t)) (booked (view (contents s0)) h) \<and>
      (\<forall>i. stock_of (view (contents s)) i =
        map_option (\<lambda>q. q - sold (booked (view (contents s0)) h) i) (stock_of (view (contents s0)) i)) \<and>
      (\<forall>i q. stock_of (view (contents s)) i = Some q \<longrightarrow> 0 \<le> q)"
proof -
  have set: "setting W (view (contents s0)) n scripts" using start by (simp add: setting_def)
  obtain h g where inv: "system_inv W (view (contents s0)) n scripts h g s"
    using reachable_inv [OF run set inv_start [OF start(6,3,1,5,4)]] by blast
  have "ledger (view (contents s0)) h" using inv by (simp add: system_inv_def)
  then have "map snd (st_orders (view (contents s))) = map snd (st_orders (view (contents s0))) @
        map (\<lambda>(j, s, a, t). (amount_of s, a, t)) (booked (view (contents s0)) h) \<and>
      (\<forall>i. stock_of (view (contents s)) i =
        map_option (\<lambda>q. q - sold (booked (view (contents s0)) h) i) (stock_of (view (contents s0)) i))"
    unfolding contents_between [OF inv out] ledger_def .
  moreover have "(\<exists>ws. scripts i = asked_by i h @ ws) \<and> sent (servers s i) (out_fd (w_conn W i)) =
        serial_answers (view (contents s0)) h i @ (if phases s i = Left then farewell else [])" if "i < n" for i
    using state_answers [OF inv that] by (cases "phases s i = Left") auto
  moreover have "store_ok (view (contents s))" using view_ok inv by (simp add: system_inv_def)
  then have "0 \<le> q" if "stock_of (view (contents s)) i = Some q" for i q using stock_of_in_int [OF _ that] by blast
  ultimately show ?thesis by blast
qed

lemma run_from_start:
  assumes start: "w_ops W = ops" "w_db W = db" "site_ok W in_fd out_fd closable n" "usable (contents s0)"
    "scripts_ok (view (contents s0)) n scripts" "starts W in_fd out_fd n scripts s0" and run: "reachable W s0 s"
  shows "(\<exists>s'. system_step W s s') \<or> (\<forall>i. phases s i = Left)"
    and "\<not> (\<exists>f. f 0 = s \<and> (\<forall>k. system_step W (f k) (f (Suc k))))"
    and "\<exists>s'. reachable W s0 s' \<and> (\<forall>i. phases s' i = Left)"
proof -
  have set: "setting W (view (contents s0)) n scripts" using start by (simp add: setting_def)
  obtain h g where inv: "system_inv W (view (contents s0)) n scripts h g s"
    using reachable_inv [OF run set inv_start [OF start(6,3,1,5,4)]] by blast
  show "(\<exists>s'. system_step W s s') \<or> (\<forall>i. phases s i = Left)" using system_goes_on [OF set inv] .
  show "\<not> (\<exists>f. f 0 = s \<and> (\<forall>k. system_step W (f k) (f (Suc k))))"
    using run_ends [OF set, of h g _ 0] inv by blast
  show "\<exists>s'. reachable W s0 s' \<and> (\<forall>i. phases s' i = Left)" using run_finishes [OF set inv run] .
qed

end

interpretation shop_sockets: shop sock_comm sk_socketfd sk_socketfd sock_closable "frame (enc32 MESSAGE_CLOSE)"
  ref_db "\<lambda>st. st" store_ok
  by unfold_locales

interpretation shop_fifos: shop fifo_comm ff_inFD ff_outFD fifo_closable "[]" ref_db "\<lambda>st. st" store_ok
  by unfold_locales

end
