(* ===== verification/ConcurrentProps.thy ===== *)
theory ConcurrentProps
  imports Concurrent
begin

text \<open>
  What is shown of any number of forked servers that share the database server, over TCP sockets and any
  database that keeps the contract; and two shoppers who want more than there is.
\<close>

section \<open>Interleaved sessions\<close>




section \<open>Two shoppers\<close>

text \<open>Both want 40 pieces of a product of which there are 60. The pipes hold a single byte.\<close>

definition both_want :: order_spec where
  "both_want = shop_order ''Main 1'' [(1, 40)]"

definition two_scripts :: "nat \<Rightarrow> wish list" where
  "two_scripts i = [Buy both_want ''Main 1'']"

definition two_site :: "(sock_connection, store) site" where
  "two_site = \<lparr>w_ops = sock_comm, w_conn = (\<lambda>_. sample_conn), w_out = 6, w_in = 5, w_db = ref_db, w_dbIn = 7,
     w_dbOut = 8, w_cap = 1\<rparr>"

definition two_shoppers :: "store system" where
  "two_shoppers = \<lparr>shared = free_lock two_site, requests = [], replies = [],
     phases = (\<lambda>i. if i < 2 then Outside else Left),
     servers = (\<lambda>i. fresh_proc ((\<lambda>_. [])(3 := [Rd_data (concat (map wish_asks (two_scripts i)) @ frame (enc32 MESSAGE_CLOSE))]))),
     contents = start_store, dbProc = fresh_proc (\<lambda>_. []), dbGot = [], dbToSend = []\<rparr>"

lemma both_want_ok: "wish_ok start_store (Buy both_want ''Main 1'')" "satisfiable start_store (os_entries both_want)"
  "distinct (product_ids (os_entries both_want))"
proof -
  have s: "order_inv both_want" using shop_order_ok [OF main_address(1)] by (simp add: both_want_def order_inv_def product_ids_def)
  show sat: "satisfiable start_store (os_entries both_want)" by (simp add: both_want_def satisfiable_def in_stock_def start_stock)
  have "billable both_want" unfolding both_want_def by (intro exact_billable shop_order_exact) simp_all
  moreover have "order_address both_want ''Main 1''" unfolding both_want_def by (rule shop_order_address [OF main_address(1)])
  ultimately show "wish_ok start_store (Buy both_want ''Main 1'')"
    using s satisfiable_listed [OF sat] by (simp add: main_address)
  show "distinct (product_ids (os_entries both_want))" using s by (simp add: order_inv_def)
qed

lemma two_shoppers_start:
  "w_ops two_site = sock_comm" "w_db two_site = ref_db" "site_ok two_site sk_socketfd sk_socketfd sock_closable 2"
  "store_ok (contents two_shoppers)" "scripts_ok (contents two_shoppers) 2 two_scripts"
  "starts two_site sk_socketfd sk_socketfd 2 two_scripts two_shoppers"
proof -
  show "w_ops two_site = sock_comm" "w_db two_site = ref_db" by (simp_all add: two_site_def)
  show "site_ok two_site sk_socketfd sk_socketfd sock_closable 2"
    by (simp add: site_ok_def two_site_def sample_conn_def sock_closable_def)
  show "store_ok (contents two_shoppers)" using catalogue_ok by (simp add: two_shoppers_def)
  show "scripts_ok (contents two_shoppers) 2 two_scripts"
    using both_want_ok(1) by (simp add: scripts_ok_def two_scripts_def two_shoppers_def start_stock in_int_def del: wish_ok.simps)
  show "starts two_site sk_socketfd sk_socketfd 2 two_scripts two_shoppers"
    by (simp add: starts_def two_shoppers_def two_site_def sample_conn_def rd_avail_def healthy_def del: wish_asks.simps)
qed

text \<open>Whoever comes first gets the 40 pieces, and the other one does not.\<close>

lemma second_refused: "snd (serve_all start_store [Put both_want a t, Put both_want b u]) = placed both_want a t start_store"
proof -
  have stock: "stock_of (placed both_want a t start_store) 1 = Some 20"
    using placed_effect(3) [OF both_want_ok(3,2) catalogue_ok, of a t 1]
    by (simp add: both_want_def asked_def start_stock)
  have "\<not> satisfiable (placed both_want a t start_store) (os_entries both_want)"
    using stock by (simp add: both_want_def satisfiable_def in_stock_def)
  then show ?thesis using both_want_ok(2) by (simp add: split_beta Let_def)
qed

lemma two_history:
  assumes "\<forall>x \<in> set h. fst x < 2" and "\<forall>i < 2. two_scripts i = asked_by i h"
  shows "\<exists>i t j u. h = [(i, Put both_want ''Main 1'' t), (j, Put both_want ''Main 1'' u)]"
proof -
  have "length h = (\<Sum>i < 2. length (asked_by i h))" using history_length [OF assms(1)] .
  also have "\<dots> = 2" by (simp add: two_scripts_def numeral_2_eq_2 flip: assms(2))
  finally have "length h = 2" .
  then obtain i r j q where ij: "h = [(i, r), (j, q)]" by (auto simp: length_Suc_conv numeral_2_eq_2)
  have put: "\<exists>t. x = Put both_want ''Main 1'' t" if "(k, x) \<in> set h" for k x
  proof -
    have "unstamped x \<in> set (asked_by k h)" using that by (force simp: asked_by_def)
    moreover have "k < 2" using assms(1) that by force
    then have "asked_by k h = two_scripts k" using assms(2) by metis
    ultimately have "unstamped x = Buy both_want ''Main 1''" by (simp add: two_scripts_def)
    then show ?thesis by (cases x) auto
  qed
  from put [of i r] put [of j q] ij show ?thesis by auto
qed

lemma two_finish: "\<exists>s. reachable two_site two_shoppers s \<and> (\<forall>i. phases s i = Left)"
  using shop_sockets.run_from_start(3) [OF two_shoppers_start reachable.start] by blast




end
