(* ===== verification/Spec2Isabelle.thy ===== *)
theory Spec2Isabelle
  imports EndToEnd CommandLine MainServer ShellImportCmdProps ShellInfoProps ShellCloneProps ShellFilesProps ShellDumpProps ShellSettingsProps ShellMeta
    ShellMainProps ConcurrentProps
begin

text \<open>
  A verification library for a small shop: clients put orders together from the products a server offers,
  a main server forks one process per client, a database server keeps products and orders in SQLite, and a
  logging daemon prints what all of them report. The models are written in the order of the C code, one
  definition per function and one per loop; the theorems are about these definitions.

  \<^bold>\<open>The program.\<close> \<^verbatim>\<open>client/client.c\<close> talks to a \<^verbatim>\<open>server/forkedServer.c\<close> process over the interface of
  \<^verbatim>\<open>common/comm.h\<close>, which \<^verbatim>\<open>common/commWithSockets.c\<close> implements with TCP and \<^verbatim>\<open>common/commWithFIFOs.c\<close> with FIFOs.
  \<^verbatim>\<open>server/mainServer.c\<close> reads the configuration (\<^verbatim>\<open>common/config.c\<close>), starts the database server, accepts
  clients and forks. All forked servers share the two pipes of \<^verbatim>\<open>database/databaseServer.c\<close> under the lock of
  \<^verbatim>\<open>server/dbConn.c\<close>. Orders and products travel in the formats of \<^verbatim>\<open>common/order.c\<close> and
  \<^verbatim>\<open>common/product.c\<close>. \<^verbatim>\<open>database/dbCommandLine.c\<close> is a tool for the database file, and
  \<^verbatim>\<open>database/SQLite/shell.c\<close> is the command line of SQLite itself.

  \<^bold>\<open>Common theories.\<close> \<open>C_Prelude\<close>: faults, sequencing of fallible code, machine integers, heap blocks with
  bounds and initialisation, C strings. \<open>Process\<close>: the process state the system calls act on. \<open>Decimal\<close>,
  \<open>Float32\<close>, \<open>Regex\<close>: the parts of the C library the sources use. \<open>Codec\<close>: the contract between a value
  and its wire format. \<open>Comm\<close>: framing and the contract of the communication interface. \<open>SQLite_Codes\<close>: codes
  of \<^verbatim>\<open>sqlite3.h\<close>.

  \<^bold>\<open>Components.\<close> \<open>Lib\<close> models \<^verbatim>\<open>common/lib.c\<close>; \<open>Product\<close>, \<open>Order\<close> and \<open>Printing\<close> model
  \<^verbatim>\<open>common/product.c\<close> and \<^verbatim>\<open>common/order.c\<close>; \<open>Address\<close> and \<open>CommSockets\<close>, and \<open>CommFIFOs\<close>, the two
  transports, which \<open>Transport\<close> combines with the formats; \<open>ConfigFile\<close> and \<open>Config\<close> the configuration;
  \<open>Logging\<close> the logger and its daemon; \<open>DbConn\<close>, \<open>ForkedServer\<close> and \<open>MainServer\<close> the servers (\<^verbatim>\<open>database/dbConn.c\<close> is a copy of
  \<^verbatim>\<open>server/dbConn.c\<close> with another \<open>sh_conn_destroy\<close>); \<open>Database\<close>
  the database server; \<open>Interleaving\<close> the forked servers and the database server running at the same time, built from
  their rounds; \<open>Client\<close> both clients; \<open>CommandLine\<close> the query tool. Of \<^verbatim>\<open>shell.c\<close>, \<open>ShellText\<close>
  models quoting, escapes and numbers, \<open>ShellMeta\<close> the arguments of dot commands and small callbacks,
  \<open>ShellOutput\<close> the ten output modes, \<open>ShellImport\<close> the readers and the row loop of \<open>.import\<close>
  and \<open>ShellImportCmd\<close> the command around them, \<open>ShellInfo\<close> the commands that tell what is in a database,
  \<open>ShellClone\<close> the rescue of a corrupt one by \<open>.clone\<close>, \<open>ShellFiles\<close> output files, opening and backups,
  \<open>ShellInput\<close> the lines, \<open>ShellExec\<close> running statements, \<open>ShellDump\<close> the command \<open>.dump\<close>,
  \<open>ShellSettings\<close> the commands that set and show how results look, \<open>ShellProcess\<close> the input loop, and \<open>ShellMain\<close> the program with its
  options.

  \<^bold>\<open>Interfaces.\<close> The locales state what one component promises another: \<open>wire_codec\<close> and
  \<open>object_channel\<close> (formats, and values sent over a connection), \<open>channel\<close> and \<open>closable_channel\<close> (the contract of
  \<^verbatim>\<open>comm.h\<close>, interpreted for sockets and FIFOs), \<open>shared_lock\<close> (the lock of the shared connection), \<open>sql_store\<close> and
  \<open>sql_server\<close> (what the database server relies on of SQLite), interpreted for the engine of \<open>RefStore\<close>,
  \<open>shop\<close> (a transport and a database, under which the processes are interleaved; interpreted for both transports), and
  \<open>field_reader\<close> (the readers of \<open>.import\<close>), interpreted for the CSV and the ASCII reader.

  \<^bold>\<open>What is shown.\<close> Formats and transports: round trips, framing, sessions over both transports
  (\<open>Product\<close>, \<open>Order\<close>, \<open>CommSockets\<close>, \<open>CommFIFOs\<close>, \<open>Transport\<close>). The client: \<open>Shopping\<close> and \<open>Menu\<close>
  show that menu and order stay in step on any input, \<open>Submitting\<close> and \<open>ClientRuns\<close> follow its messages, the
  statements are in \<open>ClientProps\<close>. The forked server: the sessions of \<open>ForkedServer\<close>, and the lock it leaves
  behind after an error. Several forked servers at once: \<open>Waiting\<close> and \<open>ServerEvents\<close> show when a round waits, what
  it writes first and when it ends, \<open>InterleavingProps\<close> has the invariant of the interleaved system and that
  every step keeps it and lowers a rank, \<open>Concurrent\<close> that somebody can always go on, and \<open>ConcurrentProps\<close>
  concludes that the sessions are serializable and end. The database server: \<open>Store\<close> gives the abstract contents, \<open>Placing\<close>,
  \<open>Recording\<close>, \<open>Serving\<close> and \<open>DatabaseRuns\<close> refine an abstract machine by it, \<open>DatabaseProps\<close> has the
  statements. Configuration: the automaton refines a line-by-line specification. The shell: the quoting loops
  against definitions character by character (\<open>ShellTextProps\<close>), exact blocks (\<open>ShellOutputProps\<close>), lines
  (\<open>ShellInputProps\<close>), the CSV round trip and the end of \<open>.import\<close> (\<open>ShellImportProps\<close>, \<open>ShellTable\<close>), from a
  query to a file and back (\<open>ShellQuery\<close>), into a new table, too (\<open>ShellImportCmdProps\<close>), the columns of \<open>.tables\<close> (\<open>ShellInfoProps\<close>), the rows \<open>.clone\<close> rescues
  (\<open>ShellCloneProps\<close>), the streams through any commands (\<open>ShellFilesProps\<close>), the script of \<open>.dump\<close> (\<open>ShellDumpProps\<close>, with a reader of SQL
  tokens that undoes the quotes of the generated statements), the mode through every sequence of settings
  (\<open>ShellSettingsProps\<close>), arguments (\<open>ShellMeta\<close>), scripts run
  statement by statement (\<open>ShellProcessProps\<close>), and what the program makes of its arguments (\<open>ShellMainProps\<close>). \<open>EndToEnd\<close> and this theory compose client, forked server and
  database server into one purchase.

  \<^bold>\<open>Faults and loops.\<close> A computation returns a value or a fault: a null, dangling or uninitialised pointer,
  an access outside a block, a signed overflow, or never returning. A theorem that gives a value therefore
  also says that none of this happens. Loops over data end by a measure. Loops over input from outside, such as
  \<open>ensureRead_loop\<close>, \<open>db_loop\<close> and \<open>getline_loop\<close>, are partial functions, and returning is part of what is
  shown. The input loops of the shell take fuel: one more than the characters of the file suffices for
  \<open>import_command\<close> and \<open>process_loop\<close> (\<open>import_command_returns\<close>, \<open>process_input_returns\<close>); the loops over the rows
  of a statement, in \<open>.tables\<close> and \<open>.clone\<close>, need one more than the rows, and those of \<open>.restore\<close> one more than the steps.

  \<^bold>\<open>Parameters.\<close> The SQLite engine is not in the repository; it is a record of operations in \<open>Database\<close> and
  in \<open>ShellExec\<close>. What the peer of a descriptor does, the answers of system calls, and the bytes behind a
  block of the allocator are data of the state. Allocations below \<open>PTRDIFF_MAX\<close> succeed.

  \<^bold>\<open>Not modelled.\<close> Of \<^verbatim>\<open>shell.c\<close>, \<open>.fullschema\<close>, \<open>.binary\<close>, the dot commands for help, versions, extensions, tests and the file system layer, the
  printers of statistics and the code for Windows are left out; most of them only print what the library answers.
  The dispatch to the dot commands is not modelled: each command is a definition of its own, over the part of the state it
  touches, and the input loop and \<open>main\<close> take all of them together, the printers and the opening of the database as
  arguments. \<^verbatim>\<open>sqlite3.h\<close> and \<^verbatim>\<open>sqlite3ext.h\<close> only declare the engine.
\<close>

section \<open>A purchase, from the keyboard to the tables\<close>


lemma sample_shopping:
  "script_ok (catalogue_specs start_store) empty_order [Add 0 3, View, Add 3 2]"
  "os_entries (acts (catalogue_specs start_store) [Add 0 3, View, Add 3 2] empty_order) =
     [\<lparr>oe_product_id = 1, oe_quantity = 3, oe_price = 0x41F40000\<rparr>, \<lparr>oe_product_id = 4, oe_quantity = 2, oe_price = 0x41C80000\<rparr>]"
  by (simp_all add: catalogue_specs_def start_stock catalogue_def spec_of_row_def catalogue_prices remaining_def
      quantity_of_def taken_def order_add_def empty_order_def product_ids_def ORDER_MAX_SIZE_def)


end
